(* ===== verification/Prelude.thy ===== *)
theory Prelude
  imports Main "HOL-Library.Word" "HOL-Library.AList" "HOL-Library.List_Lexorder"
    "HOL-Library.Char_ord"
begin

text \<open>
  Shared vocabulary of the development: machine integers, results, the part of
  Rust's \<open>str\<close> and \<open>HashMap\<close> interfaces that the gateway uses, and the lemma
  collections the component theories draw on.

  A Rust \<open>String\<close> is its UTF-8 byte sequence, one \<^typ>\<open>char\<close> per byte, so that
  \<open>len\<close> is \<^const>\<open>length\<close> and the byte-wise order of \<open>Ord for str\<close> is the
  lexicographic order of \<^typ>\<open>string\<close>. A \<open>Result<T, E>\<close> is a value of \<open>E + T\<close> with
  \<^const>\<open>Inl\<close> for \<open>Err\<close>. A \<open>HashMap\<close> that the code iterates over is an association
  list with distinct keys, one that it only looks up is a partial function.
\<close>

named_theorems rust_simps \<open>equations of the modelled parts of the Rust standard library\<close>
named_theorems wf_intros \<open>introduction rules for the well-formedness invariants\<close>
named_theorems frame_simps \<open>fields an operation leaves alone\<close>

type_synonym u8 = "8 word"
type_synonym u16 = "16 word"
type_synonym u32 = "32 word"
type_synonym u64 = "64 word"
type_synonym duration = nat \<comment> \<open>nanoseconds\<close>
type_synonym instant = nat  \<comment> \<open>nanoseconds on the monotonic clock\<close>
type_synonym datetime = int \<comment> \<open>nanoseconds since the Unix epoch, UTC\<close>

section \<open>Results\<close>

definition ok_or :: "'e \<Rightarrow> 'a option \<Rightarrow> 'e + 'a" where
  "ok_or e x = (case x of None \<Rightarrow> Inl e | Some v \<Rightarrow> Inr v)"

definition and_then :: "'e + 'a \<Rightarrow> ('a \<Rightarrow> 'e + 'b) \<Rightarrow> 'e + 'b" where
  "and_then r f = (case r of Inl e \<Rightarrow> Inl e | Inr v \<Rightarrow> f v)"

definition map_err :: "('e \<Rightarrow> 'f) \<Rightarrow> 'e + 'a \<Rightarrow> 'f + 'a" where
  "map_err g r = (case r of Inl e \<Rightarrow> Inl (g e) | Inr v \<Rightarrow> Inr v)"

lemma ok_or_simps [simp]: "ok_or e None = Inl e" "ok_or e (Some v) = Inr v"
  by (simp_all add: ok_or_def)

lemma ok_or_Inr_iff [simp]: "ok_or e x = Inr v \<longleftrightarrow> x = Some v"
  by (cases x) auto

lemma and_then_simps [simp]: "and_then (Inl e) f = Inl e" "and_then (Inr v) f = f v"
  by (simp_all add: and_then_def)

lemma and_then_Inr_iff: "and_then r f = Inr w \<longleftrightarrow> (\<exists>v. r = Inr v \<and> f v = Inr w)"
  by (cases r) auto

lemma map_err_simps [simp]: "map_err g (Inl e) = Inl (g e)" "map_err g (Inr v) = Inr v"
  by (simp_all add: map_err_def)

lemma map_err_Inr_iff [simp]: "map_err g r = Inr v \<longleftrightarrow> r = Inr v"
  by (cases r) auto

text \<open>\<open>iter().map(f).collect::<Result<Vec<_>, _>>()\<close>: the first error wins.\<close>

fun try_map :: "('a \<Rightarrow> 'e + 'b) \<Rightarrow> 'a list \<Rightarrow> 'e + 'b list" where
  "try_map f [] = Inr []"
| "try_map f (x # xs) = and_then (f x) (\<lambda>y. and_then (try_map f xs) (\<lambda>ys. Inr (y # ys)))"

lemma try_map_Inr_iff:
  "try_map f xs = Inr ys \<longleftrightarrow> list_all2 (\<lambda>x y. f x = Inr y) xs ys"
proof (induction xs arbitrary: ys)
  case (Cons x xs)
  then show ?case
    by (cases ys) (auto simp: and_then_Inr_iff)
qed auto

text \<open>\<open>for x in xs { if f(x)? { keep x } }\<close>: a filter whose test may fail.\<close>

fun try_filter :: "('a \<Rightarrow> 'e + bool) \<Rightarrow> 'a list \<Rightarrow> 'e + 'a list" where
  "try_filter f [] = Inr []"
| "try_filter f (x # xs) =
     and_then (f x) (\<lambda>b. and_then (try_filter f xs) (\<lambda>ys. Inr (if b then x # ys else ys)))"

lemma try_filter_Inr_iff:
  "try_filter f xs = Inr ys \<longleftrightarrow>
     (\<forall>x \<in> set xs. \<exists>b. f x = Inr b) \<and> ys = filter (\<lambda>x. f x = Inr True) xs"
proof (induction xs arbitrary: ys)
  case (Cons x xs)
  then show ?case
    by (cases "f x") (auto simp: and_then_Inr_iff)
qed auto

section \<open>Strings\<close>

fun strip_prefix :: "'a list \<Rightarrow> 'a list \<Rightarrow> 'a list option" where
  "strip_prefix [] s = Some s"
| "strip_prefix (p # ps) [] = None"
| "strip_prefix (p # ps) (c # cs) = (if p = c then strip_prefix ps cs else None)"

lemma strip_prefix_Some_iff: "strip_prefix p s = Some r \<longleftrightarrow> s = p @ r"
  by (induction p s rule: strip_prefix.induct) auto

lemma strip_prefix_append [simp]: "strip_prefix p (p @ r) = Some r"
  by (simp add: strip_prefix_Some_iff)

lemma strip_prefix_None_iff: "strip_prefix p s = None \<longleftrightarrow> (\<forall>r. s \<noteq> p @ r)"
  by (metis option.exhaust option.simps(3) strip_prefix_Some_iff)

lemma strip_prefix_length: "strip_prefix p s = Some r \<Longrightarrow> length s = length p + length r"
  by (simp add: strip_prefix_Some_iff)

definition starts_with :: "'a list \<Rightarrow> 'a list \<Rightarrow> bool" where
  "starts_with s p = (strip_prefix p s \<noteq> None)"

lemma starts_with_iff: "starts_with s p \<longleftrightarrow> (\<exists>r. s = p @ r)"
  unfolding starts_with_def by (auto simp: strip_prefix_None_iff)

definition strip_suffix :: "'a list \<Rightarrow> 'a list \<Rightarrow> 'a list option" where
  "strip_suffix p s = map_option rev (strip_prefix (rev p) (rev s))"

lemma strip_suffix_Some_iff: "strip_suffix p s = Some r \<longleftrightarrow> s = r @ p"
  unfolding strip_suffix_def
  by (auto simp: strip_prefix_Some_iff) (metis rev_append rev_rev_ident)

definition ends_with :: "'a list \<Rightarrow> 'a list \<Rightarrow> bool" where
  "ends_with s p = (strip_suffix p s \<noteq> None)"

lemma ends_with_iff: "ends_with s p \<longleftrightarrow> (\<exists>r. s = r @ p)"
  unfolding ends_with_def using strip_suffix_Some_iff [of p s] by fastforce

text \<open>\<open>str::contains\<close>.\<close>

fun contains_str :: "'a list \<Rightarrow> 'a list \<Rightarrow> bool" where
  "contains_str [] n = (n = [])"
| "contains_str (c # cs) n = (starts_with (c # cs) n \<or> contains_str cs n)"

lemma contains_str_iff: "contains_str s n \<longleftrightarrow> (\<exists>a b. s = a @ n @ b)"
proof (induction s)
  case (Cons c cs)
  have "(\<exists>a b. c # cs = a @ n @ b) \<longleftrightarrow> (\<exists>b. c # cs = n @ b) \<or> (\<exists>a b. cs = a @ n @ b)"
    by (metis append_Cons append_Nil list.exhaust list.inject)
  with Cons show ?case by (simp add: starts_with_iff)
qed auto

text \<open>\<open>str::split(sep)\<close> for a non-empty separator: leftmost, non-overlapping matches.\<close>

function split_on :: "string \<Rightarrow> string \<Rightarrow> string list" where
  "split_on sep [] = [[]]"
| "split_on sep (c # cs) =
     (if sep \<noteq> [] \<and> take (length sep) (c # cs) = sep
      then [] # split_on sep (drop (length sep) (c # cs))
      else (case split_on sep cs of [] \<Rightarrow> [[c]] | h # t \<Rightarrow> (c # h) # t))"
  by pat_completeness auto
termination
proof (relation "measure (\<lambda>(sep, s). length s)", goal_cases)
  case (2 sep c cs)
  then have "0 < length sep" by simp
  then show ?case by simp
qed auto

lemma split_on_not_Nil [simp]: "split_on sep s \<noteq> []"
  by (induction sep s rule: split_on.induct) (auto split: list.splits)

text \<open>\<open>str::replace(from, to)\<close> for a single-character pattern.\<close>

definition replace_char :: "char \<Rightarrow> string \<Rightarrow> string \<Rightarrow> string" where
  "replace_char f t s = concat (map (\<lambda>c. if c = f then t else [c]) s)"

text \<open>\<open>str::replace(from, to)\<close> for a non-empty string pattern.\<close>

fun join_with :: "string \<Rightarrow> string list \<Rightarrow> string" where
  "join_with sep [] = []"
| "join_with sep [x] = x"
| "join_with sep (x # y # ys) = x @ sep @ join_with sep (y # ys)"

definition replace_str :: "string \<Rightarrow> string \<Rightarrow> string \<Rightarrow> string" where
  "replace_str f t s = join_with t (split_on f s)"

text \<open>
  \<open>str::trim\<close>: strip the UTF-8 encodings of the \<open>White_Space\<close> code points at both ends.
\<close>

definition white_space :: "string list" where
  "white_space =
     map (\<lambda>n. [char_of n]) [9, 10, 11, 12, 13, 32 :: nat] @
     map (map char_of)
       ([[194, 133], [194, 160], [225, 154, 128],
         [226, 128, 168], [226, 128, 169], [226, 128, 175], [226, 129, 159],
         [227, 128, 128 :: nat]] @
        map (\<lambda>n. [226, 128, n]) [128 ..< 139])"

definition strip_any :: "string list \<Rightarrow> string \<Rightarrow> string option" where
  "strip_any ps s =
     (case filter (\<lambda>p. p \<noteq> [] \<and> starts_with s p) ps of [] \<Rightarrow> None | p # _ \<Rightarrow> strip_prefix p s)"

lemma strip_any_length [termination_simp]: "strip_any ps s = Some r \<Longrightarrow> length r < length s"
proof -
  assume "strip_any ps s = Some r"
  then obtain p q where p: "filter (\<lambda>p. p \<noteq> [] \<and> starts_with s p) ps = p # q"
      "strip_prefix p s = Some r"
    by (auto simp: strip_any_def split: list.splits)
  from p(1) have "p \<in> set (filter (\<lambda>p. p \<noteq> [] \<and> starts_with s p) ps)" by simp
  then have "p \<noteq> []" by simp
  with strip_prefix_length [OF p(2)] show ?thesis by (cases p) auto
qed

fun trim_start_with :: "string list \<Rightarrow> string \<Rightarrow> string" where
  "trim_start_with ps s = (case strip_any ps s of None \<Rightarrow> s | Some r \<Rightarrow> trim_start_with ps r)"

declare trim_start_with.simps [simp del]

definition trim :: "string \<Rightarrow> string" where
  "trim s = rev (trim_start_with (map rev white_space) (rev (trim_start_with white_space s)))"

lemma trim_start_with_fix: "strip_any ps s = None \<Longrightarrow> trim_start_with ps s = s"
  by (subst trim_start_with.simps) simp

lemma strip_any_None_if:
  assumes "\<forall>p \<in> set ps. p = [] \<or> (case s of [] \<Rightarrow> True | c # _ \<Rightarrow> hd p \<noteq> c)"
  shows "strip_any ps s = None"
proof -
  have "\<not> (p \<noteq> [] \<and> starts_with s p)" if "p \<in> set ps" for p
    using assms [rule_format, OF that] by (cases s; cases p) (auto simp: starts_with_def)
  then show ?thesis unfolding strip_any_def by (auto simp: filter_empty_conv split: list.splits)
qed

text \<open>\<open>str::split_once\<close> on an ASCII character.\<close>

definition split_once :: "'a \<Rightarrow> 'a list \<Rightarrow> ('a list \<times> 'a list) option" where
  "split_once c s =
     (case dropWhile (\<lambda>x. x \<noteq> c) s of [] \<Rightarrow> None | _ # r \<Rightarrow> Some (takeWhile (\<lambda>x. x \<noteq> c) s, r))"

lemma split_once_Some_iff: "split_once c s = Some (a, b) \<longleftrightarrow> s = a @ c # b \<and> c \<notin> set a"
proof
  assume "split_once c s = Some (a, b)"
  then obtain x where d: "dropWhile (\<lambda>x. x \<noteq> c) s = x # b" and a: "a = takeWhile (\<lambda>x. x \<noteq> c) s"
    by (auto simp: split_once_def split: list.splits)
  from d have "x = c" using hd_dropWhile [of "\<lambda>x. x \<noteq> c" s] by auto
  with a d show "s = a @ c # b \<and> c \<notin> set a"
    by (metis (mono_tags, lifting) set_takeWhileD takeWhile_dropWhile_id)
next
  assume r: "s = a @ c # b \<and> c \<notin> set a"
  then have "dropWhile (\<lambda>x. x \<noteq> c) s = c # b" "takeWhile (\<lambda>x. x \<noteq> c) s = a"
    by (auto simp: dropWhile_append3 dropWhile_append takeWhile_append)
  then show "split_once c s = Some (a, b)" by (simp add: split_once_def)
qed

text \<open>\<open>str::trim_end_matches\<close> of one character.\<close>

definition trim_end_char :: "'a \<Rightarrow> 'a list \<Rightarrow> 'a list" where
  "trim_end_char c s = rev (dropWhile (\<lambda>x. x = c) (rev s))"

text \<open>\<open>to_ascii_lowercase\<close>, byte by byte.\<close>

definition ascii_lower :: "char \<Rightarrow> char" where
  "ascii_lower c =
     (let n = (of_char c :: nat) in if 65 \<le> n \<and> n \<le> 90 then char_of (n + 32) else c)"

definition is_ascii_alphanumeric :: "char \<Rightarrow> bool" where
  "is_ascii_alphanumeric c =
     (let n = (of_char c :: nat)
      in 48 \<le> n \<and> n \<le> 57 \<or> 65 \<le> n \<and> n \<le> 90 \<or> 97 \<le> n \<and> n \<le> 122)"

text \<open>Decimal rendering (\<open>Display\<close> of the unsigned integers).\<close>

fun dec :: "nat \<Rightarrow> string" where
  "dec n = (if n < 10 then [char_of (48 + n)] else dec (n div 10) @ [char_of (48 + n mod 10)])"

declare dec.simps [simp del]

lemma dec_not_Nil [simp]: "dec n \<noteq> []"
  by (subst dec.simps) simp

lemma digit_char_inject:
  "a < 10 \<Longrightarrow> b < 10 \<Longrightarrow> (char_of (48 + a) = (char_of (48 + b) :: char)) \<longleftrightarrow> a = (b :: nat)"
proof -
  assume "a < 10" "b < 10"
  then have "of_char (char_of (48 + a) :: char) = 48 + a" "of_char (char_of (48 + b) :: char) = 48 + b"
    by (simp_all add: of_char_of)
  then show ?thesis by (metis add_left_cancel)
qed

lemma dec_inject: "dec m = dec n \<Longrightarrow> m = n"
proof (induction m arbitrary: n rule: dec.induct)
  case (1 m)
  show ?case
  proof (cases "m < 10 \<or> n < 10")
    case True
    with "1.prems" show ?thesis
      by (subst (asm) dec.simps, subst (asm) dec.simps [of n])
        (auto simp: digit_char_inject dec_not_Nil [symmetric] split: if_splits)
  next
    case False
    with "1.prems" have e: "dec (m div 10) = dec (n div 10)" "m mod 10 = n mod 10"
      by (simp_all add: dec.simps [of m] dec.simps [of n] digit_char_inject)
    with "1.IH" False have "m div 10 = n div 10" by simp
    with e(2) show ?thesis by (metis div_mult_mod_eq)
  qed
qed

text \<open>
  \<open>&s[a..b]\<close> panics off a character boundary, which in valid UTF-8 is a byte that is not a
  continuation byte; \<^const>\<open>None\<close> is the panic.
\<close>

definition is_continuation :: "char \<Rightarrow> bool" where
  "is_continuation c = (let n = (of_char c :: nat) in 128 \<le> n \<and> n < 192)"

definition is_char_boundary :: "string \<Rightarrow> nat \<Rightarrow> bool" where
  "is_char_boundary s i =
     (i = 0 \<or> (if i < length s then \<not> is_continuation (s ! i) else i = length s))"

section \<open>Slices and iterators\<close>

definition nth_opt :: "'a list \<Rightarrow> nat \<Rightarrow> 'a option" where
  "nth_opt xs i = (if i < length xs then Some (xs ! i) else None)"

text \<open>\<open>Iterator::min_by_key\<close>: the first of the minimal elements.\<close>

fun min_by_key :: "('a \<Rightarrow> 'b::linorder) \<Rightarrow> 'a list \<Rightarrow> 'a option" where
  "min_by_key f [] = None"
| "min_by_key f (x # xs) =
     (case min_by_key f xs of None \<Rightarrow> Some x | Some y \<Rightarrow> Some (if f x \<le> f y then x else y))"

lemma min_by_key_Some:
  "min_by_key f xs = Some x \<Longrightarrow> x \<in> set xs \<and> (\<forall>y \<in> set xs. f x \<le> f y)"
proof (induction xs arbitrary: x)
  case (Cons a xs)
  show ?case
  proof (cases "min_by_key f xs")
    case None
    then have "xs = []" by (cases xs) (auto split: option.splits)
    with Cons.prems show ?thesis by simp
  next
    case (Some y)
    with Cons.IH have "y \<in> set xs" "\<forall>z \<in> set xs. f y \<le> f z" by auto
    with Cons.prems Some show ?thesis by (auto split: if_splits intro: order_trans)
  qed
qed simp

lemma min_by_key_None [simp]: "min_by_key f xs = None \<longleftrightarrow> xs = []"
  by (cases xs) (auto split: option.splits)

lemma min_by_key_ex: "xs \<noteq> [] \<Longrightarrow> \<exists>x. min_by_key f xs = Some x"
  by (cases "min_by_key f xs") simp_all

lemma nth_opt_Some: "nth_opt xs i = Some x \<Longrightarrow> x \<in> set xs"
  by (auto simp: nth_opt_def split: if_splits)

section \<open>Hash maps\<close>

type_synonym ('k, 'v) hashmap = "('k \<times> 'v) list"

definition hm_wf :: "('k, 'v) hashmap \<Rightarrow> bool" where
  "hm_wf m = distinct (map fst m)"

definition hm_retain :: "('k \<Rightarrow> 'v \<Rightarrow> bool) \<Rightarrow> ('k, 'v) hashmap \<Rightarrow> ('k, 'v) hashmap" where
  "hm_retain P m = filter (\<lambda>(k, v). P k v) m"

definition hm_modify :: "'k \<Rightarrow> ('v \<Rightarrow> 'v) \<Rightarrow> ('k, 'v) hashmap \<Rightarrow> ('k, 'v) hashmap" where
  "hm_modify k f m = map (\<lambda>(k', v). (k', if k' = k then f v else v)) m"

definition hm_map :: "('v \<Rightarrow> 'v) \<Rightarrow> ('k, 'v) hashmap \<Rightarrow> ('k, 'v) hashmap" where
  "hm_map f m = map (\<lambda>(k, v). (k, f v)) m"

lemma hm_wf_empty [simp]: "hm_wf []"
  by (simp add: hm_wf_def)

lemma hm_wf_update [simp]: "hm_wf m \<Longrightarrow> hm_wf (AList.update k v m)"
  by (simp add: hm_wf_def distinct_update)

lemma hm_wf_delete [simp]: "hm_wf m \<Longrightarrow> hm_wf (AList.delete k m)"
  by (simp add: hm_wf_def distinct_delete)

lemma hm_wf_retain [simp]: "hm_wf m \<Longrightarrow> hm_wf (hm_retain P m)"
  by (simp add: hm_wf_def hm_retain_def distinct_map_filter)

lemma fst_hm_modify [simp]: "map fst (hm_modify k f m) = map fst m"
  by (auto simp: hm_modify_def)

lemma fst_hm_map [simp]: "map fst (hm_map f m) = map fst m"
  by (auto simp: hm_map_def)

lemma hm_wf_modify [simp]: "hm_wf (hm_modify k f m) = hm_wf m"
  by (simp add: hm_wf_def)

lemma hm_wf_map [simp]: "hm_wf (hm_map f m) = hm_wf m"
  by (simp add: hm_wf_def)

lemma length_hm_modify [simp]: "length (hm_modify k f m) = length m"
  by (simp add: hm_modify_def)

lemma length_hm_map [simp]: "length (hm_map f m) = length m"
  by (simp add: hm_map_def)

lemma hm_get_modify [simp]:
  "map_of (hm_modify k f m) = (\<lambda>k'. if k' = k then map_option f (map_of m k) else map_of m k')"
  by (rule ext, induction m) (auto simp: hm_modify_def)

lemma hm_get_map [simp]: "map_of (hm_map f m) k = map_option f (map_of m k)"
  by (induction m) (auto simp: hm_map_def)

lemma hm_get_retain:
  "hm_wf m \<Longrightarrow> map_of (hm_retain P m) k =
     (case map_of m k of None \<Rightarrow> None | Some v \<Rightarrow> if P k v then Some v else None)"
  by (induction m) (auto simp: hm_retain_def hm_wf_def map_of_eq_None_iff image_iff
      split: option.splits)

lemma hm_get_update [simp]: "map_of (AList.update k v m) = (map_of m)(k \<mapsto> v)"
  by (rule update_conv')

lemma hm_get_delete [simp]: "map_of (AList.delete k m) = (map_of m)(k := None)"
  by (rule delete_conv')

lemma hm_wf_get: "hm_wf m \<Longrightarrow> (k, v) \<in> set m \<longleftrightarrow> map_of m k = Some v"
  by (auto simp: hm_wf_def dest: map_of_SomeD)

section \<open>Searching lists\<close>

lemma find_distinct:
  "distinct (map f xs) \<Longrightarrow> x \<in> set xs \<Longrightarrow> find (\<lambda>y. f y = f x) xs = Some x"
  by (induction xs) (auto simp: image_iff)

end
