(* ===== verification/Json.thy ===== *)
theory Json
  imports Prelude
begin

text \<open>
  The data of \<open>serde_json::Value\<close> and the accessors the gateway calls on it. An object is
  the list of its entries in iteration order; \<open>Number\<close> keeps serde's three forms, and a
  floating-point number is opaque, since no modelled code reads its value.
\<close>

datatype json =
    JNull
  | JBool bool
  | JPosInt u64
  | JNegInt int
  | JFloat string
  | JString string
  | JArray "json list"
  | JObject "(string \<times> json) list"

definition as_object :: "json \<Rightarrow> (string \<times> json) list option" where
  "as_object v = (case v of JObject m \<Rightarrow> Some m | _ \<Rightarrow> None)"

definition as_bool :: "json \<Rightarrow> bool option" where
  "as_bool v = (case v of JBool b \<Rightarrow> Some b | _ \<Rightarrow> None)"

definition as_str :: "json \<Rightarrow> string option" where
  "as_str v = (case v of JString s \<Rightarrow> Some s | _ \<Rightarrow> None)"

definition as_u64 :: "json \<Rightarrow> u64 option" where
  "as_u64 v = (case v of JPosInt n \<Rightarrow> Some n | _ \<Rightarrow> None)"

definition json_get :: "json \<Rightarrow> string \<Rightarrow> json option" where
  "json_get v k = (case v of JObject m \<Rightarrow> map_of m k | _ \<Rightarrow> None)"

lemma json_get_object [simp]: "json_get (JObject m) k = map_of m k"
  by (simp add: json_get_def)

end
