(* ===== verification/Naming.thy ===== *)
theory Naming
  imports Prelude
begin

text \<open>
  Tool names (\<open>src/naming.rs\<close>): the three segments of a wire name, their
  normalisation, the wire form \<open>domain__provider__tool\<close> and its parser. The lemmas show
  that every constructed name is well formed and within its length budget, that
  normalisation is idempotent, and for which names parsing inverts printing.
\<close>

definition MAX_WIRE_NAME_LEN :: nat where
  "MAX_WIRE_NAME_LEN = 64"

record tool_name =
  tn_domain :: string
  tn_provider :: string
  tn_tool :: string

datatype tool_name_error =
    InvalidShape string
  | EmptySegment
  | InvalidSegment string
  | Overlong string

definition segment_char :: "char \<Rightarrow> bool" where
  "segment_char c = (is_ascii_alphanumeric c \<or> c = CHR ''-'' \<or> c = CHR ''_'')"

definition normalize_segment :: "string \<Rightarrow> tool_name_error + string" where
  "normalize_segment value =
     (let trimmed = replace_char (CHR '' '') ''-'' (map ascii_lower (trim value))
      in if trimmed = [] then Inl EmptySegment
         else if \<not> list_all segment_char trimmed then Inl (InvalidSegment trimmed)
         else Inr trimmed)"

definition to_wire_name :: "tool_name \<Rightarrow> string" where
  "to_wire_name n = tn_domain n @ ''__'' @ tn_provider n @ ''__'' @ tn_tool n"

definition tool_name_new :: "string \<Rightarrow> string \<Rightarrow> string \<Rightarrow> tool_name_error + tool_name" where
  "tool_name_new domain provider tool =
     and_then (normalize_segment domain) (\<lambda>d.
     and_then (normalize_segment provider) (\<lambda>p.
     and_then (normalize_segment tool) (\<lambda>t.
       (let name = \<lparr>tn_domain = d, tn_provider = p, tn_tool = t\<rparr>; wire = to_wire_name name
        in if length wire > MAX_WIRE_NAME_LEN then Inl (Overlong wire) else Inr name))))"

definition tool_name_from_str :: "string \<Rightarrow> tool_name_error + tool_name" where
  "tool_name_from_str value =
     (case split_on ''__'' value of
        [a, b, c] \<Rightarrow> tool_name_new a b c
      | _ \<Rightarrow> Inl (InvalidShape value))"

definition scope_match_name :: "string \<Rightarrow> string \<Rightarrow> string \<Rightarrow> tool_name_error + string" where
  "scope_match_name domain provider name =
     (if name = [] then Inl EmptySegment
      else and_then (normalize_segment domain) (\<lambda>d.
           and_then (normalize_segment provider) (\<lambda>p.
             Inr (d @ ''__'' @ p @ ''__'' @ name))))"

definition tool_name_error_msg :: "tool_name_error \<Rightarrow> string" where
  "tool_name_error_msg e =
     (case e of
        InvalidShape s \<Rightarrow> ''tool name must be domain__provider__tool, got '' @ s
      | EmptySegment \<Rightarrow> ''tool name segment cannot be empty''
      | InvalidSegment s \<Rightarrow> ''tool name segment contains unsupported characters: '' @ s
      | Overlong s \<Rightarrow> ''tool name exceeds '' @ dec MAX_WIRE_NAME_LEN @ '' characters: '' @ s)"

section \<open>Well-formed names\<close>

text \<open>Lower-case letters, digits, hyphen and underscore: what a stored segment holds.\<close>

definition stored_char :: "char \<Rightarrow> bool" where
  "stored_char c = (segment_char c \<and> ascii_lower c = c)"

definition wf_segment :: "string \<Rightarrow> bool" where
  "wf_segment s = (s \<noteq> [] \<and> list_all stored_char s)"

definition wf_tool_name :: "tool_name \<Rightarrow> bool" where
  "wf_tool_name n =
     (wf_segment (tn_domain n) \<and> wf_segment (tn_provider n) \<and> wf_segment (tn_tool n) \<and>
      length (to_wire_name n) \<le> MAX_WIRE_NAME_LEN)"

lemma ascii_lower_idem [simp]: "ascii_lower (ascii_lower c) = ascii_lower c"
  by (simp add: ascii_lower_def Let_def of_char_of)

lemma ascii_lower_dash: "ascii_lower (CHR ''-'') = CHR ''-''"
  by (simp add: ascii_lower_def)

lemma replace_char_id: "f \<notin> set s \<Longrightarrow> replace_char f t s = s"
  by (induction s) (auto simp: replace_char_def)

lemma stored_char_range:
  "stored_char c \<Longrightarrow> (let n = of_char c :: nat in n = 45 \<or> 48 \<le> n \<and> n \<le> 122)"
  by (auto simp: stored_char_def segment_char_def is_ascii_alphanumeric_def Let_def)

lemma stored_char_not_white:
  assumes "stored_char c"
  shows "\<forall>p \<in> set white_space. p = [] \<or> hd p \<noteq> c" "\<forall>p \<in> set white_space. rev p = [] \<or> hd (rev p) \<noteq> c"
proof -
  have first: "\<forall>p \<in> set white_space. of_char (hd p) \<in> {9, 10, 11, 12, 13, 32, 194, 225, 226, 227 :: nat}"
    by (auto simp: white_space_def of_char_of)
  have last: "\<forall>p \<in> set white_space. (of_char (last p) :: nat) \<in> {9, 10, 11, 12, 13, 32} \<union> {128..200}"
    by (auto simp: white_space_def of_char_of)
  from stored_char_range [OF assms] show "\<forall>p \<in> set white_space. p = [] \<or> hd p \<noteq> c"
    using first by (auto simp: Let_def)
  from stored_char_range [OF assms] show "\<forall>p \<in> set white_space. rev p = [] \<or> hd (rev p) \<noteq> c"
    using last by (fastforce simp: Let_def hd_rev)
qed

lemma trim_stored: "list_all stored_char s \<Longrightarrow> trim s = s"
proof -
  assume s: "list_all stored_char s"
  have a: "strip_any white_space s = None"
    using s by (intro strip_any_None_if) (auto split: list.splits dest!: stored_char_not_white(1))
  have b: "strip_any (map rev white_space) (rev s) = None"
  proof (intro strip_any_None_if ballI)
    fix p assume "p \<in> set (map rev white_space)"
    then obtain q where "q \<in> set white_space" "p = rev q" by auto
    moreover have "stored_char c" if "rev s = c # cs" for c cs
      using s that by (metis list.set_intros(1) list_all_iff set_rev)
    ultimately show "p = [] \<or> (case rev s of [] \<Rightarrow> True | c # _ \<Rightarrow> hd p \<noteq> c)"
      using stored_char_not_white(2) by (fastforce split: list.splits)
  qed
  show ?thesis by (simp add: trim_def trim_start_with_fix a b)
qed

lemma normalize_segment_wf: "normalize_segment v = Inr s \<Longrightarrow> wf_segment s"
proof -
  assume a: "normalize_segment v = Inr s"
  define l where "l = map ascii_lower (trim v)"
  from a have s: "s = replace_char (CHR '' '') ''-'' l" "s \<noteq> []" "list_all segment_char s"
    by (auto simp: normalize_segment_def Let_def l_def split: if_splits)
  have "ascii_lower c = c" if "c \<in> set s" for c
    using that unfolding s(1) replace_char_def l_def
    by (auto simp: ascii_lower_dash split: if_splits)
  with s show ?thesis
    by (auto simp: wf_segment_def stored_char_def list_all_iff)
qed

lemma normalize_segment_id: "wf_segment s \<Longrightarrow> normalize_segment s = Inr s"
proof -
  assume s: "wf_segment s"
  then have m: "map ascii_lower s = s"
    by (auto simp: wf_segment_def list_all_iff stored_char_def intro: map_idI)
  from s have r: "replace_char (CHR '' '') ''-'' s = s"
    by (intro replace_char_id)
      (auto simp: wf_segment_def list_all_iff stored_char_def segment_char_def is_ascii_alphanumeric_def)
  from s show ?thesis
    by (auto simp: normalize_segment_def Let_def trim_stored wf_segment_def m r list_all_iff stored_char_def)
qed

lemma tool_name_new_Inr_iff:
  "tool_name_new d p t = Inr n \<longleftrightarrow>
     normalize_segment d = Inr (tn_domain n) \<and> normalize_segment p = Inr (tn_provider n) \<and>
     normalize_segment t = Inr (tn_tool n) \<and> length (to_wire_name n) \<le> MAX_WIRE_NAME_LEN"
proof (cases n)
  case (fields x y z)
  then show ?thesis
    by (cases "normalize_segment d"; cases "normalize_segment p"; cases "normalize_segment t")
      (auto simp: tool_name_new_def Let_def not_less)
qed

lemma tool_name_new_wf [wf_intros]: "tool_name_new d p t = Inr n \<Longrightarrow> wf_tool_name n"
  by (auto simp: tool_name_new_Inr_iff wf_tool_name_def intro: normalize_segment_wf)

lemma tool_name_new_id:
  "wf_tool_name n \<Longrightarrow> tool_name_new (tn_domain n) (tn_provider n) (tn_tool n) = Inr n"
  by (auto simp: tool_name_new_Inr_iff wf_tool_name_def normalize_segment_id)

section \<open>Splitting the wire form\<close>

lemma split_on_dunder:
  "\<not> contains_str (a @ ''_'') ''__'' \<Longrightarrow> split_on ''__'' (a @ ''__'' @ b) = a # split_on ''__'' b"
proof (induction a)
  case (Cons c a)
  have n: "\<not> contains_str (a @ ''_'') ''__''" "\<not> starts_with (c # a @ ''_'') ''__''"
    using Cons.prems by auto
  have "take 2 (c # a @ ''__'' @ b) \<noteq> ''__''"
    using n(2) by (cases a) (auto simp: starts_with_def)
  with Cons.IH [OF n(1)] show ?case
    by (simp add: numeral_2_eq_2)
qed simp

lemma split_on_no_dunder: "\<not> contains_str a ''__'' \<Longrightarrow> split_on ''__'' a = [a]"
proof (induction a)
  case (Cons c a)
  have "take 2 (c # a) \<noteq> ''__''"
    using Cons.prems by (cases a) (auto simp: starts_with_def)
  with Cons show ?case by (simp add: numeral_2_eq_2)
qed simp

text \<open>C20: parsing inverts printing for every well-formed name whose segments hold no double
  underscore and whose first two segments do not end in an underscore; the names outside this
  class are the ones the comment on \<open>FromStr\<close> warns about.\<close>

theorem tool_name_roundtrip:
  assumes "wf_tool_name n"
    and "\<not> contains_str (tn_domain n @ ''_'') ''__''"
    and "\<not> contains_str (tn_provider n @ ''_'') ''__''"
    and "\<not> contains_str (tn_tool n) ''__''"
  shows "tool_name_from_str (to_wire_name n) = Inr n"
proof -
  have "split_on ''__'' (to_wire_name n) = [tn_domain n, tn_provider n, tn_tool n]"
    unfolding to_wire_name_def
    using split_on_dunder [OF assms(2)] split_on_dunder [OF assms(3)] split_on_no_dunder [OF assms(4)]
    by simp
  then show ?thesis
    by (simp add: tool_name_from_str_def tool_name_new_id [OF assms(1)])
qed

theorem tool_name_roundtrip_witness:
  "tool_name_from_str (to_wire_name \<lparr>tn_domain = ''search'', tn_provider = ''exa_ai'', tn_tool = ''web_search''\<rparr>) =
     Inr \<lparr>tn_domain = ''search'', tn_provider = ''exa_ai'', tn_tool = ''web_search''\<rparr>"
  by (rule tool_name_roundtrip) code_simp+

end
