(* ===== verification/Config.thy ===== *)
theory Config
  imports Naming Json
begin

text \<open>
  The configuration model (\<open>src/config/\<close>): upstream resources, MCP servers, gateway
  keys, their limits and security settings, and the lookups by id. Serde's defaults are
  the \<open>default_*\<close> constants. Of \<open>GatewayConfig\<close> the sections that modelled code reads
  are kept; the YAML reader itself is not modelled.
\<close>

section \<open>Response formats (render.rs) and the failure mode (runtime.rs)\<close>

datatype response_format = FmtJson | FmtYaml | FmtMarkdown

datatype mcp_failure_mode = FailOpen | FailClosed

section \<open>Upstream authentication (auth.rs)\<close>

datatype oauth_grant = ClientCredentials | AuthorizationCode

datatype upstream_auth =
    AuthNone
  | AuthHeader (ah_name: string) (ah_value_ref: string)
  | AuthBearer (ab_token_ref: string)
  | AuthOAuth oauth_grant "string option" "string option" "string list"

definition oauth_grant_str :: "oauth_grant \<Rightarrow> string" where
  "oauth_grant_str g =
     (case g of ClientCredentials \<Rightarrow> ''client_credentials'' | AuthorizationCode \<Rightarrow> ''authorization_code'')"

definition bearer_ref :: "upstream_auth \<Rightarrow> string option" where
  "bearer_ref a = (case a of AuthBearer r \<Rightarrow> Some r | _ \<Rightarrow> None)"

definition header_ref :: "upstream_auth \<Rightarrow> (string \<times> string) option" where
  "header_ref a = (case a of AuthHeader n r \<Rightarrow> Some (n, r) | _ \<Rightarrow> None)"

definition auth_is_none :: "upstream_auth \<Rightarrow> bool" where
  "auth_is_none a = (a = AuthNone)"

definition oauth_grant_of :: "upstream_auth \<Rightarrow> oauth_grant option" where
  "oauth_grant_of a = (case a of AuthOAuth g _ _ _ \<Rightarrow> Some g | _ \<Rightarrow> None)"

section \<open>Upstreams (upstream.rs)\<close>

datatype http_method = Get | Post | Put | Patch | Delete

datatype integrity_policy = Warn | Quarantine | Block

datatype load_balance_strategy = RoundRobin | Random | LeastRequests | FastestResponse | Weighted

datatype spec_source = SpecFile | SpecUrl

record security_config =
  sc_integrity_policy :: integrity_policy
  sc_defense_enabled :: bool
  sc_result_budget_bytes :: "nat option"

definition default_security_config :: security_config where
  "default_security_config =
     \<lparr>sc_integrity_policy = Warn, sc_defense_enabled = False, sc_result_budget_bytes = None\<rparr>"

record upstream_limits =
  ul_rps :: "u32 option"
  ul_rpm :: "u32 option"
  ul_max_concurrent :: "u32 option"
  ul_queue_timeout_secs :: u64

definition default_upstream_limits :: upstream_limits where
  "default_upstream_limits =
     \<lparr>ul_rps = None, ul_rpm = None, ul_max_concurrent = None, ul_queue_timeout_secs = 10\<rparr>"

record pool_key_config =
  pkc_secret_ref :: string
  pkc_weight :: u32

record key_pool_config =
  kpc_strategy :: load_balance_strategy
  kpc_keys :: "pool_key_config list"

record openapi_source_config =
  os_source :: spec_source
  os_path :: "string option"
  os_url :: "string option"
  os_include_tags :: "string list"
  os_exclude_operations :: "string list"
  os_default_method_exposure :: "string list"

record tool_endpoint =
  te_tool :: string
  te_method :: http_method
  te_path :: string
  te_description :: string

record api_resource =
  ar_id :: string
  ar_domain :: string
  ar_provider :: string
  ar_base_url :: string
  ar_description :: string
  ar_auth :: upstream_auth
  ar_key_pool :: "key_pool_config option"
  ar_endpoints :: "tool_endpoint list"
  ar_discovery :: "openapi_source_config option"
  ar_security :: security_config
  ar_limits :: "upstream_limits option"

definition provider_or_id :: "api_resource \<Rightarrow> string" where
  "provider_or_id r = (if ar_provider r = [] then ar_id r else ar_provider r)"

record mcp_server_config =
  ms_id :: string
  ms_domain :: string
  ms_provider :: string
  ms_url :: string
  ms_description :: string
  ms_auth :: upstream_auth
  ms_security :: security_config
  ms_health_check_enabled :: bool
  ms_limits :: "upstream_limits option"

section \<open>Gateway keys (proxy_key.rs)\<close>

record key_limits =
  kl_rps :: "u32 option"
  kl_rpm :: "u32 option"
  kl_max_calls :: "u64 option"
  kl_max_calls_per_day :: "u64 option"

record proxy_key =
  pk_id :: string
  pk_display_name :: string
  pk_allowed_tools :: "string list"
  pk_denied_tools :: "string list"
  pk_allowed_servers :: "string list"
  pk_allowed_tool_names :: "string list"
  pk_limits :: "key_limits option"
  pk_token_ref :: "string option"
  pk_token_digest :: "string option"
  pk_expires_at :: "datetime option"
  pk_default_tool_page_size :: nat
  pk_discovery_mode :: "string option"
  pk_response_format :: "response_format option"

section \<open>The gateway configuration (mod.rs)\<close>

record oauth_config =
  oa_redirect_base_url :: "string option"
  oa_token_encryption_key_ref :: "string option"

record gateway_config =
  gc_default_response_format :: "response_format option"
  gc_failure_mode :: mcp_failure_mode
  gc_oauth :: "oauth_config option"
  gc_api_resources :: "api_resource list"
  gc_builtin_mcp :: "string list"
  gc_mcp_servers :: "mcp_server_config list"
  gc_proxy_keys :: "proxy_key list"

definition proxy_key_of :: "gateway_config \<Rightarrow> string \<Rightarrow> proxy_key option" where
  "proxy_key_of c i = find (\<lambda>k. pk_id k = i) (gc_proxy_keys c)"

definition resource_of :: "gateway_config \<Rightarrow> string \<Rightarrow> api_resource option" where
  "resource_of c i = find (\<lambda>r. ar_id r = i) (gc_api_resources c)"

definition mcp_server_of :: "gateway_config \<Rightarrow> string \<Rightarrow> mcp_server_config option" where
  "mcp_server_of c i = find (\<lambda>s. ms_id s = i) (gc_mcp_servers c)"

end
