(* ===== verification/Policy.thy ===== *)
theory Policy
  imports Config
begin

text \<open>
  Key scope (\<open>src/policy.rs\<close>): which tools a gateway key may see and call. The regular
  expression engine is the \<open>regex\<close> crate; it enters as a record of its two constructors,
  whose results are the predicates that \<open>is_match\<close> computes. \<open>scope_spec\<close> is the rule of
  the module comment, \<open>key_can_use_name_spec\<close> shows that the code implements it.
\<close>

type_synonym regex_error = string

record regex_engine =
  re_new :: "string \<Rightarrow> regex_error + (string \<Rightarrow> bool)"
  re_set_new :: "string list \<Rightarrow> regex_error + (string \<Rightarrow> bool)"

datatype policy_error = InvalidRegex regex_error

definition policy_error_msg :: "policy_error \<Rightarrow> string" where
  "policy_error_msg e = (case e of InvalidRegex m \<Rightarrow> ''invalid tool scope regex: '' @ m)"

definition translate_to_wire_regex :: "string \<Rightarrow> string" where
  "translate_to_wire_regex pattern = replace_char (CHR '':'') ''__'' pattern"

definition key_can_use_name ::
  "regex_engine \<Rightarrow> proxy_key \<Rightarrow> string \<Rightarrow> string \<Rightarrow> policy_error + bool" where
  "key_can_use_name re key full_name resource_id =
     and_then
       (if pk_denied_tools key \<noteq> [] then
          and_then (map_err InvalidRegex (re_set_new re (map translate_to_wire_regex (pk_denied_tools key))))
            (\<lambda>is_match. Inr (is_match full_name))
        else Inr False)
       (\<lambda>denied.
          if denied then Inr False
          else if resource_id \<in> set (pk_allowed_servers key) \<or>
                  full_name \<in> set (pk_allowed_tool_names key) then Inr True
          else if pk_allowed_tools key = [] then Inr False
          else
            and_then (map_err InvalidRegex (re_set_new re (map translate_to_wire_regex (pk_allowed_tools key))))
              (\<lambda>is_match. Inr (is_match full_name)))"

definition key_can_use_tool ::
  "regex_engine \<Rightarrow> proxy_key \<Rightarrow> tool_name \<Rightarrow> string \<Rightarrow> policy_error + bool" where
  "key_can_use_tool re key tool resource_id = key_can_use_name re key (to_wire_name tool) resource_id"

section \<open>The documented rule\<close>

text \<open>A pattern list matches when the set it compiles to matches; the empty list never does.\<close>

definition set_matches :: "regex_engine \<Rightarrow> string list \<Rightarrow> string \<Rightarrow> bool" where
  "set_matches re ps s =
     (ps \<noteq> [] \<and> (\<exists>m. re_set_new re (map translate_to_wire_regex ps) = Inr m \<and> m s))"

definition scope_spec :: "regex_engine \<Rightarrow> proxy_key \<Rightarrow> string \<Rightarrow> string \<Rightarrow> bool" where
  "scope_spec re key full_name resource_id =
     (\<not> set_matches re (pk_denied_tools key) full_name \<and>
      (set_matches re (pk_allowed_tools key) full_name \<or>
       resource_id \<in> set (pk_allowed_servers key) \<or>
       full_name \<in> set (pk_allowed_tool_names key)))"

lemma key_can_use_name_spec:
  "key_can_use_name re key n r = Inr b \<Longrightarrow> b = scope_spec re key n r"
  by (auto simp: key_can_use_name_def scope_spec_def set_matches_def and_then_Inr_iff
      split: if_splits)

text \<open>C1: whenever the scope check returns a verdict it is the documented rule (a deny match wins,
  then the union of the three allow lists), and it returns one exactly when the deny list compiles
  and the allow list does too or is not needed.\<close>

theorem key_can_use_tool_correct:
  "key_can_use_tool re key tool rid =
     (case (if pk_denied_tools key = [] then Inr (\<lambda>_. False)
            else re_set_new re (map translate_to_wire_regex (pk_denied_tools key))) of
        Inl e \<Rightarrow> Inl (InvalidRegex e)
      | Inr deny \<Rightarrow>
          (if \<not> deny (to_wire_name tool) \<and> rid \<notin> set (pk_allowed_servers key) \<and>
              to_wire_name tool \<notin> set (pk_allowed_tool_names key) \<and> pk_allowed_tools key \<noteq> []
           then (case re_set_new re (map translate_to_wire_regex (pk_allowed_tools key)) of
                   Inl e \<Rightarrow> Inl (InvalidRegex e)
                 | Inr _ \<Rightarrow> Inr (scope_spec re key (to_wire_name tool) rid))
           else Inr (scope_spec re key (to_wire_name tool) rid)))"
  by (auto simp: key_can_use_tool_def key_can_use_name_def scope_spec_def set_matches_def
      split: sum.splits)

end
