(* ===== verification/Errors.thy ===== *)
theory Errors
  imports Policy
begin

text \<open>
  The error model (\<open>src/error.rs\<close> and the \<open>error.rs\<close> files of the keys, limits, proxy,
  secrets and mcp modules): the stable error codes with their category, exit code and HTTP
  status, the module errors with their messages, and the conversions of each module error into
  the top-level error and of that error into its HTTP and MCP boundary forms.
\<close>

section \<open>Stable error codes\<close>

datatype error_code =
    ConfigInvalidYaml
  | ConfigUnknownResource
  | ConfigInvalidRegex
  | ConfigInvalidToolName
  | AuthMissingGatewayKey
  | AuthInvalidGatewayKey
  | AuthExpiredGatewayKey
  | AuthForbiddenTool
  | AuthMissingUpstreamSecret
  | CatalogUnknownTool
  | CatalogInvalidPagination
  | CatalogAmbiguousToolName
  | StoreMigrationFailed
  | StoreUnavailable
  | ProxyUpstreamTimeout
  | ProxyRetryExhausted
  | ProxyUpstreamError
  | ProxyConnectionFailed
  | ProxyEgressBlocked
  | LimitQuotaExceeded
  | LimitQueueFull
  | LimitQueueTimeout
  | LimitCallsExhausted
  | LimitDailyCallsExhausted
  | McpInvalidToolCall
  | McpUpstreamMcpFailure
  | McpUpstreamUnavailable
  | McpUpstreamAuthRequired
  | AdminUnauthorized
  | AdminInvalidQuery
  | AdminNotFound
  | AdminConflict
  | HttpTimeout
  | HttpBodyTooLarge

definition error_code_str :: "error_code \<Rightarrow> string" where
  "error_code_str c = (case c of
      ConfigInvalidYaml \<Rightarrow> ''config.invalid_yaml''
    | ConfigUnknownResource \<Rightarrow> ''config.unknown_resource''
    | ConfigInvalidRegex \<Rightarrow> ''config.invalid_regex''
    | ConfigInvalidToolName \<Rightarrow> ''config.invalid_tool_name''
    | AuthMissingGatewayKey \<Rightarrow> ''auth.missing_gateway_key''
    | AuthInvalidGatewayKey \<Rightarrow> ''auth.invalid_gateway_key''
    | AuthExpiredGatewayKey \<Rightarrow> ''auth.expired_gateway_key''
    | AuthForbiddenTool \<Rightarrow> ''auth.forbidden_tool''
    | AuthMissingUpstreamSecret \<Rightarrow> ''auth.missing_upstream_secret''
    | CatalogUnknownTool \<Rightarrow> ''catalog.unknown_tool''
    | CatalogInvalidPagination \<Rightarrow> ''catalog.invalid_pagination''
    | CatalogAmbiguousToolName \<Rightarrow> ''catalog.ambiguous_tool_name''
    | StoreMigrationFailed \<Rightarrow> ''store.migration_failed''
    | StoreUnavailable \<Rightarrow> ''store.unavailable''
    | ProxyUpstreamTimeout \<Rightarrow> ''proxy.upstream_timeout''
    | ProxyRetryExhausted \<Rightarrow> ''proxy.retry_exhausted''
    | ProxyUpstreamError \<Rightarrow> ''proxy.upstream_error''
    | ProxyConnectionFailed \<Rightarrow> ''proxy.connection_failed''
    | ProxyEgressBlocked \<Rightarrow> ''proxy.egress_blocked''
    | LimitQuotaExceeded \<Rightarrow> ''limit.quota_exceeded''
    | LimitQueueFull \<Rightarrow> ''limit.queue_full''
    | LimitQueueTimeout \<Rightarrow> ''limit.queue_timeout''
    | LimitCallsExhausted \<Rightarrow> ''limit.calls_exhausted''
    | LimitDailyCallsExhausted \<Rightarrow> ''limit.daily_calls_exhausted''
    | McpInvalidToolCall \<Rightarrow> ''mcp.invalid_tool_call''
    | McpUpstreamMcpFailure \<Rightarrow> ''mcp.upstream_mcp_failure''
    | McpUpstreamUnavailable \<Rightarrow> ''mcp.upstream_unavailable''
    | McpUpstreamAuthRequired \<Rightarrow> ''mcp.upstream_auth_required''
    | AdminUnauthorized \<Rightarrow> ''admin.unauthorized''
    | AdminInvalidQuery \<Rightarrow> ''admin.invalid_query''
    | AdminNotFound \<Rightarrow> ''admin.not_found''
    | AdminConflict \<Rightarrow> ''admin.conflict''
    | HttpTimeout \<Rightarrow> ''http.timeout''
    | HttpBodyTooLarge \<Rightarrow> ''http.body_too_large'')"

definition category :: "error_code \<Rightarrow> string" where
  "category c = (case c of
      ConfigInvalidYaml \<Rightarrow> ''config''
    | ConfigUnknownResource \<Rightarrow> ''config''
    | ConfigInvalidRegex \<Rightarrow> ''config''
    | ConfigInvalidToolName \<Rightarrow> ''config''
    | AuthMissingGatewayKey \<Rightarrow> ''auth''
    | AuthInvalidGatewayKey \<Rightarrow> ''auth''
    | AuthExpiredGatewayKey \<Rightarrow> ''auth''
    | AuthForbiddenTool \<Rightarrow> ''auth''
    | AuthMissingUpstreamSecret \<Rightarrow> ''auth''
    | CatalogUnknownTool \<Rightarrow> ''catalog''
    | CatalogInvalidPagination \<Rightarrow> ''catalog''
    | CatalogAmbiguousToolName \<Rightarrow> ''catalog''
    | StoreMigrationFailed \<Rightarrow> ''store''
    | StoreUnavailable \<Rightarrow> ''store''
    | ProxyUpstreamTimeout \<Rightarrow> ''proxy''
    | ProxyRetryExhausted \<Rightarrow> ''proxy''
    | ProxyUpstreamError \<Rightarrow> ''proxy''
    | ProxyConnectionFailed \<Rightarrow> ''proxy''
    | ProxyEgressBlocked \<Rightarrow> ''proxy''
    | LimitQuotaExceeded \<Rightarrow> ''limit''
    | LimitQueueFull \<Rightarrow> ''limit''
    | LimitQueueTimeout \<Rightarrow> ''limit''
    | LimitCallsExhausted \<Rightarrow> ''limit''
    | LimitDailyCallsExhausted \<Rightarrow> ''limit''
    | McpInvalidToolCall \<Rightarrow> ''mcp''
    | McpUpstreamMcpFailure \<Rightarrow> ''mcp''
    | McpUpstreamUnavailable \<Rightarrow> ''mcp''
    | McpUpstreamAuthRequired \<Rightarrow> ''mcp''
    | AdminUnauthorized \<Rightarrow> ''admin''
    | AdminInvalidQuery \<Rightarrow> ''admin''
    | AdminNotFound \<Rightarrow> ''admin''
    | AdminConflict \<Rightarrow> ''admin''
    | HttpTimeout \<Rightarrow> ''http''
    | HttpBodyTooLarge \<Rightarrow> ''http'')"

definition http_status_for :: "error_code \<Rightarrow> u16" where
  "http_status_for c = (case c of
      ConfigInvalidYaml \<Rightarrow> 500
    | ConfigUnknownResource \<Rightarrow> 500
    | ConfigInvalidRegex \<Rightarrow> 500
    | ConfigInvalidToolName \<Rightarrow> 500
    | AuthMissingGatewayKey \<Rightarrow> 401
    | AuthInvalidGatewayKey \<Rightarrow> 401
    | AuthExpiredGatewayKey \<Rightarrow> 401
    | AuthForbiddenTool \<Rightarrow> 403
    | AuthMissingUpstreamSecret \<Rightarrow> 503
    | CatalogUnknownTool \<Rightarrow> 404
    | CatalogInvalidPagination \<Rightarrow> 400
    | CatalogAmbiguousToolName \<Rightarrow> 400
    | StoreMigrationFailed \<Rightarrow> 503
    | StoreUnavailable \<Rightarrow> 503
    | ProxyUpstreamTimeout \<Rightarrow> 504
    | ProxyRetryExhausted \<Rightarrow> 502
    | ProxyUpstreamError \<Rightarrow> 502
    | ProxyConnectionFailed \<Rightarrow> 504
    | ProxyEgressBlocked \<Rightarrow> 403
    | LimitQuotaExceeded \<Rightarrow> 429
    | LimitQueueFull \<Rightarrow> 503
    | LimitQueueTimeout \<Rightarrow> 503
    | LimitCallsExhausted \<Rightarrow> 429
    | LimitDailyCallsExhausted \<Rightarrow> 429
    | McpInvalidToolCall \<Rightarrow> 400
    | McpUpstreamMcpFailure \<Rightarrow> 502
    | McpUpstreamUnavailable \<Rightarrow> 503
    | McpUpstreamAuthRequired \<Rightarrow> 502
    | AdminUnauthorized \<Rightarrow> 401
    | AdminInvalidQuery \<Rightarrow> 400
    | AdminNotFound \<Rightarrow> 404
    | AdminConflict \<Rightarrow> 409
    | HttpTimeout \<Rightarrow> 408
    | HttpBodyTooLarge \<Rightarrow> 413)"

definition all_error_codes :: "error_code list" where
  "all_error_codes =
     [ConfigInvalidYaml,
      ConfigUnknownResource,
      ConfigInvalidRegex,
      ConfigInvalidToolName,
      AuthMissingGatewayKey,
      AuthInvalidGatewayKey,
      AuthExpiredGatewayKey,
      AuthForbiddenTool,
      AuthMissingUpstreamSecret,
      CatalogUnknownTool,
      CatalogInvalidPagination,
      CatalogAmbiguousToolName,
      StoreMigrationFailed,
      StoreUnavailable,
      ProxyUpstreamTimeout,
      ProxyRetryExhausted,
      ProxyUpstreamError,
      ProxyConnectionFailed,
      ProxyEgressBlocked,
      LimitQuotaExceeded,
      LimitQueueFull,
      LimitQueueTimeout,
      LimitCallsExhausted,
      LimitDailyCallsExhausted,
      McpInvalidToolCall,
      McpUpstreamMcpFailure,
      McpUpstreamUnavailable,
      McpUpstreamAuthRequired,
      AdminUnauthorized,
      AdminInvalidQuery,
      AdminNotFound,
      AdminConflict,
      HttpTimeout,
      HttpBodyTooLarge]"

section \<open>Module errors\<close>

type_synonym key_id = u64

text \<open>\<open>Display for KeyId\<close>: \<open>key#\<close> and at least four digits.\<close>

definition pad4 :: "string \<Rightarrow> string" where
  "pad4 s = replicate (4 - length s) (CHR ''0'') @ s"

definition key_id_str :: "key_id \<Rightarrow> string" where
  "key_id_str i = ''key#'' @ pad4 (dec (unat i))"

datatype openapi_error =
    ParseError string
  | UnsupportedVersion
  | RefResolution string

definition openapi_error_msg :: "openapi_error \<Rightarrow> string" where
  "openapi_error_msg e =
     (case e of
        ParseError m \<Rightarrow> ''failed to parse OpenAPI spec: '' @ m
      | UnsupportedVersion \<Rightarrow> ''unsupported spec version, expected OpenAPI 3.x''
      | RefResolution m \<Rightarrow> ''$ref resolution failed: '' @ m)"

datatype catalog_error =
    CatToolName tool_name_error
  | CatRegex regex_error
  | CatPolicy policy_error
  | CatOpenApi openapi_error
  | AmbiguousToolName string "string list"

definition catalog_error_msg :: "catalog_error \<Rightarrow> string" where
  "catalog_error_msg e =
     (case e of
        CatToolName t \<Rightarrow> tool_name_error_msg t
      | CatRegex m \<Rightarrow> m
      | CatPolicy p \<Rightarrow> policy_error_msg p
      | CatOpenApi o' \<Rightarrow> openapi_error_msg o'
      | AmbiguousToolName name cs \<Rightarrow>
          ''ambiguous tool name '' @ [char_of (39 :: nat)] @ name @ [char_of (39 :: nat)] @
          '', use a longer form; candidates: '' @ join_with '', '' cs)"

datatype asterlane_error =
    ErrToolName tool_name_error
  | ErrCatalog catalog_error
  | ErrPolicy policy_error
  | ErrInternal (err_code: error_code) (err_message: string) (err_retry_after: "duration option")

definition internal :: "error_code \<Rightarrow> string \<Rightarrow> asterlane_error" where
  "internal c m = ErrInternal c m None"

definition internal_with_retry_after ::
  "error_code \<Rightarrow> string \<Rightarrow> duration option \<Rightarrow> asterlane_error" where
  "internal_with_retry_after c m r = ErrInternal c m r"

datatype key_pool_error =
    NoAvailableKey
  | KeyNotFound key_id
  | InvalidStrategy
  | KeyPoolInvalidConfig string

definition key_pool_error_msg :: "key_pool_error \<Rightarrow> string" where
  "key_pool_error_msg e =
     (case e of
        NoAvailableKey \<Rightarrow> ''no available upstream key in pool''
      | KeyNotFound i \<Rightarrow> ''upstream key not found: '' @ key_id_str i
      | InvalidStrategy \<Rightarrow> ''invalid load balance strategy''
      | KeyPoolInvalidConfig m \<Rightarrow> ''invalid key pool config: '' @ m)"

definition from_key_pool_error :: "key_pool_error \<Rightarrow> asterlane_error" where
  "from_key_pool_error e =
     internal
       (case e of KeyPoolInvalidConfig _ \<Rightarrow> ConfigInvalidYaml | _ \<Rightarrow> ProxyRetryExhausted)
       (key_pool_error_msg e)"

datatype limit_error =
    QuotaExceeded string "duration option"
  | QueueFull
  | QueueTimeout
  | CallsExhausted
  | DailyCallsExhausted duration

definition limit_error_msg :: "limit_error \<Rightarrow> string" where
  "limit_error_msg e =
     (case e of
        QuotaExceeded d _ \<Rightarrow> ''quota exceeded for '' @ d
      | QueueFull \<Rightarrow> ''request queue full''
      | QueueTimeout \<Rightarrow> ''request exceeded queue wait limit''
      | CallsExhausted \<Rightarrow> ''cumulative call quota exhausted for this key''
      | DailyCallsExhausted _ \<Rightarrow> ''daily call quota exhausted for this key'')"

definition from_limit_error :: "limit_error \<Rightarrow> asterlane_error" where
  "from_limit_error e =
     (case e of
        QuotaExceeded _ r \<Rightarrow> internal_with_retry_after LimitQuotaExceeded (limit_error_msg e) r
      | QueueFull \<Rightarrow> internal LimitQueueFull (limit_error_msg e)
      | QueueTimeout \<Rightarrow> internal LimitQueueTimeout (limit_error_msg e)
      | CallsExhausted \<Rightarrow> internal LimitCallsExhausted (limit_error_msg e)
      | DailyCallsExhausted r \<Rightarrow>
          internal_with_retry_after LimitDailyCallsExhausted (limit_error_msg e) (Some r))"

datatype secret_error =
    SecretNotFound string
  | SecretBackend string string
  | SecretTransient string string
  | SecretInvalidRef string

definition secret_error_msg :: "secret_error \<Rightarrow> string" where
  "secret_error_msg e =
     (case e of
        SecretNotFound r \<Rightarrow> ''upstream secret unavailable: '' @ r
      | SecretBackend r d \<Rightarrow> ''upstream secret backend error: '' @ r @ '': '' @ d
      | SecretTransient r d \<Rightarrow> ''upstream secret temporarily unavailable: '' @ r @ '': '' @ d
      | SecretInvalidRef d \<Rightarrow> ''invalid secret ref: '' @ d)"

definition secret_is_retryable :: "secret_error \<Rightarrow> bool" where
  "secret_is_retryable e = (case e of SecretTransient _ _ \<Rightarrow> True | _ \<Rightarrow> False)"

definition from_secret_error :: "secret_error \<Rightarrow> asterlane_error" where
  "from_secret_error e = internal AuthMissingUpstreamSecret (secret_error_msg e)"

datatype mcp_error =
    McpUnknownTool string
  | McpInvalidCall string
  | McpUpstreamFailure string
  | McpAuthRequired
  | McpEgressBlocked
  | McpSecret secret_error
  | McpUnknownServer string

definition mcp_error_msg :: "mcp_error \<Rightarrow> string" where
  "mcp_error_msg e =
     (case e of
        McpUnknownTool w \<Rightarrow> ''unknown tool: '' @ w
      | McpInvalidCall d \<Rightarrow> ''invalid tool call: '' @ d
      | McpUpstreamFailure d \<Rightarrow> ''upstream MCP server error: '' @ d
      | McpAuthRequired \<Rightarrow> ''upstream MCP server requires administrator authorization''
      | McpEgressBlocked \<Rightarrow> ''upstream address is not allowed''
      | McpSecret s \<Rightarrow> secret_error_msg s
      | McpUnknownServer i \<Rightarrow> ''unknown MCP server: '' @ i)"

definition from_mcp_error :: "mcp_error \<Rightarrow> asterlane_error" where
  "from_mcp_error e =
     (case e of
        McpUnknownTool w \<Rightarrow> internal CatalogUnknownTool (''unknown tool: '' @ w)
      | McpInvalidCall d \<Rightarrow> internal McpInvalidToolCall (''invalid tool call: '' @ d)
      | McpUpstreamFailure d \<Rightarrow> internal McpUpstreamMcpFailure (''upstream MCP server error: '' @ d)
      | McpAuthRequired \<Rightarrow> internal McpUpstreamAuthRequired (mcp_error_msg McpAuthRequired)
      | McpEgressBlocked \<Rightarrow> internal ProxyEgressBlocked (mcp_error_msg McpEgressBlocked)
      | McpSecret s \<Rightarrow> from_secret_error s
      | McpUnknownServer i \<Rightarrow> internal AdminNotFound (''unknown MCP server: '' @ i))"

datatype proxy_error =
    UpstreamTimeout u64
  | RetryExhausted u32
  | UpstreamError u16
  | ConnectionFailed
  | EgressBlockedError
  | UnknownTool string
  | UnknownResource string
  | ForbiddenTool string
  | InvalidToolCall string
  | ProxySecret secret_error
  | ProxyKeyPool key_pool_error
  | ProxyLimit limit_error
  | ProxyPolicy policy_error
  | ProxyMcp mcp_error

definition from_proxy_error :: "proxy_error \<Rightarrow> asterlane_error" where
  "from_proxy_error e =
     (case e of
        UpstreamTimeout ms \<Rightarrow>
          internal ProxyUpstreamTimeout (''upstream timeout after '' @ dec (unat ms) @ ''ms'')
      | RetryExhausted n \<Rightarrow>
          internal ProxyRetryExhausted
            (''upstream retry exhausted after '' @ dec (unat n) @ '' attempts'')
      | UpstreamError s \<Rightarrow>
          internal ProxyUpstreamError (''upstream returned status '' @ dec (unat s))
      | ConnectionFailed \<Rightarrow> internal ProxyConnectionFailed ''upstream connection failed''
      | EgressBlockedError \<Rightarrow> internal ProxyEgressBlocked ''upstream address is not allowed''
      | UnknownTool n \<Rightarrow> internal CatalogUnknownTool (''unknown tool: '' @ n)
      | UnknownResource i \<Rightarrow> internal ConfigUnknownResource (''unknown resource: '' @ i)
      | ForbiddenTool n \<Rightarrow>
          internal AuthForbiddenTool (''tool '' @ n @ '' not permitted for this key'')
      | InvalidToolCall d \<Rightarrow> internal McpInvalidToolCall (''invalid tool call: '' @ d)
      | ProxySecret s \<Rightarrow> from_secret_error s
      | ProxyKeyPool k \<Rightarrow> from_key_pool_error k
      | ProxyLimit l \<Rightarrow> from_limit_error l
      | ProxyPolicy p \<Rightarrow> ErrPolicy p
      | ProxyMcp m \<Rightarrow> from_mcp_error m)"

section \<open>The boundaries\<close>

definition error_code_of :: "asterlane_error \<Rightarrow> error_code" where
  "error_code_of e =
     (case e of
        ErrToolName _ \<Rightarrow> ConfigInvalidToolName
      | ErrCatalog c \<Rightarrow>
          (case c of
             CatToolName _ \<Rightarrow> ConfigInvalidToolName
           | CatRegex _ \<Rightarrow> ConfigInvalidRegex
           | CatPolicy _ \<Rightarrow> ConfigInvalidRegex
           | CatOpenApi _ \<Rightarrow> ConfigInvalidYaml
           | AmbiguousToolName _ _ \<Rightarrow> CatalogAmbiguousToolName)
      | ErrPolicy _ \<Rightarrow> ConfigInvalidRegex
      | ErrInternal code _ _ \<Rightarrow> code)"

definition exit_code :: "asterlane_error \<Rightarrow> int" where
  "exit_code e =
     (let cat = category (error_code_of e)
      in if cat = ''config'' then 2
         else if cat = ''auth'' \<or> cat = ''admin'' then 3
         else if cat = ''catalog'' \<or> cat = ''mcp'' then 4
         else if cat = ''store'' then 5
         else if cat = ''proxy'' then 6
         else if cat = ''limit'' then 7
         else 1)"

definition safe_message :: "asterlane_error \<Rightarrow> string" where
  "safe_message e =
     (case e of
        ErrToolName t \<Rightarrow> tool_name_error_msg t
      | ErrCatalog c \<Rightarrow> catalog_error_msg c
      | ErrPolicy p \<Rightarrow> policy_error_msg p
      | ErrInternal _ m _ \<Rightarrow> m)"

record http_error_view =
  hv_status :: u16
  hv_code :: error_code
  hv_message :: string
  hv_request_id :: "string option"
  hv_retry_after :: "duration option"

definition http_response :: "asterlane_error \<Rightarrow> http_error_view" where
  "http_response e =
     \<lparr>hv_status = http_status_for (error_code_of e),
      hv_code = error_code_of e,
      hv_message = safe_message e,
      hv_request_id = None,
      hv_retry_after = (case e of ErrInternal _ _ r \<Rightarrow> r | _ \<Rightarrow> None)\<rparr>"

datatype mcp_error_form =
    ToolResultIsError string
  | JsonRpc int string

definition mcp_error_of :: "asterlane_error \<Rightarrow> mcp_error_form" where
  "mcp_error_of e =
     (let message = safe_message e
      in case error_code_of e of
           CatalogUnknownTool \<Rightarrow> JsonRpc (- 32601) message
         | CatalogInvalidPagination \<Rightarrow> JsonRpc (- 32602) message
         | CatalogAmbiguousToolName \<Rightarrow> JsonRpc (- 32602) message
         | McpInvalidToolCall \<Rightarrow> JsonRpc (- 32602) message
         | ProxyUpstreamTimeout \<Rightarrow> ToolResultIsError message
         | ProxyRetryExhausted \<Rightarrow> ToolResultIsError message
         | ProxyUpstreamError \<Rightarrow> ToolResultIsError message
         | ProxyConnectionFailed \<Rightarrow> ToolResultIsError message
         | ProxyEgressBlocked \<Rightarrow> ToolResultIsError message
         | McpUpstreamMcpFailure \<Rightarrow> ToolResultIsError message
         | McpUpstreamAuthRequired \<Rightarrow> ToolResultIsError message
         | LimitQuotaExceeded \<Rightarrow> ToolResultIsError message
         | LimitQueueFull \<Rightarrow> ToolResultIsError message
         | LimitQueueTimeout \<Rightarrow> ToolResultIsError message
         | LimitCallsExhausted \<Rightarrow> ToolResultIsError message
         | _ \<Rightarrow> JsonRpc (- 32603) message)"

section \<open>Properties\<close>

lemma error_code_in_all: "c \<in> set all_error_codes"
  by (cases c) (simp_all add: all_error_codes_def)

lemma error_code_str_distinct: "distinct (map error_code_str all_error_codes)"
  by code_simp

lemma error_code_str_category:
  "list_all (\<lambda>c. starts_with (error_code_str c) (category c @ ''.'')) all_error_codes"
  by code_simp

text \<open>The stable code strings identify the codes, and each begins with its category and a
  dot, so the exit code derived from the category agrees with the published string.\<close>

lemma error_code_str_stable:
  "inj error_code_str \<and> (\<forall>c. \<exists>rest. error_code_str c = category c @ ''.'' @ rest)"
proof
  show "inj error_code_str"
    using error_code_str_distinct error_code_in_all
    by (auto simp: inj_def distinct_map inj_on_def)
  show "\<forall>c. \<exists>rest. error_code_str c = category c @ ''.'' @ rest"
    using error_code_str_category error_code_in_all
    by (fastforce simp: list_all_iff starts_with_iff)
qed

lemmas boundary_defs = http_response_def error_code_of_def http_status_for_def mcp_error_of_def
  internal_def internal_with_retry_after_def safe_message_def exit_code_def category_def Let_def

lemmas from_error_defs = from_limit_error_def from_key_pool_error_def from_secret_error_def
  from_mcp_error_def from_proxy_error_def

text \<open>Every limit rejection reaches the HTTP boundary as 429 or, for the concurrency queue,
  503, with exit code 7, and carries a \<open>Retry-After\<close> exactly when waiting helps: never for the
  exhausted cumulative quota or the queue, always for the daily quota.\<close>

lemma limit_error_http:
  "let v = http_response (from_proxy_error (ProxyLimit e))
   in hv_status v = (if e \<in> {QueueFull, QueueTimeout} then 503 else 429) \<and>
      exit_code (from_proxy_error (ProxyLimit e)) = 7 \<and>
      hv_retry_after v =
        (case e of QuotaExceeded _ r \<Rightarrow> r | DailyCallsExhausted r \<Rightarrow> Some r | _ \<Rightarrow> None)"
  by (cases e) (simp_all add: boundary_defs from_error_defs)

text \<open>At the MCP boundary a limit rejection is a tool result the model can read, with one
  exception: the exhausted daily quota falls through to the internal-error form \<open>-32603\<close>.\<close>

lemma limit_error_mcp:
  "mcp_error_of (from_proxy_error (ProxyLimit e)) =
     (case e of
        DailyCallsExhausted _ \<Rightarrow> JsonRpc (- 32603) (limit_error_msg e)
      | _ \<Rightarrow> ToolResultIsError (limit_error_msg e))"
  by (cases e) (simp_all add: boundary_defs from_error_defs)

end
