(* ===== verification/Render.thy ===== *)
theory Render
  imports Json Errors
begin

text \<open>
  Re-rendering of JSON results (\<open>src/render.rs\<close>): the negotiation of the format and the Markdown
  projection. The serialisers of \<open>serde_json\<close> and \<open>serde_norway\<close> are parameters, \<open>ser\<close> and \<open>yaml\<close>;
  the latter may fail.
\<close>

section \<open>Formats\<close>

definition response_format_str :: "response_format \<Rightarrow> string" where
  "response_format_str f = (case f of FmtJson \<Rightarrow> ''json'' | FmtYaml \<Rightarrow> ''yaml'' | FmtMarkdown \<Rightarrow> ''markdown'')"

definition content_type :: "response_format \<Rightarrow> string" where
  "content_type f =
     (case f of FmtJson \<Rightarrow> ''application/json'' | FmtYaml \<Rightarrow> ''application/yaml''
      | FmtMarkdown \<Rightarrow> ''text/markdown; charset=utf-8'')"

datatype render_error = UnknownFormat string

definition response_format_from_str :: "string \<Rightarrow> render_error + response_format" where
  "response_format_from_str s =
     (let t = map ascii_lower s
      in if t = ''json'' then Inr FmtJson else if t = ''yaml'' then Inr FmtYaml
         else if t = ''markdown'' then Inr FmtMarkdown else Inl (UnknownFormat t))"

definition from_render_error :: "render_error \<Rightarrow> asterlane_error" where
  "from_render_error e =
     (case e of UnknownFormat f \<Rightarrow>
        internal McpInvalidToolCall (''unknown response format `'' @ f @ ''` (expected json | yaml | markdown)''))"

definition resolve_format ::
  "string option \<Rightarrow> response_format option \<Rightarrow> response_format option \<Rightarrow> render_error + response_format" where
  "resolve_format request_override key_format global_default =
     (case request_override of
        Some raw \<Rightarrow> response_format_from_str raw
      | None \<Rightarrow>
          Inr (case key_format of
                 Some f \<Rightarrow> f
               | None \<Rightarrow> (case global_default of Some f \<Rightarrow> f | None \<Rightarrow> FmtJson)))"

definition format_from_accept :: "string \<Rightarrow> string option" where
  "format_from_accept accept =
     (if contains_str accept ''application/yaml'' \<or> contains_str accept ''text/yaml'' then Some ''yaml''
      else if contains_str accept ''text/markdown'' then Some ''markdown''
      else if contains_str accept ''application/json'' then Some ''json''
      else None)"

section \<open>The Markdown projection\<close>

definition MAX_DEPTH :: nat where "MAX_DEPTH = 4"

definition nl :: string where "nl = [CHR 0x0A]"

text \<open>\<open>str::lines\<close>: split at line feeds, a carriage return before one and a last empty line dropped.\<close>

fun split_lines :: "string \<Rightarrow> string list" where
  "split_lines [] = [[]]"
| "split_lines (c # cs) =
     (if c = CHR 0x0A then [] # split_lines cs
      else (case split_lines cs of l # ls \<Rightarrow> (c # l) # ls | [] \<Rightarrow> [[c]]))"

definition strip_cr :: "string \<Rightarrow> string" where
  "strip_cr l = (if l \<noteq> [] \<and> last l = CHR 0x0D then butlast l else l)"

definition str_lines :: "string \<Rightarrow> string list" where
  "str_lines s =
     (let ls = split_lines s
      in map strip_cr (butlast ls) @ (if last ls = [] then [] else [last ls]))"

definition md_indent :: "nat \<Rightarrow> string" where
  "md_indent depth = concat (replicate depth ''  '')"

definition md_inline :: "(json \<Rightarrow> string) \<Rightarrow> json \<Rightarrow> string" where
  "md_inline ser v = (case v of JNull \<Rightarrow> ''null'' | JString s \<Rightarrow> s | _ \<Rightarrow> ser v)"

definition is_scalar :: "json \<Rightarrow> bool" where
  "is_scalar v = (case v of JObject _ \<Rightarrow> False | JArray _ \<Rightarrow> False | _ \<Rightarrow> True)"

definition is_multiline :: "json \<Rightarrow> bool" where
  "is_multiline v = (case v of JString s \<Rightarrow> CHR 0x0A \<in> set s | _ \<Rightarrow> False)"

definition md_cell :: "(json \<Rightarrow> string) \<Rightarrow> json \<Rightarrow> string" where
  "md_cell ser v =
     replace_char (CHR 0x0A) '' '' (replace_char (CHR ''|'') [CHR 0x5C, CHR ''|''] (md_inline ser v))"

definition is_empty_container :: "json \<Rightarrow> bool" where
  "is_empty_container v = (case v of JObject m \<Rightarrow> m = [] | JArray a \<Rightarrow> a = [] | _ \<Rightarrow> False)"

definition empty_literal :: "json \<Rightarrow> string" where
  "empty_literal v = (case v of JObject _ \<Rightarrow> ''{}'' | _ \<Rightarrow> ''[]'')"

definition table_able :: "json list \<Rightarrow> bool" where
  "table_able items =
     list_all (\<lambda>i. case i of JObject m \<Rightarrow> list_all (\<lambda>kv. is_scalar (snd kv)) m | _ \<Rightarrow> False) items"

definition object_keys :: "json \<Rightarrow> string list" where
  "object_keys v = (case v of JObject m \<Rightarrow> map fst m | _ \<Rightarrow> [])"

definition add_cols :: "string list \<Rightarrow> string list \<Rightarrow> string list" where
  "add_cols cols ks = foldl (\<lambda>cs k. if k \<in> set cs then cs else cs @ [k]) cols ks"

definition table_cols :: "json list \<Rightarrow> string list" where
  "table_cols items = foldl (\<lambda>cs i. add_cols cs (object_keys i)) [] items"

definition table_row :: "string \<Rightarrow> string list \<Rightarrow> string" where
  "table_row pad cells = pad @ ''| '' @ join_with '' | '' cells @ '' |''"

definition row_cells :: "(json \<Rightarrow> string) \<Rightarrow> string list \<Rightarrow> json \<Rightarrow> string list" where
  "row_cells ser cols item =
     map (\<lambda>c. case json_get item c of Some v \<Rightarrow> md_cell ser v | None \<Rightarrow> []) cols"

text \<open>The lines of a table; the items that are no objects are skipped.\<close>

definition table_lines :: "(json \<Rightarrow> string) \<Rightarrow> json list \<Rightarrow> nat \<Rightarrow> string list" where
  "table_lines ser items depth =
     (let cols = table_cols items; pad = md_indent depth
      in [table_row pad cols, pad @ ''|'' @ concat (map (\<lambda>_. '' --- |'') cols)] @
         map (\<lambda>i. table_row pad (row_cells ser cols i)) (filter (\<lambda>i. as_object i \<noteq> None) items))"

definition push_lines :: "string list \<Rightarrow> string" where
  "push_lines ls = concat (map (\<lambda>l. l @ nl) ls)"

definition md_fence :: "string \<Rightarrow> string" where
  "md_fence text = (if contains_str text ''```'' then ''````'' else ''```'')"

definition text_fence_lines :: "string \<Rightarrow> nat \<Rightarrow> string list" where
  "text_fence_lines text depth =
     (let pad = md_indent depth; fence = md_fence text
      in [pad @ fence] @ map (\<lambda>l. pad @ l) (str_lines text) @ [pad @ fence])"

definition yaml_fence_lines :: "(json \<Rightarrow> string) \<Rightarrow> (json \<Rightarrow> string option) \<Rightarrow> json \<Rightarrow> nat \<Rightarrow> string list" where
  "yaml_fence_lines ser yaml v depth =
     (let t = (case yaml v of Some y \<Rightarrow> y | None \<Rightarrow> ser v); pad = md_indent depth
      in [pad @ ''```yaml''] @ map (\<lambda>l. pad @ l) (str_lines t) @ [pad @ ''```''])"

definition md_scalar_lines :: "(json \<Rightarrow> string) \<Rightarrow> json \<Rightarrow> nat \<Rightarrow> string list" where
  "md_scalar_lines ser v depth =
     (if is_multiline v then text_fence_lines (case as_str v of Some s \<Rightarrow> s | None \<Rightarrow> []) depth
      else [md_indent depth @ md_inline ser v])"

definition md_array_lines :: "(json \<Rightarrow> string) \<Rightarrow> (json \<Rightarrow> string option) \<Rightarrow> json list \<Rightarrow> nat \<Rightarrow> string list" where
  "md_array_lines ser yaml items depth =
     (if items = [] then [md_indent depth @ ''[]'']
      else if list_all (\<lambda>i. is_scalar i \<and> \<not> is_multiline i) items then
        map (\<lambda>i. md_indent depth @ ''- '' @ md_inline ser i) items
      else if table_able items then table_lines ser items depth
      else yaml_fence_lines ser yaml (JArray items) depth)"

text \<open>
  \<open>md_value\<close> as the list of the lines it writes; a value with line feeds inside one of them would span
  several. Objects recurse into their entries.
\<close>

fun md_lines :: "(json \<Rightarrow> string) \<Rightarrow> (json \<Rightarrow> string option) \<Rightarrow> json \<Rightarrow> nat \<Rightarrow> string list"
  and md_entry_lines :: "(json \<Rightarrow> string) \<Rightarrow> (json \<Rightarrow> string option) \<Rightarrow> string \<times> json \<Rightarrow> nat \<Rightarrow> string list"
  and md_object_lines :: "(json \<Rightarrow> string) \<Rightarrow> (json \<Rightarrow> string option) \<Rightarrow> (string \<times> json) list \<Rightarrow> nat \<Rightarrow> string list"
where
  "md_lines ser yaml (JObject m) depth =
     (if MAX_DEPTH \<le> depth then yaml_fence_lines ser yaml (JObject m) depth
      else if m = [] then [md_indent depth @ ''{}'']
      else md_object_lines ser yaml m depth)"
| "md_lines ser yaml (JArray a) depth =
     (if MAX_DEPTH \<le> depth then yaml_fence_lines ser yaml (JArray a) depth else md_array_lines ser yaml a depth)"
| "md_lines ser yaml v depth = md_scalar_lines ser v depth"
| "md_entry_lines ser yaml (k, val) depth =
     (let key = md_indent depth @ ''- **'' @ k @ ''**:''
      in if is_multiline val then key # text_fence_lines (case as_str val of Some s \<Rightarrow> s | None \<Rightarrow> []) (Suc depth)
         else if is_scalar val then [key @ '' '' @ md_inline ser val]
         else if is_empty_container val then [key @ '' '' @ empty_literal val]
         else key # md_lines ser yaml val (Suc depth))"
| "md_object_lines ser yaml [] depth = []"
| "md_object_lines ser yaml (kv # m) depth = md_entry_lines ser yaml kv depth @ md_object_lines ser yaml m depth"

definition trim_end :: "string \<Rightarrow> string" where
  "trim_end s = rev (trim_start_with (map rev white_space) (rev s))"

definition markdown :: "(json \<Rightarrow> string) \<Rightarrow> (json \<Rightarrow> string option) \<Rightarrow> json \<Rightarrow> string" where
  "markdown ser yaml v = trim_end (push_lines (md_lines ser yaml v 0))"

definition render :: "(json \<Rightarrow> string) \<Rightarrow> (json \<Rightarrow> string option) \<Rightarrow> json \<Rightarrow> response_format \<Rightarrow> string option" where
  "render ser yaml v f =
     (case f of FmtJson \<Rightarrow> None | FmtYaml \<Rightarrow> yaml v | FmtMarkdown \<Rightarrow> Some (markdown ser yaml v))"

section \<open>Tables\<close>

text \<open>The bars of a line that are not escaped by a backslash right before them; \<open>esc\<close>: the line follows one.\<close>

fun bars :: "bool \<Rightarrow> string \<Rightarrow> nat" where
  "bars esc [] = 0"
| "bars esc (c # cs) = (if c = CHR ''|'' \<and> \<not> esc then 1 else 0) + bars (c = CHR 0x5C) cs"

lemma bars_append_space: "bars esc (xs @ CHR '' '' # ys) = bars esc xs + bars False ys"
  by (induction xs arbitrary: esc) auto

lemma bars_none: "CHR ''|'' \<notin> set xs \<Longrightarrow> bars esc xs = 0"
  by (induction xs arbitrary: esc) auto

lemma bars_escaped:
  "bars esc (replace_char (CHR 0x0A) '' '' (replace_char (CHR ''|'') [CHR 0x5C, CHR ''|''] xs)) = 0"
  by (induction xs arbitrary: esc) (auto simp: replace_char_def)

lemma bars_indent: "bars esc (md_indent d @ xs) = bars (if d = 0 then esc else False) xs"
  by (induction d arbitrary: esc) (auto simp: md_indent_def)

lemma bars_join:
  "cells \<noteq> [] \<Longrightarrow> \<forall>c \<in> set cells. bars False c = 0 \<Longrightarrow> bars False (join_with '' | '' cells) = length cells - 1"
proof (induction cells)
  case (Cons x xs)
  note IH = Cons.IH and prems = Cons.prems
  show ?case
  proof (cases xs)
    case (Cons y zs)
    then have j: "join_with '' | '' (x # xs) = x @ CHR '' '' # CHR ''|'' # CHR '' '' # join_with '' | '' xs" by simp
    have "bars False (join_with '' | '' (x # xs)) = bars False x + Suc (bars False (join_with '' | '' xs))"
      unfolding j by (simp add: bars_append_space)
    with IH prems show ?thesis by (simp add: Cons)
  qed (use prems in simp)
qed simp

lemma bars_table_row:
  assumes "cells \<noteq> []" and "\<forall>c \<in> set cells. bars False c = 0"
  shows "bars False (table_row (md_indent d) cells) = Suc (length cells)"
proof -
  have "table_row (md_indent d) cells = md_indent d @ CHR ''|'' # CHR '' '' # join_with '' | '' cells @ CHR '' '' # ''|''"
    by (simp add: table_row_def)
  then have "bars False (table_row (md_indent d) cells) = Suc (bars False (join_with '' | '' cells) + 1)"
    by (simp add: bars_indent bars_append_space)
  also have "\<dots> = Suc (length cells)" using bars_join [OF assms] assms(1) by (cases cells) simp_all
  finally show ?thesis .
qed

lemma bars_rule: "bars False (md_indent d @ ''|'' @ concat (map (\<lambda>_. '' --- |'') cols)) = Suc (length cols)"
proof -
  have "bars False (concat (map (\<lambda>_. '' --- |'') cols)) = length cols" by (induction cols) auto
  then show ?thesis by (simp add: bars_indent)
qed

lemma add_cols_set: "set (add_cols cols ks) = set cols \<union> set ks"
proof -
  have "set (foldl (\<lambda>cs k. if k \<in> set cs then cs else cs @ [k]) cols ks) = set cols \<union> set ks"
    by (induction ks arbitrary: cols) auto
  then show ?thesis by (simp add: add_cols_def)
qed

lemma table_cols_set: "set (table_cols items) = (\<Union>i \<in> set items. set (object_keys i))"
proof -
  have "set (foldl (\<lambda>cs i. add_cols cs (object_keys i)) cols items) = set cols \<union> (\<Union>i \<in> set items. set (object_keys i))"
    for cols by (induction items arbitrary: cols) (auto simp: add_cols_set)
  then show ?thesis by (simp add: table_cols_def)
qed

text \<open>
  When no key has a bar of its own, the header, the rule and every row of a table have one cell per column,
  whatever the values contain. The header is not escaped, so a key with a bar adds a cell to it alone.
\<close>

lemma table_rectangular:
  assumes "\<forall>i \<in> set items. \<forall>k \<in> set (object_keys i). CHR ''|'' \<notin> set k" and "table_cols items \<noteq> []"
    and "l \<in> set (table_lines ser items depth)"
  shows "bars False l = Suc (length (table_cols items))"
proof -
  have h: "\<forall>c \<in> set (table_cols items). bars False c = 0"
    using assms(1) by (auto simp: table_cols_set intro!: bars_none)
  have r: "\<forall>c \<in> set (row_cells ser (table_cols items) i). bars False c = 0" for i
    by (auto simp: row_cells_def md_cell_def bars_escaped split: option.split)
  have "length (row_cells ser (table_cols items) i) = length (table_cols items)"
    "row_cells ser (table_cols items) i \<noteq> []" for i
    using assms(2) by (simp_all add: row_cells_def)
  with assms(2,3) h r show ?thesis
    by (auto simp: table_lines_def Let_def bars_table_row bars_rule [simplified])
qed

lemma table_header_not_escaped:
  "map (bars False) (table_lines (\<lambda>_. []) [JObject [(''a|b'', JString ''x'')]] 0) = [3, 2, 2]"
  by code_simp

section \<open>Code fences\<close>

lemma split_lines_not_Nil [simp]: "split_lines s \<noteq> []"
  by (induction s) (auto split: list.splits)

lemma split_lines_part: "l \<in> set (split_lines s) \<Longrightarrow> \<exists>a b. s = a @ l @ b"
proof (induction s arbitrary: l)
  case (Cons c cs)
  obtain h t where ht: "split_lines cs = h # t" by (cases "split_lines cs") auto
  from Cons.prems consider "l = []" | "l = c # h" "c \<noteq> CHR 0x0A" | "l \<in> set (split_lines cs)"
    by (auto simp: ht split: if_splits)
  then show ?case
  proof cases
    case 2
    have "\<exists>b. cs = h @ b"
      using ht by (induction cs arbitrary: h t) (auto split: if_splits list.splits)
    with 2 show ?thesis by (metis append_Cons append_Nil)
  next
    case 3
    then show ?thesis using Cons.IH by (metis append_Cons)
  qed auto
qed simp

lemma str_lines_part: "l \<in> set (str_lines s) \<Longrightarrow> \<exists>a b. s = a @ l @ b"
proof -
  assume "l \<in> set (str_lines s)"
  then obtain l' where l': "l' \<in> set (split_lines s)" "l = strip_cr l' \<or> l = l'"
    by (auto simp: str_lines_def Let_def split: if_splits dest: in_set_butlastD intro: last_in_set [OF split_lines_not_Nil])
  then have "\<exists>b. l' = l @ b" by (auto simp: strip_cr_def) (metis append_butlast_last_id)
  with split_lines_part [OF l'(1)] show ?thesis by (metis append.assoc)
qed

text \<open>
  The lines inside a fence of a text cannot close it, unless the text has four backticks in a row: the
  fence is widened once only.
\<close>

lemma text_fence_closed:
  assumes "\<not> contains_str text ''````''" and "l \<in> set (str_lines text)"
  shows "\<not> contains_str l (md_fence text)"
proof -
  obtain a b where t: "text = a @ l @ b" using str_lines_part [OF assms(2)] by blast
  have "contains_str text p" if "contains_str l p" for p
    using that unfolding contains_str_iff t by (metis append.assoc)
  with assms(1) show ?thesis by (auto simp: md_fence_def)
qed

lemma text_fence_broken:
  "text_fence_lines (''x'' @ nl @ ''````'' @ nl @ ''y'') 0 = [''````'', ''x'', ''````'', ''y'', ''````'']"
  by code_simp

text \<open>The names of the formats round trip, in any case.\<close>

lemma response_format_roundtrip: "response_format_from_str (response_format_str f) = Inr f"
  by (cases f) (simp_all add: response_format_from_str_def response_format_str_def ascii_lower_def)

end
