(* ===== verification/SchemaView.thy ===== *)
theory SchemaView
  imports Json Render
begin

text \<open>
  The view of a tool's input schema that agents get (\<open>src/schema_view.rs\<close>): the first sentence of a
  description, capped; the one-line signature; and the projected schema, with boilerplate removed. The
  catalog keeps the original. Strings are UTF-8 byte sequences, cut into characters by \<open>utf8_chars\<close>; the Unicode
  table behind \<open>char::is_uppercase\<close> and serde's printer are the parameters \<open>upper\<close> and \<open>ser\<close>.

  The projection is shown to keep the meaning of a schema: \<open>valid\<close> is a reference semantics of JSON Schema.
\<close>

section \<open>Characters\<close>

lemma length_dropWhile_Suc [termination_simp]: "length (dropWhile P xs) < Suc (length xs)"
  by (simp add: length_dropWhile_le less_Suc_eq_le)

fun utf8_chars :: "string \<Rightarrow> string list" where
  "utf8_chars [] = []"
| "utf8_chars (b # bs) = (b # takeWhile is_continuation bs) # utf8_chars (dropWhile is_continuation bs)"

lemma utf8_chars_concat [simp]: "concat (utf8_chars s) = s"
  by (induction s rule: utf8_chars.induct) auto

definition is_whitespace :: "string \<Rightarrow> bool" where
  "is_whitespace ch = (ch \<in> set white_space)"

definition trim_end :: "string \<Rightarrow> string" where
  "trim_end s = rev (trim_start_with (map rev white_space) (rev s))"

text \<open>The code point of an encoded character.\<close>

definition code_point :: "string \<Rightarrow> nat" where
  "code_point ch =
     (case map of_char ch of
        [a] \<Rightarrow> a
      | [a, b] \<Rightarrow> (a mod 32) * 64 + b mod 64
      | [a, b, c] \<Rightarrow> (a mod 16) * 4096 + (b mod 64) * 64 + c mod 64
      | [a, b, c, d] \<Rightarrow> (a mod 8) * 262144 + (b mod 64) * 4096 + (c mod 64) * 64 + d mod 64
      | _ \<Rightarrow> 0)"

section \<open>Capped texts\<close>

definition TEXT_CAP :: nat where "TEXT_CAP = 200"

definition line_end :: "string \<Rightarrow> bool" where
  "line_end ch \<longleftrightarrow> ch = [CHR 0x0A] \<or> ch = [CHR 0x0D]"

definition is_cjk :: "string \<Rightarrow> bool" where
  "is_cjk ch =
     (let n = code_point ch
      in 0x4E00 \<le> n \<and> n \<le> 0x9FFF \<or> 0x3400 \<le> n \<and> n \<le> 0x4DBF \<or> 0x3000 \<le> n \<and> n \<le> 0x303F)"

text \<open>A sentence may open with a quotation mark (the last two are U+201C and U+2018) or a bracket.\<close>

definition sentence_opener :: "string \<Rightarrow> bool" where
  "sentence_opener ch \<longleftrightarrow>
     ch \<in> {[CHR 0x22], [CHR 0x27], [CHR 0xE2, CHR 0x80, CHR 0x9C], [CHR 0xE2, CHR 0x80, CHR 0x98], ''('', ''[''}"

fun sentence_gap :: "(string \<Rightarrow> bool) \<Rightarrow> string list \<Rightarrow> bool" where
  "sentence_gap upper [] = True"
| "sentence_gap upper (ch # rest) =
     (if line_end ch then True
      else if \<not> is_whitespace ch then upper ch \<or> is_cjk ch \<or> sentence_opener ch
      else sentence_gap upper rest)"

definition ascii_sentence_end :: "(string \<Rightarrow> bool) \<Rightarrow> string list \<Rightarrow> bool" where
  "ascii_sentence_end upper rest =
     (case rest of
        [] \<Rightarrow> True
      | first # later \<Rightarrow>
          if \<not> is_whitespace first then False
          else if line_end first then True
          else sentence_gap upper later)"

text \<open>The full stops U+3002, U+FF01 and U+FF1F end a sentence at once.\<close>

definition cjk_stop :: "string \<Rightarrow> bool" where
  "cjk_stop ch \<longleftrightarrow>
     ch \<in> {[CHR 0xE3, CHR 0x80, CHR 0x82], [CHR 0xEF, CHR 0xBC, CHR 0x81], [CHR 0xEF, CHR 0xBC, CHR 0x9F]}"

fun sentence_from :: "(string \<Rightarrow> bool) \<Rightarrow> string \<Rightarrow> string list \<Rightarrow> string" where
  "sentence_from upper seen [] = seen"
| "sentence_from upper seen (ch # rest) =
     (if line_end ch then trim_end seen
      else if cjk_stop ch then seen @ ch
      else if ch \<in> {''.'', ''!'', ''?''} \<and> ascii_sentence_end upper rest then seen @ ch
      else sentence_from upper (seen @ ch) rest)"

definition first_sentence :: "(string \<Rightarrow> bool) \<Rightarrow> string \<Rightarrow> string" where
  "first_sentence upper text = sentence_from upper [] (utf8_chars text)"

definition ellipsis :: string where "ellipsis = [CHR 0xE2, CHR 0x80, CHR 0xA6]"

definition cap_text :: "(string \<Rightarrow> bool) \<Rightarrow> string \<Rightarrow> string" where
  "cap_text upper text0 =
     (let text = trim text0
      in if text = [] then []
         else
           (let sentence = first_sentence upper text; count = length (utf8_chars sentence)
            in if count \<le> TEXT_CAP then sentence
               else concat (take (TEXT_CAP - 1) (utf8_chars sentence)) @ ellipsis))"

section \<open>Signatures\<close>

definition as_array :: "json \<Rightarrow> json list option" where
  "as_array v = (case v of JArray xs \<Rightarrow> Some xs | _ \<Rightarrow> None)"

definition required_names :: "json \<Rightarrow> string list" where
  "required_names schema =
     (case Option.bind (json_get schema ''required'') as_array of
        Some items \<Rightarrow> List.map_filter as_str items
      | None \<Rightarrow> [])"

definition is_ascii_alphabetic :: "char \<Rightarrow> bool" where
  "is_ascii_alphabetic c = (let n = (of_char c :: nat) in 65 \<le> n \<and> n \<le> 90 \<or> 97 \<le> n \<and> n \<le> 122)"

definition is_ident :: "string \<Rightarrow> bool" where
  "is_ident name =
     (case name of
        [] \<Rightarrow> False
      | c # cs \<Rightarrow> (c = CHR ''_'' \<or> is_ascii_alphabetic c) \<and> list_all (\<lambda>d. d = CHR ''_'' \<or> is_ascii_alphanumeric d) cs)"

definition display_name :: "(json \<Rightarrow> string) \<Rightarrow> string \<Rightarrow> string" where
  "display_name ser name = (if is_ident name then name else ser (JString name))"

definition is_scalar :: "json \<Rightarrow> bool" where
  "is_scalar v = (case v of JArray _ \<Rightarrow> False | JObject _ \<Rightarrow> False | _ \<Rightarrow> True)"

definition bar_join :: "string list \<Rightarrow> string" where
  "bar_join = join_with '' | ''"

definition small_enum :: "(json \<Rightarrow> string) \<Rightarrow> json option \<Rightarrow> string option" where
  "small_enum ser enum_value =
     (case Option.bind enum_value as_array of
        None \<Rightarrow> None
      | Some values \<Rightarrow>
          if values = [] \<or> length values > 6 then None
          else if \<not> list_all is_scalar values then None
          else
            (let rendered = bar_join (map ser values)
             in if length (utf8_chars rendered) \<le> 80 then Some rendered else None))"

text \<open>\<open>str::rsplit\<close> on either of two characters, then the first non-empty part.\<close>

fun split_when :: "(char \<Rightarrow> bool) \<Rightarrow> string \<Rightarrow> string list" where
  "split_when P [] = [[]]"
| "split_when P (c # cs) =
     (if P c then [] # split_when P cs
      else case split_when P cs of p # ps \<Rightarrow> (c # p) # ps | [] \<Rightarrow> [[c]])"

definition ref_label :: "string \<Rightarrow> string" where
  "ref_label reference =
     (case find (\<lambda>p. p \<noteq> []) (rev (split_when (\<lambda>c. c = CHR ''/'' \<or> c = CHR ''#'') reference)) of
        Some p \<Rightarrow> p
      | None \<Rightarrow> reference)"

definition join_unique :: "string list \<Rightarrow> string" where
  "join_unique items = (if items = [] then ''value'' else bar_join (rev (remdups (rev items))))"

lemma size_entry: "(k, c) \<in> set m \<Longrightarrow> size c < size_list (size_prod f size) m"
  by (induction m) auto

lemma size_elem: "(x :: json) \<in> set xs \<Longrightarrow> size x < size_list size xs"
  by (induction xs) auto

function type_stub :: "(json \<Rightarrow> string) \<Rightarrow> json \<Rightarrow> nat \<Rightarrow> string" where
  "type_stub ser v depth =
     (if depth > 8 then ''value''
      else
        (case v of
           JObject m \<Rightarrow>
             (case small_enum ser (map_of m ''enum'') of
                Some t \<Rightarrow> t
              | None \<Rightarrow>
             (case map_of m ''const'' of
                Some c \<Rightarrow> ser c
              | None \<Rightarrow>
             (case (case map_of m ''oneOf'' of Some x \<Rightarrow> Some x | None \<Rightarrow> map_of m ''anyOf'') of
                Some (JArray (b # bs)) \<Rightarrow> bar_join (rev (remdups (rev (map (\<lambda>x. type_stub ser x (depth + 1)) (b # bs)))))
              | _ \<Rightarrow>
             (case Option.bind (map_of m ''$ref'') as_str of
                Some r \<Rightarrow> ref_label r
              | None \<Rightarrow>
             (case map_of m ''type'' of
                Some (JString ty) \<Rightarrow>
                  if ty = ''array'' then
                    (case map_of m ''items'' of
                       None \<Rightarrow> ''array''
                     | Some x \<Rightarrow>
                         (let inner = type_stub ser x (depth + 1)
                          in if list_ex (\<lambda>c. c = CHR '' '' \<or> c = CHR ''|'') inner then ''('' @ inner @ '')[]'' else inner @ ''[]''))
                  else ty
              | Some (JArray types) \<Rightarrow> join_unique (List.map_filter as_str types)
              | _ \<Rightarrow> if map_of m ''properties'' \<noteq> None then ''object'' else ''value'')))))
         | _ \<Rightarrow> ''value''))"
  by pat_completeness auto
termination by (relation "measure (\<lambda>(_, _, depth). 9 - depth)") auto

declare type_stub.simps [simp del]

definition compact_signature :: "(json \<Rightarrow> string) \<Rightarrow> json \<Rightarrow> string" where
  "compact_signature ser schema =
     (case Option.bind (json_get schema ''properties'') as_object of
        None \<Rightarrow> []
      | Some properties \<Rightarrow>
          join_with '', '' (map (\<lambda>(name, property).
            display_name ser name @ (if name \<in> set (required_names schema) then [] else ''?'') @ '': '' @
            type_stub ser property 0) properties))"

section \<open>The projected schema\<close>

definition strip_entry :: "string \<Rightarrow> json \<Rightarrow> string option \<Rightarrow> bool" where
  "strip_entry key value name =
     (if key \<in> {''$schema'', ''$id'', ''example'', ''examples''} then True
      else if key = ''title'' then (case name of Some field \<Rightarrow> as_str value = Some field | None \<Rightarrow> False)
      else if key = ''description'' then (case as_str value of Some text \<Rightarrow> trim text = [] | None \<Rightarrow> False)
      else if key = ''additionalProperties'' then as_bool value = Some True
      else False)"

definition named_keywords :: "string set" where
  "named_keywords = {''properties'', ''patternProperties'', ''$defs'', ''definitions'', ''dependentSchemas''}"

definition schema_keywords :: "string set" where
  "schema_keywords =
     {''additionalProperties'', ''unevaluatedItems'', ''unevaluatedProperties'', ''contains'', ''propertyNames'',
      ''not'', ''if'', ''then'', ''else''}"

definition list_keywords :: "string set" where
  "list_keywords = {''oneOf'', ''anyOf'', ''allOf'', ''prefixItems''}"

function (sequential) project_node :: "(string \<Rightarrow> bool) \<Rightarrow> json \<Rightarrow> string option \<Rightarrow> json"
  and project_entry :: "(string \<Rightarrow> bool) \<Rightarrow> string \<Rightarrow> json \<Rightarrow> json"
  and project_named :: "(string \<Rightarrow> bool) \<Rightarrow> json \<Rightarrow> json"
  and project_items :: "(string \<Rightarrow> bool) \<Rightarrow> json \<Rightarrow> json"
  and project_schema_list :: "(string \<Rightarrow> bool) \<Rightarrow> json \<Rightarrow> json"
where
  "project_node upper (JObject m) name =
     JObject (map (\<lambda>(k, c). (k, project_entry upper k c)) (filter (\<lambda>(k, c). \<not> strip_entry k c name) m))"
| "project_node upper v name = v"
| "project_entry upper k v =
     (if k \<in> named_keywords then project_named upper v
      else if k = ''items'' then project_items upper v
      else if k \<in> schema_keywords then project_node upper v None
      else if k \<in> list_keywords then project_schema_list upper v
      else if k = ''description'' then (case as_str v of Some text \<Rightarrow> JString (cap_text upper text) | None \<Rightarrow> v)
      else v)"
| "project_named upper (JObject m) = JObject (map (\<lambda>(k, c). (k, project_node upper c (Some k))) m)"
| "project_named upper v = v"
| "project_items upper (JArray xs) = project_schema_list upper (JArray xs)"
| "project_items upper v = project_node upper v None"
| "project_schema_list upper (JArray xs) = JArray (map (\<lambda>x. project_node upper x None) xs)"
| "project_schema_list upper v = v"
  by pat_completeness auto
termination
  by (relation "measure (\<lambda>x. case x of
        Inl (Inl (_, v, _)) \<Rightarrow> 4 * size v
      | Inl (Inr (_, _, v)) \<Rightarrow> 4 * size v + 2
      | Inr (Inl (_, v)) \<Rightarrow> 4 * size v
      | Inr (Inr (Inl (_, v))) \<Rightarrow> 4 * size v + 1
      | Inr (Inr (Inr (_, v))) \<Rightarrow> 4 * size v)")
    (auto dest!: size_entry [where f = "\<lambda>_. 0"] size_elem)

declare project_entry.simps [simp del]

lemmas keyword_classes = named_keywords_def schema_keywords_def list_keywords_def

lemma keyword_classes_disjoint:
  "k \<in> schema_keywords \<Longrightarrow> k \<notin> named_keywords \<and> k \<noteq> ''items''"
  "k \<in> list_keywords \<Longrightarrow> k \<notin> named_keywords \<and> k \<noteq> ''items'' \<and> k \<notin> schema_keywords"
  by (auto simp: keyword_classes)

lemma project_entry_at:
  "k \<in> named_keywords \<Longrightarrow> project_entry u k c = project_named u c"
  "project_entry u ''items'' c = project_items u c"
  "k \<in> schema_keywords \<Longrightarrow> project_entry u k c = project_node u c None"
  "k \<in> list_keywords \<Longrightarrow> project_entry u k c = project_schema_list u c"
  "k \<notin> named_keywords \<Longrightarrow> k \<noteq> ''items'' \<Longrightarrow> k \<notin> schema_keywords \<Longrightarrow> k \<notin> list_keywords \<Longrightarrow> k \<noteq> ''description'' \<Longrightarrow>
     project_entry u k c = c"
  by (simp_all add: project_entry.simps keyword_classes_disjoint) (simp add: keyword_classes)

definition project_schema :: "(string \<Rightarrow> bool) \<Rightarrow> json \<Rightarrow> json" where
  "project_schema upper schema = project_node upper schema None"

section \<open>A reference semantics of schemas\<close>

text \<open>
  \<open>valid e schema v\<close>: the value satisfies the schema. The applicators of JSON Schema are spelled out; a keyword that
  looks at the value alone (\<open>type\<close>, \<open>enum\<close>, \<open>required\<close>, \<open>minimum\<close> and so on) is left to
  \<open>kv_leaf\<close>, and regular expressions and the bounds of \<open>contains\<close> to the other two functions. What a
  keyword needs to know of its siblings is its \<open>siblings\<close> record.
\<close>

record keyword_env =
  kv_leaf :: "string \<Rightarrow> json \<Rightarrow> json \<Rightarrow> bool"
  kv_matches :: "string \<Rightarrow> string \<Rightarrow> bool"
  kv_count :: "json option \<Rightarrow> json option \<Rightarrow> nat \<Rightarrow> bool"

record siblings =
  sb_names :: "string list"
  sb_patterns :: "string list"
  sb_prefix :: nat
  sb_min :: "json option"
  sb_max :: "json option"

definition entry_names :: "json option \<Rightarrow> string list" where
  "entry_names c = (case c of Some (JObject m) \<Rightarrow> map fst m | _ \<Rightarrow> [])"

definition entry_count :: "json option \<Rightarrow> nat" where
  "entry_count c = (case c of Some (JArray xs) \<Rightarrow> length xs | _ \<Rightarrow> 0)"

definition siblings_of :: "(string \<times> json) list \<Rightarrow> siblings" where
  "siblings_of m =
     \<lparr>sb_names = entry_names (map_of m ''properties''), sb_patterns = entry_names (map_of m ''patternProperties''),
      sb_prefix = entry_count (map_of m ''prefixItems''), sb_min = map_of m ''minContains'', sb_max = map_of m ''maxContains''\<rparr>"

definition obj_fields :: "json \<Rightarrow> (string \<times> json) list" where
  "obj_fields v = (case v of JObject m \<Rightarrow> m | _ \<Rightarrow> [])"

definition elements :: "json \<Rightarrow> json list" where
  "elements v = (case v of JArray xs \<Rightarrow> xs | _ \<Rightarrow> [])"

definition annotations :: "string set" where
  "annotations =
     {''$schema'', ''$id'', ''title'', ''description'', ''example'', ''examples'', ''$defs'', ''definitions'', ''if'', ''then'', ''else''}"

lemma size_field: "(k, s) \<in> set (obj_fields c) \<Longrightarrow> size s < size c"
  by (cases c) (auto simp: obj_fields_def dest: size_entry [where f = "\<lambda>_. 0"])

lemma size_element: "s \<in> set (elements c) \<Longrightarrow> size s < size c"
  by (cases c) (auto simp: elements_def dest: size_elem)

lemma size_map_of: "map_of m k = Some c \<Longrightarrow> size c < size (JObject m)"
  using size_entry [OF map_of_SomeD, where f = "\<lambda>_. 0"] by fastforce

lemma size_valid_entry: "(k, c) \<in> set m \<Longrightarrow> Suc (2 * size c) < 2 * size (JObject m)"
  using size_entry [of k c m "\<lambda>_. 0"] by simp

lemma size_valid_elem: "s \<in> set ss \<Longrightarrow> 2 * size s < Suc (2 * size (JArray ss))"
  using size_elem [of s ss] by simp

function (sequential) valid :: "keyword_env \<Rightarrow> json \<Rightarrow> json \<Rightarrow> bool"
  and keyword :: "keyword_env \<Rightarrow> siblings \<Rightarrow> string \<Rightarrow> json \<Rightarrow> json \<Rightarrow> bool"
where
  "valid e (JBool b) v = b"
| "valid e (JObject m) v =
     (list_all (\<lambda>(k, c). keyword e (siblings_of m) k c v) m \<and>
      (case map_of m ''if'' of
         None \<Rightarrow> True
       | Some c \<Rightarrow>
           if valid e c v then (case map_of m ''then'' of Some t \<Rightarrow> valid e t v | None \<Rightarrow> True)
           else (case map_of m ''else'' of Some t \<Rightarrow> valid e t v | None \<Rightarrow> True)))"
| "valid e _ v = True"
| "keyword e sb k c v =
     (if k \<in> annotations then True
      else if k = ''properties'' then
        list_all (\<lambda>(n, s). case map_of (obj_fields v) n of Some w \<Rightarrow> valid e s w | None \<Rightarrow> True) (obj_fields c)
      else if k = ''patternProperties'' then
        list_all (\<lambda>(n, s). list_all (\<lambda>(f, w). kv_matches e n f \<longrightarrow> valid e s w) (obj_fields v)) (obj_fields c)
      else if k = ''dependentSchemas'' then
        list_all (\<lambda>(n, s). map_of (obj_fields v) n \<noteq> None \<longrightarrow> valid e s v) (obj_fields c)
      else if k = ''additionalProperties'' then
        list_all (\<lambda>(f, w). f \<in> set (sb_names sb) \<or> list_ex (\<lambda>n. kv_matches e n f) (sb_patterns sb) \<or> valid e c w) (obj_fields v)
      else if k = ''propertyNames'' then list_all (\<lambda>(f, w). valid e c (JString f)) (obj_fields v)
      else if k = ''items'' then
        (case c of
           JArray ss \<Rightarrow> list_all (\<lambda>(s, w). valid e s w) (zip ss (elements v))
         | _ \<Rightarrow> list_all (\<lambda>w. valid e c w) (drop (sb_prefix sb) (elements v)))
      else if k = ''prefixItems'' then list_all (\<lambda>(s, w). valid e s w) (zip (elements c) (elements v))
      else if k = ''contains'' then
        (\<forall>xs. v = JArray xs \<longrightarrow> kv_count e (sb_min sb) (sb_max sb) (length (filter (\<lambda>w. valid e c w) xs)))
      else if k = ''not'' then \<not> valid e c v
      else if k = ''allOf'' then list_all (\<lambda>s. valid e s v) (elements c)
      else if k = ''anyOf'' then list_ex (\<lambda>s. valid e s v) (elements c)
      else if k = ''oneOf'' then length (filter (\<lambda>s. valid e s v) (elements c)) = 1
      else kv_leaf e k c v)"
  by pat_completeness auto
termination
  by (relation "measure (\<lambda>x. case x of Inl (_, s, _) \<Rightarrow> 2 * size s | Inr (_, _, _, c, _) \<Rightarrow> 2 * size c + 1)")
    (auto dest!: size_map_of set_zip_leftD dest: size_field size_element size_valid_entry size_valid_elem)

declare keyword.simps [simp del]

lemma keyword_at:
  "k \<in> annotations \<Longrightarrow> keyword e sb k c v"
  "keyword e sb ''properties'' c v =
     list_all (\<lambda>(n, s). case map_of (obj_fields v) n of Some w \<Rightarrow> valid e s w | None \<Rightarrow> True) (obj_fields c)"
  "keyword e sb ''patternProperties'' c v =
     list_all (\<lambda>(n, s). list_all (\<lambda>(f, w). kv_matches e n f \<longrightarrow> valid e s w) (obj_fields v)) (obj_fields c)"
  "keyword e sb ''dependentSchemas'' c v =
     list_all (\<lambda>(n, s). map_of (obj_fields v) n \<noteq> None \<longrightarrow> valid e s v) (obj_fields c)"
  "keyword e sb ''additionalProperties'' c v =
     list_all (\<lambda>(f, w). f \<in> set (sb_names sb) \<or> list_ex (\<lambda>n. kv_matches e n f) (sb_patterns sb) \<or> valid e c w) (obj_fields v)"
  "keyword e sb ''propertyNames'' c v = list_all (\<lambda>(f, w). valid e c (JString f)) (obj_fields v)"
  "keyword e sb ''items'' c v =
     (case c of
        JArray ss \<Rightarrow> list_all (\<lambda>(s, w). valid e s w) (zip ss (elements v))
      | _ \<Rightarrow> list_all (\<lambda>w. valid e c w) (drop (sb_prefix sb) (elements v)))"
  "keyword e sb ''prefixItems'' c v = list_all (\<lambda>(s, w). valid e s w) (zip (elements c) (elements v))"
  "keyword e sb ''contains'' c v =
     (\<forall>xs. v = JArray xs \<longrightarrow> kv_count e (sb_min sb) (sb_max sb) (length (filter (\<lambda>w. valid e c w) xs)))"
  "keyword e sb ''not'' c v = (\<not> valid e c v)"
  "keyword e sb ''allOf'' c v = list_all (\<lambda>s. valid e s v) (elements c)"
  "keyword e sb ''anyOf'' c v = list_ex (\<lambda>s. valid e s v) (elements c)"
  "keyword e sb ''oneOf'' c v = (length (filter (\<lambda>s. valid e s v) (elements c)) = 1)"
  by (simp_all add: keyword.simps annotations_def)

section \<open>The projection keeps the meaning\<close>

text \<open>
  References (\<open>$ref\<close> and its kin) and the two \<open>unevaluated\<close> keywords depend on more than the node they stand in and its
  subschemas; \<open>self_contained\<close> schemas do without them.
\<close>

definition outward_keywords :: "string list" where
  "outward_keywords = [''$ref'', ''$dynamicRef'', ''$recursiveRef'', ''unevaluatedItems'', ''unevaluatedProperties'']"

function (sequential) self_contained :: "json \<Rightarrow> bool" where
  "self_contained (JObject m) = list_all (\<lambda>(k, c). k \<notin> set outward_keywords \<and> self_contained c) m"
| "self_contained (JArray xs) = list_all self_contained xs"
| "self_contained v = True"
  by pat_completeness auto

termination
  by (relation "measure size") (auto dest: size_entry [where f = "\<lambda>_. 0"] size_elem)

lemma self_contained_parts:
  "self_contained c \<Longrightarrow> (k, s) \<in> set (obj_fields c) \<Longrightarrow> self_contained s"
  "self_contained c \<Longrightarrow> s \<in> set (elements c) \<Longrightarrow> self_contained s"
  by (cases c; force simp: obj_fields_def elements_def list_all_iff)+

lemma obj_fields_named:
  "obj_fields (project_named u c) = map (\<lambda>(n, s). (n, project_node u s (Some n))) (obj_fields c)"
  by (cases c) (simp_all add: obj_fields_def)

lemma elements_projected: "elements (project_schema_list u c) = map (\<lambda>s. project_node u s None) (elements c)"
  by (cases c) (simp_all add: elements_def)

lemma project_node_array: "(\<exists>xs. project_node u c name = JArray xs) \<longleftrightarrow> (\<exists>xs. c = JArray xs)"
  by (cases c) simp_all

lemma project_lookup:
  assumes "\<And>c. \<not> strip_entry k c name"
  shows "map_of (map (\<lambda>(k, c). (k, project_entry u k c)) (filter (\<lambda>(k, c). \<not> strip_entry k c name) m)) k =
    map_option (project_entry u k) (map_of m k)"
  using assms by (induction m) auto

lemma siblings_projected:
  "siblings_of (map (\<lambda>(k, c). (k, project_entry u k c)) (filter (\<lambda>(k, c). \<not> strip_entry k c name) m)) = siblings_of m"
proof -
  have n: "entry_names (map_option (project_named u) x) = entry_names x" for x
  proof (cases x)
    case (Some c)
    then show ?thesis by (cases c) (auto simp: entry_names_def)
  qed (simp add: entry_names_def)
  have l: "entry_count (map_option (project_schema_list u) x) = entry_count x" for x
  proof (cases x)
    case (Some c)
    then show ?thesis by (cases c) (auto simp: entry_count_def)
  qed (simp add: entry_count_def)
  have "project_entry u k = project_named u" if "k \<in> named_keywords" for k
    using project_entry_at(1) [OF that] by blast
  then have e: "project_entry u ''properties'' = project_named u" "project_entry u ''patternProperties'' = project_named u"
    by (simp_all add: named_keywords_def)
  have p: "project_entry u ''prefixItems'' = project_schema_list u"
    using project_entry_at(4) [of "''prefixItems''"] by (auto simp: list_keywords_def)
  have "project_entry u k = id" if "k \<in> {''minContains'', ''maxContains''}" for k
    using that project_entry_at(5) [of k] by (auto simp: keyword_classes)
  then have i: "project_entry u ''minContains'' = id" "project_entry u ''maxContains'' = id" by simp_all
  have "\<not> strip_entry k c name" if "k \<in> {''properties'', ''patternProperties'', ''prefixItems'', ''minContains'', ''maxContains''}" for k c
    using that by (auto simp: strip_entry_def)
  then show ?thesis by (simp add: siblings_of_def project_lookup e p i n l option.map_id)
qed

lemma keyword_projected:
  assumes IH: "\<And>s v name. size s < n \<Longrightarrow> self_contained s \<Longrightarrow> valid e (project_node u s name) v = valid e s v"
    and "size c < n" and "self_contained c" and "k \<notin> set outward_keywords"
  shows "keyword e sb k (project_entry u k c) v = keyword e sb k c v"
proof -
  have f: "valid e (project_node u s name) w = valid e s w" if "(i, s) \<in> set (obj_fields c)" for i s w name
    using IH size_field [OF that] self_contained_parts(1) [OF assms(3) that] assms(2) by force
  have l: "valid e (project_node u s name) w = valid e s w" if "s \<in> set (elements c)" for s w name
    using IH size_element [OF that] self_contained_parts(2) [OF assms(3) that] assms(2) by force
  have c: "valid e (project_node u c name) w = valid e c w" for w name using IH assms(2,3) by blast
  have z: "list_all (\<lambda>(s, w). valid e s w) (zip (map (\<lambda>s. project_node u s None) (elements c)) ws) =
      list_all (\<lambda>(s, w). valid e s w) (zip (elements c) ws)" for ws
    unfolding zip_map1 list.pred_map by (rule list.pred_cong) (auto simp: l dest: set_zip_leftD)
  consider "k \<in> annotations" | (named) "k \<in> {''properties'', ''patternProperties'', ''dependentSchemas''}" | (items) "k = ''items''"
    | (schema) "k \<in> {''additionalProperties'', ''propertyNames'', ''contains'', ''not''}"
    | (list) "k \<in> {''allOf'', ''anyOf'', ''oneOf'', ''prefixItems''}" | (leaf) "project_entry u k c = c"
    using assms(4) project_entry_at(5) [of k u c]
    by (auto simp: keyword_classes annotations_def outward_keywords_def)
  then show ?thesis
  proof cases
    case named
    then have "project_entry u k c = project_named u c" by (auto simp: project_entry_at(1) named_keywords_def)
    moreover have "valid e (project_node u (snd x) name) w = valid e (snd x) w" if "x \<in> set (obj_fields c)" for x w name
      using f [of "fst x" "snd x"] that by simp
    ultimately show ?thesis using named
      by (elim insertE emptyE) (simp_all add: keyword_at obj_fields_named list_all_iff split_beta split: option.split)
  next
    case items
    show ?thesis
    proof (cases "\<exists>ss. c = JArray ss")
      case True
      then obtain ss where "c = JArray ss" by blast
      then show ?thesis using items z by (simp add: keyword_at project_entry_at(2) elements_def)
    next
      case False
      have n: "project_items u c = project_node u c None" using False by (cases c) auto
      have k: "keyword e sb ''items'' d v = list_all (\<lambda>w. valid e d w) (drop (sb_prefix sb) (elements v))"
        if "\<nexists>ss. d = JArray ss" for d
        using that by (cases d) (simp_all add: keyword_at del: valid.simps)
      have "\<nexists>ss. project_node u c None = JArray ss" using False project_node_array by blast
      then show ?thesis using items k [OF False] k n by (simp add: project_entry_at(2) c)
    qed
  next
    case schema
    then have "project_entry u k c = project_node u c None" by (auto simp: project_entry_at(3) schema_keywords_def)
    then show ?thesis using schema c by (elim insertE emptyE) (simp_all add: keyword_at)
  next
    case list
    then have "project_entry u k c = project_schema_list u c" by (auto simp: project_entry_at(4) list_keywords_def)
    moreover have "filter (\<lambda>s. valid e (project_node u s None) v) (elements c) = filter (\<lambda>s. valid e s v) (elements c)"
      by (rule filter_cong) (simp_all add: l)
    moreover have "list_all (\<lambda>s. valid e (project_node u s None) v) (elements c) = list_all (\<lambda>s. valid e s v) (elements c)"
      by (rule list.pred_cong) (simp_all add: l)
    moreover have "list_ex (\<lambda>s. valid e (project_node u s None) v) (elements c) = list_ex (\<lambda>s. valid e s v) (elements c)"
      by (rule list_ex_cong) (simp_all add: l)
    ultimately show ?thesis using list z
      by (elim insertE emptyE)
        (simp_all add: keyword_at elements_projected list.pred_map filter_map comp_def list_ex_iff)
  qed (simp_all add: keyword_at)
qed

lemma stripped_keyword:
  assumes "strip_entry k c name"
  shows "keyword e sb k c v"
proof (cases "k \<in> annotations")
  case False
  then have "k = ''additionalProperties''" "c = JBool True"
    using assms by (auto simp: strip_entry_def annotations_def as_bool_def split: if_splits json.splits)
  then show ?thesis by (simp add: keyword_at list_all_iff split_beta)
qed (simp add: keyword.simps)

lemma valid_projected: "self_contained s \<Longrightarrow> valid e (project_node u s name) v \<longleftrightarrow> valid e s v"
proof (induction "size s" arbitrary: s v name rule: less_induct)
  case less
  show ?case
  proof (cases s)
    case (JObject m)
    let ?m = "map (\<lambda>(k, c). (k, project_entry u k c)) (filter (\<lambda>(k, c). \<not> strip_entry k c name) m)"
    have sc: "k \<notin> set outward_keywords \<and> self_contained c" if "(k, c) \<in> set m" for k c
      using less.prems that JObject by (auto simp: list_all_iff)
    have kw: "keyword e sb k (project_entry u k c) v = keyword e sb k c v" if "(k, c) \<in> set m" for k c sb
      using keyword_projected [of "size s" e u c k sb v] less.hyps sc [OF that] JObject
        size_entry [OF that, of "\<lambda>_. 0"] by auto
    have kws: "list_all (\<lambda>(k, c). keyword e (siblings_of ?m) k c v) ?m =
        list_all (\<lambda>(k, c). keyword e (siblings_of m) k c v) m"
      unfolding siblings_projected using stripped_keyword [of _ _ name e "siblings_of m" v] by (force simp: list_all_iff kw split_beta)
    have it: "map_of ?m k = map_option (\<lambda>c. project_node u c None) (map_of m k)" if "k \<in> {''if'', ''then'', ''else''}" for k
    proof -
      have "\<not> strip_entry k c name" for c using that by (auto simp: strip_entry_def)
      moreover have "project_entry u k = (\<lambda>c. project_node u c None)"
        using that by (auto simp: fun_eq_iff project_entry_at keyword_classes)
      ultimately show ?thesis using project_lookup [of k name u m] by simp
    qed
    have c: "valid e (project_node u c None) v = valid e c v" if "map_of m k = Some c" for k c
      using less.hyps size_map_of [OF that] sc [OF map_of_SomeD [OF that]] JObject by auto
    show ?thesis unfolding JObject project_node.simps(1) valid.simps(2) kws it [of "''if''", simplified]
      it [of "''then''", simplified] it [of "''else''", simplified]
      by (auto simp: c split: option.splits)
  qed simp_all
qed

text \<open>C8: the projected schema that agents see means the same as the original: for every reading of the keywords that
  look at a value alone, exactly the same arguments satisfy both. (The schema has no references and none of the
  two keywords that look at sibling results.)\<close>

theorem projection_keeps_meaning:
  assumes "self_contained schema"
  shows "valid e (project_schema upper schema) v \<longleftrightarrow> valid e schema v"
  unfolding project_schema_def by (rule valid_projected [OF assms])

section \<open>Capped texts fit\<close>

lemma utf8_chars_hd:
  "d = [] \<or> \<not> is_continuation (hd d) \<Longrightarrow> r = [] \<or> \<not> is_continuation (hd r) \<Longrightarrow>
   x = concat (take i (utf8_chars d)) @ r \<Longrightarrow> x = [] \<or> \<not> is_continuation (hd x)"
  by (cases d; cases i) auto

lemma while_none: "x = [] \<or> \<not> P (hd x) \<Longrightarrow> takeWhile P x = [] \<and> dropWhile P x = x"
  by (cases x) auto

lemma utf8_chars_take:
  "r = [] \<or> \<not> is_continuation (hd r) \<Longrightarrow> utf8_chars (concat (take n (utf8_chars s)) @ r) = take n (utf8_chars s) @ utf8_chars r"
proof (induction s arbitrary: n rule: utf8_chars.induct)
  case (2 b bs)
  show ?case
  proof (cases n)
    case (Suc i)
    let ?d = "dropWhile is_continuation bs"
    let ?x = "concat (take i (utf8_chars ?d)) @ r"
    have d: "?d = [] \<or> \<not> is_continuation (hd ?d)" using hd_dropWhile by blast
    have "?x = [] \<or> \<not> is_continuation (hd ?x)"
      by (rule utf8_chars_hd [OF d 2(2) refl])
    then have x: "takeWhile is_continuation ?x = []" "dropWhile is_continuation ?x = ?x"
      using while_none [of ?x is_continuation] by blast+
    have "\<forall>c \<in> set (takeWhile is_continuation bs). is_continuation c" using set_takeWhileD by fastforce
    then have "takeWhile is_continuation (takeWhile is_continuation bs @ ?x) = takeWhile is_continuation bs"
      and "dropWhile is_continuation (takeWhile is_continuation bs @ ?x) = ?x"
      unfolding takeWhile_append2 dropWhile_append2 using x by simp_all
    then show ?thesis using 2(1) [OF 2(2), of i] Suc by simp
  qed simp
qed simp

lemma cap_text_fits: "length (utf8_chars (cap_text upper t)) \<le> TEXT_CAP"
proof -
  have e: "utf8_chars ellipsis = [ellipsis]" by (simp add: ellipsis_def is_continuation_def)
  have "\<not> is_continuation (hd ellipsis)" by (simp add: ellipsis_def is_continuation_def)
  then show ?thesis
    by (auto simp: cap_text_def Let_def utf8_chars_take e TEXT_CAP_def)
qed

section \<open>Runs\<close>

definition example_schema :: json where
  "example_schema =
     JObject
       [(''$schema'', JString ''http''), (''type'', JString ''object''),
        (''properties'', JObject [(''q'', JObject [(''title'', JString ''q''), (''type'', JString ''string'')])]),
        (''required'', JArray [JString ''q'']), (''additionalProperties'', JBool True)]"

definition example_keywords :: keyword_env where
  "example_keywords =
     \<lparr>kv_leaf = (\<lambda>k c v. k = ''type'' \<longrightarrow> (c = JString ''object'' \<longleftrightarrow> (\<exists>m. v = JObject m))),
      kv_matches = (\<lambda>_ _. False), kv_count = (\<lambda>_ _ n. n > 0)\<rparr>"

lemma example_projected:
  "project_schema (\<lambda>_. False) example_schema =
     JObject
       [(''type'', JString ''object''), (''properties'', JObject [(''q'', JObject [(''type'', JString ''string'')])]),
        (''required'', JArray [JString ''q''])]"
  by (simp add: project_schema_def example_schema_def strip_entry_def as_str_def as_bool_def project_entry.simps
      keyword_classes)

theorem projection_keeps_meaning_witness:
  "self_contained example_schema \<and>
   valid example_keywords (JObject
       [(''type'', JString ''object''), (''properties'', JObject [(''q'', JObject [(''type'', JString ''string'')])]),
        (''required'', JArray [JString ''q''])]) (JObject [(''q'', JString ''x'')]) =
     valid example_keywords example_schema (JObject [(''q'', JString ''x'')])"
proof -
  have s: "self_contained example_schema" by (simp add: example_schema_def outward_keywords_def)
  show ?thesis using s projection_keeps_meaning [OF s, of example_keywords "\<lambda>_. False" "JObject [(''q'', JString ''x'')]"]
    unfolding example_projected by simp
qed

end
