(* ===== verification/Expiring.thy ===== *)
theory Expiring
  imports Prelude
begin

text \<open>
  The contract of the gateway's in-memory stores whose entries expire (the secret cache, the
  shaping cache and the pending OAuth authorizations): a value that a lookup returns was
  stored under that key, less than the time to live ago, and not replaced since. The stores may drop
  entries early (eviction, one-time use), never invent or prolong one. The locale states what one
  operation promises; its lemma carries the promise over any sequence of timed operations.
\<close>

datatype ('k, 'v) store_op = Put 'k 'v | Look 'k

fun put_of :: "('k, 'v) store_op \<Rightarrow> ('k \<times> 'v) option" where
  "put_of (Put k v) = Some (k, v)"
| "put_of (Look k) = None"

text \<open>The last value stored under a key in a trace of timed operations, with its time.\<close>

fun last_put :: "(instant \<times> ('k, 'v) store_op) list \<Rightarrow> 'k \<Rightarrow> (instant \<times> 'v) option" where
  "last_put [] k = None"
| "last_put ((t, x) # xs) k =
     (case last_put xs k of
        Some r \<Rightarrow> Some r
      | None \<Rightarrow> (case put_of x of Some (k', v) \<Rightarrow> if k' = k then Some (t, v) else None | None \<Rightarrow> None))"

lemma last_put_append:
  "last_put (xs @ ys) k = (case last_put ys k of Some r \<Rightarrow> Some r | None \<Rightarrow> last_put xs k)"
  by (induction xs) (auto split: option.splits)

fun store_step ::
  "('s \<Rightarrow> instant \<Rightarrow> 'k \<Rightarrow> 'v \<Rightarrow> 's) \<Rightarrow> ('s \<Rightarrow> instant \<Rightarrow> 'k \<Rightarrow> 'v option \<times> 's) \<Rightarrow>
   's \<Rightarrow> instant \<times> ('k, 'v) store_op \<Rightarrow> 's" where
  "store_step put get s (t, Put k v) = put s t k v"
| "store_step put get s (t, Look k) = snd (get s t k)"

locale expiring_store =
  fixes inv :: "'s \<Rightarrow> bool"
    and ttl :: "'s \<Rightarrow> duration"
    and alive :: "'s \<Rightarrow> instant \<Rightarrow> 'k \<Rightarrow> 'v option"
    and put :: "'s \<Rightarrow> instant \<Rightarrow> 'k \<Rightarrow> 'v \<Rightarrow> 's"
    and get :: "'s \<Rightarrow> instant \<Rightarrow> 'k \<Rightarrow> 'v option \<times> 's"
  assumes get_value: "inv s \<Longrightarrow> fst (get s now k) = alive s now k"
    and get_shrinks: "inv s \<Longrightarrow> now \<le> t \<Longrightarrow> alive (snd (get s now k)) t k' = Some w \<Longrightarrow> alive s t k' = Some w"
    and put_same: "inv s \<Longrightarrow> now \<le> t \<Longrightarrow> alive (put s now k v) t k = Some w \<Longrightarrow> w = v \<and> t < now + ttl s"
    and put_other: "inv s \<Longrightarrow> now \<le> t \<Longrightarrow> k' \<noteq> k \<Longrightarrow> alive (put s now k v) t k' = Some w \<Longrightarrow> alive s t k' = Some w"
    and ttl_put: "ttl (put s now k v) = ttl s"
    and ttl_get: "ttl (snd (get s now k)) = ttl s"
    and inv_put: "inv s \<Longrightarrow> inv (put s now k v)"
    and inv_get: "inv s \<Longrightarrow> inv (snd (get s now k))"
begin

abbreviation step :: "'s \<Rightarrow> instant \<times> ('k, 'v) store_op \<Rightarrow> 's" where
  "step \<equiv> store_step put get"

lemma ttl_step: "ttl (step s x) = ttl s"
  by (cases "(put, get, s, x)" rule: store_step.cases) (simp_all add: ttl_put ttl_get)

lemma ttl_run: "ttl (foldl step s xs) = ttl s"
  by (induction xs arbitrary: s) (simp_all add: ttl_step)

lemma inv_run: "inv s \<Longrightarrow> inv (foldl step s xs)"
proof (induction xs arbitrary: s)
  case (Cons x xs)
  moreover have "inv (step s x)"
    using Cons.prems by (cases "(put, get, s, x)" rule: store_step.cases) (simp_all add: inv_put inv_get)
  ultimately show ?case by simp
qed simp

lemma provenance:
  assumes i: "inv s" and empty: "\<And>t k. alive s t k = None"
  shows "sorted (map fst xs) \<Longrightarrow> \<forall>x \<in> set xs. fst x \<le> t \<Longrightarrow> alive (foldl step s xs) t k = Some w \<Longrightarrow>
     \<exists>t0. last_put xs k = Some (t0, w) \<and> t0 \<le> t \<and> t < t0 + ttl s"
proof (induction xs rule: rev_induct)
  case Nil
  then show ?case by (simp add: empty)
next
  case (snoc x xs)
  obtain u z where x: "x = (u, z)" by force
  from snoc.prems have srt: "sorted (map fst xs)" and le: "\<forall>x \<in> set xs. fst x \<le> t" and ut: "u \<le> t"
    by (auto simp: sorted_append x)
  let ?s = "foldl step s xs"
  have iv: "inv ?s" by (rule inv_run [OF i])
  from snoc.prems(3) have al: "alive (step ?s (u, z)) t k = Some w" by (simp add: x)
  show ?case
  proof (cases "\<exists>v. z = Put k v")
    case True
    then obtain v where "z = Put k v" ..
    with al put_same [OF iv ut, of k v w] have "w = v" "t < u + ttl s" by (simp_all add: ttl_run)
    with \<open>z = Put k v\<close> ut show ?thesis by (simp add: last_put_append x)
  next
    case False
    then have "alive ?s t k = Some w"
      using al by (cases z) (auto dest: put_other [OF iv ut, rotated] get_shrinks [OF iv ut])
    with snoc.IH [OF srt le] False show ?thesis
      by (cases z) (auto simp: last_put_append x split: option.splits)
  qed
qed

lemma get_provenance:
  assumes "inv s" "\<And>t k. alive s t k = None" "sorted (map fst xs)" "\<forall>x \<in> set xs. fst x \<le> t"
    and "fst (get (foldl step s xs) t k) = Some w"
  shows "\<exists>t0. last_put xs k = Some (t0, w) \<and> t0 \<le> t \<and> t < t0 + ttl s"
  using provenance [OF assms(1-4)] assms(5) by (simp add: get_value inv_run assms(1))

end

end
