(* ===== verification/Secrets.thy ===== *)
theory Secrets
  imports Errors Expiring
begin

text \<open>
  Secret references and their resolution (\<open>src/secrets/\<close>, \<open>src/observability/redaction.rs\<close>):
  the \<open>secret://backend/path\<close> form, its redaction, the cache of remote secrets and the
  dispatching store with its Vault and Infisical back ends. Environment variables, files,
  the HTTP client, serde and the \<open>backon\<close> retry combinator are parameters (\<open>secret_env\<close>).
\<close>

section \<open>Redaction\<close>

definition KNOWN_KEY_PREFIXES :: "string list" where
  "KNOWN_KEY_PREFIXES = [''sk-'', ''sk_'', ''pk-'', ''pk_'']"

definition KEY_PREFIX_LEN :: nat where "KEY_PREFIX_LEN = 4"
definition KEY_SUFFIX_LEN :: nat where "KEY_SUFFIX_LEN = 4"

fun strip_first_prefix :: "string list \<Rightarrow> string \<Rightarrow> string" where
  "strip_first_prefix [] s = s"
| "strip_first_prefix (p # ps) s =
     (case strip_prefix p s of Some r \<Rightarrow> r | None \<Rightarrow> strip_first_prefix ps s)"

definition strip_key_prefix :: "string \<Rightarrow> string" where
  "strip_key_prefix plaintext = strip_first_prefix KNOWN_KEY_PREFIXES plaintext"

definition ellipsis :: string where
  "ellipsis = map char_of [226, 128, 166 :: nat]"

definition redact_secret_key :: "string \<Rightarrow> string option" where
  "redact_secret_key plaintext =
     (let body = strip_key_prefix plaintext
      in if length body < KEY_PREFIX_LEN + KEY_SUFFIX_LEN then Some ''<redacted>''
         else if is_char_boundary body KEY_PREFIX_LEN \<and>
                 is_char_boundary body (length body - KEY_SUFFIX_LEN)
         then Some (''key:'' @ take KEY_PREFIX_LEN body @ ellipsis @ drop (length body - KEY_SUFFIX_LEN) body)
         else None)"

definition redact_secret_ref :: "string \<Rightarrow> string" where
  "redact_secret_ref secret_ref =
     (case strip_prefix ''secret://'' secret_ref of
        None \<Rightarrow> ''<redacted>''
      | Some rest \<Rightarrow>
          (case split_once (CHR ''/'') rest of
             None \<Rightarrow> ''<redacted>''
           | Some (provider, _) \<Rightarrow>
               if provider = [] then ''<redacted>'' else ''secret://'' @ provider @ ''/''))"

section \<open>References (secret_ref.rs)\<close>

record secret_ref =
  sr_backend :: string
  sr_path :: string

definition SCHEME :: string where "SCHEME = ''secret://''"

definition secret_ref_to_string :: "secret_ref \<Rightarrow> string" where
  "secret_ref_to_string r = SCHEME @ sr_backend r @ ''/'' @ sr_path r"

definition to_redacted :: "secret_ref \<Rightarrow> string" where
  "to_redacted r = redact_secret_ref (secret_ref_to_string r)"

definition secret_ref_from_str :: "string \<Rightarrow> secret_error + secret_ref" where
  "secret_ref_from_str s =
     and_then (ok_or (SecretInvalidRef (''missing '' @ [CHR 0x27] @ SCHEME @ [CHR 0x27] @ '' scheme''))
       (strip_prefix SCHEME s)) (\<lambda>rest.
     and_then (ok_or (SecretInvalidRef ''missing path segment'') (split_once (CHR ''/'') rest)) (\<lambda>(backend, path).
       if backend = [] then Inl (SecretInvalidRef ''empty backend'')
       else if path = [] then Inl (SecretInvalidRef ''empty path'')
       else Inr \<lparr>sr_backend = backend, sr_path = path\<rparr>))"

section \<open>Errors (error.rs) and remote failures (remote.rs)\<close>

definition secret_not_found :: "string \<Rightarrow> secret_error" where
  "secret_not_found ref_uri = SecretNotFound (redact_secret_ref ref_uri)"

definition secret_backend :: "string \<Rightarrow> string \<Rightarrow> secret_error" where
  "secret_backend ref_uri detail = SecretBackend (redact_secret_ref ref_uri) detail"

definition secret_transient :: "string \<Rightarrow> string \<Rightarrow> secret_error" where
  "secret_transient ref_uri detail = SecretTransient (redact_secret_ref ref_uri) detail"

record send_error =
  se_is_timeout :: bool
  se_is_connect :: bool

definition map_reqwest_send_error :: "string \<Rightarrow> send_error \<Rightarrow> secret_error" where
  "map_reqwest_send_error ref_uri e =
     (if se_is_timeout e then secret_transient ref_uri ''request timed out''
      else if se_is_connect e then secret_transient ref_uri ''connection failed''
      else secret_backend ref_uri ''request failed'')"

definition is_success :: "u16 \<Rightarrow> bool" where
  "is_success s = (200 \<le> s \<and> s < 300)"

definition is_server_error :: "u16 \<Rightarrow> bool" where
  "is_server_error s = (500 \<le> s \<and> s < 600)"

record secret_env =
  env_var :: "string \<Rightarrow> string option"
  env_read_to_string :: "string \<Rightarrow> string + string"
  env_to_uppercase :: "string \<Rightarrow> string"
  env_status_text :: "u16 \<Rightarrow> string"
  env_send :: "nat \<Rightarrow> string \<Rightarrow> string \<times> string \<Rightarrow> send_error + (u16 \<times> string)"
  env_vault_data :: "string \<Rightarrow> (string \<rightharpoonup> json) option"
  env_infisical_value :: "string \<Rightarrow> string option"
  env_retry :: "nat \<Rightarrow> (secret_error \<Rightarrow> bool) \<Rightarrow> (nat \<Rightarrow> secret_error + string) \<Rightarrow> secret_error + string"

definition map_http_status :: "secret_env \<Rightarrow> string \<Rightarrow> string \<Rightarrow> u16 \<Rightarrow> secret_error" where
  "map_http_status env ref_uri backend status =
     (let detail = backend @ '' returned '' @ env_status_text env status
      in if is_server_error status then secret_transient ref_uri detail
         else secret_backend ref_uri detail)"

definition retry_remote :: "secret_env \<Rightarrow> u32 \<Rightarrow> (nat \<Rightarrow> secret_error + string) \<Rightarrow> secret_error + string" where
  "retry_remote env retries attempt = env_retry env (unat retries) secret_is_retryable attempt"

section \<open>The cache (cache.rs)\<close>

record cache_entry =
  ce_value :: string
  ce_expires_at :: instant

record secret_cache =
  ca_ttl :: duration
  ca_entries :: "string \<rightharpoonup> cache_entry"

definition DEFAULT_CACHE_TTL :: duration where
  "DEFAULT_CACHE_TTL = 60 * 10 ^ 9"

definition secret_cache_new :: "duration \<Rightarrow> secret_cache" where
  "secret_cache_new ttl = \<lparr>ca_ttl = ttl, ca_entries = Map.empty\<rparr>"

definition cache_enabled :: "secret_cache \<Rightarrow> bool" where
  "cache_enabled c = (ca_ttl c \<noteq> 0)"

definition cache_get :: "secret_cache \<Rightarrow> instant \<Rightarrow> string \<Rightarrow> string option \<times> secret_cache" where
  "cache_get c now key =
     (if \<not> cache_enabled c then (None, c)
      else case ca_entries c key of
             Some entry \<Rightarrow>
               (if now < ce_expires_at entry then (Some (ce_value entry), c)
                else (None, c\<lparr>ca_entries := (ca_entries c)(key := None)\<rparr>))
           | None \<Rightarrow> (None, c))"

definition cache_insert :: "secret_cache \<Rightarrow> instant \<Rightarrow> string \<Rightarrow> string \<Rightarrow> secret_cache" where
  "cache_insert c now key value =
     (if \<not> cache_enabled c then c
      else c\<lparr>ca_entries := (ca_entries c)(key \<mapsto> \<lparr>ce_value = value, ce_expires_at = now + ca_ttl c\<rparr>)\<rparr>)"

section \<open>The store (backend.rs, vault.rs, infisical.rs)\<close>

record vault_config =
  vc_address :: string
  vc_token :: string
  vc_mount :: string
  vc_key :: "string option"

record infisical_config =
  ic_address :: string
  ic_token :: string
  ic_workspace_id :: string
  ic_environment :: string

record secret_store =
  ss_vault :: "vault_config option"
  ss_infisical :: "infisical_config option"
  ss_cache :: secret_cache
  ss_remote_retries :: u32

definition env_var_name :: "secret_env \<Rightarrow> secret_ref \<Rightarrow> string" where
  "env_var_name env r =
     (if sr_backend r = ''env'' then sr_path r
      else env_to_uppercase env (sr_backend r) @ ''_'' @ env_to_uppercase env (sr_path r))"

definition env_backend_resolve :: "secret_env \<Rightarrow> secret_ref \<Rightarrow> secret_error + string" where
  "env_backend_resolve env r =
     ok_or (secret_not_found (secret_ref_to_string r)) (env_var env (env_var_name env r))"

definition file_backend_resolve :: "secret_env \<Rightarrow> secret_ref \<Rightarrow> secret_error + string" where
  "file_backend_resolve env r =
     and_then (map_err (secret_backend (secret_ref_to_string r)) (env_read_to_string env (sr_path r)))
       (\<lambda>content. Inr (trim content))"

definition vault_resolve :: "secret_env \<Rightarrow> vault_config \<Rightarrow> secret_ref \<Rightarrow> nat \<Rightarrow> secret_error + string" where
  "vault_resolve env cfg r attempt =
     (let url = trim_end_char (CHR ''/'') (vc_address cfg) @ ''/v1/'' @ vc_mount cfg @ ''/data/'' @ sr_path r;
          ref_uri = secret_ref_to_string r
      in and_then (map_err (map_reqwest_send_error ref_uri) (env_send env attempt url (''X-Vault-Token'', vc_token cfg)))
           (\<lambda>(status, body).
              if \<not> is_success status then Inl (map_http_status env ref_uri ''vault'' status)
              else
                and_then (ok_or (secret_backend ref_uri ''invalid vault response'') (env_vault_data env body)) (\<lambda>data.
                  (let key = (case vc_key cfg of Some k \<Rightarrow> k | None \<Rightarrow> ''value'')
                   in ok_or (secret_backend ref_uri (''key `'' @ key @ ''` not found in vault KV data''))
                        (Option.bind (data key) as_str)))))"

definition infisical_resolve ::
  "secret_env \<Rightarrow> infisical_config \<Rightarrow> secret_ref \<Rightarrow> nat \<Rightarrow> secret_error + string" where
  "infisical_resolve env cfg r attempt =
     (let url = trim_end_char (CHR ''/'') (ic_address cfg) @ ''/api/v3/secrets/raw/'' @ sr_path r @
            ''?workspaceId='' @ ic_workspace_id cfg @ ''&environment='' @ ic_environment cfg;
          ref_uri = secret_ref_to_string r
      in and_then (map_err (map_reqwest_send_error ref_uri)
             (env_send env attempt url (''Authorization'', ''Bearer '' @ ic_token cfg)))
           (\<lambda>(status, body).
              if \<not> is_success status then Inl (map_http_status env ref_uri ''infisical'' status)
              else ok_or (secret_backend ref_uri ''invalid infisical response'') (env_infisical_value env body)))"

definition fetch_remote :: "secret_env \<Rightarrow> secret_store \<Rightarrow> secret_ref \<Rightarrow> nat \<Rightarrow> secret_error + string" where
  "fetch_remote env st r attempt =
     (if sr_backend r = ''vault'' then
        (case ss_vault st of
           Some v \<Rightarrow> vault_resolve env v r attempt
         | None \<Rightarrow> Inl (secret_backend (secret_ref_to_string r) ''vault backend not configured''))
      else if sr_backend r = ''infisical'' then
        (case ss_infisical st of
           Some i \<Rightarrow> infisical_resolve env i r attempt
         | None \<Rightarrow> Inl (secret_backend (secret_ref_to_string r) ''infisical backend not configured''))
      else Inl (secret_backend (secret_ref_to_string r)
             (sr_backend r @ '' is not a remote secret backend'')))"

text \<open>The cache is read at \<open>now\<close> and written at \<open>finished\<close>, after the remote attempts.\<close>

definition resolve_remote ::
  "secret_env \<Rightarrow> secret_store \<Rightarrow> instant \<Rightarrow> instant \<Rightarrow> secret_ref \<Rightarrow> (secret_error + string) \<times> secret_store" where
  "resolve_remote env st now finished r =
     (let cache_key = secret_ref_to_string r; (hit, cache) = cache_get (ss_cache st) now cache_key;
          st1 = st\<lparr>ss_cache := cache\<rparr>
      in case hit of
           Some v \<Rightarrow> (Inr v, st1)
         | None \<Rightarrow>
             (case retry_remote env (ss_remote_retries st) (fetch_remote env st r) of
                Inl e \<Rightarrow> (Inl e, st1)
              | Inr v \<Rightarrow> (Inr v, st1\<lparr>ss_cache := cache_insert cache finished cache_key v\<rparr>)))"

definition secret_store_resolve ::
  "secret_env \<Rightarrow> secret_store \<Rightarrow> instant \<Rightarrow> instant \<Rightarrow> secret_ref \<Rightarrow> (secret_error + string) \<times> secret_store" where
  "secret_store_resolve env st now finished r =
     (if sr_backend r = ''file'' then (file_backend_resolve env r, st)
      else if sr_backend r = ''vault'' \<or> sr_backend r = ''infisical'' then resolve_remote env st now finished r
      else (env_backend_resolve env r, st))"

section \<open>Assembly from the configuration (assemble.rs)\<close>

record vault_secrets_config =
  vs_address :: "string option"
  vs_token_ref :: string
  vs_mount :: string
  vs_key :: "string option"
  vs_probe :: bool

record infisical_secrets_config =
  is_address :: "string option"
  is_token_ref :: string
  is_workspace_id :: string
  is_environment :: string
  is_probe :: bool

record secrets_config =
  scf_vault :: "vault_secrets_config option"
  scf_infisical :: "infisical_secrets_config option"
  scf_cache_ttl_secs :: u64
  scf_remote_retries :: u32

definition secret_store_default :: secret_store where
  "secret_store_default =
     \<lparr>ss_vault = None, ss_infisical = None, ss_cache = secret_cache_new DEFAULT_CACHE_TTL,
      ss_remote_retries = 2\<rparr>"

definition secrets_config_err :: "string \<Rightarrow> asterlane_error" where
  "secrets_config_err message = internal ConfigInvalidYaml message"

definition vault_address :: "secret_env \<Rightarrow> vault_secrets_config \<Rightarrow> string" where
  "vault_address env cfg =
     (case vs_address cfg of Some a \<Rightarrow> a | None \<Rightarrow>
        (case env_var env ''VAULT_ADDR'' of Some a \<Rightarrow> a | None \<Rightarrow> ''http://127.0.0.1:8200''))"

definition infisical_address :: "secret_env \<Rightarrow> infisical_secrets_config \<Rightarrow> string" where
  "infisical_address env cfg =
     (case is_address cfg of Some a \<Rightarrow> a | None \<Rightarrow>
        (case env_var env ''INFISICAL_API_URL'' of Some a \<Rightarrow> a | None \<Rightarrow> ''https://app.infisical.com''))"

definition resolve_bootstrap_token :: "secret_env \<Rightarrow> string \<Rightarrow> asterlane_error + string" where
  "resolve_bootstrap_token env token_ref =
     and_then (map_err from_secret_error (secret_ref_from_str token_ref)) (\<lambda>parsed.
       if sr_backend parsed \<noteq> ''env'' \<and> sr_backend parsed \<noteq> ''file''
       then Inl (secrets_config_err
         ''secrets token_ref must use secret://env/... or secret://file/... (bootstrap only)'')
       else
         and_then (map_err from_secret_error (fst (secret_store_resolve env secret_store_default 0 0 parsed)))
           (\<lambda>secret.
              (let token = trim secret
               in if token = [] then Inl (secrets_config_err ''secrets token_ref resolved to an empty token'')
                  else Inr token)))"

text \<open>\<open>probe label url\<close> is the startup GET with its error text: a parameter.\<close>

definition startup_probe :: "(string \<Rightarrow> string \<Rightarrow> string option) \<Rightarrow> bool \<Rightarrow> string \<Rightarrow> string \<Rightarrow> asterlane_error + unit" where
  "startup_probe probe enabled label url =
     (if enabled then (case probe label url of None \<Rightarrow> Inr () | Some m \<Rightarrow> Inl (secrets_config_err m))
      else Inr ())"

definition assemble_vault ::
  "secret_env \<Rightarrow> (string \<Rightarrow> string \<Rightarrow> string option) \<Rightarrow> secret_store \<Rightarrow> vault_secrets_config \<Rightarrow>
   asterlane_error + secret_store" where
  "assemble_vault env probe store v =
     and_then (resolve_bootstrap_token env (vs_token_ref v)) (\<lambda>token.
     and_then (startup_probe probe (vs_probe v) ''vault''
         (trim_end_char (CHR ''/'') (vault_address env v) @ ''/v1/sys/health'')) (\<lambda>_.
       Inr (store\<lparr>ss_vault := Some \<lparr>vc_address = vault_address env v, vc_token = token,
         vc_mount = vs_mount v, vc_key = vs_key v\<rparr>\<rparr>)))"

definition assemble_infisical ::
  "secret_env \<Rightarrow> (string \<Rightarrow> string \<Rightarrow> string option) \<Rightarrow> secret_store \<Rightarrow> infisical_secrets_config \<Rightarrow>
   asterlane_error + secret_store" where
  "assemble_infisical env probe store i =
     (if trim (is_workspace_id i) = []
      then Inl (secrets_config_err ''secrets.infisical.workspace_id must be non-empty'')
      else
        and_then (resolve_bootstrap_token env (is_token_ref i)) (\<lambda>token.
        and_then (startup_probe probe (is_probe i) ''infisical''
            (trim_end_char (CHR ''/'') (infisical_address env i) @ ''/api/status'')) (\<lambda>_.
          Inr (store\<lparr>ss_infisical := Some \<lparr>ic_address = infisical_address env i, ic_token = token,
            ic_workspace_id = is_workspace_id i, ic_environment = is_environment i\<rparr>\<rparr>))))"

definition secret_store_from_secrets_config ::
  "secret_env \<Rightarrow> (string \<Rightarrow> string \<Rightarrow> string option) \<Rightarrow> secrets_config \<Rightarrow> asterlane_error + secret_store" where
  "secret_store_from_secrets_config env probe secrets =
     (let store = secret_store_default
            \<lparr>ss_cache := secret_cache_new (unat (scf_cache_ttl_secs secrets) * 10 ^ 9),
             ss_remote_retries := scf_remote_retries secrets\<rparr>
      in and_then (case scf_vault secrets of None \<Rightarrow> Inr store | Some v \<Rightarrow> assemble_vault env probe store v)
           (\<lambda>store. case scf_infisical secrets of None \<Rightarrow> Inr store
              | Some i \<Rightarrow> assemble_infisical env probe store i))"

section \<open>References and redaction\<close>

lemma redact_printed:
  "sr_backend r \<noteq> [] \<Longrightarrow> CHR ''/'' \<notin> set (sr_backend r) \<Longrightarrow> to_redacted r = SCHEME @ sr_backend r @ ''/''"
proof -
  assume "sr_backend r \<noteq> []" "CHR ''/'' \<notin> set (sr_backend r)"
  moreover from this have "split_once (CHR ''/'') (sr_backend r @ ''/'' @ sr_path r) = Some (sr_backend r, sr_path r)"
    by (simp add: split_once_Some_iff)
  ultimately show ?thesis
    by (simp add: to_redacted_def redact_secret_ref_def secret_ref_to_string_def SCHEME_def)
qed

definition wf_secret_ref :: "secret_ref \<Rightarrow> bool" where
  "wf_secret_ref r = (sr_backend r \<noteq> [] \<and> CHR ''/'' \<notin> set (sr_backend r) \<and> sr_path r \<noteq> [])"

lemma secret_ref_from_str_iff:
  "secret_ref_from_str s = Inr r \<longleftrightarrow> s = secret_ref_to_string r \<and> wf_secret_ref r"
  unfolding secret_ref_from_str_def secret_ref_to_string_def wf_secret_ref_def
  by (cases r) (auto simp: and_then_Inr_iff strip_prefix_Some_iff split_once_Some_iff split: if_splits)

text \<open>Parsing a secret reference succeeds exactly on the printed form of a reference whose back
  end is non-empty and has no slash and whose path is non-empty, and returns that reference:
  \<open>from_str\<close> and \<open>Display\<close> are inverse to each other.\<close>

lemma secret_ref_roundtrip:
  "secret_ref_from_str s = Inr r \<longleftrightarrow> s = secret_ref_to_string r \<and> wf_secret_ref r"
  by (rule secret_ref_from_str_iff)

section \<open>Errors never carry the path\<close>

text \<open>What the code relies on in \<open>backon\<close>: the outcome of a retried operation is the outcome of
  one of its attempts, the earlier ones having failed retryably.\<close>

definition backon_retry_spec ::
  "(nat \<Rightarrow> (secret_error \<Rightarrow> bool) \<Rightarrow> (nat \<Rightarrow> secret_error + string) \<Rightarrow> secret_error + string) \<Rightarrow> bool" where
  "backon_retry_spec rt =
     (\<forall>n P f. \<exists>k \<le> n. rt n P f = f k \<and> (\<forall>j < k. \<exists>e. f j = Inl e \<and> P e) \<and>
        (\<forall>e. f k = Inl e \<longrightarrow> k < n \<longrightarrow> \<not> P e))"

definition error_ref :: "secret_error \<Rightarrow> string option" where
  "error_ref e =
     (case e of SecretNotFound r \<Rightarrow> Some r | SecretBackend r _ \<Rightarrow> Some r | SecretTransient r _ \<Rightarrow> Some r
      | SecretInvalidRef _ \<Rightarrow> None)"

lemma error_ref_ctor [simp]:
  "error_ref (secret_not_found u) = Some (redact_secret_ref u)"
  "error_ref (secret_backend u d) = Some (redact_secret_ref u)"
  "error_ref (secret_transient u d) = Some (redact_secret_ref u)"
  "error_ref (map_reqwest_send_error u e) = Some (redact_secret_ref u)"
  "error_ref (map_http_status env u b s) = Some (redact_secret_ref u)"
  by (simp_all add: error_ref_def secret_not_found_def secret_backend_def secret_transient_def
      map_reqwest_send_error_def map_http_status_def Let_def)

definition errs_redacted :: "secret_ref \<Rightarrow> secret_error + 'a \<Rightarrow> bool" where
  "errs_redacted r x = (\<forall>e. x = Inl e \<longrightarrow> error_ref e = Some (to_redacted r))"

lemma errs_redacted_intros:
  "errs_redacted r (Inr v)"
  "error_ref e = Some (to_redacted r) \<Longrightarrow> errs_redacted r (Inl e)"
  "error_ref e = Some (to_redacted r) \<Longrightarrow> errs_redacted r (ok_or e y)"
  "(\<And>e. error_ref (g e) = Some (to_redacted r)) \<Longrightarrow> errs_redacted r (map_err g z)"
  "errs_redacted r x \<Longrightarrow> (\<And>v. errs_redacted r (f v)) \<Longrightarrow> errs_redacted r (and_then x f)"
  by (auto simp: errs_redacted_def ok_or_def map_err_def and_then_def split: option.splits sum.splits)

lemma fetch_remote_redacted: "errs_redacted r (fetch_remote env st r k)"
  unfolding fetch_remote_def vault_resolve_def infisical_resolve_def Let_def
  by (auto simp: to_redacted_def split: option.splits intro!: errs_redacted_intros)


section \<open>The cache is an expiring store\<close>

definition cache_alive :: "secret_cache \<Rightarrow> instant \<Rightarrow> string \<Rightarrow> string option" where
  "cache_alive c t k =
     (if cache_enabled c
      then Option.bind (ca_entries c k) (\<lambda>e. if t < ce_expires_at e then Some (ce_value e) else None)
      else None)"

interpretation scache: expiring_store "\<lambda>_. True" ca_ttl cache_alive cache_insert cache_get
  by unfold_locales
    (auto simp: cache_alive_def cache_insert_def cache_get_def cache_enabled_def split: option.splits if_splits)

abbreviation cache_run :: "secret_cache \<Rightarrow> (instant \<times> (string, string) store_op) list \<Rightarrow> secret_cache" where
  "cache_run \<equiv> foldl (store_step cache_insert cache_get)"

lemma cache_alive_new: "cache_alive (secret_cache_new ttl) t k = None"
  by (simp add: cache_alive_def secret_cache_new_def)

text \<open>A remote secret that resolves is either a value stored under the same reference less than
  the configured time to live ago and not replaced since, or the outcome of a fetch made now, which is
  then stored; a failing fetch stores nothing. The cache is the one any sequence of earlier
  lookups and stores leaves behind.\<close>

lemma resolve_remote_fresh:
  assumes "ss_cache st = cache_run (secret_cache_new ttl) xs"
    and "sorted (map fst xs)" and "\<forall>x \<in> set xs. fst x \<le> now"
  shows "case resolve_remote env st now finished r of
     (Inr v, st') \<Rightarrow>
       (\<exists>t0. last_put xs (secret_ref_to_string r) = Some (t0, v) \<and> t0 \<le> now \<and> now < t0 + ttl \<and>
          ss_cache st' = cache_run (secret_cache_new ttl) (xs @ [(now, Look (secret_ref_to_string r))])) \<or>
       (retry_remote env (ss_remote_retries st) (fetch_remote env st r) = Inr v \<and>
        ss_cache st' = cache_run (secret_cache_new ttl)
          (xs @ [(now, Look (secret_ref_to_string r)), (finished, Put (secret_ref_to_string r) v)]))
   | (Inl e, st') \<Rightarrow>
       retry_remote env (ss_remote_retries st) (fetch_remote env st r) = Inl e \<and>
       ss_cache st' = cache_run (secret_cache_new ttl) (xs @ [(now, Look (secret_ref_to_string r))])"
proof -
  let ?u = "secret_ref_to_string r"
  obtain hit c where g: "cache_get (ss_cache st) now ?u = (hit, c)" by force
  have "\<exists>t0. last_put xs ?u = Some (t0, v) \<and> t0 \<le> now \<and> now < t0 + ttl" if "hit = Some v" for v
    using scache.get_provenance [OF TrueI cache_alive_new assms(2,3), of ttl ?u v] g that
    by (simp add: assms(1) secret_cache_new_def)
  moreover have "cache_run (secret_cache_new ttl) (xs @ [(now, Look ?u)]) = c"
    using g by (simp add: assms(1))
  ultimately show ?thesis
    using g by (auto simp: resolve_remote_def Let_def split: option.splits sum.splits)
qed

definition bootstrap_token_ok :: "secret_env \<Rightarrow> string \<Rightarrow> string \<Rightarrow> bool" where
  "bootstrap_token_ok env token_ref token =
     (token \<noteq> [] \<and> (\<exists>r v. secret_ref_from_str token_ref = Inr r \<and> token = trim v \<and>
        (sr_backend r = ''env'' \<and> env_var env (sr_path r) = Some v \<or>
         sr_backend r = ''file'' \<and> (\<exists>raw. env_read_to_string env (sr_path r) = Inr raw \<and> v = trim raw))))"

lemma resolve_bootstrap_token_ok: "resolve_bootstrap_token env s = Inr t \<Longrightarrow> bootstrap_token_ok env s t"
  unfolding resolve_bootstrap_token_def bootstrap_token_ok_def and_then_Inr_iff map_err_Inr_iff Let_def
  by (auto simp: secret_store_resolve_def env_backend_resolve_def file_backend_resolve_def env_var_name_def
      and_then_Inr_iff split: if_splits)

lemma assemble_vault_ok:
  "assemble_vault env probe s v = Inr s' \<Longrightarrow>
     \<exists>c. s' = s\<lparr>ss_vault := Some c\<rparr> \<and> bootstrap_token_ok env (vs_token_ref v) (vc_token c)"
  by (auto simp: assemble_vault_def and_then_Inr_iff dest!: resolve_bootstrap_token_ok)

lemma assemble_infisical_ok:
  "assemble_infisical env probe s i = Inr s' \<Longrightarrow> trim (is_workspace_id i) \<noteq> [] \<and>
     (\<exists>c. s' = s\<lparr>ss_infisical := Some c\<rparr> \<and> bootstrap_token_ok env (is_token_ref i) (ic_token c))"
  by (auto simp: assemble_infisical_def and_then_Inr_iff dest!: resolve_bootstrap_token_ok split: if_splits)

text \<open>A remote back end is only ever configured with a bootstrap token that was read from the
  environment or a file by a well-formed reference and is not blank.\<close>

lemma secret_store_bootstrap:
  assumes "secret_store_from_secrets_config env probe cfg = Inr st"
  shows "(\<forall>v. ss_vault st = Some v \<longrightarrow>
       (\<exists>c. scf_vault cfg = Some c \<and> bootstrap_token_ok env (vs_token_ref c) (vc_token v))) \<and>
     (\<forall>i. ss_infisical st = Some i \<longrightarrow>
       (\<exists>c. scf_infisical cfg = Some c \<and> bootstrap_token_ok env (is_token_ref c) (ic_token i) \<and>
          trim (is_workspace_id c) \<noteq> []))"
proof -
  let ?s0 = "secret_store_default\<lparr>ss_cache := secret_cache_new (unat (scf_cache_ttl_secs cfg) * 10 ^ 9),
      ss_remote_retries := scf_remote_retries cfg\<rparr>"
  have n: "ss_vault ?s0 = None" "ss_infisical ?s0 = None" by (simp_all add: secret_store_default_def)
  from assms obtain s1 where
    1: "(case scf_vault cfg of None \<Rightarrow> Inr ?s0 | Some v \<Rightarrow> assemble_vault env probe ?s0 v) = Inr s1" and
    2: "(case scf_infisical cfg of None \<Rightarrow> Inr s1 | Some i \<Rightarrow> assemble_infisical env probe s1 i) = Inr st"
    unfolding secret_store_from_secrets_config_def Let_def and_then_Inr_iff by blast
  from 1 n have "ss_infisical s1 = None" "\<forall>v. ss_vault s1 = Some v \<longrightarrow>
       (\<exists>c. scf_vault cfg = Some c \<and> bootstrap_token_ok env (vs_token_ref c) (vc_token v))"
    by (auto dest!: assemble_vault_ok split: option.splits)
  with 2 show ?thesis by (auto dest!: assemble_infisical_ok split: option.splits)
qed

section \<open>Runs\<close>

fun example_retry ::
  "nat \<Rightarrow> nat \<Rightarrow> (secret_error \<Rightarrow> bool) \<Rightarrow> (nat \<Rightarrow> secret_error + string) \<Rightarrow> secret_error + string" where
  "example_retry k 0 P f = f k"
| "example_retry k (Suc n) P f =
     (case f k of Inr v \<Rightarrow> Inr v | Inl e \<Rightarrow> if P e then example_retry (Suc k) n P f else Inl e)"

lemma example_retry_attempt:
  "\<exists>j. k \<le> j \<and> j \<le> k + n \<and> example_retry k n P f = f j \<and> (\<forall>i. k \<le> i \<longrightarrow> i < j \<longrightarrow> (\<exists>e. f i = Inl e \<and> P e)) \<and>
     (\<forall>e. f j = Inl e \<longrightarrow> j < k + n \<longrightarrow> \<not> P e)"
proof (induction n arbitrary: k)
  case 0
  show ?case by (intro exI [of _ k]) auto
next
  case (Suc n)
  show ?case
  proof (cases "\<exists>e. f k = Inl e \<and> P e")
    case True
    then obtain e where e: "f k = Inl e" "P e" by blast
    from Suc.IH [of "Suc k"] obtain j where j: "Suc k \<le> j" "j \<le> Suc k + n"
        "example_retry (Suc k) n P f = f j" "\<forall>i. Suc k \<le> i \<longrightarrow> i < j \<longrightarrow> (\<exists>e. f i = Inl e \<and> P e)"
        "\<forall>e. f j = Inl e \<longrightarrow> j < Suc k + n \<longrightarrow> \<not> P e" by blast
    have "\<forall>i. k \<le> i \<longrightarrow> i < j \<longrightarrow> (\<exists>e. f i = Inl e \<and> P e)"
      using e j(4) by (metis le_eq_less_or_eq less_eq_Suc_le)
    with e j show ?thesis by (intro exI [of _ j]) auto
  next
    case False
    then show ?thesis by (intro exI [of _ k]) (auto split: sum.splits)
  qed
qed

definition example_env :: secret_env where
  "example_env =
     \<lparr>env_var = (\<lambda>n. if n = ''VAULT_TOKEN'' then Some ''root'' else None),
      env_read_to_string = (\<lambda>_. Inl ''No such file or directory''),
      env_to_uppercase = id, env_status_text = (\<lambda>s. dec (unat s)),
      env_send = (\<lambda>k url h. Inr (if k = 0 then 503 else 200, ''body'')),
      env_vault_data = (\<lambda>_. Some [''value'' \<mapsto> JString ''s3cret'']),
      env_infisical_value = (\<lambda>_. None), env_retry = example_retry 0\<rparr>"

definition example_store :: secret_store where
  "example_store = secret_store_default
     \<lparr>ss_vault := Some \<lparr>vc_address = ''http://v/'', vc_token = ''root'', vc_mount = ''kv'', vc_key = None\<rparr>,
      ss_cache := secret_cache_new 60\<rparr>"

definition example_ref :: secret_ref where
  "example_ref = \<lparr>sr_backend = ''vault'', sr_path = ''team/api''\<rparr>"

lemma example_backon: "backon_retry_spec (env_retry example_env)"
  unfolding backon_retry_spec_def example_env_def
  using example_retry_attempt [of 0] by simp


lemma resolve_remote_fresh_witness:
  "last_put [(5, Put (secret_ref_to_string example_ref) ''old'')] (secret_ref_to_string example_ref) = Some (5, ''old'') \<and>
   fst (resolve_remote example_env
     (example_store\<lparr>ss_cache := cache_run (secret_cache_new 60) [(5, Put (secret_ref_to_string example_ref) ''old'')]\<rparr>)
     64 64 example_ref) = Inr ''old''"
proof -
  let ?u = "secret_ref_to_string example_ref"
  let ?st = "example_store\<lparr>ss_cache := cache_run (secret_cache_new 60) [(5, Put ?u ''old'')]\<rparr>"
  have r: "fst (resolve_remote example_env ?st 64 64 example_ref) = Inr ''old''"
    by (simp add: resolve_remote_def cache_get_def cache_insert_def cache_enabled_def secret_cache_new_def Let_def)
  have two: "unat (ss_remote_retries ?st) = Suc (Suc 0)" by (simp add: example_store_def secret_store_default_def)
  have n: "retry_remote example_env (ss_remote_retries ?st) (fetch_remote example_env ?st example_ref) = Inr ''s3cret''"
    unfolding retry_remote_def two
    by (simp add: example_env_def fetch_remote_def example_ref_def example_store_def vault_resolve_def Let_def as_str_def is_success_def map_http_status_def is_server_error_def secret_transient_def
        secret_is_retryable_def secret_store_default_def)
  have "ss_cache ?st = cache_run (secret_cache_new 60) [(5, Put ?u ''old'')]" by simp
  from resolve_remote_fresh [OF this, where now = 64 and env = example_env and finished = 64 and r = example_ref] r n show ?thesis
    by (auto simp: split_beta split: sum.splits)
qed

lemma secret_store_bootstrap_witness:
  "\<exists>c. scf_vault \<lparr>scf_vault = Some \<lparr>vs_address = None, vs_token_ref = ''secret://env/VAULT_TOKEN'',
       vs_mount = ''kv'', vs_key = None, vs_probe = True\<rparr>, scf_infisical = None, scf_cache_ttl_secs = 60,
       scf_remote_retries = 2\<rparr> = Some c \<and> bootstrap_token_ok example_env (vs_token_ref c) ''root''"
proof -
  let ?c = "\<lparr>scf_vault = Some \<lparr>vs_address = None, vs_token_ref = ''secret://env/VAULT_TOKEN'',
       vs_mount = ''kv'', vs_key = None, vs_probe = True\<rparr>, scf_infisical = None, scf_cache_ttl_secs = 60,
       scf_remote_retries = 2\<rparr>"
  let ?v = "\<lparr>vc_address = ''http://127.0.0.1:8200'', vc_token = ''root'', vc_mount = ''kv'', vc_key = None\<rparr>"
  have "secret_ref_from_str ''secret://env/VAULT_TOKEN'' = Inr \<lparr>sr_backend = ''env'', sr_path = ''VAULT_TOKEN''\<rparr>"
    "trim ''root'' = ''root''"
    by code_simp+
  then have "resolve_bootstrap_token example_env ''secret://env/VAULT_TOKEN'' = Inr ''root''"
    by (simp add: resolve_bootstrap_token_def secret_store_resolve_def env_backend_resolve_def env_var_name_def
        example_env_def Let_def)
  then have "(case secret_store_from_secrets_config example_env (\<lambda>_ _. None) ?c of
      Inl _ \<Rightarrow> None | Inr st \<Rightarrow> ss_vault st) = Some ?v"
    by (simp add: secret_store_from_secrets_config_def assemble_vault_def Let_def startup_probe_def vault_address_def
        example_env_def)
  then obtain st where "secret_store_from_secrets_config example_env (\<lambda>_ _. None) ?c = Inr st" "ss_vault st = Some ?v"
    by (auto split: sum.splits)
  with secret_store_bootstrap [of example_env "\<lambda>_ _. None" ?c st] show ?thesis by force
qed

end
