(* ===== verification/GatewayAuth.thy ===== *)
theory GatewayAuth
  imports Secrets
begin

text \<open>
  Authentication of gateway keys (\<open>src/gateway_auth.rs\<close>), the token helpers of
  \<open>src/admin/tokens.rs\<close>, the credential checks of \<open>src/config/post_load.rs\<close> and the admin
  token table of \<open>src/admin/auth.rs\<close>. SHA-256 is the \<open>sha2\<close> crate: the function \<open>sha\<close>, an
  argument of every definition that hashes. \<open>resolve\<close> is the \<open>SecretStore\<close> trait.
  A digest is a list of bytes, \<open>[u8; 32]\<close> in the code.
\<close>

unbundle bit_operations_syntax

type_synonym digest = "u8 list"
type_synonym sha256 = "string \<Rightarrow> digest"
type_synonym secret_resolver = "secret_ref \<Rightarrow> secret_error + string"

section \<open>Hexadecimal digests\<close>

text \<open>\<open>char::to_digit(16)\<close>.\<close>

definition to_digit16 :: "char \<Rightarrow> u32 option" where
  "to_digit16 c =
     (let n = (of_char c :: nat)
      in if 48 \<le> n \<and> n \<le> 57 then Some (word_of_nat (n - 48))
         else if 97 \<le> n \<and> n \<le> 102 then Some (word_of_nat (n - 87))
         else if 65 \<le> n \<and> n \<le> 70 then Some (word_of_nat (n - 55))
         else None)"

fun decode_pairs :: "string \<Rightarrow> digest option" where
  "decode_pairs (a # b # rest) =
     (case to_digit16 a of
        None \<Rightarrow> None
      | Some hi \<Rightarrow>
          (case to_digit16 b of
             None \<Rightarrow> None
           | Some lo \<Rightarrow> map_option (\<lambda>ds. ucast (push_bit 4 hi OR lo) # ds) (decode_pairs rest)))"
| "decode_pairs [] = Some []"
| "decode_pairs [a] = None" \<comment> \<open>not reached: the length is even\<close>

definition is_ascii :: "string \<Rightarrow> bool" where
  "is_ascii s = list_all (\<lambda>c. (of_char c :: nat) < 128) s"

definition decode_digest_hex :: "string \<Rightarrow> digest option" where
  "decode_digest_hex hex = (if length hex \<noteq> 64 \<or> \<not> is_ascii hex then None else decode_pairs hex)"

text \<open>\<open>format!("{b:02x}")\<close>.\<close>

definition hex_digit :: "nat \<Rightarrow> char" where
  "hex_digit n = (if n < 10 then char_of (48 + n) else char_of (87 + n))"

definition hex :: "u8 list \<Rightarrow> string" where
  "hex bytes = concat (map (\<lambda>b. [hex_digit (unat b div 16), hex_digit (unat b mod 16)]) bytes)"

text \<open>\<open>bytes\<close> are the 32 bytes drawn from the random generator.\<close>

definition generate_token :: "u8 list \<Rightarrow> string" where
  "generate_token bytes = ''alk_'' @ hex bytes"

section \<open>The authentication state\<close>

record gateway_auth =
  ga_tokens :: "digest \<rightharpoonup> string"
  ga_token_keys :: "string set"
  ga_legacy :: "string set"
  ga_expires :: "string \<rightharpoonup> datetime"

definition auth_empty :: gateway_auth where
  "auth_empty =
     \<lparr>ga_tokens = Map.empty, ga_token_keys = {}, ga_legacy = {}, ga_expires = Map.empty\<rparr>"

text \<open>\<open>tokens.retain(|_, id| id != key_id)\<close>.\<close>

definition retain_other :: "string \<Rightarrow> (digest \<rightharpoonup> string) \<Rightarrow> digest \<rightharpoonup> string" where
  "retain_other key_id m d = (if m d = Some key_id then None else m d)"

definition insert_token :: "string \<Rightarrow> digest \<Rightarrow> gateway_auth \<Rightarrow> gateway_auth" where
  "insert_token key_id digest a =
     a\<lparr>ga_tokens := (retain_other key_id (ga_tokens a))(digest \<mapsto> key_id),
       ga_legacy := ga_legacy a - {key_id},
       ga_token_keys := insert key_id (ga_token_keys a)\<rparr>"

definition set_token :: "string \<Rightarrow> digest \<Rightarrow> datetime option \<Rightarrow> gateway_auth \<Rightarrow> gateway_auth" where
  "set_token key_id digest expires_at a =
     (let a1 = insert_token key_id digest a in a1\<lparr>ga_expires := (ga_expires a1)(key_id := expires_at)\<rparr>)"

definition clear_token :: "string \<Rightarrow> gateway_auth \<Rightarrow> gateway_auth" where
  "clear_token key_id a =
     a\<lparr>ga_tokens := retain_other key_id (ga_tokens a), ga_token_keys := ga_token_keys a - {key_id},
       ga_expires := (ga_expires a)(key_id := None), ga_legacy := insert key_id (ga_legacy a)\<rparr>"

definition invalid_key :: asterlane_error where
  "invalid_key = internal AuthInvalidGatewayKey ''invalid gateway key''"

definition check_expiry :: "gateway_auth \<Rightarrow> string \<Rightarrow> datetime \<Rightarrow> asterlane_error + unit" where
  "check_expiry a key_id now =
     (case ga_expires a key_id of
        Some exp \<Rightarrow>
          if exp \<le> now then Inl (internal AuthExpiredGatewayKey ''gateway key token expired'') else Inr ()
      | None \<Rightarrow> Inr ())"

definition authenticate ::
  "sha256 \<Rightarrow> gateway_auth \<Rightarrow> string option \<Rightarrow> string option \<Rightarrow> datetime \<Rightarrow> asterlane_error + string" where
  "authenticate sha a bearer query_key now =
     (case bearer of
        Some token \<Rightarrow>
          and_then (ok_or invalid_key (if token = [] then None else ga_tokens a (sha token))) (\<lambda>key_id.
          and_then (check_expiry a key_id now) (\<lambda>_. Inr key_id))
      | None \<Rightarrow>
          (case query_key of
             Some i \<Rightarrow>
               if i \<notin> ga_legacy a then Inl invalid_key
               else and_then (check_expiry a i now) (\<lambda>_. Inr i)
           | None \<Rightarrow> Inl (internal AuthMissingGatewayKey ''missing gateway key'')))"

definition mcp_auth_required :: "gateway_auth \<Rightarrow> bool" where
  "mcp_auth_required a = (ga_token_keys a \<noteq> {})"

text \<open>\<open>header\<close> is the value of the \<open>Authorization\<close> header when it is readable as text.\<close>

definition bearer_token :: "string option \<Rightarrow> string option" where
  "bearer_token header = Option.bind header (strip_prefix ''Bearer '')"

text \<open>The key id that the middleware attaches to the request, if it lets it through.\<close>

definition require_mcp_auth ::
  "sha256 \<Rightarrow> gateway_auth \<Rightarrow> string option \<Rightarrow> datetime \<Rightarrow> asterlane_error + string option" where
  "require_mcp_auth sha a header now =
     (if mcp_auth_required a
      then and_then (authenticate sha a (bearer_token header) None now) (\<lambda>key_id. Inr (Some key_id))
      else Inr None)"

section \<open>Building the state from the configuration\<close>

definition note_expiry :: "proxy_key \<Rightarrow> gateway_auth \<Rightarrow> gateway_auth" where
  "note_expiry key a =
     (case pk_expires_at key of
        Some exp \<Rightarrow> a\<lparr>ga_expires := (ga_expires a)(pk_id key \<mapsto> exp)\<rparr>
      | None \<Rightarrow> a)"

definition add_unresolved :: "gateway_auth \<Rightarrow> proxy_key \<Rightarrow> gateway_auth" where
  "add_unresolved a key =
     (let a1 = note_expiry key a;
          deny = a1\<lparr>ga_token_keys := insert (pk_id key) (ga_token_keys a1)\<rparr>
      in if pk_token_ref key \<noteq> None then deny
         else (case pk_token_digest key of
                 Some h \<Rightarrow>
                   (case decode_digest_hex h of
                      Some d \<Rightarrow> insert_token (pk_id key) d a1
                    | None \<Rightarrow> deny)
               | None \<Rightarrow> a1\<lparr>ga_legacy := insert (pk_id key) (ga_legacy a1)\<rparr>))"

definition from_config_unresolved :: "gateway_config \<Rightarrow> gateway_auth" where
  "from_config_unresolved config = foldl add_unresolved auth_empty (gc_proxy_keys config)"

definition bad_digest :: "proxy_key \<Rightarrow> asterlane_error" where
  "bad_digest key =
     internal ConfigInvalidYaml (''proxy key '' @ pk_id key @ '': token_digest must be 64 hex chars'')"

definition add_key ::
  "sha256 \<Rightarrow> secret_resolver \<Rightarrow> gateway_auth \<Rightarrow> proxy_key \<Rightarrow> asterlane_error + gateway_auth" where
  "add_key sha resolve a key =
     (let a1 = note_expiry key a
      in case (pk_token_ref key, pk_token_digest key) of
           (Some r, _) \<Rightarrow>
             and_then (map_err from_secret_error (secret_ref_from_str r)) (\<lambda>sr.
             and_then (map_err from_secret_error (resolve sr)) (\<lambda>token.
               Inr (insert_token (pk_id key) (sha token) a1)))
         | (None, Some h) \<Rightarrow>
             and_then (ok_or (bad_digest key) (decode_digest_hex h)) (\<lambda>d. Inr (insert_token (pk_id key) d a1))
         | (None, None) \<Rightarrow> Inr (a1\<lparr>ga_legacy := insert (pk_id key) (ga_legacy a1)\<rparr>))"

fun add_keys ::
  "sha256 \<Rightarrow> secret_resolver \<Rightarrow> gateway_auth \<Rightarrow> proxy_key list \<Rightarrow> asterlane_error + gateway_auth" where
  "add_keys sha resolve a [] = Inr a"
| "add_keys sha resolve a (k # ks) = and_then (add_key sha resolve a k) (\<lambda>a1. add_keys sha resolve a1 ks)"

definition auth_from_config ::
  "sha256 \<Rightarrow> secret_resolver \<Rightarrow> gateway_config \<Rightarrow> asterlane_error + gateway_auth" where
  "auth_from_config sha resolve config = add_keys sha resolve auth_empty (gc_proxy_keys config)"

section \<open>Credential fields of the configuration (post_load.rs)\<close>

definition lower_hex :: "char \<Rightarrow> bool" where
  "lower_hex c = (let n = (of_char c :: nat) in 48 \<le> n \<and> n \<le> 57 \<or> 97 \<le> n \<and> n \<le> 102)"

definition check_key_credentials :: "proxy_key \<Rightarrow> asterlane_error + unit" where
  "check_key_credentials key =
     (let bad = (\<lambda>m. Inl (internal ConfigInvalidYaml (''proxy key '' @ pk_id key @ m)))
      in if (case pk_discovery_mode key of Some m \<Rightarrow> m \<notin> {''lazy'', ''full''} | None \<Rightarrow> False)
         then bad '': discovery_mode must be lazy or full''
         else if pk_token_ref key \<noteq> None \<and> pk_token_digest key \<noteq> None
         then bad '': token_ref and token_digest are mutually exclusive''
         else if (case pk_token_digest key of
                    Some d \<Rightarrow> \<not> (length d = 64 \<and> list_all lower_hex d) | None \<Rightarrow> False)
         then bad '': token_digest must be 64 lowercase hex chars''
         else Inr ())"

fun check_all_credentials :: "proxy_key list \<Rightarrow> asterlane_error + unit" where
  "check_all_credentials [] = Inr ()"
| "check_all_credentials (k # ks) = and_then (check_key_credentials k) (\<lambda>_. check_all_credentials ks)"

definition validate_key_credentials :: "gateway_config \<Rightarrow> asterlane_error + unit" where
  "validate_key_credentials config = check_all_credentials (gc_proxy_keys config)"

section \<open>Admin tokens (admin/auth.rs)\<close>

record admin_key =
  ak_id :: string
  ak_token_ref :: string

type_synonym admin_auth = "digest \<rightharpoonup> string"

fun admin_tokens ::
  "sha256 \<Rightarrow> secret_resolver \<Rightarrow> admin_auth \<Rightarrow> admin_key list \<Rightarrow> secret_error + admin_auth" where
  "admin_tokens sha resolve m [] = Inr m"
| "admin_tokens sha resolve m (k # ks) =
     and_then (secret_ref_from_str (ak_token_ref k)) (\<lambda>sr.
     and_then (resolve sr) (\<lambda>token.
       admin_tokens sha resolve (m(sha token \<mapsto> ak_id k)) ks))"

definition admin_auth_from_config ::
  "sha256 \<Rightarrow> secret_resolver \<Rightarrow> admin_key list \<Rightarrow> secret_error + admin_auth option" where
  "admin_auth_from_config sha resolve keys =
     (if keys = [] then Inr None
      else and_then (admin_tokens sha resolve Map.empty keys) (\<lambda>m. Inr (Some m)))"

definition admin_verify :: "sha256 \<Rightarrow> admin_auth \<Rightarrow> string \<Rightarrow> string option" where
  "admin_verify sha m token = (if token = [] then None else m (sha token))"

definition unauthorized :: asterlane_error where
  "unauthorized = internal AdminUnauthorized ''missing or invalid admin token''"

text \<open>The admin id that the middleware attaches to the request, if it lets it through.\<close>

definition require_admin :: "sha256 \<Rightarrow> admin_auth option \<Rightarrow> string option \<Rightarrow> asterlane_error + string" where
  "require_admin sha auth header =
     (case auth of
        None \<Rightarrow> Inl unauthorized
      | Some m \<Rightarrow> ok_or unauthorized (Option.bind (bearer_token header) (admin_verify sha m)))"

section \<open>Hexadecimal round trip\<close>

lemma nibbles: "h < 16 \<Longrightarrow> l < 16 \<Longrightarrow>
  ucast (push_bit 4 (word_of_nat h :: u32) OR word_of_nat l) = (word_of_nat (16 * h + l) :: u8)"
proof -
  assume h: "h < 16" and l: "l < 16"
  have low: "n < 4" if "bit l n" for n
  proof (rule ccontr)
    assume "\<not> n < 4"
    then have "(2 :: nat) ^ 4 \<le> 2 ^ n" by (intro power_increasing) auto
    with l have "l div 2 ^ n = 0" by simp
    with that show False by (simp add: bit_iff_odd)
  qed
  have "push_bit 4 (word_of_nat h :: u32) AND word_of_nat l = 0"
    by (intro bit_word_eqI) (auto simp: bit_simps dest: low)
  then have "push_bit 4 (word_of_nat h :: u32) OR word_of_nat l = push_bit 4 (word_of_nat h) + word_of_nat l"
    by (rule disjunctive_add_eq_or [symmetric])
  also have "\<dots> = word_of_nat (16 * h + l)" by (simp add: push_bit_eq_mult mult.commute)
  finally have e: "push_bit 4 (word_of_nat h :: u32) OR word_of_nat l = word_of_nat (16 * h + l)" .
  have "take_bit 32 (16 * h + l) = 16 * h + l" using h l by (intro take_bit_nat_eq_self) simp
  then have "unat (word_of_nat (16 * h + l) :: u32) = 16 * h + l" by (simp add: unsigned_of_nat del: of_nat_add of_nat_mult)
  then show ?thesis unfolding e by (metis of_nat_unat)
qed

lemma hex_digit_to_digit: "n < 16 \<Longrightarrow> to_digit16 (hex_digit n) = Some (word_of_nat n)"
  by (simp add: hex_digit_def to_digit16_def of_char_of)

lemma hex_digit_lower: "n < 16 \<Longrightarrow> lower_hex (hex_digit n)"
  by (simp add: hex_digit_def lower_hex_def of_char_of)

lemma decode_pairs_hex: "decode_pairs (hex bytes) = Some bytes"
proof (induction bytes)
  case (Cons b bytes)
  have "unat b < 256" using unsigned_less [of b] by simp
  then have "unat b div 16 < 16" by simp
  then show ?case
    using Cons by (simp add: hex_def hex_digit_to_digit nibbles)
qed (simp add: hex_def)

lemma length_hex: "length (hex bytes) = 2 * length bytes"
  by (induction bytes) (simp_all add: hex_def)

lemma lower_hex_hex: "list_all lower_hex (hex bytes)"
proof (induction bytes)
  case (Cons b bytes)
  have "unat b < 256" using unsigned_less [of b] by simp
  then have "unat b div 16 < 16" by simp
  then show ?case using Cons by (simp add: hex_def hex_digit_lower)
qed (simp add: hex_def)

lemma lower_hex_ascii: "list_all lower_hex s \<Longrightarrow> is_ascii s"
  by (induction s) (auto simp: is_ascii_def lower_hex_def Let_def)

lemma decode_digest_hex_hex: "length bytes = 32 \<Longrightarrow> decode_digest_hex (hex bytes) = Some bytes"
  by (simp add: decode_digest_hex_def length_hex lower_hex_ascii lower_hex_hex decode_pairs_hex)

lemma decode_pairs_lower_hex: "list_all lower_hex s \<Longrightarrow> even (length s) \<Longrightarrow> \<exists>d. decode_pairs s = Some d"
  by (induction s rule: decode_pairs.induct) (auto simp: lower_hex_def to_digit16_def Let_def)

section \<open>What a configured key may present\<close>

text \<open>
  Both builders treat a key by the credential it has: a known digest, one that is not known (nothing the
  caller presents can match it) or none, in which case the id alone is enough.
\<close>

datatype credential = CredToken digest | CredDenied | CredOpen

definition put_cred :: "(proxy_key \<Rightarrow> credential) \<Rightarrow> gateway_auth \<Rightarrow> proxy_key \<Rightarrow> gateway_auth" where
  "put_cred f a k =
     (let a1 = note_expiry k a
      in case f k of
           CredToken d \<Rightarrow> insert_token (pk_id k) d a1
         | CredDenied \<Rightarrow> a1\<lparr>ga_token_keys := insert (pk_id k) (ga_token_keys a1)\<rparr>
         | CredOpen \<Rightarrow> a1\<lparr>ga_legacy := insert (pk_id k) (ga_legacy a1)\<rparr>)"

definition unresolved_cred :: "proxy_key \<Rightarrow> credential" where
  "unresolved_cred k =
     (if pk_token_ref k \<noteq> None then CredDenied
      else case pk_token_digest k of
             Some h \<Rightarrow> (case decode_digest_hex h of Some d \<Rightarrow> CredToken d | None \<Rightarrow> CredDenied)
           | None \<Rightarrow> CredOpen)"

definition token_of_ref :: "secret_resolver \<Rightarrow> string \<Rightarrow> secret_error + string" where
  "token_of_ref resolve r = and_then (secret_ref_from_str r) resolve"

definition resolved_cred :: "sha256 \<Rightarrow> secret_resolver \<Rightarrow> proxy_key \<Rightarrow> credential" where
  "resolved_cred sha resolve k =
     (case pk_token_ref k of
        Some r \<Rightarrow> (case token_of_ref resolve r of Inr t \<Rightarrow> CredToken (sha t) | Inl _ \<Rightarrow> CredDenied)
      | None \<Rightarrow> unresolved_cred k)"

lemma unresolved_foldl: "from_config_unresolved config = foldl (put_cred unresolved_cred) auth_empty (gc_proxy_keys config)"
proof -
  have "add_unresolved = put_cred unresolved_cred"
    by (intro ext) (auto simp: add_unresolved_def put_cred_def unresolved_cred_def Let_def split: option.splits)
  then show ?thesis by (simp add: from_config_unresolved_def)
qed

lemma add_key_Inr:
  "add_key sha resolve a k = Inr a1 \<longleftrightarrow>
     resolved_cred sha resolve k \<noteq> CredDenied \<and> a1 = put_cred (resolved_cred sha resolve) a k"
  by (cases "pk_token_ref k"; cases "pk_token_digest k")
    (auto simp: add_key_def resolved_cred_def unresolved_cred_def token_of_ref_def put_cred_def Let_def and_then_Inr_iff
      and_then_def map_err_def split: sum.splits option.splits)

lemma add_keys_Inr:
  "add_keys sha resolve a ks = Inr a' \<longleftrightarrow>
     list_all (\<lambda>k. resolved_cred sha resolve k \<noteq> CredDenied) ks \<and> a' = foldl (put_cred (resolved_cred sha resolve)) a ks"
  by (induction ks arbitrary: a) (auto simp: and_then_Inr_iff add_key_Inr)

lemma put_cred_other [simp]:
  "i \<noteq> pk_id k \<Longrightarrow> i \<in> ga_legacy (put_cred f a k) \<longleftrightarrow> i \<in> ga_legacy a"
  "i \<noteq> pk_id k \<Longrightarrow> i \<in> ga_token_keys (put_cred f a k) \<longleftrightarrow> i \<in> ga_token_keys a"
  "i \<noteq> pk_id k \<Longrightarrow> ga_expires (put_cred f a k) i = ga_expires a i"
  "ga_expires (put_cred f a k) (pk_id k) =
     (case pk_expires_at k of Some e \<Rightarrow> Some e | None \<Rightarrow> ga_expires a (pk_id k))"
  by (auto simp: put_cred_def note_expiry_def insert_token_def Let_def split: credential.splits option.splits)

lemma put_cred_tokens:
  assumes "pk_id k \<notin> ran (ga_tokens a)"
  shows "ga_tokens (put_cred f a k) d = (if f k = CredToken d then Some (pk_id k) else ga_tokens a d)"
  using assms
  by (auto simp: put_cred_def note_expiry_def insert_token_def retain_other_def Let_def ran_def
      split: credential.splits option.splits)

lemma put_cred_own:
  assumes "pk_id k \<notin> ga_legacy a"
  shows "pk_id k \<in> ga_legacy (put_cred f a k) \<longleftrightarrow> f k = CredOpen"
  using assms
  by (auto simp: put_cred_def note_expiry_def insert_token_def Let_def split: credential.splits option.splits)

text \<open>The key that a digest belongs to: of several with the same digest the last one of the list.\<close>

definition owner_of :: "(proxy_key \<Rightarrow> credential) \<Rightarrow> proxy_key list \<Rightarrow> digest \<Rightarrow> proxy_key option" where
  "owner_of f ks d = find (\<lambda>k. f k = CredToken d) (rev ks)"

lemma owner_of_snoc: "owner_of f (ks @ [k]) d = (if f k = CredToken d then Some k else owner_of f ks d)"
  by (simp add: owner_of_def)

lemma owner_of_Some: "owner_of f ks d = Some k \<Longrightarrow> k \<in> set ks \<and> f k = CredToken d"
proof (induction ks rule: rev_induct)
  case Nil
  then show ?case by (simp add: owner_of_def)
next
  case (snoc x xs)
  then show ?case by (cases "f x = CredToken d") (auto simp: owner_of_snoc)
qed

lemma fold_creds_tokens:
  "distinct (map pk_id ks) \<Longrightarrow>
     ga_tokens (foldl (put_cred f) auth_empty ks) d = map_option pk_id (owner_of f ks d)"
proof (induction ks arbitrary: d rule: rev_induct)
  case Nil
  show ?case by (simp add: auth_empty_def owner_of_def)
next
  case (snoc x ks)
  let ?a = "foldl (put_cred f) auth_empty ks"
  from snoc have IH: "ga_tokens ?a d = map_option pk_id (owner_of f ks d)" for d by simp
  have "pk_id k \<noteq> pk_id x" if "owner_of f ks e = Some k" for k e
    using owner_of_Some [OF that] snoc.prems by (simp add: image_iff) metis
  then have "pk_id x \<notin> ran (ga_tokens ?a)" by (auto simp: ran_def IH)
  then show ?case by (simp add: put_cred_tokens owner_of_snoc IH)
qed

lemma fold_creds_legacy:
  "distinct (map pk_id ks) \<Longrightarrow>
     i \<in> ga_legacy (foldl (put_cred f) auth_empty ks) \<longleftrightarrow> (\<exists>k \<in> set ks. pk_id k = i \<and> f k = CredOpen)"
proof (induction ks arbitrary: i rule: rev_induct)
  case Nil
  show ?case by (simp add: auth_empty_def)
next
  case (snoc x ks)
  let ?a = "foldl (put_cred f) auth_empty ks"
  from snoc have IH: "i \<in> ga_legacy ?a \<longleftrightarrow> (\<exists>k \<in> set ks. pk_id k = i \<and> f k = CredOpen)" for i by simp
  from snoc.prems have n: "\<forall>k \<in> set ks. pk_id k \<noteq> pk_id x" by (simp add: image_iff) metis
  then have "pk_id x \<notin> ga_legacy ?a" by (simp add: IH)
  from put_cred_own [OF this] n show ?case by (cases "i = pk_id x") (auto simp: IH)
qed

lemma fold_creds_expires:
  assumes "distinct (map pk_id ks)"
  shows "(\<forall>k \<in> set ks. ga_expires (foldl (put_cred f) auth_empty ks) (pk_id k) = pk_expires_at k) \<and>
     (\<forall>i. i \<notin> pk_id ` set ks \<longrightarrow> ga_expires (foldl (put_cred f) auth_empty ks) i = None)"
  using assms
proof (induction ks rule: rev_induct)
  case Nil
  show ?case by (simp add: auth_empty_def)
next
  case (snoc x ks)
  let ?a = "foldl (put_cred f) auth_empty ks"
  from snoc have IH: "\<forall>k \<in> set ks. ga_expires ?a (pk_id k) = pk_expires_at k"
      "\<forall>i. i \<notin> pk_id ` set ks \<longrightarrow> ga_expires ?a i = None"
    and n: "pk_id x \<notin> pk_id ` set ks" by auto
  have "ga_expires (put_cred f ?a x) (pk_id x) = pk_expires_at x"
    using IH(2) n by (simp split: option.splits)
  moreover have "\<forall>k \<in> set ks. ga_expires (put_cred f ?a x) (pk_id k) = pk_expires_at k"
  proof
    fix k assume "k \<in> set ks"
    with n have "pk_id k \<noteq> pk_id x" by (metis imageI)
    with IH(1) \<open>k \<in> set ks\<close> show "ga_expires (put_cred f ?a x) (pk_id k) = pk_expires_at k" by simp
  qed
  ultimately show ?case using IH(2) by simp
qed

lemma check_expiry_Inr:
  "check_expiry a i now = Inr u \<longleftrightarrow> (\<forall>e. ga_expires a i = Some e \<longrightarrow> now < e)"
  by (auto simp: check_expiry_def split: option.splits)

definition key_live :: "proxy_key \<Rightarrow> datetime \<Rightarrow> bool" where
  "key_live k now = (case pk_expires_at k of None \<Rightarrow> True | Some e \<Rightarrow> now < e)"

lemma authenticate_creds:
  assumes "distinct (map pk_id ks)"
  shows "authenticate sha (foldl (put_cred f) auth_empty ks) bearer query now = Inr i \<longleftrightarrow>
     (\<exists>k \<in> set ks. pk_id k = i \<and> key_live k now \<and>
       (case bearer of
          Some t \<Rightarrow> t \<noteq> [] \<and> owner_of f ks (sha t) = Some k
        | None \<Rightarrow> query = Some i \<and> f k = CredOpen))"
proof -
  note c = fold_creds_tokens [OF assms, of f] fold_creds_legacy [OF assms, of _ f]
    fold_creds_expires [OF assms, of f, THEN conjunct1, THEN bspec]
  let ?a = "foldl (put_cred f) auth_empty ks"
  have e: "check_expiry ?a (pk_id k) now = Inr () \<longleftrightarrow> key_live k now" if "k \<in> set ks" for k
    using c(3) [OF that] by (auto simp: check_expiry_Inr key_live_def split: option.splits)
  show ?thesis
  proof (cases bearer)
    case (Some t)
    have "authenticate sha ?a bearer query now = Inr i \<longleftrightarrow>
        t \<noteq> [] \<and> ga_tokens ?a (sha t) = Some i \<and> check_expiry ?a i now = Inr ()"
      by (auto simp: authenticate_def Some and_then_Inr_iff)
    with Some show ?thesis using c(1) [of "sha t"] e owner_of_Some [of f ks "sha t"] by auto
  next
    case None
    have "authenticate sha ?a bearer query now = Inr i \<longleftrightarrow>
        query = Some i \<and> i \<in> ga_legacy ?a \<and> check_expiry ?a i now = Inr ()"
      by (auto simp: authenticate_def None and_then_Inr_iff split: option.splits)
    moreover have "k = k'" if "k \<in> set ks" "k' \<in> set ks" "pk_id k = pk_id k'" for k k'
      using that assms by (auto simp: distinct_map dest: inj_onD)
    ultimately show ?thesis using None c(2) [of i] e by auto
  qed
qed

section \<open>Issuing and revoking at run time\<close>

datatype auth_op = Issue string digest "datetime option" | Revoke string

fun auth_step :: "gateway_auth \<Rightarrow> auth_op \<Rightarrow> gateway_auth" where
  "auth_step a (Issue i d e) = set_token i d e a"
| "auth_step a (Revoke i) = clear_token i a"

text \<open>An operation that leaves a key and its digest alone.\<close>

fun apart :: "string \<Rightarrow> digest option \<Rightarrow> auth_op \<Rightarrow> bool" where
  "apart i d (Issue j d' e) = (j \<noteq> i \<and> d \<noteq> Some d')"
| "apart i d (Revoke j) = (j \<noteq> i)"

text \<open>What the table says of one key: its only digest, whether the id alone is enough, and its expiry.\<close>

definition view_of :: "gateway_auth \<Rightarrow> string \<Rightarrow> digest set \<times> bool \<times> bool \<times> datetime option" where
  "view_of a i = ({d. ga_tokens a d = Some i}, i \<in> ga_legacy a, i \<in> ga_token_keys a, ga_expires a i)"

lemma view_of_set_token: "view_of (set_token i d e a) i = ({d}, False, True, e)"
  by (auto simp: view_of_def set_token_def insert_token_def retain_other_def Let_def)

lemma view_of_clear_token: "view_of (clear_token i a) i = ({}, True, False, None)"
  by (auto simp: view_of_def clear_token_def retain_other_def)

lemma view_of_apart:
  assumes "apart i d x" and "{d'. ga_tokens a d' = Some i} \<subseteq> set_option d"
  shows "view_of (auth_step a x) i = view_of a i"
  using assms
  by (cases x) (auto simp: view_of_def set_token_def clear_token_def insert_token_def retain_other_def Let_def)

lemma view_of_run:
  assumes "list_all (apart i d) xs" and "{d'. ga_tokens a d' = Some i} \<subseteq> set_option d"
  shows "view_of (foldl auth_step a xs) i = view_of a i"
  using assms
proof (induction xs arbitrary: a)
  case (Cons x xs)
  then have v: "view_of (auth_step a x) i = view_of a i" using view_of_apart [of i d x a] by simp
  then have "{d'. ga_tokens (auth_step a x) d' = Some i} \<subseteq> set_option d"
    using Cons.prems(2) by (simp add: view_of_def)
  with Cons v show ?case by simp
qed simp

lemma authenticate_view:
  assumes "view_of a i = (ds, legacy, tok, e)"
  shows "authenticate sha a bearer query now = Inr i \<longleftrightarrow>
     (\<forall>x. e = Some x \<longrightarrow> now < x) \<and>
     (case bearer of Some t \<Rightarrow> t \<noteq> [] \<and> sha t \<in> ds | None \<Rightarrow> query = Some i \<and> legacy)"
proof -
  have "authenticate sha a bearer query now = Inr i \<longleftrightarrow> check_expiry a i now = Inr () \<and>
      (case bearer of Some t \<Rightarrow> t \<noteq> [] \<and> ga_tokens a (sha t) = Some i | None \<Rightarrow> query = Some i \<and> i \<in> ga_legacy a)"
    by (auto simp: authenticate_def and_then_Inr_iff split: option.splits)
  then show ?thesis using assms by (auto simp: view_of_def check_expiry_Inr split: option.splits)
qed

text \<open>No key is in both modes, and digests only belong to keys with a token, one each.\<close>

definition auth_inv :: "gateway_auth \<Rightarrow> bool" where
  "auth_inv a \<longleftrightarrow>
     ga_token_keys a \<inter> ga_legacy a = {} \<and> ran (ga_tokens a) \<subseteq> ga_token_keys a \<and>
     (\<forall>d d' i. ga_tokens a d = Some i \<and> ga_tokens a d' = Some i \<longrightarrow> d = d')"

lemma ran_retain: "ran (retain_other i m) \<subseteq> ran m - {i}"
  by (auto simp: ran_def retain_other_def split: if_splits)

lemma insert_token_inv [wf_intros]: "auth_inv a \<Longrightarrow> auth_inv (insert_token i d a)"
  unfolding auth_inv_def insert_token_def
  using ran_retain [of i "ga_tokens a"] by (auto simp: retain_other_def ran_def split: if_splits)

lemma auth_step_inv [wf_intros]: "auth_inv a \<Longrightarrow> auth_inv (auth_step a x)"
proof (cases x)
  case (Issue i d e)
  assume "auth_inv a"
  from insert_token_inv [OF this, of i d] show ?thesis by (simp add: Issue set_token_def Let_def auth_inv_def)
next
  case (Revoke i)
  assume "auth_inv a"
  then show ?thesis using ran_retain [of i "ga_tokens a"]
    by (auto simp: Revoke clear_token_def auth_inv_def retain_other_def split: if_splits)
qed

lemma auth_run_inv: "auth_inv a \<Longrightarrow> auth_inv (foldl auth_step a xs)"
  by (induction xs arbitrary: a) (auto intro: auth_step_inv)

lemma put_cred_inv [wf_intros]:
  assumes "auth_inv a" and "pk_id k \<notin> ga_token_keys a" and "pk_id k \<notin> ga_legacy a"
  shows "auth_inv (put_cred f a k)"
proof -
  have "auth_inv (note_expiry k a)" using assms(1) by (simp add: note_expiry_def auth_inv_def split: option.splits)
  moreover have "ga_token_keys (note_expiry k a) = ga_token_keys a" "ga_legacy (note_expiry k a) = ga_legacy a"
    by (simp_all add: note_expiry_def split: option.splits)
  ultimately show ?thesis
    using assms(2,3) insert_token_inv [of "note_expiry k a" "pk_id k"]
    by (auto simp: put_cred_def Let_def auth_inv_def split: credential.splits)
qed

lemma fold_creds_inv:
  assumes "distinct (map pk_id ks)"
  shows "auth_inv (foldl (put_cred f) auth_empty ks) \<and>
    ga_token_keys (foldl (put_cred f) auth_empty ks) \<union> ga_legacy (foldl (put_cred f) auth_empty ks) \<subseteq> pk_id ` set ks"
  using assms
proof (induction ks rule: rev_induct)
  case Nil
  show ?case by (simp add: auth_inv_def auth_empty_def)
next
  case (snoc k ks)
  let ?a = "foldl (put_cred f) auth_empty ks"
  from snoc have i: "auth_inv ?a" "ga_token_keys ?a \<union> ga_legacy ?a \<subseteq> pk_id ` set ks" and n: "pk_id k \<notin> pk_id ` set ks"
    by auto
  then have "auth_inv (put_cred f ?a k)" by (intro put_cred_inv) auto
  moreover have "ga_token_keys (put_cred f ?a k) \<union> ga_legacy (put_cred f ?a k) \<subseteq> pk_id ` set (ks @ [k])"
  proof
    fix j assume "j \<in> ga_token_keys (put_cred f ?a k) \<union> ga_legacy (put_cred f ?a k)"
    then show "j \<in> pk_id ` set (ks @ [k])" using i(2) by (cases "j = pk_id k") auto
  qed
  ultimately show ?case by simp
qed

section \<open>The authentication contract\<close>

text \<open>C15: for a configuration with distinct key ids the gateway accepts a caller as a key exactly when the key
  has not expired and either the caller presents a non-empty bearer token whose digest is that of the key (of
  several keys with the digest, the last one), or presents no bearer token and names a key that has no token
  configured; a presented token is decisive, the id is then ignored.\<close>

theorem authenticate_configured:
  assumes "auth_from_config sha resolve config = Inr a" and "distinct (map pk_id (gc_proxy_keys config))"
  shows "authenticate sha a bearer query now = Inr i \<longleftrightarrow>
     (\<exists>k \<in> set (gc_proxy_keys config). pk_id k = i \<and> key_live k now \<and>
       (case bearer of
          Some t \<Rightarrow> t \<noteq> [] \<and> owner_of (resolved_cred sha resolve) (gc_proxy_keys config) (sha t) = Some k
        | None \<Rightarrow> query = Some i \<and> pk_token_ref k = None \<and> pk_token_digest k = None))"
proof -
  have o: "resolved_cred sha resolve k = CredOpen \<longleftrightarrow> pk_token_ref k = None \<and> pk_token_digest k = None" for k
    by (auto simp: resolved_cred_def unresolved_cred_def split: option.splits sum.splits)
  show ?thesis
    using assms(1) authenticate_creds [OF assms(2), of sha "resolved_cred sha resolve" bearer query now i]
    by (simp add: auth_from_config_def add_keys_Inr o cong: option.case_cong)
qed

text \<open>Once a token is issued for a key, exactly the tokens with its digest authenticate as that key, until
  the expiry, whatever the key accepted before and whatever is issued or revoked for other keys afterwards
  (short of giving another key the same digest); once revoked, no token does and the id alone is accepted.\<close>

lemma credential_lifecycle:
  assumes "list_all (apart i (Some d)) xs"
  shows "(authenticate sha (foldl auth_step (set_token i d e a) xs) bearer query now = Inr i \<longleftrightarrow>
       (\<forall>x. e = Some x \<longrightarrow> now < x) \<and> (\<exists>t. bearer = Some t \<and> t \<noteq> [] \<and> sha t = d)) \<and>
     (authenticate sha (foldl auth_step (clear_token i a) xs) bearer query now = Inr i \<longleftrightarrow>
       bearer = None \<and> query = Some i)"
proof -
  have s: "view_of (foldl auth_step (set_token i d e a) xs) i = ({d}, False, True, e)"
    using view_of_run [OF assms, of "set_token i d e a"] view_of_set_token [of i d e a] by (simp add: view_of_def)
  have c: "view_of (foldl auth_step (clear_token i a) xs) i = ({}, True, False, None)"
    using view_of_run [OF assms, of "clear_token i a"] view_of_clear_token [of i a] by (simp add: view_of_def)
  show ?thesis
    unfolding authenticate_view [OF s] authenticate_view [OF c] by (cases bearer) auto
qed

text \<open>In every state that a configuration with distinct ids and any sequence of issued and revoked tokens
  lead to, no key accepts both a token and its bare id, every stored digest belongs to a key that needs a
  token, and no key has two digests.\<close>

lemma auth_modes_exclusive:
  assumes "distinct (map pk_id (gc_proxy_keys config))"
    and "auth_from_config sha resolve config = Inr a \<or> a = from_config_unresolved config"
  shows "auth_inv (foldl auth_step a xs)"
proof -
  have "auth_inv a"
    using assms(2) fold_creds_inv [OF assms(1)] by (auto simp: auth_from_config_def add_keys_Inr unresolved_foldl)
  then show ?thesis by (rule auth_run_inv)
qed

text \<open>Until the references are resolved, no caller is accepted as a key that has one.\<close>

lemma unresolved_denies_refs:
  assumes "distinct (map pk_id (gc_proxy_keys config))"
    and "authenticate sha (from_config_unresolved config) bearer query now = Inr i"
  shows "\<exists>k \<in> set (gc_proxy_keys config). pk_id k = i \<and> pk_token_ref k = None \<and> key_live k now"
proof -
  obtain k where k: "k \<in> set (gc_proxy_keys config)" "pk_id k = i" "key_live k now"
      "case bearer of Some t \<Rightarrow> t \<noteq> [] \<and> owner_of unresolved_cred (gc_proxy_keys config) (sha t) = Some k
       | None \<Rightarrow> query = Some i \<and> unresolved_cred k = CredOpen"
    using assms(2) unfolding unresolved_foldl authenticate_creds [OF assms(1)] by blast
  from k(4) have "unresolved_cred k \<noteq> CredDenied" by (auto dest: owner_of_Some split: option.splits)
  then have "pk_token_ref k = None" by (auto simp: unresolved_cred_def split: if_splits)
  with k show ?thesis by blast
qed

text \<open>A validated digest always decodes, so only a secret reference can stop the start-up.\<close>

lemma validated_digests_decode:
  assumes "validate_key_credentials config = Inr u" and "k \<in> set (gc_proxy_keys config)" and "pk_token_ref k = None"
  shows "resolved_cred sha resolve k \<noteq> CredDenied"
proof -
  have "check_all_credentials ks = Inr () \<Longrightarrow> k \<in> set ks \<Longrightarrow> check_key_credentials k = Inr ()" for ks
    by (induction ks) (auto simp: and_then_Inr_iff)
  then have "check_key_credentials k = Inr ()"
    using assms(1,2) unfolding validate_key_credentials_def by auto
  then have "\<exists>d. decode_digest_hex h = Some d" if "pk_token_digest k = Some h" for h
    using that decode_pairs_lower_hex [of h]
    by (auto simp: check_key_credentials_def Let_def decode_digest_hex_def lower_hex_ascii split: if_splits)
  then show ?thesis using assms(3)
    by (force simp: resolved_cred_def unresolved_cred_def split: option.splits)
qed

section \<open>Runs\<close>

text \<open>A stand-in for the hash, a key with a token that is read from a secret, and one without.\<close>

definition example_sha :: sha256 where
  "example_sha s = replicate 31 0 @ [word_of_nat (length s)]"

definition plain_key :: "string \<Rightarrow> proxy_key" where
  "plain_key i =
     \<lparr>pk_id = i, pk_display_name = [], pk_allowed_tools = [], pk_denied_tools = [], pk_allowed_servers = [], pk_allowed_tool_names = [],
      pk_limits = None, pk_token_ref = None, pk_token_digest = None, pk_expires_at = None,
      pk_default_tool_page_size = 10, pk_discovery_mode = None, pk_response_format = None\<rparr>"

definition example_auth_config :: gateway_config where
  "example_auth_config =
     \<lparr>gc_default_response_format = None, gc_failure_mode = FailOpen, gc_oauth = None, gc_api_resources = [], gc_builtin_mcp = [], gc_mcp_servers = [],
      gc_proxy_keys =
        [(plain_key ''ci'')\<lparr>pk_token_ref := Some ''secret://env/CI'', pk_expires_at := Some 100\<rparr>, plain_key ''dev'']\<rparr>"

definition example_resolve :: secret_resolver where
  "example_resolve r = (if sr_path r = ''CI'' then Inr ''tok'' else Inl (SecretNotFound ''secret://env/''))"

lemma example_auth_distinct: "distinct (map pk_id (gc_proxy_keys example_auth_config))"
  by (simp add: example_auth_config_def plain_key_def)

lemma example_ref: "secret_ref_from_str ''secret://env/CI'' = Inr \<lparr>sr_backend = ''env'', sr_path = ''CI''\<rparr>"
  by code_simp

lemma example_auth_ok: "\<exists>a. auth_from_config example_sha example_resolve example_auth_config = Inr a"
  unfolding auth_from_config_def add_keys_Inr
  by (simp add: example_auth_config_def plain_key_def resolved_cred_def unresolved_cred_def token_of_ref_def example_ref
      example_resolve_def)

theorem authenticate_configured_witness:
  "\<exists>a. auth_from_config example_sha example_resolve example_auth_config = Inr a \<and>
     authenticate example_sha a (Some ''tok'') None 99 = Inr ''ci'' \<and>
     authenticate example_sha a (Some ''tok'') None 100 \<noteq> Inr ''ci'' \<and>
     authenticate example_sha a None (Some ''dev'') 100 = Inr ''dev'' \<and>
     authenticate example_sha a None (Some ''ci'') 99 \<noteq> Inr ''ci''"
proof -
  obtain a where a: "auth_from_config example_sha example_resolve example_auth_config = Inr a"
    using example_auth_ok ..
  note iff = authenticate_configured [OF a example_auth_distinct]
  let ?f = "resolved_cred example_sha example_resolve"
  have "owner_of ?f (gc_proxy_keys example_auth_config) (example_sha ''tok'') =
      Some (hd (gc_proxy_keys example_auth_config))"
    by (simp add: owner_of_def example_auth_config_def plain_key_def resolved_cred_def unresolved_cred_def
        token_of_ref_def example_ref example_resolve_def)
  then show ?thesis using a unfolding iff
    by (simp add: iff example_auth_config_def plain_key_def key_live_def)
qed

lemma credential_lifecycle_witness:
  "authenticate example_sha (foldl auth_step (set_token ''ci'' (example_sha ''new'') (Some 9) auth_empty)
     [Revoke ''dev'']) (Some ''new'') None 8 = Inr ''ci''"
  using credential_lifecycle [of "''ci''" "example_sha ''new''" "[Revoke ''dev'']" example_sha "Some 9" auth_empty
      "Some ''new''" None 8]
  by simp

lemma auth_modes_exclusive_witness:
  "auth_inv (foldl auth_step (from_config_unresolved example_auth_config) [Revoke ''ci''])"
  by (rule auth_modes_exclusive [OF example_auth_distinct]) simp

end
