(* ===== verification/Semantic.thy ===== *)
theory Semantic
  imports SchemaView GatewayAuth "HOL-Library.Product_Lexorder" "HOL-Library.Multiset"
begin

unbundle bit_operations_syntax

text \<open>
  Semantic tool search (\<open>src/semantic.rs\<close>, \<open>src/config/semantic_search.rs\<close>): the cache of embedding
  vectors, the requests for missing ones in batches, and the ranking by cosine similarity. A
  floating-point number is its bit pattern; the four arithmetic operations of the machine, the hasher and the embeddings
  endpoint are parameters. Whatever the endpoint returns, a ranking that succeeds is a rearrangement of the candidates.
\<close>

type_synonym f32 = "32 word"

record float_ops =
  fl_add :: "f32 \<Rightarrow> f32 \<Rightarrow> f32"
  fl_mul :: "f32 \<Rightarrow> f32 \<Rightarrow> f32"
  fl_div :: "f32 \<Rightarrow> f32 \<Rightarrow> f32"
  fl_sqrt :: "f32 \<Rightarrow> f32"

text \<open>\<open>== 0.0\<close> holds of both zeros; \<open>f32::total_cmp\<close> compares these integers.\<close>

definition is_zero :: "f32 \<Rightarrow> bool" where
  "is_zero x \<longleftrightarrow> x = 0 \<or> x = 0x80000000"

definition total_key :: "f32 \<Rightarrow> int" where
  "total_key x = sint (if bit x 31 then x XOR 0x7FFFFFFF else x)"

definition EMBED_BATCH :: nat where "EMBED_BATCH = 128"
definition MAX_EMBED_CHARS :: nat where "MAX_EMBED_CHARS = 2000"

datatype semantic_error = SemRequest string | SemMalformed string

record semantic_search_config =
  ssc_base_url :: string
  ssc_model :: string
  ssc_api_key_ref :: "string option"
  ssc_timeout_secs :: nat

record embedding_request =
  eq_url :: string
  eq_model :: string
  eq_input :: "string list"
  eq_key :: "string option"
  eq_timeout :: duration

text \<open>What a request to the endpoint gives: no response, or a status and a body that parses or not.\<close>

datatype embedding_reply = NoResponse string | Response u16 "string + (nat \<times> f32 list) list"

record semantic_env =
  sv_ops :: float_ops
  sv_hash :: "string \<Rightarrow> u64"
  sv_post :: "nat \<Rightarrow> embedding_request \<Rightarrow> embedding_reply"
  sv_query_post :: "embedding_request \<Rightarrow> embedding_reply"

record semantic_index =
  sx_base_url :: string
  sx_model :: string
  sx_api_key :: "string option"
  sx_timeout :: duration
  sx_cache :: "(string, u64 \<times> f32 list) hashmap"

definition semantic_from_config ::
  "secret_resolver \<Rightarrow> semantic_search_config option \<Rightarrow> secret_error + semantic_index option" where
  "semantic_from_config resolve config =
     (case config of
        None \<Rightarrow> Inr None
      | Some c \<Rightarrow>
          and_then
            (case ssc_api_key_ref c of
               Some key_ref \<Rightarrow>
                 and_then (secret_ref_from_str key_ref) (\<lambda>r. and_then (resolve r) (\<lambda>s. Inr (Some s)))
             | None \<Rightarrow> Inr None)
            (\<lambda>key. Inr (Some
               \<lparr>sx_base_url = trim_end_char CHR ''/'' (ssc_base_url c), sx_model = ssc_model c, sx_api_key = key,
                sx_timeout = ssc_timeout_secs c * 10 ^ 9, sx_cache = []\<rparr>)))"

definition embed_text :: "string \<Rightarrow> string \<Rightarrow> string" where
  "embed_text wire_name description =
     (let text = wire_name @ '': '' @ description
      in if length (utf8_chars text) \<le> MAX_EMBED_CHARS then text
         else concat (take MAX_EMBED_CHARS (utf8_chars text)))"

definition cosine :: "float_ops \<Rightarrow> f32 list \<Rightarrow> f32 list \<Rightarrow> f32" where
  "cosine ops a b =
     (if length a \<noteq> length b then 0
      else
        (let (dot, norm_a, norm_b) =
               foldl (\<lambda>(d, na, nb) (x, y). (fl_add ops d (fl_mul ops x y), fl_add ops na (fl_mul ops x x), fl_add ops nb (fl_mul ops y y)))
                 (0, 0, 0) (zip a b)
         in if is_zero norm_a \<or> is_zero norm_b then 0
            else fl_div ops dot (fl_mul ops (fl_sqrt ops norm_a) (fl_sqrt ops norm_b))))"

section \<open>Requests\<close>

definition embedding_request_for :: "semantic_index \<Rightarrow> string list \<Rightarrow> embedding_request" where
  "embedding_request_for ix chunk =
     \<lparr>eq_url = sx_base_url ix @ ''/embeddings'', eq_model = sx_model ix, eq_input = chunk, eq_key = sx_api_key ix,
      eq_timeout = sx_timeout ix\<rparr>"

definition read_embeddings :: "string list \<Rightarrow> embedding_reply \<Rightarrow> semantic_error + f32 list list" where
  "read_embeddings chunk reply =
     (case reply of
        NoResponse e \<Rightarrow> Inl (SemRequest e)
      | Response status body \<Rightarrow>
          if status < 200 \<or> 300 \<le> status
          then Inl (SemRequest (''embeddings endpoint returned '' @ dec (unat status)))
          else
            (case body of
               Inl e \<Rightarrow> Inl (SemMalformed e)
             | Inr embeddings \<Rightarrow>
                 if length embeddings \<noteq> length chunk
                 then Inl (SemMalformed (''expected '' @ dec (length chunk) @ '' embeddings, got '' @ dec (length embeddings)))
                 else Inr (map snd (sort_key fst embeddings))))"

function embed :: "(nat \<Rightarrow> embedding_request \<Rightarrow> embedding_reply) \<Rightarrow> semantic_index \<Rightarrow> nat \<Rightarrow> string list \<Rightarrow>
  semantic_error + f32 list list" where
  "embed post ix n [] = Inr []"
| "embed post ix n (x # xs) =
     and_then (read_embeddings (take EMBED_BATCH (x # xs)) (post n (embedding_request_for ix (take EMBED_BATCH (x # xs))))) (\<lambda>vs.
     and_then (embed post ix (Suc n) (drop EMBED_BATCH (x # xs))) (\<lambda>rest. Inr (vs @ rest)))"
  by pat_completeness auto
termination by (relation "measure (\<lambda>(_, _, _, xs). length xs)") (auto simp: EMBED_BATCH_def)

section \<open>Ranking\<close>

definition missing_texts :: "semantic_env \<Rightarrow> semantic_index \<Rightarrow> (string \<times> string) list \<Rightarrow> (string \<times> u64 \<times> string) list" where
  "missing_texts env ix candidates =
     List.map_filter (\<lambda>(w, description).
       (let text = embed_text w description; hash = sv_hash env text
        in case map_of (sx_cache ix) w of
             Some (h, _) \<Rightarrow> if h = hash then None else Some (w, hash, text)
           | None \<Rightarrow> Some (w, hash, text))) candidates"

definition insert_vectors ::
  "(string \<times> u64 \<times> string) list \<Rightarrow> f32 list list \<Rightarrow> (string, u64 \<times> f32 list) hashmap \<Rightarrow> (string, u64 \<times> f32 list) hashmap" where
  "insert_vectors missing vectors cache =
     foldl (\<lambda>m ((w, hash, _), v). AList.update w (hash, v) m) cache (zip missing vectors)"

definition rank_key :: "f32 \<times> string \<Rightarrow> int \<times> string" where
  "rank_key p = (- total_key (fst p), snd p)"

definition score_all ::
  "float_ops \<Rightarrow> f32 list \<Rightarrow> (string, u64 \<times> f32 list) hashmap \<Rightarrow> (string \<times> string) list \<Rightarrow> (f32 \<times> string) list" where
  "score_all ops query_vector cache candidates =
     List.map_filter (\<lambda>(w, _). map_option (\<lambda>(_, v). (cosine ops query_vector v, w)) (map_of cache w)) candidates"

definition embed_missing ::
  "semantic_env \<Rightarrow> semantic_index \<Rightarrow> (string \<times> string) list \<Rightarrow> semantic_error + semantic_index" where
  "embed_missing env ix candidates =
     (let missing = missing_texts env ix candidates
      in if missing = [] then Inr ix
         else
           and_then (embed (sv_post env) ix 0 (map (\<lambda>(_, _, text). text) missing)) (\<lambda>vectors.
             Inr (ix\<lparr>sx_cache := insert_vectors missing vectors (sx_cache ix)\<rparr>)))"

definition query_embedding :: "semantic_env \<Rightarrow> semantic_index \<Rightarrow> string \<Rightarrow> semantic_error + f32 list" where
  "query_embedding env ix query =
     and_then (embed (\<lambda>_. sv_query_post env) ix 0 [query]) (\<lambda>vs.
       if vs = [] then Inl (SemMalformed ''empty query embedding'') else Inr (last vs))"

definition semantic_rank ::
  "semantic_env \<Rightarrow> semantic_index \<Rightarrow> string \<Rightarrow> (string \<times> string) list \<Rightarrow> nat \<Rightarrow>
   (semantic_error + string list) \<times> semantic_index" where
  "semantic_rank env ix query candidates limit =
     (case embed_missing env ix candidates of
        Inl e \<Rightarrow> (Inl e, ix)
      | Inr ix1 \<Rightarrow>
          (and_then (query_embedding env ix1 query) (\<lambda>qv.
             Inr (map snd (take limit (sort_key rank_key (score_all (sv_ops env) qv (sx_cache ix1) candidates))))), ix1))"

section \<open>A ranking rearranges the candidates\<close>

lemma read_embeddings_length: "read_embeddings chunk reply = Inr vs \<Longrightarrow> length vs = length chunk"
  by (auto simp: read_embeddings_def split: embedding_reply.splits if_splits sum.splits)

lemma embed_length: "embed post ix n xs = Inr vs \<Longrightarrow> length vs = length xs"
proof (induction post ix n xs arbitrary: vs rule: embed.induct)
  case (2 post ix n x xs)
  then show ?case by (fastforce simp: and_then_Inr_iff dest!: read_embeddings_length)
qed simp

lemma insert_vectors_keeps: "map_of cache w \<noteq> None \<Longrightarrow> map_of (insert_vectors ms vs cache) w \<noteq> None"
proof -
  have "map_of cache w \<noteq> None \<Longrightarrow> map_of (foldl (\<lambda>m ((w, hash, _), v). AList.update w (hash, v) m) cache zs) w \<noteq> None" for zs cache
  proof (induction zs arbitrary: cache)
    case (Cons z zs)
    obtain i h t v where z: "z = ((i, h, t), v)" by (metis prod.collapse)
    have "map_of (AList.update i (h, v) cache) w \<noteq> None" using Cons.prems by (simp add: update_conv')
    from Cons.IH [OF this] show ?case by (simp add: z)
  qed simp
  then show "map_of cache w \<noteq> None \<Longrightarrow> ?thesis" by (simp add: insert_vectors_def)
qed

lemma insert_vectors_gets:
  "length vs = length ms \<Longrightarrow> (w, h, t) \<in> set ms \<Longrightarrow> map_of (insert_vectors ms vs cache) w \<noteq> None"
proof (induction ms vs arbitrary: cache rule: list_induct2')
  case (4 m ms v vs)
  obtain i g s where m: "m = (i, g, s)" by (metis prod.collapse)
  have "insert_vectors (m # ms) (v # vs) cache = insert_vectors ms vs (AList.update i (g, v) cache)"
    by (simp add: insert_vectors_def m)
  then show ?case
    using 4 insert_vectors_keeps [of "AList.update i (g, v) cache" w ms vs] by (auto simp: m update_conv')
qed simp_all

lemma embed_missing_covers:
  assumes "embed_missing env ix candidates = Inr ix1" and "(w, d) \<in> set candidates"
  shows "map_of (sx_cache ix1) w \<noteq> None"
proof -
  let ?ms = "missing_texts env ix candidates"
  have m: "map_of (sx_cache ix) w \<noteq> None \<or> (\<exists>h t. (w, h, t) \<in> set ?ms)"
    using assms(2) unfolding missing_texts_def map_filter_def
    by (cases "map_of (sx_cache ix) w") (force simp: Let_def)+
  show ?thesis
  proof (cases "?ms = []")
    case True
    then show ?thesis using m assms(1) by (auto simp: embed_missing_def)
  next
    case False
    then obtain vs where v: "embed (sv_post env) ix 0 (map (\<lambda>(_, _, text). text) ?ms) = Inr vs"
      "sx_cache ix1 = insert_vectors ?ms vs (sx_cache ix)"
      using assms(1) by (auto simp: embed_missing_def Let_def and_then_Inr_iff)
    have "length vs = length ?ms" using embed_length [OF v(1)] by simp
    with m v(2) insert_vectors_gets insert_vectors_keeps show ?thesis by metis
  qed
qed

lemma score_all_complete:
  assumes "\<forall>c \<in> set candidates. map_of cache (fst c) \<noteq> None"
  shows "map snd (score_all ops qv cache candidates) = map fst candidates"
  using assms by (induction candidates) (auto simp: score_all_def map_filter_simps)

lemma semantic_rank_permutes:
  assumes "semantic_rank env ix query candidates limit = (Inr ws, ix')" and "length candidates \<le> limit"
  shows "mset ws = mset (map fst candidates)"
proof -
  obtain qv where e: "embed_missing env ix candidates = Inr ix'"
    and ws: "ws = map snd (take limit (sort_key rank_key (score_all (sv_ops env) qv (sx_cache ix') candidates)))"
    using assms(1) by (auto simp: semantic_rank_def and_then_Inr_iff split: sum.splits)
  let ?s = "score_all (sv_ops env) qv (sx_cache ix') candidates"
  have c: "map snd ?s = map fst candidates"
    by (rule score_all_complete) (use embed_missing_covers [OF e] in auto)
  then have "length ?s = length candidates" by (metis length_map)
  then have "take limit (sort_key rank_key ?s) = sort_key rank_key ?s" using assms(2) by simp
  then have "mset ws = image_mset snd (mset ?s)" using ws by simp
  also have "\<dots> = mset (map fst candidates)" by (metis c mset_map)
  finally show ?thesis .
qed

end
