(* ===== verification/OpenApi.thy ===== *)
theory OpenApi
  imports SchemaView
begin

text \<open>
  Reading the operations of an OpenAPI document (\<open>src/openapi/mod.rs\<close>): which operations become tools,
  their tool segments, and the single input schema into which an operation's parameters and body are merged,
  with the references into the document's schemas replaced by what they name. The document types are those of
  the crate \<open>openapiv3\<close>, with the fields the code reads; the two parsers, \<open>str::from_utf8\<close>'s message and
  \<open>str::to_lowercase\<close> are the fields of \<open>openapi_lib\<close>.

  The lemmas show that the endpoints are exactly the selected operations, in the order of the document, that
  an endpoint's schema declares exactly the parameters its calls place, that following references ends and
  leaves no reference that the document could answer, and that no credential header is a parameter.
\<close>

section \<open>The document\<close>

datatype 'a reference_or = Item 'a | Reference string

text \<open>All the code does with a schema is to serialise it: a schema is what \<open>serde_json::to_value\<close> gives.\<close>

type_synonym api_schema = "string + json"

datatype param_format = FormatSchema "api_schema reference_or" | FormatContent

record parameter_data =
  pd_name :: string
  pd_required :: bool
  pd_format :: param_format

datatype parameter =
    InPath parameter_data
  | InQuery parameter_data
  | InHeader parameter_data
  | InCookie parameter_data

record request_body =
  rb_required :: bool
  rb_content :: "(string \<times> api_schema reference_or option) list"

record operation =
  op_tags :: "string list"
  op_summary :: "string option"
  op_description :: "string option"
  op_operation_id :: "string option"
  op_parameters :: "parameter reference_or list"
  op_request_body :: "request_body reference_or option"

record path_item =
  pi_get :: "operation option"
  pi_post :: "operation option"
  pi_put :: "operation option"
  pi_patch :: "operation option"
  pi_delete :: "operation option"
  pi_parameters :: "parameter reference_or list"

record components =
  cp_schemas :: "(string \<times> api_schema reference_or) list"
  cp_parameters :: "(string \<times> parameter reference_or) list"
  cp_request_bodies :: "(string \<times> request_body reference_or) list"

record openapi =
  oa_openapi :: string
  oa_paths :: "(string \<times> path_item reference_or) list"
  oa_components :: "components option"

record openapi_lib =
  ol_from_utf8 :: "string \<Rightarrow> string option"
  ol_json :: "string \<Rightarrow> string + openapi"
  ol_yaml :: "string \<Rightarrow> string + openapi"
  ol_lower :: "string \<Rightarrow> string"

record openapi_discovery_config =
  dc_source :: spec_source
  dc_path :: "string option"
  dc_url :: "string option"
  dc_include_tags :: "string list"
  dc_exclude_operations :: "string list"
  dc_default_method_exposure :: "string list"

record param_locations =
  pl_path_params :: "string list"
  pl_query_params :: "string list"
  pl_header_params :: "(string \<times> string) list"
  pl_has_body :: bool

record discovered_endpoint =
  de_tool_segment :: string
  de_method :: string
  de_path :: string
  de_description :: string
  de_input_schema :: json
  de_param_locations :: param_locations

section \<open>Selecting operations\<close>

definition parse_spec :: "openapi_lib \<Rightarrow> string \<Rightarrow> openapi_error + openapi" where
  "parse_spec lib bytes =
     (case ol_from_utf8 lib bytes of
        Some e \<Rightarrow> Inl (ParseError e)
      | None \<Rightarrow>
          and_then
            (case ol_json lib bytes of
               Inr spec \<Rightarrow> Inr spec
             | Inl _ \<Rightarrow> map_err ParseError (ol_yaml lib bytes))
            (\<lambda>spec. if \<not> starts_with (oa_openapi spec) ''3.'' then Inl UnsupportedVersion else Inr spec))"

definition is_method_allowed :: "string \<Rightarrow> openapi_discovery_config \<Rightarrow> bool" where
  "is_method_allowed meth config =
     (if dc_default_method_exposure config = [] then meth \<noteq> ''delete''
      else list_ex (\<lambda>m. map ascii_lower m = map ascii_lower meth) (dc_default_method_exposure config))"

text \<open>\<open>to_uppercase\<close>, on the method names, which are ASCII.\<close>

definition ascii_upper :: "char \<Rightarrow> char" where
  "ascii_upper c =
     (let n = (of_char c :: nat) in if 97 \<le> n \<and> n \<le> 122 then char_of (n - 32) else c)"

definition is_operation_selected ::
  "string \<Rightarrow> string \<Rightarrow> operation \<Rightarrow> openapi_discovery_config \<Rightarrow> bool" where
  "is_operation_selected meth path op config =
     (if \<not> is_method_allowed meth config then False
      else if dc_include_tags config \<noteq> [] \<and> \<not> list_ex (\<lambda>t. t \<in> set (dc_include_tags config)) (op_tags op) then False
      else if map ascii_upper meth @ '' '' @ path \<in> set (dc_exclude_operations config) then False
      else \<not> (case op_operation_id op of None \<Rightarrow> False | Some i \<Rightarrow> i \<in> set (dc_exclude_operations config)))"

section \<open>Tool segments\<close>

fun collapse_loop :: "string \<Rightarrow> bool \<Rightarrow> string \<Rightarrow> string" where
  "collapse_loop out prev [] = out"
| "collapse_loop out prev (c # cs) =
     (if c = CHR ''_'' then collapse_loop (if \<not> prev then out @ ''_'' else out) True cs
      else collapse_loop (out @ [c]) False cs)"

definition trim_underscores :: "string \<Rightarrow> string" where
  "trim_underscores s = trim_end_char (CHR ''_'') (dropWhile (\<lambda>c. c = CHR ''_'') s)"

definition collapse_underscores :: "string \<Rightarrow> string" where
  "collapse_underscores s = trim_underscores (collapse_loop [] False s)"

definition normalize_operation_id :: "string \<Rightarrow> string" where
  "normalize_operation_id i =
     collapse_underscores
       (map (\<lambda>ch. case ch of [c] \<Rightarrow> if is_ascii_alphanumeric c then ascii_lower c else CHR ''_'' | _ \<Rightarrow> CHR ''_'')
         (utf8_chars i))"

definition fallback_segment :: "string \<Rightarrow> string \<Rightarrow> string" where
  "fallback_segment meth path =
     (let slug = map (\<lambda>ch. case ch of
                        [c] \<Rightarrow> if is_ascii_alphanumeric c \<or> c = CHR ''_'' then c else CHR ''_''
                      | _ \<Rightarrow> CHR ''_'')
                   (utf8_chars (dropWhile (\<lambda>c. c = CHR ''/'') path))
      in collapse_underscores (meth @ ''_'' @ slug))"

definition dedup_segment :: "(string \<rightharpoonup> nat) \<Rightarrow> string \<Rightarrow> (string \<rightharpoonup> nat) \<times> string" where
  "dedup_segment seen segment =
     (let count = (case seen segment of None \<Rightarrow> 0 | Some n \<Rightarrow> n) + 1
      in (seen(segment \<mapsto> count), if count = 1 then segment else segment @ ''_'' @ dec count))"

section \<open>References\<close>

definition ref_name :: "string \<Rightarrow> string \<Rightarrow> openapi_error + string" where
  "ref_name reference sec =
     (case strip_prefix (''#/components/'' @ sec @ ''/'') reference of
        Some n \<Rightarrow> Inr n
      | None \<Rightarrow> Inl (RefResolution (''unexpected $ref: '' @ reference)))"

definition spec_components :: "openapi \<Rightarrow> string \<Rightarrow> openapi_error + components" where
  "spec_components spec reference =
     (case oa_components spec of
        Some c \<Rightarrow> Inr c
      | None \<Rightarrow> Inl (RefResolution (''no components for '' @ reference)))"

definition resolve_parameter :: "parameter reference_or \<Rightarrow> openapi \<Rightarrow> openapi_error + parameter" where
  "resolve_parameter param_ref spec =
     (case param_ref of
        Item p \<Rightarrow> Inr p
      | Reference reference \<Rightarrow>
          and_then (ref_name reference ''parameters'') (\<lambda>name.
          and_then (spec_components spec reference) (\<lambda>c.
            case map_of (cp_parameters c) name of
              Some (Item p) \<Rightarrow> Inr p
            | Some (Reference inner) \<Rightarrow> Inl (RefResolution (''nested parameter $ref: '' @ inner))
            | None \<Rightarrow> Inl (RefResolution (''parameter not found: '' @ reference)))))"

definition resolve_request_body :: "request_body reference_or \<Rightarrow> openapi \<Rightarrow> openapi_error + request_body" where
  "resolve_request_body body_ref spec =
     (case body_ref of
        Item b \<Rightarrow> Inr b
      | Reference reference \<Rightarrow>
          and_then (ref_name reference ''requestBodies'') (\<lambda>name.
          and_then (spec_components spec reference) (\<lambda>c.
            case map_of (cp_request_bodies c) name of
              Some (Item b) \<Rightarrow> Inr b
            | Some (Reference inner) \<Rightarrow> Inl (RefResolution (''nested requestBody $ref: '' @ inner))
            | None \<Rightarrow> Inl (RefResolution (''request body not found: '' @ reference)))))"

definition MAX_REF_DEPTH :: nat where
  "MAX_REF_DEPTH = 10"

definition ref_target :: "json \<Rightarrow> string option" where
  "ref_target v =
     Option.bind (Option.bind (Option.bind (as_object v) (\<lambda>m. map_of m ''$ref'')) as_str)
       (strip_prefix ''#/components/schemas/'')"

definition find_schema :: "openapi \<Rightarrow> string \<Rightarrow> api_schema reference_or option" where
  "find_schema spec name = Option.bind (oa_components spec) (\<lambda>c. map_of (cp_schemas c) name)"

text \<open>A step down the value makes it smaller; a step through a reference takes one of the levels left.\<close>

lemma try_map_cong [fundef_cong]:
  assumes "xs = ys" "\<And>x. x \<in> set ys \<Longrightarrow> f x = g x"
  shows "try_map f xs = try_map g ys"
  unfolding assms(1) using assms(2) by (induction ys) auto

function resolve_schema_to_value :: "api_schema reference_or \<Rightarrow> openapi \<Rightarrow> nat \<Rightarrow> openapi_error + json"
  and inline_schema_refs :: "json \<Rightarrow> openapi \<Rightarrow> nat \<Rightarrow> openapi_error + json" where
  "resolve_schema_to_value schema_ref spec depth =
     (if MAX_REF_DEPTH < depth then Inr (JObject [(''type'', JString ''object'')])
      else
        (case schema_ref of
           Reference reference \<Rightarrow>
             and_then (ref_name reference ''schemas'') (\<lambda>name.
             and_then (spec_components spec reference) (\<lambda>c.
               case map_of (cp_schemas c) name of
                 None \<Rightarrow> Inl (RefResolution (''schema not found: '' @ reference))
               | Some inner \<Rightarrow> resolve_schema_to_value inner spec (depth + 1)))
         | Item schema \<Rightarrow>
             and_then (map_err ParseError schema) (\<lambda>v. inline_schema_refs v spec depth)))"
| "inline_schema_refs v spec depth =
     (if MAX_REF_DEPTH < depth then Inr v
      else
        (case ref_target v of
           Some name \<Rightarrow>
             (case find_schema spec name of
                Some schema_ref \<Rightarrow> resolve_schema_to_value schema_ref spec (depth + 1)
              | None \<Rightarrow> Inr v)
         | None \<Rightarrow>
             (case v of
                JObject m \<Rightarrow>
                  and_then
                    (try_map (\<lambda>kv. and_then (inline_schema_refs (snd kv) spec depth) (\<lambda>w. Inr (fst kv, w))) m)
                    (\<lambda>m'. Inr (JObject m'))
              | JArray xs \<Rightarrow>
                  and_then (try_map (\<lambda>x. inline_schema_refs x spec depth) xs) (\<lambda>ys. Inr (JArray ys))
              | _ \<Rightarrow> Inr v)))"
  by pat_completeness auto
termination
  by (relation "measures
        [case_sum (\<lambda>(_, _, d). 12 - d) (\<lambda>(_, _, d). 12 - d),
         case_sum (\<lambda>_. 1) (\<lambda>_. 0),
         case_sum (\<lambda>_. 0) (\<lambda>(v, _, _). size v)]")
    (auto simp: MAX_REF_DEPTH_def dest: size_entry [where f = "\<lambda>_. 0"] size_elem)

declare resolve_schema_to_value.simps [simp del] inline_schema_refs.simps [simp del]

section \<open>The input schema of an operation\<close>

definition AUTH_HEADERS :: "string list" where
  "AUTH_HEADERS = [''authorization'', ''x-api-key'', ''x-auth-token'', ''proxy-authorization'']"

datatype param_kind = KindPath | KindQuery | KindHeader

record schema_parts =
  sc_properties :: "(string \<times> json) list"
  sc_required :: "json list"
  sc_locs :: param_locations

definition map_insert :: "string \<Rightarrow> json \<Rightarrow> (string \<times> json) list \<Rightarrow> (string \<times> json) list" where
  "map_insert k v m = sort_key fst (AList.update k v m)"

definition parts_add :: "string \<Rightarrow> json \<Rightarrow> bool \<Rightarrow> schema_parts \<Rightarrow> schema_parts" where
  "parts_add field schema required p =
     (let p1 = (if required then p\<lparr>sc_required := sc_required p @ [JString field]\<rparr> else p)
      in p1\<lparr>sc_properties := map_insert field schema (sc_properties p1)\<rparr>)"

definition add_parameter ::
  "(string \<Rightarrow> string) \<Rightarrow> param_kind \<Rightarrow> string \<Rightarrow> bool \<Rightarrow> json \<Rightarrow> schema_parts \<Rightarrow> schema_parts" where
  "add_parameter lower kind name required schema p =
     (case kind of
        KindPath \<Rightarrow>
          (let p1 = parts_add name schema True p; l = sc_locs p1
           in p1\<lparr>sc_locs := l\<lparr>pl_path_params := pl_path_params l @ [name]\<rparr>\<rparr>)
      | KindQuery \<Rightarrow>
          (let p1 = parts_add name schema required p; l = sc_locs p1
           in p1\<lparr>sc_locs := l\<lparr>pl_query_params := pl_query_params l @ [name]\<rparr>\<rparr>)
      | KindHeader \<Rightarrow>
          if lower name \<in> set AUTH_HEADERS then p
          else
            (let field = ''_'' @ name; p1 = parts_add field schema required p; l = sc_locs p1
             in p1\<lparr>sc_locs := l\<lparr>pl_header_params := pl_header_params l @ [(field, name)]\<rparr>\<rparr>))"

definition into_schema :: "schema_parts \<Rightarrow> json \<times> param_locations" where
  "into_schema p =
     (JObject
        ((''properties'', JObject (sc_properties p)) #
         (if sc_required p \<noteq> [] then [(''required'', JArray (sc_required p))] else []) @
         [(''type'', JString ''object'')]),
      sc_locs p)"

definition param_parts :: "parameter \<Rightarrow> (parameter_data \<times> param_kind) option" where
  "param_parts p =
     (case p of
        InPath d \<Rightarrow> Some (d, KindPath)
      | InQuery d \<Rightarrow> Some (d, KindQuery)
      | InHeader d \<Rightarrow> Some (d, KindHeader)
      | InCookie _ \<Rightarrow> None)"

fun add_parameters ::
  "(string \<Rightarrow> string) \<Rightarrow> openapi \<Rightarrow> parameter reference_or list \<Rightarrow> string set \<Rightarrow> schema_parts \<Rightarrow>
   openapi_error + schema_parts" where
  "add_parameters lower spec [] seen p = Inr p"
| "add_parameters lower spec (param_ref # rest) seen p =
     and_then (resolve_parameter param_ref spec) (\<lambda>param.
       case param_parts param of
         None \<Rightarrow> add_parameters lower spec rest seen p
       | Some (d, kind) \<Rightarrow>
           if pd_name d \<in> seen then add_parameters lower spec rest seen p
           else
             and_then
               (case pd_format d of
                  FormatSchema s \<Rightarrow> resolve_schema_to_value s spec 0
                | FormatContent \<Rightarrow> Inr (JObject []))
               (\<lambda>schema_val.
                  add_parameters lower spec rest (insert (pd_name d) seen)
                    (add_parameter lower kind (pd_name d) (pd_required d) schema_val p)))"

definition body_schema :: "request_body \<Rightarrow> api_schema reference_or option" where
  "body_schema body =
     Option.bind
       (case List.find (\<lambda>kv. contains_str (fst kv) ''json'') (rb_content body) of
          Some kv \<Rightarrow> Some kv
        | None \<Rightarrow> (case rb_content body of [] \<Rightarrow> None | kv # _ \<Rightarrow> Some kv))
       snd"

definition add_body :: "openapi \<Rightarrow> operation \<Rightarrow> schema_parts \<Rightarrow> openapi_error + schema_parts" where
  "add_body spec op p =
     (case op_request_body op of
        None \<Rightarrow> Inr p
      | Some body_ref \<Rightarrow>
          and_then (resolve_request_body body_ref spec) (\<lambda>body.
            case body_schema body of
              None \<Rightarrow> Inr p
            | Some s \<Rightarrow>
                and_then (resolve_schema_to_value s spec 0) (\<lambda>schema.
                  let p1 = parts_add ''body'' schema (rb_required body) p
                  in Inr (p1\<lparr>sc_locs := (sc_locs p1)\<lparr>pl_has_body := True\<rparr>\<rparr>))))"

definition empty_parts :: schema_parts where
  "empty_parts =
     \<lparr>sc_properties = [], sc_required = [],
      sc_locs = \<lparr>pl_path_params = [], pl_query_params = [], pl_header_params = [], pl_has_body = False\<rparr>\<rparr>"

definition build_input_schema ::
  "(string \<Rightarrow> string) \<Rightarrow> operation \<Rightarrow> parameter reference_or list \<Rightarrow> openapi \<Rightarrow>
   openapi_error + (json \<times> param_locations)" where
  "build_input_schema lower op path_level_params spec =
     and_then (add_parameters lower spec (op_parameters op @ path_level_params) {} empty_parts) (\<lambda>p.
     and_then (add_body spec op p) (\<lambda>q. Inr (into_schema q)))"

section \<open>Discovery\<close>

definition path_methods :: "path_item \<Rightarrow> (string \<times> operation option) list" where
  "path_methods item =
     [(''get'', pi_get item), (''post'', pi_post item), (''put'', pi_put item), (''patch'', pi_patch item),
      (''delete'', pi_delete item)]"

definition operation_description :: "operation \<Rightarrow> string" where
  "operation_description op =
     (case op_summary op of Some s \<Rightarrow> s | None \<Rightarrow> (case op_description op of Some s \<Rightarrow> s | None \<Rightarrow> []))"

definition raw_segment :: "string \<Rightarrow> string \<Rightarrow> operation \<Rightarrow> string" where
  "raw_segment meth path op =
     (case op_operation_id op of Some i \<Rightarrow> normalize_operation_id i | None \<Rightarrow> fallback_segment meth path)"

fun discover_methods ::
  "(string \<Rightarrow> string) \<Rightarrow> openapi_discovery_config \<Rightarrow> openapi \<Rightarrow> string \<Rightarrow> path_item \<Rightarrow>
   (string \<times> operation option) list \<Rightarrow> (string \<rightharpoonup> nat) \<times> discovered_endpoint list \<Rightarrow>
   openapi_error + ((string \<rightharpoonup> nat) \<times> discovered_endpoint list)" where
  "discover_methods lower config spec path item [] acc = Inr acc"
| "discover_methods lower config spec path item ((meth, op_opt) # rest) acc =
     (case op_opt of
        None \<Rightarrow> discover_methods lower config spec path item rest acc
      | Some op \<Rightarrow>
          if \<not> is_operation_selected meth path op config
          then discover_methods lower config spec path item rest acc
          else
            (let (seen, segment) = dedup_segment (fst acc) (raw_segment meth path op)
             in and_then (build_input_schema lower op (pi_parameters item) spec) (\<lambda>(schema, locs).
                  discover_methods lower config spec path item rest
                    (seen,
                     snd acc @
                     [\<lparr>de_tool_segment = segment, de_method = meth, de_path = path,
                       de_description = operation_description op, de_input_schema = schema,
                       de_param_locations = locs\<rparr>]))))"

fun discover_paths ::
  "(string \<Rightarrow> string) \<Rightarrow> openapi_discovery_config \<Rightarrow> openapi \<Rightarrow> (string \<times> path_item reference_or) list \<Rightarrow>
   (string \<rightharpoonup> nat) \<times> discovered_endpoint list \<Rightarrow>
   openapi_error + ((string \<rightharpoonup> nat) \<times> discovered_endpoint list)" where
  "discover_paths lower config spec [] acc = Inr acc"
| "discover_paths lower config spec ((path, path_ref) # rest) acc =
     (case path_ref of
        Reference _ \<Rightarrow> discover_paths lower config spec rest acc
      | Item item \<Rightarrow>
          and_then (discover_methods lower config spec path item (path_methods item) acc)
            (discover_paths lower config spec rest))"

definition discover_endpoints ::
  "openapi_lib \<Rightarrow> string \<Rightarrow> openapi_discovery_config \<Rightarrow> openapi_error + discovered_endpoint list" where
  "discover_endpoints lib bytes config =
     and_then (parse_spec lib bytes) (\<lambda>spec.
     and_then (discover_paths (ol_lower lib) config spec (oa_paths spec) (Map.empty, [])) (\<lambda>acc.
       Inr (snd acc)))"

section \<open>What following references leaves\<close>

text \<open>
  Every schema of the document serialises to an object, as the \<open>Serialize\<close> of a struct does; \<open>inlined\<close>
  says that a value holds no reference that the document answers.
\<close>

definition object_schema :: "api_schema reference_or \<Rightarrow> bool" where
  "object_schema s = (case s of Item (Inr v) \<Rightarrow> as_object v \<noteq> None | _ \<Rightarrow> True)"

definition object_schemas :: "openapi \<Rightarrow> bool" where
  "object_schemas spec =
     (case oa_components spec of None \<Rightarrow> True | Some c \<Rightarrow> list_all (\<lambda>ns. object_schema (snd ns)) (cp_schemas c))"

function inlined :: "openapi \<Rightarrow> json \<Rightarrow> bool" where
  "inlined spec v =
     (case ref_target v of
        Some name \<Rightarrow> find_schema spec name = None
      | None \<Rightarrow>
          (case v of
             JObject m \<Rightarrow> (\<forall>kv \<in> set m. inlined spec (snd kv))
           | JArray xs \<Rightarrow> (\<forall>x \<in> set xs. inlined spec x)
           | _ \<Rightarrow> True))"
  by pat_completeness auto
termination
  by (relation "measure (\<lambda>(_, v). size v)")
    (auto dest: size_entry [where f = "\<lambda>_. 0"] size_elem)

declare inlined.simps [simp del]

lemma find_schema_object: "object_schemas spec \<Longrightarrow> find_schema spec name = Some s \<Longrightarrow> object_schema s"
  by (auto simp: object_schemas_def find_schema_def list_all_iff Option.bind_eq_Some_conv dest!: map_of_SomeD
      split: option.splits)

lemma find_schema_Some: "oa_components spec = Some c \<Longrightarrow> find_schema spec name = map_of (cp_schemas c) name"
  by (simp add: find_schema_def)

lemma ref_target_not_object: "as_object v = None \<Longrightarrow> ref_target v = None"
  by (simp add: ref_target_def)

lemma spec_components_Inr: "spec_components spec r = Inr c \<longleftrightarrow> oa_components spec = Some c"
  by (auto simp: spec_components_def split: option.splits)

lemma resolve_cases:
  assumes "resolve_schema_to_value s spec d = Inr w"
  obtains (deep) "MAX_REF_DEPTH < d" "w = JObject [(''type'', JString ''object'')]"
  | (reference) r c name inner where "\<not> MAX_REF_DEPTH < d" "s = Reference r" "oa_components spec = Some c"
      "map_of (cp_schemas c) name = Some inner" "resolve_schema_to_value inner spec (d + 1) = Inr w"
  | (item) v where "\<not> MAX_REF_DEPTH < d" "s = Item (Inr v)" "inline_schema_refs v spec d = Inr w"
  using assms
  by (subst (asm) resolve_schema_to_value.simps)
    (auto simp: and_then_Inr_iff map_err_Inr_iff spec_components_Inr
      split: if_splits reference_or.splits option.splits)

lemma try_entries_Inr_iff:
  "try_map (\<lambda>kv. and_then (f (snd kv)) (\<lambda>w. Inr (fst kv, w))) m = Inr m' \<longleftrightarrow>
   list_all2 (\<lambda>kv kw. f (snd kv) = Inr (snd kw) \<and> fst kw = fst kv) m m'"
  by (auto simp: try_map_Inr_iff and_then_Inr_iff elim!: list_all2_mono)

lemma inline_cases:
  assumes "inline_schema_refs v spec d = Inr w"
  obtains (deep) "MAX_REF_DEPTH < d" "w = v"
  | (target_found) name s where "\<not> MAX_REF_DEPTH < d" "ref_target v = Some name" "find_schema spec name = Some s"
      "resolve_schema_to_value s spec (d + 1) = Inr w"
  | (dangling) name where "\<not> MAX_REF_DEPTH < d" "ref_target v = Some name" "find_schema spec name = None" "w = v"
  | (object) m m' where "\<not> MAX_REF_DEPTH < d" "ref_target v = None" "v = JObject m" "w = JObject m'"
      "list_all2 (\<lambda>kv kw. inline_schema_refs (snd kv) spec d = Inr (snd kw) \<and> fst kw = fst kv) m m'"
  | (array) xs ys where "\<not> MAX_REF_DEPTH < d" "ref_target v = None" "v = JArray xs" "w = JArray ys"
      "list_all2 (\<lambda>x y. inline_schema_refs x spec d = Inr y) xs ys"
  | (scalar) "ref_target v = None" "w = v" "as_object v = None" "\<forall>xs. v \<noteq> JArray xs"
  using assms [unfolded inline_schema_refs.simps [of v spec d]]
  by (auto simp: and_then_Inr_iff try_entries_Inr_iff [where f = "\<lambda>x. inline_schema_refs x spec d"] as_object_def
      try_map_Inr_iff [where f = "\<lambda>x. inline_schema_refs x spec d"]
      split: if_splits option.splits json.splits)

lemma list_all2_right: "list_all2 P xs ys \<Longrightarrow> y \<in> set ys \<Longrightarrow> \<exists>x \<in> set xs. P x y"
  by (auto simp: list_all2_conv_all_nth set_conv_nth)

lemma resolved_objects:
  "resolve_schema_to_value s spec d = Inr w \<Longrightarrow> object_schemas spec \<Longrightarrow> object_schema s \<Longrightarrow> as_object w \<noteq> None"
  "inline_schema_refs v spec d = Inr w \<Longrightarrow> object_schemas spec \<Longrightarrow> as_object v \<noteq> None \<Longrightarrow> as_object w \<noteq> None"
proof (induction s spec d and v spec d arbitrary: w and w rule: resolve_schema_to_value_inline_schema_refs.induct)
  case (1 s spec d)
  from 1(3) show ?case
  proof (cases rule: resolve_cases)
    case (reference r c name inner)
    then have "object_schema inner"
      using find_schema_object [OF 1(4), of name] by (simp add: find_schema_Some)
    then show ?thesis using 1(2) [OF reference(1,2,4,5) 1(4)] by simp
  next
    case (item v)
    then show ?thesis using 1(1) [OF item(1,2,3) 1(4)] 1(5) by (simp add: object_schema_def)
  qed (simp add: as_object_def)
next
  case (2 v spec d)
  from 2(4) show ?case
  proof (cases rule: inline_cases)
    case (target_found name s)
    then show ?thesis using 2(3) [OF target_found 2(5)] find_schema_object [OF 2(5)] by simp
  qed (use 2(6) in \<open>simp_all add: as_object_def\<close>)
qed

lemma inline_scalar: "inline_schema_refs v spec d = Inr w \<Longrightarrow> as_object v = None \<Longrightarrow> as_str w = as_str v"
  by (erule inline_cases) (auto simp: ref_target_def as_str_def as_object_def)

lemma map_of_inlined:
  assumes "list_all2 (\<lambda>kv kw. f (snd kv) = Inr (snd kw) \<and> fst kw = fst kv) m m'" "map_of m' k = Some w"
  shows "\<exists>v. map_of m k = Some v \<and> f v = Inr w"
  using assms by (induction rule: list_all2_induct) (auto split: if_splits)

lemma ref_target_inlined:
  assumes "list_all2 (\<lambda>kv kw. inline_schema_refs (snd kv) spec d = Inr (snd kw) \<and> fst kw = fst kv) m m'"
    and "ref_target (JObject m) = None" "object_schemas spec"
  shows "ref_target (JObject m') = None"
proof (rule ccontr)
  assume "ref_target (JObject m') \<noteq> None"
  then obtain w s n where w: "map_of m' ''$ref'' = Some w" "as_str w = Some s" "strip_prefix ''#/components/schemas/'' s = Some n"
    by (auto simp: ref_target_def as_object_def Option.bind_eq_Some_conv)
  then obtain v where v: "map_of m ''$ref'' = Some v" "inline_schema_refs v spec d = Inr w"
    using map_of_inlined [OF assms(1) w(1)] by blast
  have "as_object w = None" using w(2) by (simp add: as_str_def as_object_def split: json.splits)
  then have "as_object v = None" using resolved_objects(2) [OF v(2) assms(3)] by blast
  then have "as_str v = Some s" using inline_scalar [OF v(2)] w(2) by simp
  with v(1) w(3) assms(2) show False by (simp add: ref_target_def as_object_def)
qed

lemma resolved_inlined:
  "resolve_schema_to_value s spec d = Inr w \<Longrightarrow> object_schemas spec \<Longrightarrow> inlined spec w"
  "inline_schema_refs v spec d = Inr w \<Longrightarrow> object_schemas spec \<Longrightarrow> d \<le> MAX_REF_DEPTH \<Longrightarrow> inlined spec w"
proof (induction s spec d and v spec d arbitrary: w and w rule: resolve_schema_to_value_inline_schema_refs.induct)
  case (1 s spec d)
  from 1(3) show ?case
  proof (cases rule: resolve_cases)
    case deep
    then show ?thesis by (simp add: inlined.simps ref_target_def as_object_def as_str_def)
  next
    case (reference r c name inner)
    then show ?thesis using 1(2) [OF reference(1,2,4,5) 1(4)] by simp
  next
    case (item v)
    then show ?thesis using 1(1) [OF item(1,2,3) 1(4)] by simp
  qed
next
  case (2 v spec d)
  from 2(4) show ?case
  proof (cases rule: inline_cases)
    case (target_found name s)
    then show ?thesis using 2(3) [OF target_found 2(5)] by simp
  next
    case (object m m')
    have "inlined spec (snd kw)" if "kw \<in> set m'" for kw
      using list_all2_right [OF object(5) that] 2(2) [OF object(1,2,3) _ _ 2(5,6)] by blast
    then show ?thesis using ref_target_inlined [OF object(5)] object 2(5) by (simp add: inlined.simps)
  next
    case (array xs ys)
    have "inlined spec y" if "y \<in> set ys" for y
      using list_all2_right [OF array(5) that] 2(1) [OF array(1,2,3) _ _ 2(5,6)] by blast
    then show ?thesis
      using array by (subst inlined.simps) (simp add: ref_target_not_object as_object_def)
  next
    case scalar
    then show ?thesis by (cases v) (simp_all add: inlined.simps as_object_def)
  qed (use 2(6) in \<open>simp_all add: inlined.simps\<close>)
qed

section \<open>The merged schema\<close>

text \<open>The fields a call places somewhere, and what a merged schema says of them.\<close>

definition declared_fields :: "param_locations \<Rightarrow> string set" where
  "declared_fields l =
     set (pl_path_params l) \<union> set (pl_query_params l) \<union> fst ` set (pl_header_params l) \<union>
     (if pl_has_body l then {''body''} else {})"

definition merged_ok :: "(string \<Rightarrow> string) \<Rightarrow> openapi \<Rightarrow> (string \<times> json) list \<Rightarrow> json list \<Rightarrow> param_locations \<Rightarrow> bool" where
  "merged_ok lower spec properties required l \<longleftrightarrow>
     distinct (map fst properties) \<and> fst ` set properties = declared_fields l \<and>
     JString ` set (pl_path_params l) \<subseteq> set required \<and> set required \<subseteq> JString ` declared_fields l \<and>
     (\<forall>fh \<in> set (pl_header_params l). fst fh = ''_'' @ snd fh \<and> lower (snd fh) \<notin> set AUTH_HEADERS) \<and>
     (\<forall>kv \<in> set properties. inlined spec (snd kv))"

abbreviation parts_ok :: "(string \<Rightarrow> string) \<Rightarrow> openapi \<Rightarrow> schema_parts \<Rightarrow> bool" where
  "parts_ok lower spec p \<equiv> merged_ok lower spec (sc_properties p) (sc_required p) (sc_locs p)"

definition schema_properties :: "json \<Rightarrow> (string \<times> json) list" where
  "schema_properties v = (case json_get v ''properties'' of Some (JObject m) \<Rightarrow> m | _ \<Rightarrow> [])"

definition schema_required :: "json \<Rightarrow> json list" where
  "schema_required v = (case json_get v ''required'' of Some (JArray xs) \<Rightarrow> xs | _ \<Rightarrow> [])"

lemma into_schema_parts [simp]:
  "schema_properties (fst (into_schema p)) = sc_properties p"
  "schema_required (fst (into_schema p)) = sc_required p"
  "snd (into_schema p) = sc_locs p"
  by (auto simp: schema_properties_def schema_required_def into_schema_def)

lemma map_insert_keys [simp]: "fst ` set (map_insert k v m) = insert k (fst ` set m)"
  unfolding map_insert_def set_sort set_map [symmetric] update_keys by auto

lemma map_insert_distinct [simp]: "distinct (map fst m) \<Longrightarrow> distinct (map fst (map_insert k v m))"
proof -
  assume "distinct (map fst m)"
  then have "distinct (map fst (AList.update k v m))" by (rule distinct_update)
  then show ?thesis
    by (simp add: map_insert_def distinct_map distinct_sort)
qed

lemma map_insert_entries: "kv \<in> set (map_insert k v m) \<Longrightarrow> kv = (k, v) \<or> kv \<in> set m"
proof -
  have "kv \<in> set (AList.update k v m) \<Longrightarrow> kv = (k, v) \<or> kv \<in> set m"
    by (induction m) (auto split: if_splits)
  then show "kv \<in> set (map_insert k v m) \<Longrightarrow> kv = (k, v) \<or> kv \<in> set m"
    by (simp add: map_insert_def)
qed

lemma add_parameter_ok:
  assumes "parts_ok lower spec p" "inlined spec schema"
  shows "parts_ok lower spec (add_parameter lower kind name required schema p)"
  using assms
  by (cases kind)
    (auto simp: merged_ok_def declared_fields_def add_parameter_def parts_add_def Let_def dest!: map_insert_entries)

lemma add_parameters_ok:
  assumes "object_schemas spec"
  shows "add_parameters lower spec ps seen p = Inr q \<Longrightarrow> parts_ok lower spec p \<Longrightarrow> parts_ok lower spec q"
proof (induction ps arbitrary: seen p)
  case (Cons r ps)
  let ?schema = "\<lambda>d :: parameter_data. case pd_format d of FormatSchema s \<Rightarrow> resolve_schema_to_value s spec 0 | FormatContent \<Rightarrow> Inr (JObject [])"
  from Cons.prems(1) obtain param where param: "resolve_parameter r spec = Inr param"
    by (auto simp: and_then_Inr_iff)
  consider "add_parameters lower spec ps seen p = Inr q"
    | (add) d :: parameter_data and kind schema where "add_parameters lower spec ps (insert (pd_name d) seen)
         (add_parameter lower kind (pd_name d) (pd_required d) schema p) = Inr q" "?schema d = Inr schema"
  proof (cases "param_parts param")
    case (Some dk)
    obtain d kind where dk: "dk = (d, kind)" by (cases dk)
    show ?thesis
    proof (cases "pd_name d \<in> seen")
      case False
      then obtain schema where "?schema d = Inr schema"
        "add_parameters lower spec ps (insert (pd_name d) seen)
           (add_parameter lower kind (pd_name d) (pd_required d) schema p) = Inr q"
        using Cons.prems(1) by (auto simp: param Some dk and_then_Inr_iff)
      then show ?thesis using that(2) by blast
    qed (use Cons.prems(1) param Some dk that(1) in simp)
  qed (use Cons.prems(1) param that(1) in simp)
  then show ?case
  proof cases
    case (add d kind schema)
    have "inlined spec schema"
      using add(2) resolved_inlined(1) [OF _ assms]
      by (auto simp: inlined.simps ref_target_def as_object_def split: param_format.splits)
    then show ?thesis using Cons.IH [OF add(1)] add_parameter_ok [OF Cons.prems(2)] by blast
  qed (rule Cons.IH [OF _ Cons.prems(2)])
qed simp

lemma add_body_ok:
  assumes "add_body spec op p = Inr q" "parts_ok lower spec p" "object_schemas spec"
  shows "parts_ok lower spec q"
proof (cases "q = p")
  case False
  with assms(1) obtain s schema required where s: "resolve_schema_to_value s spec 0 = Inr schema"
    and q: "q = (let p1 = parts_add ''body'' schema required p in p1\<lparr>sc_locs := (sc_locs p1)\<lparr>pl_has_body := True\<rparr>\<rparr>)"
    by (auto simp: add_body_def and_then_Inr_iff Let_def split: option.splits)
  from assms(2) resolved_inlined(1) [OF s assms(3)] show ?thesis
    by (cases "pl_has_body (sc_locs p)")
      (auto simp: q merged_ok_def declared_fields_def parts_add_def Let_def dest!: map_insert_entries)
qed (use assms in simp)

lemma build_input_schema_ok:
  assumes "build_input_schema lower op pp spec = Inr (schema, l)" "object_schemas spec"
  shows "merged_ok lower spec (schema_properties schema) (schema_required schema) l"
proof -
  from assms(1) obtain p q where pq: "add_parameters lower spec (op_parameters op @ pp) {} empty_parts = Inr p"
    "add_body spec op p = Inr q" "(schema, l) = into_schema q"
    by (auto simp: build_input_schema_def and_then_Inr_iff)
  have "parts_ok lower spec empty_parts"
    by (simp add: empty_parts_def merged_ok_def declared_fields_def)
  then have "parts_ok lower spec q"
    using add_body_ok [OF pq(2)] add_parameters_ok [OF assms(2) pq(1)] assms(2) by blast
  then show ?thesis
    using pq(3) into_schema_parts [of q] by (metis fst_conv snd_conv)
qed

text \<open>The header parameters alone, for every document.\<close>

definition headers_ok :: "(string \<Rightarrow> string) \<Rightarrow> param_locations \<Rightarrow> bool" where
  "headers_ok lower l \<longleftrightarrow> (\<forall>fh \<in> set (pl_header_params l). lower (snd fh) \<notin> set AUTH_HEADERS)"

lemma add_parameter_headers:
  "headers_ok lower (sc_locs p) \<Longrightarrow> headers_ok lower (sc_locs (add_parameter lower kind name required schema p))"
  by (cases kind) (auto simp: headers_ok_def add_parameter_def parts_add_def Let_def)

lemma add_parameters_headers:
  "add_parameters lower spec ps seen p = Inr q \<Longrightarrow> headers_ok lower (sc_locs p) \<Longrightarrow> headers_ok lower (sc_locs q)"
proof (induction ps arbitrary: seen p)
  case (Cons r ps)
  then show ?case
    by (cases "resolve_parameter r spec")
      (auto simp: and_then_Inr_iff dest!: Cons.IH intro: add_parameter_headers split: option.splits if_splits)
qed simp

lemma build_input_schema_headers:
  assumes "build_input_schema lower op pp spec = Inr (schema, l)"
  shows "headers_ok lower l"
proof -
  from assms obtain p q where pq: "add_parameters lower spec (op_parameters op @ pp) {} empty_parts = Inr p"
    "add_body spec op p = Inr q" "(schema, l) = into_schema q"
    by (auto simp: build_input_schema_def and_then_Inr_iff)
  have "pl_header_params (sc_locs q) = pl_header_params (sc_locs p)"
    using pq(2) by (auto simp: add_body_def and_then_Inr_iff parts_add_def Let_def split: option.splits)
  moreover have "headers_ok lower (sc_locs p)"
    using add_parameters_headers [OF pq(1)] by (simp add: headers_ok_def empty_parts_def)
  ultimately show ?thesis using pq(3) by (simp add: into_schema_def headers_ok_def)
qed

section \<open>The endpoints\<close>

text \<open>The specification: the selected operations in document order, each with its path-level parameters.\<close>

definition selected_methods ::
  "openapi_discovery_config \<Rightarrow> string \<Rightarrow> path_item \<Rightarrow> (string \<times> operation option) list \<Rightarrow>
   (string \<times> string \<times> operation \<times> parameter reference_or list) list" where
  "selected_methods config path item ms =
     concat (map (\<lambda>(meth, op_opt). case op_opt of
                    Some op \<Rightarrow>
                      if is_operation_selected meth path op config then [(meth, path, op, pi_parameters item)] else []
                  | None \<Rightarrow> []) ms)"

definition selected_paths ::
  "openapi_discovery_config \<Rightarrow> (string \<times> path_item reference_or) list \<Rightarrow>
   (string \<times> string \<times> operation \<times> parameter reference_or list) list" where
  "selected_paths config ps =
     concat (map (\<lambda>(path, path_ref). case path_ref of
                    Item item \<Rightarrow> selected_methods config path item (path_methods item)
                  | Reference _ \<Rightarrow> []) ps)"

definition described_operation ::
  "(string \<Rightarrow> string) \<Rightarrow> openapi \<Rightarrow> string \<times> string \<times> operation \<times> parameter reference_or list \<Rightarrow>
   openapi_error + (string \<times> string \<times> string \<times> json \<times> param_locations)" where
  "described_operation lower spec sel =
     (case sel of
        (meth, path, op, pp) \<Rightarrow>
          and_then (build_input_schema lower op pp spec) (\<lambda>(schema, l).
            Inr (meth, path, operation_description op, schema, l)))"

definition endpoint_core :: "discovered_endpoint \<Rightarrow> string \<times> string \<times> string \<times> json \<times> param_locations" where
  "endpoint_core ep =
     (de_method ep, de_path ep, de_description ep, de_input_schema ep, de_param_locations ep)"

lemma try_map_append:
  "try_map f (xs @ ys) = and_then (try_map f xs) (\<lambda>as. and_then (try_map f ys) (\<lambda>bs. Inr (as @ bs)))"
  by (induction xs) (auto simp: and_then_def split: sum.splits)

lemma and_then_assoc: "and_then (and_then a f) g = and_then a (\<lambda>x. and_then (f x) g)"
  by (cases a) simp_all

lemma discover_methods_spec:
  "and_then (discover_methods lower config spec path item ms acc) (\<lambda>a. Inr (map endpoint_core (snd a))) =
   and_then (try_map (described_operation lower spec) (selected_methods config path item ms))
     (\<lambda>cs. Inr (map endpoint_core (snd acc) @ cs))"
proof (induction ms arbitrary: acc)
  case (Cons m ms)
  obtain meth op_opt where m: "m = (meth, op_opt)" by (cases m)
  show ?case
  proof (cases "\<exists>op. op_opt = Some op \<and> is_operation_selected meth path op config")
    case True
    then obtain op where op: "op_opt = Some op" "is_operation_selected meth path op config" by blast
    have sel: "selected_methods config path item (m # ms) =
        (meth, path, op, pi_parameters item) # selected_methods config path item ms"
      by (simp add: m op selected_methods_def)
    show ?thesis
    proof (cases "build_input_schema lower op (pi_parameters item) spec")
      case (Inl e)
      then show ?thesis unfolding sel by (simp add: m op described_operation_def Let_def split: prod.splits)
    next
      case (Inr sl)
      obtain schema l where sl: "sl = (schema, l)" by (cases sl)
      obtain seen segment where "dedup_segment (fst acc) (raw_segment meth path op) = (seen, segment)"
        by fastforce
      then show ?thesis
        unfolding sel
        by (simp add: m op Inr sl described_operation_def Cons and_then_assoc)
          (simp add: endpoint_core_def)
    qed
  next
    case False
    then have "selected_methods config path item (m # ms) = selected_methods config path item ms"
      "discover_methods lower config spec path item (m # ms) acc = discover_methods lower config spec path item ms acc"
      by (auto simp: m selected_methods_def split: option.splits)
    then show ?thesis using Cons by simp
  qed
qed (simp add: selected_methods_def)

lemma discover_paths_spec:
  "and_then (discover_paths lower config spec ps acc) (\<lambda>a. Inr (map endpoint_core (snd a))) =
   and_then (try_map (described_operation lower spec) (selected_paths config ps))
     (\<lambda>cs. Inr (map endpoint_core (snd acc) @ cs))"
proof (induction ps arbitrary: acc)
  case (Cons pr ps)
  obtain path path_ref where pr: "pr = (path, path_ref)" by (cases pr)
  show ?case
  proof (cases path_ref)
    case (Item item)
    let ?ms = "selected_methods config path item (path_methods item)"
    have sel: "selected_paths config (pr # ps) = ?ms @ selected_paths config ps"
      by (simp add: selected_paths_def pr Item)
    show ?thesis
    proof (cases "discover_methods lower config spec path item (path_methods item) acc")
      case (Inl e)
      then have "try_map (described_operation lower spec) ?ms = Inl e"
        using discover_methods_spec [of lower config spec path item "path_methods item" acc]
        by (cases "try_map (described_operation lower spec) ?ms") auto
      then show ?thesis unfolding sel by (simp add: pr Item Inl try_map_append)
    next
      case (Inr acc')
      then obtain cs where "try_map (described_operation lower spec) ?ms = Inr cs"
        "map endpoint_core (snd acc') = map endpoint_core (snd acc) @ cs"
        using discover_methods_spec [of lower config spec path item "path_methods item" acc]
        by (cases "try_map (described_operation lower spec) ?ms") auto
      then show ?thesis unfolding sel using Cons [of acc'] by (simp add: pr Item Inr try_map_append and_then_assoc)
    qed
  next
    case (Reference r)
    then show ?thesis using Cons by (simp add: pr selected_paths_def)
  qed
qed (simp add: selected_paths_def)

lemma discover_endpoints_spec:
  "and_then (discover_endpoints lib bytes config) (\<lambda>eps. Inr (map endpoint_core eps)) =
   and_then (parse_spec lib bytes) (\<lambda>spec.
     try_map (described_operation (ol_lower lib) spec) (selected_paths config (oa_paths spec)))"
proof (cases "parse_spec lib bytes")
  case (Inr spec)
  have "and_then r Inr = r" for r :: "'e + 'a" by (cases r) simp_all
  then show ?thesis
    using discover_paths_spec [of "ol_lower lib" config spec "oa_paths spec" "(Map.empty, [])"]
    by (simp add: discover_endpoints_def Inr and_then_assoc)
qed (simp add: discover_endpoints_def)

lemma discovered_operations:
  assumes "discover_endpoints lib bytes config = Inr eps" "parse_spec lib bytes = Inr spec"
  shows "list_all2 (\<lambda>sel ep. described_operation (ol_lower lib) spec sel = Inr (endpoint_core ep))
    (selected_paths config (oa_paths spec)) eps"
proof -
  have "list_all2 (\<lambda>sel c. described_operation (ol_lower lib) spec sel = Inr c)
      (selected_paths config (oa_paths spec)) (map endpoint_core eps)"
    using discover_endpoints_spec [of lib bytes config] by (simp add: assms try_map_Inr_iff [symmetric])
  then show ?thesis by (simp add: list_all2_map2)
qed

lemma discovered_schema:
  assumes "discover_endpoints lib bytes config = Inr eps" "parse_spec lib bytes = Inr spec" "ep \<in> set eps"
  obtains op pp where "build_input_schema (ol_lower lib) op pp spec = Inr (de_input_schema ep, de_param_locations ep)"
  using list_all2_right [OF discovered_operations [OF assms(1,2)] assms(3)]
  by (auto simp: described_operation_def endpoint_core_def and_then_Inr_iff)

lemma discovered_headers:
  assumes "discover_endpoints lib bytes config = Inr eps" "ep \<in> set eps"
  shows "headers_ok (ol_lower lib) (de_param_locations ep)"
proof -
  obtain spec where "parse_spec lib bytes = Inr spec"
    using assms(1) by (auto simp: discover_endpoints_def and_then_Inr_iff)
  then show ?thesis by (rule discovered_schema [OF assms(1) _ assms(2)]) (rule build_input_schema_headers)
qed

lemma selected_paths_selected:
  "(meth, path, op, pp) \<in> set (selected_paths config ps) \<Longrightarrow> is_operation_selected meth path op config"
  by (auto simp: selected_paths_def selected_methods_def split: option.splits reference_or.splits if_splits)

lemma discovered_selected:
  assumes "discover_endpoints lib bytes config = Inr eps" "parse_spec lib bytes = Inr spec" "ep \<in> set eps"
  obtains op where "is_operation_selected (de_method ep) (de_path ep) op config"
proof -
  obtain sel where sel: "sel \<in> set (selected_paths config (oa_paths spec))"
    "described_operation (ol_lower lib) spec sel = Inr (endpoint_core ep)"
    using list_all2_right [OF discovered_operations [OF assms(1,2)] assms(3)] by blast
  obtain meth path op pp where o': "sel = (meth, path, op, pp)" by (cases sel)
  have "meth = de_method ep" "path = de_path ep"
    using sel(2) by (auto simp: o' described_operation_def endpoint_core_def and_then_Inr_iff)
  then show thesis using that selected_paths_selected [OF sel(1) [unfolded o']] by simp
qed

text \<open>
  C1: discovery turns a document into exactly its selected operations, in document order, each with its method,
  path, description and merged schema: nothing else becomes a tool, and nothing selected is lost. No endpoint is an
  excluded operation, and none deletes unless the configuration lists the exposed methods. If the schemas
  of the document serialise to objects, each endpoint's schema has one property per field that a call places
  (path, query and header parameters, and the body) and no other, requires every path parameter and only declared
  fields, exposes a header under its name with an underscore and never a credential header, and holds no
  reference the document answers, however its schemas refer to each other.
\<close>

theorem endpoints_follow_spec:
  assumes "discover_endpoints lib bytes config = Inr eps"
  shows "\<exists>spec. parse_spec lib bytes = Inr spec \<and>
    list_all2 (\<lambda>sel ep. described_operation (ol_lower lib) spec sel = Inr (endpoint_core ep))
      (selected_paths config (oa_paths spec)) eps \<and>
    (\<forall>ep \<in> set eps. map ascii_upper (de_method ep) @ '' '' @ de_path ep \<notin> set (dc_exclude_operations config) \<and>
       (dc_default_method_exposure config = [] \<longrightarrow> de_method ep \<noteq> ''delete'')) \<and>
    (object_schemas spec \<longrightarrow>
      (\<forall>ep \<in> set eps. merged_ok (ol_lower lib) spec (schema_properties (de_input_schema ep))
         (schema_required (de_input_schema ep)) (de_param_locations ep)))"
proof -
  from assms obtain spec where spec: "parse_spec lib bytes = Inr spec"
    by (auto simp: discover_endpoints_def and_then_Inr_iff)
  note all = discovered_operations [OF assms spec]
  have sel: "map ascii_upper (de_method ep) @ '' '' @ de_path ep \<notin> set (dc_exclude_operations config) \<and>
      (dc_default_method_exposure config = [] \<longrightarrow> de_method ep \<noteq> ''delete'')" if ep: "ep \<in> set eps" for ep
  proof -
    obtain op where "is_operation_selected (de_method ep) (de_path ep) op config"
      by (rule discovered_selected [OF assms spec ep])
    then show ?thesis by (auto simp: is_operation_selected_def is_method_allowed_def split: if_splits)
  qed
  have "merged_ok (ol_lower lib) spec (schema_properties (de_input_schema ep))
      (schema_required (de_input_schema ep)) (de_param_locations ep)" if "object_schemas spec" "ep \<in> set eps" for ep
    using discovered_schema [OF assms spec that(2)] build_input_schema_ok [OF _ that(1)] by metis
  with spec all sel show ?thesis by blast
qed

section \<open>A document\<close>

text \<open>
  One path with a path parameter by reference, an operation whose header parameters include a credential, and a
  deletion, which is not exposed by default; the schema of the path parameter refers to itself.
\<close>

definition example_param :: "string \<Rightarrow> bool \<Rightarrow> api_schema reference_or \<Rightarrow> parameter_data" where
  "example_param name required s = \<lparr>pd_name = name, pd_required = required, pd_format = FormatSchema s\<rparr>"

definition example_operation :: "string \<Rightarrow> operation" where
  "example_operation i =
     \<lparr>op_tags = [], op_summary = None, op_description = Some ''Reads one pet'', op_operation_id = Some i,
      op_parameters =
        [Item (InHeader (example_param ''Authorization'' True (Item (Inr (JObject []))))),
         Item (InHeader (example_param ''X-Trace'' False (Item (Inr (JObject []))))),
         Item (InCookie (example_param ''sid'' False (Item (Inr (JObject [])))))],
      op_request_body = None\<rparr>"

definition example_document :: openapi where
  "example_document =
     \<lparr>oa_openapi = ''3.0.3'',
      oa_paths =
        [(''/pets/{id}'',
          Item \<lparr>pi_get = Some (example_operation ''Get-Pet''), pi_post = None, pi_put = None, pi_patch = None,
                pi_delete = Some (example_operation ''dropPet''),
                pi_parameters = [Reference ''#/components/parameters/PetId'']\<rparr>)],
      oa_components = Some
        \<lparr>cp_schemas = [(''Id'', Item (Inr (JObject [(''items'', JObject [(''$ref'', JString ''#/components/schemas/Id'')])])))],
         cp_parameters = [(''PetId'', Item (InPath (example_param ''id'' True (Reference ''#/components/schemas/Id''))))],
         cp_request_bodies = []\<rparr>\<rparr>"

definition example_openapi_lib :: openapi_lib where
  "example_openapi_lib =
     \<lparr>ol_from_utf8 = (\<lambda>_. None), ol_json = (\<lambda>_. Inl ''expected value''), ol_yaml = (\<lambda>_. Inr example_document),
      ol_lower = map ascii_lower\<rparr>"

definition example_discovery :: openapi_discovery_config where
  "example_discovery =
     \<lparr>dc_source = SpecFile, dc_path = None, dc_url = None, dc_include_tags = [], dc_exclude_operations = [],
      dc_default_method_exposure = []\<rparr>"

lemma example_parsed: "parse_spec example_openapi_lib bytes = Inr example_document"
  by (simp add: parse_spec_def example_openapi_lib_def example_document_def starts_with_def)

lemma example_endpoints:
  "case discover_endpoints example_openapi_lib [] example_discovery of
     Inl _ \<Rightarrow> False
   | Inr eps \<Rightarrow> map de_tool_segment eps = [''get_pet''] \<and>
       map (map fst \<circ> schema_properties \<circ> de_input_schema) eps = [[''_X-Trace'', ''id'']] \<and>
       map de_param_locations eps =
         [\<lparr>pl_path_params = [''id''], pl_query_params = [], pl_header_params = [(''_X-Trace'', ''X-Trace'')],
           pl_has_body = False\<rparr>]"
  by code_simp

text \<open>
  The counter behind the suffixes is kept per unsuffixed segment, so a suffix can meet an operation of that
  name: the identifiers \<open>a\<close>, \<open>a\<close> and \<open>a_2\<close> give two tools one segment.
\<close>

lemma dedup_segment_collides:
  assumes "dedup_segment Map.empty ''a'' = (s1, t1)" "dedup_segment s1 ''a'' = (s2, t2)" "dedup_segment s2 ''a_2'' = (s3, t3)"
  shows "t2 = t3"
proof -
  have "dec (Suc (Suc 0)) = ''2''" by code_simp
  then show ?thesis using assms by (auto simp: dedup_segment_def)
qed

theorem endpoints_follow_spec_witness:
  "\<exists>eps ep. discover_endpoints example_openapi_lib [] example_discovery = Inr eps \<and> eps = [ep] \<and>
     de_tool_segment ep = ''get_pet'' \<and>
     merged_ok (map ascii_lower) example_document (schema_properties (de_input_schema ep))
       (schema_required (de_input_schema ep)) (de_param_locations ep)"
proof -
  obtain eps where eps: "discover_endpoints example_openapi_lib [] example_discovery = Inr eps"
    "map de_tool_segment eps = [''get_pet'']"
    using example_endpoints by (auto split: sum.splits)
  then obtain ep where ep: "eps = [ep]" "de_tool_segment ep = ''get_pet''" by (auto simp: map_eq_Cons_conv)
  have "object_schemas example_document"
    by (simp add: object_schemas_def object_schema_def example_document_def as_object_def)
  then show ?thesis
    using endpoints_follow_spec [OF eps(1)] eps(1) ep by (simp add: example_parsed) (simp add: example_openapi_lib_def)
qed

end
