(* ===== verification/Catalog.thy ===== *)
theory Catalog
  imports OpenApi
begin

text \<open>
  The tool catalog (\<open>src/catalog/mod.rs\<close>): its tools, the administrator's description
  overrides and the upstream descriptions they hide. \<open>catalog_view\<close> is what the catalog
  promises, namely the upstream tools and a map of overrides; the refinement lemmas show that the three
  mutable fields implement it under \<open>catalog_inv\<close>, and the locale \<open>described_catalog\<close> is
  the interface the rest of the gateway uses.
\<close>

record wrapped_tool =
  wt_name :: tool_name
  wt_resource_id :: string
  wt_description :: string
  wt_upstream_path :: string
  wt_http_method :: http_method
  wt_input_schema :: json
  wt_param_locations :: "param_locations option"
  wt_exposed_name :: "string option"

record tool_catalog =
  cat_tools :: "wrapped_tool list"
  cat_overrides :: "string \<rightharpoonup> string"
  cat_originals :: "string \<rightharpoonup> string"

definition default_input_schema :: json where
  "default_input_schema = JObject [(''type'', JString ''object'')]"

definition wire :: "wrapped_tool \<Rightarrow> string" where
  "wire t = to_wire_name (wt_name t)"

section \<open>Building the catalog\<close>

definition tools_for_resource :: "api_resource \<Rightarrow> catalog_error + wrapped_tool list" where
  "tools_for_resource r =
     try_map
       (\<lambda>ep. and_then (map_err CatToolName (tool_name_new (ar_domain r) (provider_or_id r) (te_tool ep)))
          (\<lambda>name. Inr
             \<lparr>wt_name = name, wt_resource_id = ar_id r, wt_description = te_description ep,
              wt_upstream_path = te_path ep, wt_http_method = te_method ep,
              wt_input_schema = default_input_schema, wt_param_locations = None,
              wt_exposed_name = None\<rparr>))
       (ar_endpoints r)"

text \<open>The file system enters as a parameter: reading a specification file, or its error's message.\<close>

record openapi_env =
  oe_read :: "string \<Rightarrow> string + string"
  oe_lib :: openapi_lib

definition discovered_method :: "string \<Rightarrow> http_method" where
  "discovered_method m =
     (if m = ''get'' then Get else if m = ''put'' then Put
      else if m = ''patch'' then Patch else if m = ''delete'' then Delete else Post)"

definition openapi_tool :: "api_resource \<Rightarrow> discovered_endpoint \<Rightarrow> catalog_error + wrapped_tool" where
  "openapi_tool r ep =
     and_then (map_err CatToolName (tool_name_new (ar_domain r) (provider_or_id r) (de_tool_segment ep))) (\<lambda>name.
       Inr
         \<lparr>wt_name = name, wt_resource_id = ar_id r, wt_description = de_description ep,
          wt_upstream_path = de_path ep, wt_http_method = discovered_method (de_method ep),
          wt_input_schema = de_input_schema ep, wt_param_locations = Some (de_param_locations ep),
          wt_exposed_name = None\<rparr>)"

definition discovery_config :: "openapi_source_config \<Rightarrow> openapi_discovery_config" where
  "discovery_config d =
     \<lparr>dc_source = SpecFile, dc_path = None, dc_url = None, dc_include_tags = os_include_tags d,
      dc_exclude_operations = os_exclude_operations d,
      dc_default_method_exposure = os_default_method_exposure d\<rparr>"

definition tools_from_openapi ::
  "openapi_env \<Rightarrow> api_resource \<Rightarrow> openapi_source_config \<Rightarrow> catalog_error + wrapped_tool list" where
  "tools_from_openapi env r d =
     and_then
       (case os_source d of
          SpecFile \<Rightarrow>
            (case os_path d of
               None \<Rightarrow> Inl (CatOpenApi (ParseError ''discovery.openapi.path required when source=file''))
             | Some path \<Rightarrow>
                 map_err (\<lambda>e. CatOpenApi (ParseError (''cannot read spec file '' @ path @ '': '' @ e)))
                   (oe_read env path))
        | SpecUrl \<Rightarrow>
            Inl (CatOpenApi (ParseError ''discovery.openapi.source=url not yet supported (use file)'')))
       (\<lambda>bytes.
          and_then (map_err CatOpenApi (discover_endpoints (oe_lib env) bytes (discovery_config d)))
            (try_map (openapi_tool r)))"

fun collect_tools :: "openapi_env \<Rightarrow> api_resource list \<Rightarrow> catalog_error + wrapped_tool list" where
  "collect_tools env [] = Inr []"
| "collect_tools env (r # rs) =
     and_then (tools_for_resource r) (\<lambda>hand.
     and_then (case ar_discovery r of None \<Rightarrow> Inr [] | Some d \<Rightarrow> tools_from_openapi env r d) (\<lambda>disc.
     and_then (collect_tools env rs) (\<lambda>rest. Inr (hand @ disc @ rest))))"

definition catalog_from_config :: "openapi_env \<Rightarrow> gateway_config \<Rightarrow> catalog_error + tool_catalog" where
  "catalog_from_config env config =
     and_then (collect_tools env (gc_api_resources config)) (\<lambda>tools.
       Inr \<lparr>cat_tools = sort_key wire tools, cat_overrides = Map.empty, cat_originals = Map.empty\<rparr>)"

lemma collect_tools_in:
  "collect_tools env rs = Inr ts \<Longrightarrow> t \<in> set ts \<Longrightarrow>
   \<exists>r \<in> set rs. (\<exists>hs. tools_for_resource r = Inr hs \<and> t \<in> set hs) \<or>
     (\<exists>d ds. ar_discovery r = Some d \<and> tools_from_openapi env r d = Inr ds \<and> t \<in> set ds)"
proof (induction rs arbitrary: ts)
  case (Cons r rs)
  then obtain hs ds rest where "tools_for_resource r = Inr hs"
    "(case ar_discovery r of None \<Rightarrow> Inr [] | Some d \<Rightarrow> tools_from_openapi env r d) = Inr ds"
    "collect_tools env rs = Inr rest" "ts = hs @ ds @ rest"
    by (auto simp: and_then_Inr_iff)
  with Cons show ?case by (auto split: option.splits)
qed simp

text \<open>No tool of the catalog passes a credential header as a parameter.\<close>

lemma catalog_headers:
  assumes "catalog_from_config env config = Inr c" "t \<in> set (cat_tools c)" "wt_param_locations t = Some l"
  shows "headers_ok (ol_lower (oe_lib env)) l"
proof -
  from assms(1,2) obtain ts where "collect_tools env (gc_api_resources config) = Inr ts" "t \<in> set ts"
    by (auto simp: catalog_from_config_def and_then_Inr_iff)
  then consider r hs where "tools_for_resource r = Inr hs" "t \<in> set hs"
    | r d ds where "tools_from_openapi env r d = Inr ds" "t \<in> set ds"
    using collect_tools_in by blast
  then show ?thesis
  proof cases
    case 1
    then have "wt_param_locations t = None"
      by (auto simp: tools_for_resource_def try_map_Inr_iff and_then_Inr_iff dest!: list_all2_right)
    with assms(3) show ?thesis by simp
  next
    case 2
    then obtain bytes eps ep where "discover_endpoints (oe_lib env) bytes (discovery_config d) = Inr eps"
      "ep \<in> set eps" "openapi_tool r ep = Inr t"
      by (auto simp: tools_from_openapi_def and_then_Inr_iff map_err_Inr_iff try_map_Inr_iff dest!: list_all2_right)
    then show ?thesis
      using discovered_headers assms(3) by (auto simp: openapi_tool_def and_then_Inr_iff)
  qed
qed

section \<open>Overrides\<close>

definition overlay_tool ::
  "(string \<rightharpoonup> string) \<Rightarrow> (string \<rightharpoonup> string) \<Rightarrow> wrapped_tool \<Rightarrow> (string \<rightharpoonup> string) \<times> wrapped_tool" where
  "overlay_tool overrides originals tool =
     (case overrides (wire tool) of
        None \<Rightarrow> (originals, tool)
      | Some d \<Rightarrow> (originals(wire tool \<mapsto> wt_description tool), tool\<lparr>wt_description := d\<rparr>))"

fun overlay_all ::
  "(string \<rightharpoonup> string) \<Rightarrow> (string \<rightharpoonup> string) \<Rightarrow> wrapped_tool list \<Rightarrow> (string \<rightharpoonup> string) \<times> wrapped_tool list" where
  "overlay_all ovs origs [] = (origs, [])"
| "overlay_all ovs origs (t # ts) =
     (let (origs', t') = overlay_tool ovs origs t; (origs'', ts') = overlay_all ovs origs' ts
      in (origs'', t' # ts'))"

definition extend_with_mcp_tools :: "tool_catalog \<Rightarrow> wrapped_tool list \<Rightarrow> tool_catalog" where
  "extend_with_mcp_tools c tools =
     (let (origs, tools') = overlay_all (cat_overrides c) (cat_originals c) tools
      in c\<lparr>cat_tools := sort_key wire (cat_tools c @ tools'), cat_originals := origs\<rparr>)"

definition replace_mcp_tools :: "tool_catalog \<Rightarrow> wrapped_tool list \<Rightarrow> string set \<Rightarrow> tool_catalog" where
  "replace_mcp_tools c new_tools ids =
     extend_with_mcp_tools
       (c\<lparr>cat_tools := filter (\<lambda>t. wt_resource_id t \<notin> ids) (cat_tools c)\<rparr>) new_tools"

text \<open>\<open>iter_mut().find(p)\<close> followed by an update of the element found.\<close>

fun update_first :: "('a \<Rightarrow> bool) \<Rightarrow> ('a \<Rightarrow> 'a) \<Rightarrow> 'a list \<Rightarrow> 'a list" where
  "update_first P f [] = []"
| "update_first P f (x # xs) = (if P x then f x # xs else x # update_first P f xs)"

definition set_description_override :: "tool_catalog \<Rightarrow> string \<Rightarrow> string \<Rightarrow> tool_catalog" where
  "set_description_override c w d =
     (let c1 = c\<lparr>cat_overrides := (cat_overrides c)(w \<mapsto> d)\<rparr>
      in case find (\<lambda>t. wire t = w) (cat_tools c) of
           None \<Rightarrow> c1
         | Some t \<Rightarrow>
             c1\<lparr>cat_originals :=
                  (case cat_originals c w of
                     None \<Rightarrow> (cat_originals c)(w \<mapsto> wt_description t)
                   | Some _ \<Rightarrow> cat_originals c),
                cat_tools := update_first (\<lambda>t. wire t = w) (\<lambda>t. t\<lparr>wt_description := d\<rparr>) (cat_tools c)\<rparr>)"

definition remove_description_override :: "tool_catalog \<Rightarrow> string \<Rightarrow> tool_catalog" where
  "remove_description_override c w =
     (let c1 = c\<lparr>cat_overrides := (cat_overrides c)(w := None),
                 cat_originals := (cat_originals c)(w := None)\<rparr>
      in case cat_originals c w of
           None \<Rightarrow> c1
         | Some orig \<Rightarrow>
             c1\<lparr>cat_tools := update_first (\<lambda>t. wire t = w) (\<lambda>t. t\<lparr>wt_description := orig\<rparr>) (cat_tools c)\<rparr>)"

fun restore_all ::
  "(string \<rightharpoonup> string) \<Rightarrow> wrapped_tool list \<Rightarrow> wrapped_tool list" where
  "restore_all origs [] = []"
| "restore_all origs (t # ts) =
     (case origs (wire t) of
        None \<Rightarrow> t # restore_all origs ts
      | Some d \<Rightarrow> t\<lparr>wt_description := d\<rparr> # restore_all (origs(wire t := None)) ts)"

definition load_description_overrides :: "tool_catalog \<Rightarrow> (string \<rightharpoonup> string) \<Rightarrow> tool_catalog" where
  "load_description_overrides c overrides =
     (let (origs, tools) = overlay_all overrides Map.empty (restore_all (cat_originals c) (cat_tools c))
      in \<lparr>cat_tools = tools, cat_overrides = overrides, cat_originals = origs\<rparr>)"

definition description_override :: "tool_catalog \<Rightarrow> string \<Rightarrow> string option" where
  "description_override c w = cat_overrides c w"

definition original_description :: "tool_catalog \<Rightarrow> string \<Rightarrow> string option" where
  "original_description c w = cat_originals c w"

section \<open>The abstract catalog and the refinement\<close>

text \<open>The upstream form of a stored tool, and the form an override gives an upstream tool.\<close>

definition upstream_tool :: "(string \<rightharpoonup> string) \<Rightarrow> wrapped_tool \<Rightarrow> wrapped_tool" where
  "upstream_tool origs t =
     (case origs (wire t) of None \<Rightarrow> t | Some d \<Rightarrow> t\<lparr>wt_description := d\<rparr>)"

definition effective_tool :: "(string \<rightharpoonup> string) \<Rightarrow> wrapped_tool \<Rightarrow> wrapped_tool" where
  "effective_tool ovs t =
     (case ovs (wire t) of None \<Rightarrow> t | Some d \<Rightarrow> t\<lparr>wt_description := d\<rparr>)"

definition upstream_tools :: "tool_catalog \<Rightarrow> wrapped_tool list" where
  "upstream_tools c = map (upstream_tool (cat_originals c)) (cat_tools c)"

definition wires_distinct :: "wrapped_tool list \<Rightarrow> bool" where
  "wires_distinct ts = distinct (map wire ts)"

definition catalog_inv :: "tool_catalog \<Rightarrow> bool" where
  "catalog_inv c =
     (wires_distinct (cat_tools c) \<and> sorted (map wire (cat_tools c)) \<and>
      dom (cat_originals c) \<subseteq> dom (cat_overrides c) \<and>
      (\<forall>t \<in> set (cat_tools c). \<forall>d. cat_overrides c (wire t) = Some d \<longrightarrow>
         wt_description t = d \<and> cat_originals c (wire t) \<noteq> None))"

lemma wire_update [simp]:
  "wire (t\<lparr>wt_description := d\<rparr>) = wire t" "wire (t\<lparr>wt_exposed_name := x\<rparr>) = wire t"
  by (simp_all add: wire_def)

lemma wire_effective [simp]: "wire (effective_tool ovs t) = wire t"
  by (simp add: effective_tool_def split: option.splits)

lemma wire_upstream [simp]: "wire (upstream_tool origs t) = wire t"
  by (simp add: upstream_tool_def split: option.splits)

lemma map_wire_upstream_tools [simp]: "map wire (upstream_tools c) = map wire (cat_tools c)"
  by (simp add: upstream_tools_def)

text \<open>Under the invariant the stored tools are the upstream tools with the overrides applied.\<close>

lemma catalog_inv_effective:
  assumes "catalog_inv c"
  shows "cat_tools c = map (effective_tool (cat_overrides c)) (upstream_tools c)"
proof -
  have "effective_tool (cat_overrides c) (upstream_tool (cat_originals c) t) = t"
    if t: "t \<in> set (cat_tools c)" for t
  proof (cases "cat_overrides c (wire t)")
    case None
    then have "cat_originals c (wire t) = None"
      using assms by (auto simp: catalog_inv_def)
    with None show ?thesis by (simp add: effective_tool_def upstream_tool_def)
  next
    case (Some d)
    with assms t have "wt_description t = d" by (auto simp: catalog_inv_def)
    with Some show ?thesis
      by (cases t) (auto simp: effective_tool_def upstream_tool_def wire_def split: option.splits)
  qed
  then show ?thesis
    by (simp add: upstream_tools_def map_idI)
qed

lemma update_first_distinct:
  "distinct (map k xs) \<Longrightarrow> (\<And>x. k (f x) = k x) \<Longrightarrow>
   update_first (\<lambda>x. k x = w) f xs = map (\<lambda>x. if k x = w then f x else x) xs"
proof (induction xs)
  case (Cons x xs)
  show ?case
  proof (cases "k x = w")
    case True
    with Cons.prems have "\<forall>y \<in> set xs. k y \<noteq> w" by (metis distinct.simps(2) image_eqI list.set_map list.simps(9))
    then have "map (\<lambda>x. if k x = w then f x else x) xs = xs" by (simp add: map_idI)
    with True show ?thesis by simp
  next
    case False
    with Cons show ?thesis by simp
  qed
qed simp

lemma overlay_all_tools: "snd (overlay_all ovs origs ts) = map (effective_tool ovs) ts"
  by (induction ts arbitrary: origs)
    (auto simp: overlay_tool_def effective_tool_def case_prod_beta Let_def split: option.splits)

lemma overlay_all_originals:
  "wires_distinct ts \<Longrightarrow> fst (overlay_all ovs origs ts) w =
     (if w \<in> wire ` set ts \<and> ovs w \<noteq> None
      then map_option wt_description (find (\<lambda>t. wire t = w) ts) else origs w)"
proof (induction ts arbitrary: origs)
  case (Cons t ts)
  then have d: "wires_distinct ts" "wire t \<notin> wire ` set ts"
    by (auto simp: wires_distinct_def)
  show ?case
    using Cons.IH [OF d(1)] d(2)
    by (auto simp: overlay_tool_def case_prod_beta Let_def split: option.splits)
qed simp

lemma restore_all_distinct:
  "wires_distinct ts \<Longrightarrow> restore_all origs ts = map (upstream_tool origs) ts"
proof (induction ts arbitrary: origs)
  case (Cons t ts)
  then have d: "wires_distinct ts" "wire t \<notin> wire ` set ts"
    by (auto simp: wires_distinct_def)
  have "map (upstream_tool (origs(wire t := None))) ts = map (upstream_tool origs) ts"
    using d(2) by (auto simp: upstream_tool_def image_iff intro!: map_cong)
  with Cons.IH [OF d(1)] show ?case
    by (auto simp: upstream_tool_def split: option.splits)
qed simp

lemma find_wire:
  "wires_distinct ts \<Longrightarrow> t \<in> set ts \<Longrightarrow> find (\<lambda>y. wire y = wire t) ts = Some t"
  unfolding wires_distinct_def by (rule find_distinct)

lemma find_None_wire: "find (\<lambda>t. wire t = w) ts = None \<longleftrightarrow> w \<notin> wire ` set ts"
  by (auto simp: find_None_iff)

lemma wires_distinct_eq_map:
  "wires_distinct (map f ts) = wires_distinct ts" if "\<And>t. wire (f t) = wire t"
  using that by (simp add: wires_distinct_def comp_def)

subsection \<open>The three override operations\<close>

lemma set_override_tools:
  "catalog_inv c \<Longrightarrow> cat_tools (set_description_override c w d) =
     map (\<lambda>t. if wire t = w then t\<lparr>wt_description := d\<rparr> else t) (cat_tools c)"
proof (cases "find (\<lambda>t. wire t = w) (cat_tools c)")
  case None
  then have "\<forall>t \<in> set (cat_tools c). wire t \<noteq> w" by (auto simp: find_None_iff)
  with None show ?thesis by (simp add: set_description_override_def Let_def map_idI)
next
  case (Some t)
  assume "catalog_inv c"
  then have "distinct (map wire (cat_tools c))" by (simp add: catalog_inv_def wires_distinct_def)
  with Some show ?thesis
    by (simp add: set_description_override_def Let_def update_first_distinct [of wire])
qed

lemma set_override_inv [wf_intros]:
  assumes "catalog_inv c"
  shows "catalog_inv (set_description_override c w d)"
proof -
  let ?c = "set_description_override c w d"
  have m: "map wire (cat_tools ?c) = map wire (cat_tools c)"
    by (simp add: set_override_tools [OF assms])
  have o: "cat_overrides ?c = (cat_overrides c)(w \<mapsto> d)"
    by (simp add: set_description_override_def Let_def split: option.splits)
  have g: "cat_originals ?c v = (if v = w \<and> cat_originals c w = None
       then map_option wt_description (find (\<lambda>t. wire t = w) (cat_tools c)) else cat_originals c v)" for v
    by (auto simp: set_description_override_def Let_def split: option.splits)
  have "cat_overrides c v \<noteq> None" if "cat_originals c v \<noteq> None" for v
    using assms that by (auto simp: catalog_inv_def)
  then have dm: "dom (cat_originals ?c) \<subseteq> dom (cat_overrides ?c)"
    unfolding o by (force simp: g dom_def split: if_splits)
  show ?thesis
    using dm unfolding catalog_inv_def wires_distinct_def m o
    using assms find_None_wire [of w "cat_tools c"]
    by (auto simp: catalog_inv_def wires_distinct_def g set_override_tools [OF assms] split: if_splits)
qed

lemma set_override_upstream:
  assumes "catalog_inv c"
  shows "upstream_tools (set_description_override c w d) = upstream_tools c"
proof -
  have "upstream_tool (cat_originals (set_description_override c w d))
          (if wire t = w then t\<lparr>wt_description := d\<rparr> else t) = upstream_tool (cat_originals c) t"
    if t: "t \<in> set (cat_tools c)" for t
  proof -
    have f: "find (\<lambda>y. wire y = wire t) (cat_tools c) = Some t"
      using assms t by (auto simp: catalog_inv_def intro: find_wire)
    show ?thesis
    proof (cases "wire t = w")
      case True
      with f show ?thesis
        by (cases t) (auto simp: upstream_tool_def set_description_override_def Let_def wire_def split: option.splits)
    next
      case False
      then have "cat_originals (set_description_override c w d) (wire t) = cat_originals c (wire t)"
        by (auto simp: set_description_override_def Let_def split: option.splits)
      with False show ?thesis by (simp add: upstream_tool_def)
    qed
  qed
  then show ?thesis
    by (simp add: upstream_tools_def set_override_tools [OF assms])
qed

lemma set_override_overrides [simp]:
  "cat_overrides (set_description_override c w d) = (cat_overrides c)(w \<mapsto> d)"
  by (simp add: set_description_override_def Let_def split: option.splits)

lemma remove_override_tools:
  "catalog_inv c \<Longrightarrow> cat_tools (remove_description_override c w) =
     map (\<lambda>t. if wire t = w then upstream_tool (cat_originals c) t else t) (cat_tools c)"
proof (cases "cat_originals c w")
  case None
  then have "(if wire t = w then upstream_tool (cat_originals c) t else t) = t" for t
    by (auto simp: upstream_tool_def)
  with None show ?thesis by (simp add: remove_description_override_def Let_def map_idI)
next
  case (Some d)
  assume "catalog_inv c"
  then have "distinct (map wire (cat_tools c))" by (simp add: catalog_inv_def wires_distinct_def)
  with Some show ?thesis
    by (auto simp: remove_description_override_def Let_def update_first_distinct [of wire] upstream_tool_def)
qed

lemma remove_override_fields [simp]:
  "cat_overrides (remove_description_override c w) = (cat_overrides c)(w := None)"
  "cat_originals (remove_description_override c w) = (cat_originals c)(w := None)"
  by (simp_all add: remove_description_override_def Let_def split: option.splits)

lemma remove_override_inv [wf_intros]:
  assumes "catalog_inv c"
  shows "catalog_inv (remove_description_override c w)"
proof -
  have m: "map wire (cat_tools (remove_description_override c w)) = map wire (cat_tools c)"
    by (simp add: remove_override_tools [OF assms])
  show ?thesis
    unfolding catalog_inv_def wires_distinct_def m
    using assms
    by (auto simp: catalog_inv_def wires_distinct_def remove_override_tools [OF assms] split: if_splits)
qed

lemma remove_override_upstream:
  "catalog_inv c \<Longrightarrow> upstream_tools (remove_description_override c w) = upstream_tools c"
  by (auto simp: upstream_tools_def remove_override_tools upstream_tool_def wire_def split: option.splits)

lemma load_overrides_tools:
  "catalog_inv c \<Longrightarrow> cat_tools (load_description_overrides c ovs) =
     map (effective_tool ovs) (upstream_tools c)"
  by (auto simp: load_description_overrides_def case_prod_beta Let_def overlay_all_tools
      restore_all_distinct catalog_inv_def upstream_tools_def)

lemma load_overrides_overrides [simp]: "cat_overrides (load_description_overrides c ovs) = ovs"
  by (simp add: load_description_overrides_def case_prod_beta Let_def)

lemma load_overrides_originals:
  assumes "catalog_inv c"
  shows "cat_originals (load_description_overrides c ovs) w =
     (if w \<in> wire ` set (cat_tools c) \<and> ovs w \<noteq> None
      then map_option wt_description (find (\<lambda>t. wire t = w) (upstream_tools c)) else None)"
proof -
  have w: "wires_distinct (upstream_tools c)" "restore_all (cat_originals c) (cat_tools c) = upstream_tools c"
    using assms by (auto simp: catalog_inv_def wires_distinct_def upstream_tools_def restore_all_distinct comp_def)
  have "wire ` set (upstream_tools c) = wire ` set (cat_tools c)"
    by (metis list.set_map map_wire_upstream_tools)
  then show ?thesis
    by (simp add: load_description_overrides_def case_prod_beta Let_def w overlay_all_originals)
qed

lemma load_overrides_inv [wf_intros]:
  assumes "catalog_inv c"
  shows "catalog_inv (load_description_overrides c ovs)"
proof -
  have m: "map wire (cat_tools (load_description_overrides c ovs)) = map wire (cat_tools c)"
    by (simp add: load_overrides_tools [OF assms] comp_def)
  have i: "wire ` set (upstream_tools c) = wire ` set (cat_tools c)"
    by (metis list.set_map map_wire_upstream_tools)
  show ?thesis
    unfolding catalog_inv_def wires_distinct_def m
    using assms i find_None_wire [of _ "upstream_tools c"]
    by (auto simp: catalog_inv_def wires_distinct_def load_overrides_tools [OF assms]
        load_overrides_originals [OF assms] effective_tool_def split: if_splits option.splits)
qed

lemma load_overrides_upstream:
  assumes "catalog_inv c"
  shows "upstream_tools (load_description_overrides c ovs) = upstream_tools c"
proof -
  have d: "wires_distinct (upstream_tools c)"
    using assms by (simp add: catalog_inv_def wires_distinct_def)
  have i: "wire ` set (upstream_tools c) = wire ` set (cat_tools c)"
    by (metis list.set_map map_wire_upstream_tools)
  have "upstream_tool (cat_originals (load_description_overrides c ovs)) (effective_tool ovs t) = t"
    if t: "t \<in> set (upstream_tools c)" for t
  proof (cases "ovs (wire t)")
    case None
    then show ?thesis
      by (simp add: effective_tool_def upstream_tool_def load_overrides_originals [OF assms])
  next
    case (Some v)
    have "wire t \<in> wire ` set (cat_tools c)" using t i by blast
    with Some find_wire [OF d t] show ?thesis
      by (cases t) (auto simp: effective_tool_def upstream_tool_def wire_def
          load_overrides_originals [OF assms])
  qed
  then show ?thesis
    by (subst upstream_tools_def) (simp add: load_overrides_tools [OF assms] map_idI)
qed

subsection \<open>Replacing the MCP tools\<close>

lemma map_effective_upstream_congruence:
  "(\<And>t. t \<in> set ts \<Longrightarrow> origs (wire t) = origs' (wire t)) \<Longrightarrow>
   map (upstream_tool origs) ts = map (upstream_tool origs') ts"
  by (auto simp: upstream_tool_def)

lemma sort_key_map_wire:
  "(\<And>t. wire (f t) = wire t) \<Longrightarrow> map f (sort_key wire ts) = sort_key wire (map f ts)"
proof (induction ts)
  case (Cons t ts)
  have "map f (insort_key wire t us) = insort_key wire (f t) (map f us)" for us
    using Cons.prems by (induction us) auto
  with Cons show ?case by simp
qed simp

lemma distinct_map_sort_key: "distinct (map k (sort_key k xs)) = distinct (map k xs)"
  by (simp only: distinct_map distinct_sort set_sort)

text \<open>
  The tools that stay and the new ones must not clash on a wire name, and the new tools carry
  their upstream descriptions.
\<close>

definition replace_ok :: "tool_catalog \<Rightarrow> wrapped_tool list \<Rightarrow> string set \<Rightarrow> bool" where
  "replace_ok c new ids =
     wires_distinct (filter (\<lambda>t. wt_resource_id t \<notin> ids) (cat_tools c) @ new)"

lemma resource_id_upstream [simp]: "wt_resource_id (upstream_tool o1 t) = wt_resource_id t"
  by (simp add: upstream_tool_def split: option.splits)

lemma replace_fields:
  "cat_overrides (replace_mcp_tools c new ids) = cat_overrides c"
  "cat_originals (replace_mcp_tools c new ids) = fst (overlay_all (cat_overrides c) (cat_originals c) new)"
  "cat_tools (replace_mcp_tools c new ids) =
     sort_key wire (filter (\<lambda>t. wt_resource_id t \<notin> ids) (cat_tools c) @
       map (effective_tool (cat_overrides c)) new)"
  by (simp_all add: replace_mcp_tools_def extend_with_mcp_tools_def case_prod_beta Let_def overlay_all_tools)

lemma replace_inv [wf_intros]:
  assumes "catalog_inv c" "replace_ok c new ids"
  shows "catalog_inv (replace_mcp_tools c new ids)"
proof -
  let ?keep = "filter (\<lambda>t. wt_resource_id t \<notin> ids) (cat_tools c)"
  let ?eff = "effective_tool (cat_overrides c)"
  have dn: "wires_distinct new" and disj: "wire ` set ?keep \<inter> wire ` set new = {}"
    and dk: "distinct (map wire ?keep)"
    using assms(2) by (auto simp: replace_ok_def wires_distinct_def)
  note orig = overlay_all_originals [OF dn, of "cat_overrides c" "cat_originals c"]
  have "distinct (map wire (?keep @ map ?eff new))"
    using assms(2) by (auto simp: replace_ok_def wires_distinct_def comp_def)
  then have "distinct (map wire (sort_key wire (?keep @ map ?eff new)))"
    by (simp only: distinct_map_sort_key)
  moreover have "dom (fst (overlay_all (cat_overrides c) (cat_originals c) new)) \<subseteq> dom (cat_overrides c)"
    using assms(1) by (auto simp: orig catalog_inv_def dom_def split: if_splits)
  moreover have "\<forall>t \<in> set ?keep. \<forall>d. cat_overrides c (wire t) = Some d \<longrightarrow>
      wt_description t = d \<and> fst (overlay_all (cat_overrides c) (cat_originals c) new) (wire t) \<noteq> None"
    using assms(1) disj unfolding orig catalog_inv_def
    by (auto simp: disjoint_iff)
  moreover have "wt_description (?eff t) = d \<and>
      fst (overlay_all (cat_overrides c) (cat_originals c) new) (wire t) \<noteq> None"
    if "t \<in> set new" "cat_overrides c (wire t) = Some d" for t d
    using that find_wire [OF dn that(1)] unfolding orig by (auto simp: effective_tool_def)
  ultimately show ?thesis
    unfolding catalog_inv_def replace_fields wires_distinct_def
    by (auto simp: sorted_sort_key)
qed

lemma replace_upstream:
  assumes "catalog_inv c" "replace_ok c new ids"
  shows "upstream_tools (replace_mcp_tools c new ids) =
     sort_key wire (filter (\<lambda>t. wt_resource_id t \<notin> ids) (upstream_tools c) @ new)"
proof -
  let ?keep = "filter (\<lambda>t. wt_resource_id t \<notin> ids) (cat_tools c)"
  let ?o = "fst (overlay_all (cat_overrides c) (cat_originals c) new)"
  have dn: "wires_distinct new" and disj: "wire ` set ?keep \<inter> wire ` set new = {}"
    using assms(2) by (auto simp: replace_ok_def wires_distinct_def)
  note orig = overlay_all_originals [OF dn, of "cat_overrides c" "cat_originals c"]
  have k: "map (upstream_tool ?o) ?keep = map (upstream_tool (cat_originals c)) ?keep"
    using disj by (intro map_effective_upstream_congruence) (auto simp: orig disjoint_iff)
  have "upstream_tool ?o (effective_tool (cat_overrides c) t) = t" if t: "t \<in> set new" for t
  proof (cases "cat_overrides c (wire t)")
    case None
    with assms(1) have "cat_originals c (wire t) = None" by (auto simp: catalog_inv_def)
    with None show ?thesis by (simp add: effective_tool_def upstream_tool_def orig)
  next
    case (Some d)
    moreover from t have "wire t \<in> wire ` set new" by simp
    ultimately show ?thesis
      using find_wire [OF dn t] by (simp add: effective_tool_def upstream_tool_def orig)
  qed
  then have n: "map (upstream_tool ?o) (map (effective_tool (cat_overrides c)) new) = new"
    by (simp add: map_idI)
  have "filter (\<lambda>t. wt_resource_id t \<notin> ids) (upstream_tools c) = map (upstream_tool (cat_originals c)) ?keep"
    by (simp add: upstream_tools_def filter_map comp_def)
  with k n show ?thesis
    unfolding upstream_tools_def [of "replace_mcp_tools c new ids"] replace_fields
    by (simp only: sort_key_map_wire [where f = "upstream_tool ?o", OF wire_upstream] map_append)
qed

section \<open>The interface\<close>

datatype override_op =
    SetOverride string string
  | RemoveOverride string
  | LoadOverrides "string \<rightharpoonup> string"

fun override_step :: "tool_catalog \<Rightarrow> override_op \<Rightarrow> tool_catalog" where
  "override_step c (SetOverride w d) = set_description_override c w d"
| "override_step c (RemoveOverride w) = remove_description_override c w"
| "override_step c (LoadOverrides m) = load_description_overrides c m"

fun override_spec :: "(string \<rightharpoonup> string) \<Rightarrow> override_op \<Rightarrow> (string \<rightharpoonup> string)" where
  "override_spec m (SetOverride w d) = m(w \<mapsto> d)"
| "override_spec m (RemoveOverride w) = m(w := None)"
| "override_spec m (LoadOverrides m') = m'"

locale described_catalog =
  fixes inv :: "'c \<Rightarrow> bool"
    and upstream :: "'c \<Rightarrow> wrapped_tool list"
    and shown :: "'c \<Rightarrow> wrapped_tool list"
    and overrides :: "'c \<Rightarrow> string \<rightharpoonup> string"
    and step :: "'c \<Rightarrow> override_op \<Rightarrow> 'c"
  assumes shown: "inv c \<Longrightarrow> shown c = map (effective_tool (overrides c)) (upstream c)"
    and step_inv: "inv c \<Longrightarrow> inv (step c x)"
    and step_upstream: "inv c \<Longrightarrow> upstream (step c x) = upstream c"
    and step_overrides: "inv c \<Longrightarrow> overrides (step c x) = override_spec (overrides c) x"
begin

lemma run_simulates:
  "inv c \<Longrightarrow> inv (foldl step c xs) \<and> upstream (foldl step c xs) = upstream c \<and>
   overrides (foldl step c xs) = foldl override_spec (overrides c) xs"
proof (induction xs arbitrary: c)
  case (Cons x xs)
  from Cons.IH [OF step_inv [OF Cons.prems]] show ?case
    by (simp add: step_upstream [OF Cons.prems] step_overrides [OF Cons.prems])
qed simp

lemma run_shown:
  "inv c \<Longrightarrow> shown (foldl step c xs) =
     map (effective_tool (foldl override_spec (overrides c) xs)) (upstream c)"
  using run_simulates [of c xs] shown [of "foldl step c xs"] by simp

lemma set_remove_shown:
  "inv c \<Longrightarrow> overrides c w = None \<Longrightarrow>
   shown (step (step c (SetOverride w d)) (RemoveOverride w)) = shown c"
  using run_shown [of c "[SetOverride w d, RemoveOverride w]"] shown [of c] by (simp add: fun_upd_idem)

end

lemma override_step_simulates:
  assumes "catalog_inv c"
  shows "catalog_inv (override_step c x)" "upstream_tools (override_step c x) = upstream_tools c"
    "cat_overrides (override_step c x) = override_spec (cat_overrides c) x"
  using assms
  by (cases x; simp add: set_override_inv remove_override_inv load_overrides_inv set_override_upstream
      remove_override_upstream load_overrides_upstream)+

interpretation overlay: described_catalog catalog_inv upstream_tools cat_tools cat_overrides override_step
  by unfold_locales (auto intro: catalog_inv_effective override_step_simulates
      simp: override_step_simulates)

section \<open>Properties\<close>


definition example_tool :: "string \<Rightarrow> wrapped_tool" where
  "example_tool n =
     \<lparr>wt_name = \<lparr>tn_domain = ''search'', tn_provider = ''exa'', tn_tool = n\<rparr>, wt_resource_id = ''exa'',
      wt_description = ''upstream '' @ n, wt_upstream_path = n, wt_http_method = Post,
      wt_input_schema = default_input_schema, wt_param_locations = None, wt_exposed_name = None\<rparr>"

definition example_catalog :: tool_catalog where
  "example_catalog =
     \<lparr>cat_tools = [example_tool ''crawl'', example_tool ''find''], cat_overrides = Map.empty,
      cat_originals = Map.empty\<rparr>"

lemma example_catalog_inv: "catalog_inv example_catalog"
  by (simp add: catalog_inv_def example_catalog_def wires_distinct_def example_tool_def wire_def
      to_wire_name_def)


text \<open>A refresh of the MCP tools keeps the other tools and replaces exactly those of the given
  servers by the new snapshot, re-applying the overrides, as long as no two of the resulting tools
  share a wire name.\<close>

lemma replace_mcp_tools_refines:
  assumes "catalog_inv c" "replace_ok c new ids"
  shows "let c' = replace_mcp_tools c new ids in
    catalog_inv c' \<and> cat_overrides c' = cat_overrides c \<and>
    upstream_tools c' = sort_key wire (filter (\<lambda>t. wt_resource_id t \<notin> ids) (upstream_tools c) @ new) \<and>
    cat_tools c' = map (effective_tool (cat_overrides c)) (upstream_tools c')"
  using replace_inv [OF assms] replace_upstream [OF assms] replace_fields(1) [of c new ids]
    catalog_inv_effective [OF replace_inv [OF assms]]
  by (simp add: Let_def)

lemma replace_mcp_tools_refines_witness:
  "upstream_tools (replace_mcp_tools example_catalog [example_tool ''answer''] {''exa''}) =
     [example_tool ''answer'']"
proof -
  have "replace_ok example_catalog [example_tool ''answer''] {''exa''}"
    by (simp add: replace_ok_def example_catalog_def example_tool_def wires_distinct_def)
  from replace_mcp_tools_refines [OF example_catalog_inv this] show ?thesis
    by (simp add: Let_def example_catalog_def upstream_tools_def upstream_tool_def example_tool_def)
qed

end
