(* ===== verification/CatalogQuery.thy ===== *)
theory CatalogQuery
  imports Catalog "HOL-Library.Product_Lexorder" "HOL-Library.Multiset"
begin

text \<open>
  Reading the catalog on behalf of a gateway key (\<open>src/catalog/query.rs\<close>): the paged list
  with its shortest unambiguous names, the three-tier name resolution, and the search. The locale
  \<open>scope_check\<close> states what these readers need of the policy: a check that may fail and, when
  it answers, answers by a fixed predicate; it is interpreted on \<open>key_can_use_tool\<close>.
\<close>

section \<open>Queries\<close>

definition AMBIGUITY_CANDIDATE_LIMIT :: nat where
  "AMBIGUITY_CANDIDATE_LIMIT = 8"

definition META_TOOL_PREFIX :: string where
  "META_TOOL_PREFIX = ''asl__''"

definition usize_max :: nat where
  "usize_max = 2 ^ 64 - 1"

definition saturating_add_usize :: "nat \<Rightarrow> nat \<Rightarrow> nat" where
  "saturating_add_usize a b = min usize_max (a + b)"

record tool_qualifiers =
  tq_domain :: "string option"
  tq_provider :: "string option"

record tool_list_query =
  lq_include_regex :: "string option"
  lq_exclude_regex :: "string option"
  lq_domain_regex :: "string option"
  lq_provider_regex :: "string option"
  lq_tool_regex :: "string option"
  lq_limit :: "nat option"
  lq_cursor :: "nat option"

record tool_page =
  tp_tools :: "wrapped_tool list"
  tp_next_cursor :: "nat option"

definition is_none_or :: "'a option \<Rightarrow> ('a \<Rightarrow> bool) \<Rightarrow> bool" where
  "is_none_or x f = (case x of None \<Rightarrow> True | Some v \<Rightarrow> f v)"

definition is_some_and :: "'a option \<Rightarrow> ('a \<Rightarrow> bool) \<Rightarrow> bool" where
  "is_some_and x f = (case x of None \<Rightarrow> False | Some v \<Rightarrow> f v)"

definition unwrap_or :: "'a option \<Rightarrow> 'a \<Rightarrow> 'a" where
  "unwrap_or x d = (case x of None \<Rightarrow> d | Some v \<Rightarrow> v)"

definition two_segment_name :: "tool_name \<Rightarrow> string" where
  "two_segment_name n = tn_provider n @ ''__'' @ tn_tool n"

definition two_segment_name_matches :: "tool_name \<Rightarrow> string \<Rightarrow> bool" where
  "two_segment_name_matches tn name =
     (Option.bind (strip_prefix (tn_provider tn) name) (strip_prefix ''__'') = Some (tn_tool tn))"

definition qualifiers_match :: "tool_qualifiers \<Rightarrow> tool_name \<Rightarrow> bool" where
  "qualifiers_match q n =
     (is_none_or (tq_domain q) (\<lambda>d. d = tn_domain n) \<and> is_none_or (tq_provider q) (\<lambda>p. p = tn_provider n))"

definition compile_optional_regex ::
  "regex_engine \<Rightarrow> string option \<Rightarrow> catalog_error + (string \<Rightarrow> bool) option" where
  "compile_optional_regex re pattern =
     (case pattern of
        Some p \<Rightarrow> and_then (map_err CatRegex (re_new re p)) (\<lambda>r. Inr (Some r))
      | None \<Rightarrow> Inr None)"

definition tool_check :: "regex_engine \<Rightarrow> proxy_key \<Rightarrow> wrapped_tool \<Rightarrow> catalog_error + bool" where
  "tool_check re key t = map_err CatPolicy (key_can_use_tool re key (wt_name t) (wt_resource_id t))"

section \<open>Exposed names\<close>

definition candidate_ok :: "tool_catalog \<Rightarrow> wrapped_tool list \<Rightarrow> string \<Rightarrow> bool" where
  "candidate_ok c visible cand =
     (\<not> starts_with cand META_TOOL_PREFIX \<and>
      \<not> list_ex (\<lambda>t. wire t = cand) (cat_tools c) \<and>
      length (filter (\<lambda>t. tn_tool (wt_name t) = cand \<or> two_segment_name_matches (wt_name t) cand)
        visible) = 1)"

definition shortest_exposed_name :: "tool_catalog \<Rightarrow> wrapped_tool \<Rightarrow> wrapped_tool list \<Rightarrow> string" where
  "shortest_exposed_name c tool visible =
     (case find (candidate_ok c visible) [tn_tool (wt_name tool), two_segment_name (wt_name tool)] of
        Some cand \<Rightarrow> cand
      | None \<Rightarrow> wire tool)"

definition expose :: "tool_catalog \<Rightarrow> wrapped_tool list \<Rightarrow> wrapped_tool \<Rightarrow> wrapped_tool" where
  "expose c visible tool = tool\<lparr>wt_exposed_name := Some (shortest_exposed_name c tool visible)\<rparr>"

section \<open>Listing\<close>

definition list_for_key ::
  "regex_engine \<Rightarrow> tool_catalog \<Rightarrow> proxy_key \<Rightarrow> tool_list_query \<Rightarrow> catalog_error + tool_page" where
  "list_for_key re c key query =
     and_then (compile_optional_regex re (lq_include_regex query)) (\<lambda>incl.
     and_then (compile_optional_regex re (lq_exclude_regex query)) (\<lambda>excl.
     and_then (compile_optional_regex re (lq_domain_regex query)) (\<lambda>domain_re.
     and_then (compile_optional_regex re (lq_provider_regex query)) (\<lambda>provider_re.
     and_then (compile_optional_regex re (lq_tool_regex query)) (\<lambda>tool_re.
       (let limit = max 1 (unwrap_or (lq_limit query) (pk_default_tool_page_size key));
            cursor = unwrap_or (lq_cursor query) 0
        in and_then (try_filter (tool_check re key) (cat_tools c)) (\<lambda>visible.
             (let filtered =
                    filter (\<lambda>tool.
                      is_none_or incl (\<lambda>r. r (wire tool)) \<and>
                      \<not> is_some_and excl (\<lambda>r. r (wire tool)) \<and>
                      is_none_or domain_re (\<lambda>r. r (tn_domain (wt_name tool))) \<and>
                      is_none_or provider_re (\<lambda>r. r (tn_provider (wt_name tool))) \<and>
                      is_none_or tool_re (\<lambda>r. r (tn_tool (wt_name tool)))) visible;
                  remaining = drop cursor filtered;
                  page = map (expose c visible) (take limit remaining)
              in Inr \<lparr>tp_tools = page,
                      tp_next_cursor =
                        (if drop limit remaining = [] then None
                         else Some (saturating_add_usize cursor (length page)))\<rparr>))))))))"

section \<open>Resolution\<close>

definition resolve_tier ::
  "regex_engine \<Rightarrow> tool_catalog \<Rightarrow> string \<Rightarrow> tool_qualifiers \<Rightarrow> proxy_key option \<Rightarrow>
   (wrapped_tool \<Rightarrow> bool) \<Rightarrow> catalog_error + wrapped_tool option" where
  "resolve_tier re c name quals key matches =
     and_then
       (try_filter
          (\<lambda>tool.
             if \<not> matches tool \<or> \<not> qualifiers_match quals (wt_name tool) then Inr False
             else case key of Some k \<Rightarrow> tool_check re k tool | None \<Rightarrow> Inr True)
          (cat_tools c))
       (\<lambda>candidates.
          case candidates of
            [] \<Rightarrow> Inr None
          | [t] \<Rightarrow> Inr (Some t)
          | _ \<Rightarrow> Inl (AmbiguousToolName name
                   (take AMBIGUITY_CANDIDATE_LIMIT (sort (map wire candidates)))))"

definition resolve_for_key ::
  "regex_engine \<Rightarrow> tool_catalog \<Rightarrow> string \<Rightarrow> tool_qualifiers \<Rightarrow> proxy_key \<Rightarrow>
   catalog_error + wrapped_tool option" where
  "resolve_for_key re c name quals key =
     and_then (resolve_tier re c name quals None (\<lambda>t. wire t = name)) (\<lambda>r.
       case r of Some t \<Rightarrow> Inr (Some t) | None \<Rightarrow>
     and_then (resolve_tier re c name quals (Some key) (\<lambda>t. two_segment_name_matches (wt_name t) name)) (\<lambda>r.
       case r of Some t \<Rightarrow> Inr (Some t) | None \<Rightarrow>
     resolve_tier re c name quals (Some key) (\<lambda>t. tn_tool (wt_name t) = name)))"

definition find_by_wire_name :: "tool_catalog \<Rightarrow> string \<Rightarrow> wrapped_tool option" where
  "find_by_wire_name c w = find (\<lambda>t. wire t = w) (cat_tools c)"

definition total_tool_count :: "tool_catalog \<Rightarrow> nat" where
  "total_tool_count c = length (cat_tools c)"

definition count_visible_for_key :: "regex_engine \<Rightarrow> tool_catalog \<Rightarrow> proxy_key \<Rightarrow> catalog_error + nat" where
  "count_visible_for_key re c key =
     and_then (try_filter (tool_check re key) (cat_tools c)) (\<lambda>ts. Inr (length ts))"

section \<open>Search\<close>

text \<open>\<open>str::to_lowercase\<close> folds by the Unicode tables; it is the parameter \<open>lower\<close>.\<close>

definition search_score :: "(string \<Rightarrow> string) \<Rightarrow> string \<Rightarrow> wrapped_tool \<Rightarrow> nat option" where
  "search_score lower query_lower tool =
     (let wire = lower (wire tool)
      in if wire = query_lower then Some 4
         else if starts_with wire query_lower then Some 3
         else if contains_str wire query_lower then Some 2
         else if contains_str (lower (wt_description tool)) query_lower then Some 1
         else None)"

text \<open>
  The stable sort by descending score and then by name is the stable sort by the key
  \<open>(4 - score, wire)\<close>, the scores being at most 4.
\<close>

definition search_rank :: "wrapped_tool \<times> nat \<Rightarrow> nat \<times> string" where
  "search_rank p = (4 - snd p, wire (fst p))"

definition search_for_key ::
  "regex_engine \<Rightarrow> (string \<Rightarrow> string) \<Rightarrow> tool_catalog \<Rightarrow> string \<Rightarrow> proxy_key \<Rightarrow> nat \<Rightarrow>
   catalog_error + wrapped_tool list" where
  "search_for_key re lower c query key limit =
     and_then (try_filter (tool_check re key) (cat_tools c)) (\<lambda>visible.
       if query = [] then Inr (take limit (sort_key wire visible))
       else
         (let scored = List.map_filter
                (\<lambda>t. map_option (\<lambda>s. (t, s)) (search_score lower (lower query) t)) visible
          in Inr (map fst (take limit (sort_key search_rank scored)))))"

section \<open>What the readers need of the policy\<close>

locale scope_check =
  fixes check :: "'k \<Rightarrow> 't \<Rightarrow> 'e + bool"
    and in_scope :: "'k \<Rightarrow> 't \<Rightarrow> bool"
  assumes check_sound: "check k t = Inr b \<Longrightarrow> b = in_scope k t"
begin

lemma try_filter_scope:
  "try_filter (check k) ts = Inr vs \<longleftrightarrow>
     (\<forall>t \<in> set ts. \<exists>b. check k t = Inr b) \<and> vs = filter (in_scope k) ts"
proof -
  have "filter (\<lambda>t. check k t = Inr True) ts = filter (in_scope k) ts"
    if "\<forall>t \<in> set ts. \<exists>b. check k t = Inr b"
    using that by (auto intro!: filter_cong dest: check_sound) (metis check_sound)
  then show ?thesis by (auto simp: try_filter_Inr_iff)
qed

lemma try_filter_guarded:
  assumes "\<forall>t \<in> set ts. \<exists>b. check k t = Inr b"
  shows "try_filter (\<lambda>t. if \<not> P t \<or> \<not> Q t then Inr False else check k t) ts =
     Inr (filter (\<lambda>t. P t \<and> Q t \<and> in_scope k t) ts)"
  unfolding try_filter_Inr_iff
proof (intro conjI ballI)
  fix t assume "t \<in> set ts"
  with assms show "\<exists>b. (if \<not> P t \<or> \<not> Q t then Inr False else check k t) = Inr b" by auto
next
  have "check k t = Inr True \<longleftrightarrow> in_scope k t" if "t \<in> set ts" for t
    using assms that check_sound by (metis)
  then show "filter (\<lambda>t. P t \<and> Q t \<and> in_scope k t) ts =
      filter (\<lambda>t. (if \<not> P t \<or> \<not> Q t then Inr False else check k t) = Inr True) ts"
    by (intro filter_cong) auto
qed

end

definition tool_in_scope :: "regex_engine \<Rightarrow> proxy_key \<Rightarrow> wrapped_tool \<Rightarrow> bool" where
  "tool_in_scope re key t = scope_spec re key (wire t) (wt_resource_id t)"

interpretation policy: scope_check "tool_check re" "tool_in_scope re" for re
  by unfold_locales
    (auto simp: tool_check_def tool_in_scope_def wire_def key_can_use_tool_def
      dest!: key_can_use_name_spec)

definition scope_decided :: "regex_engine \<Rightarrow> tool_catalog \<Rightarrow> proxy_key \<Rightarrow> bool" where
  "scope_decided re c key = (\<forall>t \<in> set (cat_tools c). \<exists>b. tool_check re key t = Inr b)"

definition visible_tools :: "regex_engine \<Rightarrow> tool_catalog \<Rightarrow> proxy_key \<Rightarrow> wrapped_tool list" where
  "visible_tools re c key = filter (tool_in_scope re key) (cat_tools c)"

lemma try_filter_visible:
  "try_filter (tool_check re key) (cat_tools c) = Inr vs \<longleftrightarrow>
     scope_decided re c key \<and> vs = visible_tools re c key"
  by (simp add: policy.try_filter_scope scope_decided_def visible_tools_def)

section \<open>Resolution of exposed names\<close>

lemma two_segment_name_matches_iff: "two_segment_name_matches n s \<longleftrightarrow> s = two_segment_name n"
  by (auto simp: two_segment_name_matches_def two_segment_name_def strip_prefix_Some_iff bind_eq_Some_conv)

definition no_qualifiers :: tool_qualifiers where
  "no_qualifiers = \<lparr>tq_domain = None, tq_provider = None\<rparr>"

lemma qualifiers_match_none [simp]: "qualifiers_match no_qualifiers n"
  by (simp add: qualifiers_match_def no_qualifiers_def is_none_or_def)

definition pick_unique :: "string \<Rightarrow> wrapped_tool list \<Rightarrow> catalog_error + wrapped_tool option" where
  "pick_unique name candidates =
     (case candidates of
        [] \<Rightarrow> Inr None
      | [t] \<Rightarrow> Inr (Some t)
      | _ \<Rightarrow> Inl (AmbiguousToolName name
               (take AMBIGUITY_CANDIDATE_LIMIT (sort (map wire candidates)))))"

lemma resolve_tier_all:
  "resolve_tier re c name q None P =
     pick_unique name (filter (\<lambda>t. P t \<and> qualifiers_match q (wt_name t)) (cat_tools c))"
proof -
  have "try_filter (\<lambda>t. if \<not> P t \<or> \<not> qualifiers_match q (wt_name t) then Inr False else Inr True)
      (cat_tools c) = (Inr (filter (\<lambda>t. P t \<and> qualifiers_match q (wt_name t)) (cat_tools c)) ::
        catalog_error + wrapped_tool list)"
    unfolding try_filter_Inr_iff by (auto intro!: filter_cong)
  then show ?thesis unfolding resolve_tier_def pick_unique_def option.case by (simp only: and_then_simps)
qed

lemma resolve_tier_scoped:
  "scope_decided re c key \<Longrightarrow> resolve_tier re c name q (Some key) P =
     pick_unique name (filter (\<lambda>t. P t \<and> qualifiers_match q (wt_name t)) (visible_tools re c key))"
  unfolding resolve_tier_def pick_unique_def option.case scope_decided_def
  by (simp only: policy.try_filter_guarded and_then_simps visible_tools_def filter_filter conj_ac)

lemma pick_unique_simps [simp]:
  "pick_unique n [] = Inr None" "pick_unique n [t] = Inr (Some t)"
  by (simp_all add: pick_unique_def)

lemma filter_singleton_subset:
  assumes "filter P xs = [x]" "\<And>y. Q y \<Longrightarrow> P y"
  shows "filter Q xs = (if Q x then [x] else [])"
proof -
  have "filter Q xs = filter Q (filter P xs)"
    using assms(2) by (auto simp: filter_filter intro!: filter_cong)
  with assms(1) show ?thesis by simp
qed

lemma wire_candidate_unique:
  "wires_distinct ts \<Longrightarrow> t \<in> set ts \<Longrightarrow> filter (\<lambda>u. wire u = wire t) ts = [t]"
  unfolding wires_distinct_def
proof (induction ts)
  case (Cons u ts)
  then show ?case
    by (cases "t = u") (auto simp: filter_empty_conv image_iff)
qed simp

lemma shortest_exposed_name_cases:
  obtains (short) "candidate_ok c vs (shortest_exposed_name c t vs)"
      "shortest_exposed_name c t vs \<in> {tn_tool (wt_name t), two_segment_name (wt_name t)}"
  | (canonical) "shortest_exposed_name c t vs = wire t"
  by (cases "candidate_ok c vs (tn_tool (wt_name t))";
      cases "candidate_ok c vs (two_segment_name (wt_name t))")
    (auto simp: shortest_exposed_name_def)

lemma exposed_resolves:
  assumes wd: "wires_distinct (cat_tools c)" and sd: "scope_decided re c key"
    and t: "t \<in> set (visible_tools re c key)"
  shows "resolve_for_key re c (shortest_exposed_name c t (visible_tools re c key)) no_qualifiers key =
     Inr (Some t)"
proof -
  let ?vs = "visible_tools re c key"
  let ?n = "shortest_exposed_name c t ?vs"
  let ?users = "\<lambda>u. tn_tool (wt_name u) = ?n \<or> two_segment_name_matches (wt_name u) ?n"
  show ?thesis
  proof (cases rule: shortest_exposed_name_cases [of c ?vs t])
    case short
    then have none: "filter (\<lambda>u. wire u = ?n) (cat_tools c) = []"
      by (auto simp: candidate_ok_def filter_empty_conv list_ex_iff)
    obtain u where u: "filter ?users ?vs = [u]"
      using short(1) by (auto simp: candidate_ok_def length_Suc_conv)
    have "t \<in> set (filter ?users ?vs)"
      using t short(2) by (auto simp: two_segment_name_matches_iff)
    with u have u': "filter ?users ?vs = [t]" by auto
    note sub = filter_singleton_subset [OF u']
    have two: "filter (\<lambda>u. two_segment_name_matches (wt_name u) ?n \<and> qualifiers_match no_qualifiers (wt_name u)) ?vs =
        (if two_segment_name_matches (wt_name t) ?n then [t] else [])"
      by (simp add: sub)
    have bare: "filter (\<lambda>u. tn_tool (wt_name u) = ?n \<and> qualifiers_match no_qualifiers (wt_name u)) ?vs =
        (if tn_tool (wt_name t) = ?n then [t] else [])"
      by (simp add: sub)
    have full: "filter (\<lambda>u. wire u = ?n \<and> qualifiers_match no_qualifiers (wt_name u)) (cat_tools c) = []"
      using none by simp
    have own: "two_segment_name_matches (wt_name t) ?n \<or> tn_tool (wt_name t) = ?n"
      using short(2) by (auto simp: two_segment_name_matches_iff)
    show ?thesis
      unfolding resolve_for_key_def resolve_tier_all resolve_tier_scoped [OF sd] two bare full
      using own by (cases "two_segment_name_matches (wt_name t) ?n") simp_all
  next
    case canonical
    from t have "t \<in> set (cat_tools c)" by (simp add: visible_tools_def)
    from wire_candidate_unique [OF wd this] canonical show ?thesis
      by (simp add: resolve_for_key_def resolve_tier_all)
  qed
qed

section \<open>The list\<close>

text \<open>What a request filter asks of a tool, once its patterns compile.\<close>

definition pattern_matches :: "regex_engine \<Rightarrow> string \<Rightarrow> string \<Rightarrow> bool" where
  "pattern_matches re p s = (case re_new re p of Inl _ \<Rightarrow> False | Inr m \<Rightarrow> m s)"

definition request_match :: "regex_engine \<Rightarrow> tool_list_query \<Rightarrow> wrapped_tool \<Rightarrow> bool" where
  "request_match re q t =
     (is_none_or (lq_include_regex q) (\<lambda>p. pattern_matches re p (wire t)) \<and>
      \<not> is_some_and (lq_exclude_regex q) (\<lambda>p. pattern_matches re p (wire t)) \<and>
      is_none_or (lq_domain_regex q) (\<lambda>p. pattern_matches re p (tn_domain (wt_name t))) \<and>
      is_none_or (lq_provider_regex q) (\<lambda>p. pattern_matches re p (tn_provider (wt_name t))) \<and>
      is_none_or (lq_tool_regex q) (\<lambda>p. pattern_matches re p (tn_tool (wt_name t))))"

definition listing :: "regex_engine \<Rightarrow> tool_catalog \<Rightarrow> proxy_key \<Rightarrow> tool_list_query \<Rightarrow> wrapped_tool list" where
  "listing re c key q =
     map (expose c (visible_tools re c key)) (filter (request_match re q) (visible_tools re c key))"

definition page_limit :: "proxy_key \<Rightarrow> tool_list_query \<Rightarrow> nat" where
  "page_limit key q = max 1 (unwrap_or (lq_limit q) (pk_default_tool_page_size key))"

definition page_at :: "wrapped_tool list \<Rightarrow> nat \<Rightarrow> nat \<Rightarrow> tool_page" where
  "page_at xs limit cursor =
     \<lparr>tp_tools = take limit (drop cursor xs),
      tp_next_cursor =
        (if drop limit (drop cursor xs) = [] then None
         else Some (saturating_add_usize cursor (length (take limit (drop cursor xs)))))\<rparr>"

definition patterns_compile :: "regex_engine \<Rightarrow> tool_list_query \<Rightarrow> bool" where
  "patterns_compile re q =
     (\<forall>p \<in> {lq_include_regex q, lq_exclude_regex q, lq_domain_regex q, lq_provider_regex q, lq_tool_regex q}.
        is_none_or p (\<lambda>s. \<exists>m. re_new re s = Inr m))"

lemma compile_optional_regex_Inr_iff:
  "compile_optional_regex re p = Inr m \<longleftrightarrow>
     is_none_or p (\<lambda>s. \<exists>m. re_new re s = Inr m) \<and> m = map_option (pattern_matches re) p"
  by (auto simp: compile_optional_regex_def is_none_or_def pattern_matches_def and_then_Inr_iff
      fun_eq_iff split: option.splits)

lemma is_none_or_map [simp]: "is_none_or (map_option f x) g = is_none_or x (\<lambda>v. g (f v))"
  by (cases x) (simp_all add: is_none_or_def)

lemma is_some_and_map [simp]: "is_some_and (map_option f x) g = is_some_and x (\<lambda>v. g (f v))"
  by (cases x) (simp_all add: is_some_and_def)

lemma list_for_key_Inr_iff:
  "list_for_key re c key q = Inr p \<longleftrightarrow>
     patterns_compile re q \<and> scope_decided re c key \<and>
     p = page_at (listing re c key q) (page_limit key q) (unwrap_or (lq_cursor q) 0)"
proof -
  let ?vs = "visible_tools re c key"
  let ?l = "page_limit key q" and ?k = "unwrap_or (lq_cursor q) 0"
  have r: "(\<lambda>tool. is_none_or (lq_include_regex q) (\<lambda>v. pattern_matches re v (wire tool)) \<and>
        \<not> is_some_and (lq_exclude_regex q) (\<lambda>v. pattern_matches re v (wire tool)) \<and>
        is_none_or (lq_domain_regex q) (\<lambda>v. pattern_matches re v (tn_domain (wt_name tool))) \<and>
        is_none_or (lq_provider_regex q) (\<lambda>v. pattern_matches re v (tn_provider (wt_name tool))) \<and>
        is_none_or (lq_tool_regex q) (\<lambda>v. pattern_matches re v (tn_tool (wt_name tool)))) = request_match re q"
    by (rule ext) (simp add: request_match_def)
  show ?thesis
    unfolding list_for_key_def Let_def and_then_Inr_iff compile_optional_regex_Inr_iff try_filter_visible
    by (auto simp: r patterns_compile_def page_at_def listing_def page_limit_def take_map drop_map)
qed

text \<open>A client that follows \<open>next_cursor\<close> until there is none; \<open>None\<close> when it gives up.\<close>

fun list_all_pages ::
  "nat \<Rightarrow> regex_engine \<Rightarrow> tool_catalog \<Rightarrow> proxy_key \<Rightarrow> tool_list_query \<Rightarrow> wrapped_tool list option" where
  "list_all_pages 0 re c key q = None"
| "list_all_pages (Suc n) re c key q =
     (case list_for_key re c key q of
        Inl _ \<Rightarrow> None
      | Inr p \<Rightarrow>
          (case tp_next_cursor p of
             None \<Rightarrow> Some (tp_tools p)
           | Some k \<Rightarrow>
               map_option (append (tp_tools p)) (list_all_pages n re c key (q\<lparr>lq_cursor := Some k\<rparr>))))"

lemma query_cursor_frame [frame_simps]:
  "listing re c key (q\<lparr>lq_cursor := x\<rparr>) = listing re c key q"
  "page_limit key (q\<lparr>lq_cursor := x\<rparr>) = page_limit key q"
  "patterns_compile re (q\<lparr>lq_cursor := x\<rparr>) = patterns_compile re q"
  by (simp_all add: listing_def request_match_def [abs_def] page_limit_def patterns_compile_def)

lemma length_listing: "length (listing re c key q) \<le> length (cat_tools c)"
  unfolding listing_def visible_tools_def by (simp add: le_trans [OF length_filter_le length_filter_le])

lemma page_walk:
  assumes ok: "patterns_compile re q" "scope_decided re c key"
    and bound: "length (cat_tools c) \<le> usize_max"
  shows "length (listing re c key q) < k + n \<Longrightarrow>
     list_all_pages n re c key (q\<lparr>lq_cursor := Some k\<rparr>) = Some (drop k (listing re c key q)) \<or> n = 0"
proof (induction n arbitrary: k)
  case (Suc n)
  let ?L = "listing re c key q" and ?l = "page_limit key q"
  have pg: "list_for_key re c key (q\<lparr>lq_cursor := Some k\<rparr>) = Inr (page_at ?L ?l k)"
    unfolding list_for_key_Inr_iff frame_simps using ok by (simp add: unwrap_or_def)
  have pos: "1 \<le> ?l" by (simp add: page_limit_def)
  show ?case
  proof (cases "drop ?l (drop k ?L) = []")
    case True
    then show ?thesis by (simp add: pg page_at_def)
  next
    case False
    then have lt: "k + ?l < length ?L" by simp
    then have nx: "saturating_add_usize k (length (take ?l (drop k ?L))) = k + ?l"
      using length_listing [of re c key q] bound by (simp add: saturating_add_usize_def)
    from Suc.prems pos have "length ?L < (k + ?l) + n" by simp
    moreover from this lt have "n \<noteq> 0" by simp
    ultimately have "list_all_pages n re c key (q\<lparr>lq_cursor := Some (k + ?l)\<rparr>) = Some (drop (k + ?l) ?L)"
      using Suc.IH by blast
    moreover have "take ?l (drop k ?L) @ drop (k + ?l) ?L = drop k ?L"
      by (metis add.commute append_take_drop_id drop_drop)
    ultimately show ?thesis
      using False nx by (simp add: pg page_at_def)
  qed
qed simp

section \<open>Properties\<close>



definition search_hits ::
  "regex_engine \<Rightarrow> (string \<Rightarrow> string) \<Rightarrow> tool_catalog \<Rightarrow> string \<Rightarrow> proxy_key \<Rightarrow> (wrapped_tool \<times> nat) list" where
  "search_hits re lower c query key =
     (if query = [] then map (\<lambda>t. (t, 4)) (visible_tools re c key)
      else List.map_filter (\<lambda>t. map_option (\<lambda>s. (t, s)) (search_score lower (lower query) t))
        (visible_tools re c key))"

lemma sort_key_rank_const:
  "sort_key search_rank (map (\<lambda>t. (t, 4)) ts) = map (\<lambda>t. (t, 4)) (sort_key wire ts)"
proof (induction ts)
  case (Cons t ts)
  have "insort_key search_rank (t, 4) (map (\<lambda>t. (t, 4)) us) = map (\<lambda>t. (t, 4)) (insort_key wire t us)" for us
    by (induction us) (auto simp: search_rank_def)
  with Cons show ?case by simp
qed simp

lemma search_for_key_hits:
  "search_for_key re lower c query key limit = Inr rs \<longleftrightarrow>
     scope_decided re c key \<and>
     rs = map fst (take limit (sort_key search_rank (search_hits re lower c query key)))"
proof (cases "query = []")
  case True
  then show ?thesis
    by (auto simp: search_for_key_def search_hits_def and_then_Inr_iff try_filter_visible
        sort_key_rank_const take_map comp_def)
next
  case False
  then show ?thesis
    by (auto simp: search_for_key_def search_hits_def and_then_Inr_iff try_filter_visible Let_def)
qed

lemma sorted_take_drop:
  "sorted (map k xs) \<Longrightarrow> x \<in> set (take n xs) \<Longrightarrow> y \<in> set (drop n xs) \<Longrightarrow> k x \<le> k y"
proof -
  assume "sorted (map k xs)" "x \<in> set (take n xs)" "y \<in> set (drop n xs)"
  moreover have "map k xs = map k (take n xs) @ map k (drop n xs)" by (simp flip: map_append)
  ultimately show ?thesis by (auto simp: sorted_append)
qed

lemma search_hits_iff:
  "(t, s) \<in> set (search_hits re lower c query key) \<longleftrightarrow>
     t \<in> set (cat_tools c) \<and> scope_spec re key (wire t) (wt_resource_id t) \<and>
     (if query = [] then s = 4 else search_score lower (lower query) t = Some s)"
  by (force simp: search_hits_def visible_tools_def tool_in_scope_def map_filter_def)

text \<open>A search returns at most \<open>limit\<close> of the tools in the key's scope that match the query,
  ordered by descending score and then by name; it returns as many as it may, and no matching tool
  it leaves out ranks before one it returns.\<close>

lemma search_for_key_ranked:
  assumes "search_for_key re lower c query key limit = Inr rs"
  shows "\<exists>hits rest.
     rs = map fst hits \<and> mset (hits @ rest) = mset (search_hits re lower c query key) \<and>
     length rs = min limit (length (search_hits re lower c query key)) \<and>
     sorted (map search_rank hits) \<and>
     (\<forall>h \<in> set hits. \<forall>x \<in> set rest. search_rank h \<le> search_rank x) \<and>
     (\<forall>h \<in> set hits. scope_spec re key (wire (fst h)) (wt_resource_id (fst h)) \<and>
        (query \<noteq> [] \<longrightarrow> search_score lower (lower query) (fst h) = Some (snd h)))"
proof -
  let ?H = "search_hits re lower c query key"
  let ?S = "sort_key search_rank (search_hits re lower c query key)"
  have srt: "sorted (map search_rank ?S)" by (rule sorted_sort_key)
  then have "sorted (map search_rank (take limit ?S))" by (simp add: sorted_wrt_take flip: take_map)
  moreover have "\<forall>h \<in> set (take limit ?S). \<forall>x \<in> set (drop limit ?S). search_rank h \<le> search_rank x"
    using sorted_take_drop [OF srt] by blast
  moreover have "mset (take limit ?S @ drop limit ?S) = mset ?H" by simp
  moreover have "\<forall>h \<in> set (take limit ?S). scope_spec re key (wire (fst h)) (wt_resource_id (fst h)) \<and>
        (query \<noteq> [] \<longrightarrow> search_score lower (lower query) (fst h) = Some (snd h))"
    using search_hits_iff [of _ _ re lower c query key] by (fastforce dest: in_set_takeD split: if_splits)
  moreover have "rs = map fst (take limit ?S)" "length rs = min limit (length ?H)"
    using assms by (simp_all add: search_for_key_hits min.commute)
  ultimately show ?thesis by blast
qed

section \<open>A catalog to run on\<close>

text \<open>Patterns without meta characters match as substrings; this engine is enough for them.\<close>

definition literal_engine :: regex_engine where
  "literal_engine =
     \<lparr>re_new = \<lambda>p. Inr (\<lambda>s. contains_str s p), re_set_new = \<lambda>ps. Inr (\<lambda>s. list_ex (contains_str s) ps)\<rparr>"

definition example_key :: proxy_key where
  "example_key =
     \<lparr>pk_id = ''dev'', pk_display_name = [], pk_allowed_tools = [''exa''], pk_denied_tools = [''find''],
      pk_allowed_servers = [], pk_allowed_tool_names = [], pk_limits = None, pk_token_ref = None,
      pk_token_digest = None, pk_expires_at = None, pk_default_tool_page_size = 1,
      pk_discovery_mode = None, pk_response_format = None\<rparr>"

definition example_query :: tool_list_query where
  "example_query =
     \<lparr>lq_include_regex = None, lq_exclude_regex = Some ''xyz'', lq_domain_regex = None,
      lq_provider_regex = None, lq_tool_regex = None, lq_limit = None, lq_cursor = None\<rparr>"

lemma example_list:
  "list_for_key literal_engine example_catalog example_key example_query =
     Inr \<lparr>tp_tools = [(example_tool ''crawl'')\<lparr>wt_exposed_name := Some ''crawl''\<rparr>], tp_next_cursor = None\<rparr>"
  by code_simp



lemma search_for_key_ranked_witness: "\<exists>hits rest.
     [example_tool ''crawl''] = map fst hits \<and>
     mset (hits @ rest) = mset (search_hits literal_engine (map ascii_lower) example_catalog ''CRAWL'' example_key) \<and>
     length [example_tool ''crawl''] =
       min 5 (length (search_hits literal_engine (map ascii_lower) example_catalog ''CRAWL'' example_key)) \<and>
     sorted (map search_rank hits) \<and>
     (\<forall>h \<in> set hits. \<forall>x \<in> set rest. search_rank h \<le> search_rank x) \<and>
     (\<forall>h \<in> set hits. scope_spec literal_engine example_key (wire (fst h)) (wt_resource_id (fst h)) \<and>
        (''CRAWL'' \<noteq> [] \<longrightarrow>
         search_score (map ascii_lower) (map ascii_lower ''CRAWL'') (fst h) = Some (snd h)))"
proof (rule search_for_key_ranked)
  show "search_for_key literal_engine (map ascii_lower) example_catalog ''CRAWL'' example_key 5 =
      Inr [example_tool ''crawl'']"
    by code_simp
qed

end
