(* ===== verification/McpSurface.thy ===== *)
theory McpSurface
  imports Catalog
begin

text \<open>
  Prompts, resources and resource templates of an upstream MCP server (\<open>src/mcp/surface.rs\<close>): their
  snapshots, the names that the scope check sees, the gateway's URI name space and the choice of the name
  that decides a read. The entries themselves are types of the \<open>rmcp\<close> crate: the fields the gateway
  reads are kept, the rest is the opaque component \<open>meta\<close>.
\<close>

record rmcp_prompt =
  rp_name :: string
  rp_meta :: json

record rmcp_resource =
  rr_uri :: string
  rr_name :: string
  rr_meta :: json

record rmcp_template =
  rt_uri_template :: string
  rt_name :: string
  rt_meta :: json

record prompt_snap =
  ps_wire_name :: string
  ps_prompt :: rmcp_prompt

record resource_snap =
  rs_scope_name :: string
  rs_resource :: rmcp_resource

record template_snap =
  ts_scope_name :: string
  ts_literal_prefix :: string
  ts_template :: rmcp_template

record surface_snapshot =
  sf_prompts :: "prompt_snap list"
  sf_resources :: "resource_snap list"
  sf_templates :: "template_snap list"

definition surface_default :: surface_snapshot where
  "surface_default = \<lparr>sf_prompts = [], sf_resources = [], sf_templates = []\<rparr>"

section \<open>The URI name space\<close>

definition URI_SCHEME :: string where
  "URI_SCHEME = ''asterlane://''"

definition gateway_uri :: "string \<Rightarrow> string \<Rightarrow> string" where
  "gateway_uri server_id upstream = URI_SCHEME @ server_id @ ''/'' @ upstream"

definition parse_gateway_uri :: "string \<Rightarrow> (string \<times> string) option" where
  "parse_gateway_uri uri =
     (case strip_prefix URI_SCHEME uri of
        None \<Rightarrow> None
      | Some rest \<Rightarrow>
          (case split_once (CHR ''/'') rest of
             None \<Rightarrow> None
           | Some (server_id, upstream) \<Rightarrow>
               if server_id \<noteq> [] \<and> upstream \<noteq> [] then Some (server_id, upstream) else None))"

section \<open>Wrapping\<close>

text \<open>\<open>unique_by\<close> and the other filters over a \<open>HashSet\<close> of seen keys keep the first of each key.\<close>

fun retain_fresh :: "('a \<Rightarrow> string) \<Rightarrow> string set \<Rightarrow> 'a list \<Rightarrow> 'a list \<times> string set" where
  "retain_fresh key seen [] = ([], seen)"
| "retain_fresh key seen (x # xs) =
     (if key x \<in> seen then retain_fresh key seen xs
      else (let (ys, seen') = retain_fresh key (insert (key x) seen) xs in (x # ys, seen')))"

definition unique_by :: "('a \<Rightarrow> string) \<Rightarrow> 'a list \<Rightarrow> 'a list" where
  "unique_by key xs = fst (retain_fresh key {} xs)"

definition wrap_prompts :: "mcp_server_config \<Rightarrow> rmcp_prompt list \<Rightarrow> prompt_snap list" where
  "wrap_prompts config prompts =
     unique_by ps_wire_name
       (List.map_filter (\<lambda>p.
          case tool_name_new (ms_domain config) (ms_provider config) (rp_name p) of
            Inr name \<Rightarrow> Some \<lparr>ps_wire_name = to_wire_name name, ps_prompt = p\<rparr>
          | Inl _ \<Rightarrow> None) prompts)"

definition wrap_resources :: "mcp_server_config \<Rightarrow> rmcp_resource list \<Rightarrow> resource_snap list" where
  "wrap_resources config resources =
     unique_by (\<lambda>snap. rr_uri (rs_resource snap))
       (List.map_filter (\<lambda>r.
          if rr_uri r = [] then None
          else case scope_match_name (ms_domain config) (ms_provider config) (rr_name r) of
                 Inr n \<Rightarrow> Some \<lparr>rs_scope_name = n, rs_resource = r\<rparr>
               | Inl _ \<Rightarrow> None) resources)"

definition literal_prefix :: "string \<Rightarrow> string" where
  "literal_prefix t = (case split_once (CHR ''{'') t of None \<Rightarrow> t | Some (p, _) \<Rightarrow> p)"

definition wrap_templates :: "mcp_server_config \<Rightarrow> rmcp_template list \<Rightarrow> template_snap list" where
  "wrap_templates config templates =
     unique_by (\<lambda>snap. rt_uri_template (ts_template snap))
       (List.map_filter (\<lambda>t.
          if rt_uri_template t = [] then None
          else case scope_match_name (ms_domain config) (ms_provider config) (rt_name t) of
                 Inr n \<Rightarrow>
                   Some \<lparr>ts_scope_name = n, ts_literal_prefix = literal_prefix (rt_uri_template t), ts_template = t\<rparr>
               | Inl _ \<Rightarrow> None) templates)"

definition to_prompt :: "prompt_snap \<Rightarrow> rmcp_prompt" where
  "to_prompt snap = (ps_prompt snap)\<lparr>rp_name := ps_wire_name snap\<rparr>"

definition to_resource :: "string \<Rightarrow> resource_snap \<Rightarrow> rmcp_resource" where
  "to_resource server_id snap =
     (rs_resource snap)\<lparr>rr_uri := gateway_uri server_id (rr_uri (rs_resource snap))\<rparr>"

definition to_template :: "string \<Rightarrow> template_snap \<Rightarrow> rmcp_template" where
  "to_template server_id snap =
     (ts_template snap)\<lparr>rt_uri_template := gateway_uri server_id (rt_uri_template (ts_template snap))\<rparr>"

text \<open>\<open>Iterator::max_by_key\<close>: the last of the maximal elements.\<close>

fun max_by_key :: "('a \<Rightarrow> nat) \<Rightarrow> 'a list \<Rightarrow> 'a option" where
  "max_by_key f [] = None"
| "max_by_key f (x # xs) =
     (case max_by_key f xs of None \<Rightarrow> Some x | Some y \<Rightarrow> Some (if f y < f x then x else y))"

definition scope_name_for_read :: "resource_snap list \<Rightarrow> template_snap list \<Rightarrow> string \<Rightarrow> string option" where
  "scope_name_for_read resources templates upstream_uri =
     (case find (\<lambda>snap. rr_uri (rs_resource snap) = upstream_uri) resources of
        Some r \<Rightarrow> Some (rs_scope_name r)
      | None \<Rightarrow>
          map_option ts_scope_name
            (max_by_key (\<lambda>snap. length (ts_literal_prefix snap))
              (filter (\<lambda>snap. starts_with upstream_uri (ts_literal_prefix snap)) templates)))"

text \<open>A content item of a read result with its URI; a kind without one is passed through.\<close>

definition rewrite_content_uri :: "string \<Rightarrow> string option \<Rightarrow> string option" where
  "rewrite_content_uri server_id uri =
     map_option (\<lambda>u. if starts_with u (gateway_uri server_id []) then u else gateway_uri server_id u) uri"

definition rewrite_read_uris :: "string \<Rightarrow> (string option \<times> 'c) list \<Rightarrow> (string option \<times> 'c) list" where
  "rewrite_read_uris server_id contents = map (\<lambda>(u, c). (rewrite_content_uri server_id u, c)) contents"

definition load_kind ::
  "mcp_server_config \<Rightarrow> bool \<Rightarrow> mcp_error + 'u list \<Rightarrow> (mcp_server_config \<Rightarrow> 'u list \<Rightarrow> 't list) \<Rightarrow> 't list \<Rightarrow> 't list" where
  "load_kind config supported listed wrap previous =
     (if \<not> supported then []
      else case listed of Inr items \<Rightarrow> wrap config items | Inl _ \<Rightarrow> previous)"

text \<open>What the upstream answers to the list calls of one probe.\<close>

record upstream_lists =
  ul_supports_prompts :: bool
  ul_supports_resources :: bool
  ul_prompts :: "mcp_error + rmcp_prompt list"
  ul_resources :: "mcp_error + rmcp_resource list"
  ul_templates :: "mcp_error + rmcp_template list"

definition load_surface :: "mcp_server_config \<Rightarrow> upstream_lists \<Rightarrow> surface_snapshot \<Rightarrow> surface_snapshot" where
  "load_surface config up previous =
     \<lparr>sf_prompts = load_kind config (ul_supports_prompts up) (ul_prompts up) wrap_prompts (sf_prompts previous),
      sf_resources = load_kind config (ul_supports_resources up) (ul_resources up) wrap_resources (sf_resources previous),
      sf_templates = load_kind config (ul_supports_resources up) (ul_templates up) wrap_templates (sf_templates previous)\<rparr>"

section \<open>Filters over seen keys\<close>

lemma retain_fresh_set: "snd (retain_fresh key seen xs) = seen \<union> key ` set xs"
proof (induction xs arbitrary: seen)
  case (Cons x xs)
  from Cons [of seen] Cons [of "insert (key x) seen"] show ?case by (auto simp: Let_def split: prod.splits)
qed simp

lemma retain_fresh_spec:
  "distinct (map key (fst (retain_fresh key seen xs))) \<and>
   key ` set (fst (retain_fresh key seen xs)) = key ` set xs - seen \<and>
   set (fst (retain_fresh key seen xs)) \<subseteq> set xs"
proof (induction xs arbitrary: seen)
  case (Cons x xs)
  from Cons [of seen] Cons [of "insert (key x) seen"] show ?case
    by (auto simp: Let_def split: prod.splits)
qed simp

lemma unique_by_distinct: "distinct (map key (unique_by key xs))"
  using retain_fresh_spec [of key "{}" xs] by (simp add: unique_by_def)

lemma unique_by_subset: "set (unique_by key xs) \<subseteq> set xs"
  using retain_fresh_spec [of key "{}" xs] by (simp add: unique_by_def)

lemma unique_by_keys: "key ` set (unique_by key xs) = key ` set xs"
  using retain_fresh_spec [of key "{}" xs] by (simp add: unique_by_def)

section \<open>The name space is a partial bijection\<close>

lemma parse_gateway_uri_Some:
  "parse_gateway_uri uri = Some (sid, up) \<longleftrightarrow>
     uri = gateway_uri sid up \<and> sid \<noteq> [] \<and> up \<noteq> [] \<and> CHR ''/'' \<notin> set sid"
proof -
  have "parse_gateway_uri uri = Some (sid, up) \<longleftrightarrow>
      (\<exists>rest. strip_prefix URI_SCHEME uri = Some rest \<and> split_once (CHR ''/'') rest = Some (sid, up)) \<and>
      sid \<noteq> [] \<and> up \<noteq> []"
    by (auto simp: parse_gateway_uri_def split: option.splits if_splits)
  then show ?thesis
    by (auto simp: strip_prefix_Some_iff split_once_Some_iff gateway_uri_def)
qed

lemma max_by_key_Some:
  "max_by_key f xs = Some x \<Longrightarrow> x \<in> set xs \<and> (\<forall>y \<in> set xs. f y \<le> f x)"
proof (induction xs arbitrary: x)
  case (Cons a xs)
  show ?case
  proof (cases "max_by_key f xs")
    case None
    then have "xs = []" by (cases xs) (auto split: option.splits)
    with Cons.prems show ?thesis by simp
  next
    case (Some y)
    with Cons.IH have "y \<in> set xs" "\<forall>z \<in> set xs. f z \<le> f y" by auto
    with Cons.prems Some show ?thesis by (auto split: if_splits intro: order_trans less_imp_le)
  qed
qed simp

lemma max_by_key_None [simp]: "max_by_key f xs = None \<longleftrightarrow> xs = []"
  by (cases xs) (auto split: option.splits)

lemma scope_name_for_read_spec:
  assumes "scope_name_for_read rs ts uri = Some n"
  shows "(\<exists>r \<in> set rs. rr_uri (rs_resource r) = uri \<and> rs_scope_name r = n) \<or>
     (\<forall>r \<in> set rs. rr_uri (rs_resource r) \<noteq> uri) \<and>
     (\<exists>t \<in> set ts. ts_scope_name t = n \<and> starts_with uri (ts_literal_prefix t) \<and>
        (\<forall>t' \<in> set ts. starts_with uri (ts_literal_prefix t') \<longrightarrow> length (ts_literal_prefix t') \<le> length (ts_literal_prefix t)))"
proof (cases "find (\<lambda>snap. rr_uri (rs_resource snap) = uri) rs")
  case None
  then have "\<forall>r \<in> set rs. rr_uri (rs_resource r) \<noteq> uri" by (simp add: find_None_iff)
  moreover from assms None obtain t where "max_by_key (\<lambda>snap. length (ts_literal_prefix snap))
      (filter (\<lambda>snap. starts_with uri (ts_literal_prefix snap)) ts) = Some t" "ts_scope_name t = n"
    by (auto simp: scope_name_for_read_def)
  ultimately show ?thesis
    using max_by_key_Some [of "\<lambda>snap. length (ts_literal_prefix snap)"
        "filter (\<lambda>snap. starts_with uri (ts_literal_prefix snap)) ts" t] by auto
next
  case (Some r)
  with assms show ?thesis by (auto simp: scope_name_for_read_def find_Some_iff)
qed

lemma rewrite_content_uri_idem:
  "rewrite_content_uri sid (rewrite_content_uri sid u) = rewrite_content_uri sid u"
  by (auto simp: rewrite_content_uri_def starts_with_iff gateway_uri_def option.map_comp comp_def
      intro!: option.map_cong)

end
