(* ===== verification/Integrity.thy ===== *)
theory Integrity
  imports GatewayAuth
begin

text \<open>
  Tool integrity (\<open>src/integrity.rs\<close>, \<open>src/observability/security.rs\<close>): fingerprints of tool
  definitions, the pinned baseline, drift detection after a refresh of the MCP tools and the quarantine it
  fills. JSON serialisation is \<open>serde_json::to_string\<close>, the argument \<open>ser\<close>; the registry's
  descriptors are the list \<open>pairs\<close> of server id and descriptor; \<open>clock\<close> gives the successive
  readings of the wall clock, and \<open>repo\<close> is the event store, which may refuse an event.
\<close>

record tool_descriptor =
  td_name :: string
  td_description :: string
  td_input_schema :: json

record tool_fingerprint =
  tf_tool_name :: string
  tf_fp :: string
  tf_read_only_hint :: "bool option"
  tf_destructive_hint :: "bool option"
  tf_first_seen :: datetime
  tf_last_changed :: datetime

definition fingerprint_input :: "(json \<Rightarrow> string) \<Rightarrow> tool_descriptor \<Rightarrow> string" where
  "fingerprint_input ser d = td_name d @ [CHR 0x0A] @ td_description d @ [CHR 0x0A] @ ser (td_input_schema d)"

definition fingerprint :: "(json \<Rightarrow> string) \<Rightarrow> sha256 \<Rightarrow> tool_descriptor \<Rightarrow> string" where
  "fingerprint ser sha d = ''v1:'' @ hex (sha (fingerprint_input ser d))"

definition read_hint :: "json \<Rightarrow> string \<Rightarrow> bool option" where
  "read_hint schema key =
     (case Option.bind (Option.bind (json_get schema ''annotations'') (\<lambda>a. json_get a key)) as_bool of
        Some b \<Rightarrow> Some b
      | None \<Rightarrow> Option.bind (json_get schema key) as_bool)"

datatype integrity_event =
    ToolChanged (ie_name: string) string string
  | ToolAdded (ie_name: string)
  | ToolRemoved (ie_name: string)
  | HintFlipped (ie_name: string) string "bool option" "bool option"

definition integrity_policy_str :: "integrity_policy \<Rightarrow> string" where
  "integrity_policy_str p = (case p of Warn \<Rightarrow> ''warn'' | Quarantine \<Rightarrow> ''quarantine'' | Block \<Rightarrow> ''block'')"

definition integrity_policy_from_str :: "string \<Rightarrow> string + integrity_policy" where
  "integrity_policy_from_str s =
     (if s = ''warn'' then Inr Warn
      else if s = ''quarantine'' then Inr Quarantine
      else if s = ''block'' then Inr Block
      else Inl (''unknown integrity policy: '' @ s))"

section \<open>The baseline\<close>

type_synonym baseline = "(string \<times> tool_fingerprint) list"
type_synonym quarantine = "string \<rightharpoonup> integrity_policy"

definition pin_of :: "(json \<Rightarrow> string) \<Rightarrow> sha256 \<Rightarrow> datetime \<Rightarrow> tool_descriptor \<Rightarrow> tool_fingerprint" where
  "pin_of ser sha now d =
     \<lparr>tf_tool_name = td_name d, tf_fp = fingerprint ser sha d,
      tf_read_only_hint = read_hint (td_input_schema d) ''readOnlyHint'',
      tf_destructive_hint = read_hint (td_input_schema d) ''destructiveHint'',
      tf_first_seen = now, tf_last_changed = now\<rparr>"

definition pin_tools ::
  "(json \<Rightarrow> string) \<Rightarrow> sha256 \<Rightarrow> datetime \<Rightarrow> tool_descriptor list \<Rightarrow> baseline \<Rightarrow> baseline" where
  "pin_tools ser sha now tools pins =
     foldl (\<lambda>m d. if map_of m (td_name d) \<noteq> None then m else AList.update (td_name d) (pin_of ser sha now d) m)
       pins tools"

definition rebase :: "(json \<Rightarrow> string) \<Rightarrow> sha256 \<Rightarrow> datetime \<Rightarrow> tool_descriptor list \<Rightarrow> baseline \<Rightarrow> baseline" where
  "rebase ser sha now tools pins = pin_tools ser sha now tools []"

definition hint_flips :: "tool_fingerprint \<Rightarrow> tool_descriptor \<Rightarrow> integrity_event list" where
  "hint_flips pin d =
     (let new_ro = read_hint (td_input_schema d) ''readOnlyHint'';
          new_dest = read_hint (td_input_schema d) ''destructiveHint''
      in (if new_ro \<noteq> tf_read_only_hint pin
          then [HintFlipped (td_name d) ''readOnlyHint'' (tf_read_only_hint pin) new_ro] else []) @
         (if new_dest \<noteq> tf_destructive_hint pin
          then [HintFlipped (td_name d) ''destructiveHint'' (tf_destructive_hint pin) new_dest] else []))"

definition check_tool :: "(json \<Rightarrow> string) \<Rightarrow> sha256 \<Rightarrow> baseline \<Rightarrow> tool_descriptor \<Rightarrow> integrity_event list" where
  "check_tool ser sha pins d =
     (case map_of pins (td_name d) of
        Some pin \<Rightarrow>
          (if fingerprint ser sha d \<noteq> tf_fp pin
           then [ToolChanged (td_name d) (tf_fp pin) (fingerprint ser sha d)] else []) @ hint_flips pin d
      | None \<Rightarrow> [ToolAdded (td_name d)])"

definition check_baseline ::
  "(json \<Rightarrow> string) \<Rightarrow> sha256 \<Rightarrow> baseline \<Rightarrow> tool_descriptor list \<Rightarrow> integrity_event list" where
  "check_baseline ser sha pins tools =
     concat (map (check_tool ser sha pins) tools) @
     map ToolRemoved (filter (\<lambda>n. n \<notin> set (map td_name tools)) (map fst pins))"

section \<open>Security events\<close>

datatype security_event_kind =
    IntegrityToolChanged | IntegrityToolAdded | IntegrityToolRemoved | IntegrityHintFlipped
  | ContentDefenseFlag | AdminAudit

datatype severity = SevInfo | SevWarn | SevError

record security_event =
  se_timestamp :: datetime
  se_resource_id :: string
  se_tool_name :: "string option"
  se_kind :: security_event_kind
  se_severity :: severity
  se_details :: json

definition json_opt_bool :: "bool option \<Rightarrow> json" where
  "json_opt_bool b = (case b of None \<Rightarrow> JNull | Some x \<Rightarrow> JBool x)"

definition from_integrity_event :: "integrity_event \<Rightarrow> security_event_kind \<times> severity \<times> json" where
  "from_integrity_event ev =
     (case ev of
        ToolChanged n old new \<Rightarrow>
          (IntegrityToolChanged, SevWarn,
           JObject [(''tool_name'', JString n), (''old_fp'', JString old), (''new_fp'', JString new)])
      | ToolAdded n \<Rightarrow> (IntegrityToolAdded, SevInfo, JObject [(''tool_name'', JString n)])
      | ToolRemoved n \<Rightarrow> (IntegrityToolRemoved, SevWarn, JObject [(''tool_name'', JString n)])
      | HintFlipped n hint old new \<Rightarrow>
          (IntegrityHintFlipped, SevWarn,
           JObject [(''tool_name'', JString n), (''hint'', JString hint), (''old'', json_opt_bool old),
                    (''new'', json_opt_bool new)]))"

section \<open>Drift detection\<close>

record drift_state =
  ds_pins :: baseline
  ds_quarantined :: quarantine
  ds_persisted :: "security_event list"

definition resource_of_tool :: "(string \<times> tool_descriptor) list \<Rightarrow> string \<Rightarrow> string" where
  "resource_of_tool pairs wire_name =
     (case find (\<lambda>(_, d). td_name d = wire_name) pairs of Some (rid, _) \<Rightarrow> rid | None \<Rightarrow> [])"

definition policy_of :: "gateway_config \<Rightarrow> string \<Rightarrow> integrity_policy option" where
  "policy_of config rid =
     (case mcp_server_of config rid of
        Some s \<Rightarrow> Some (sc_integrity_policy (ms_security s))
      | None \<Rightarrow> map_option (\<lambda>r. sc_integrity_policy (ar_security r)) (resource_of config rid))"

definition drift_event ::
  "gateway_config \<Rightarrow> (security_event \<Rightarrow> bool) option \<Rightarrow> (string \<times> tool_descriptor) list \<Rightarrow>
   datetime \<times> integrity_event \<Rightarrow> drift_state \<Rightarrow> drift_state" where
  "drift_event config repo pairs tev s =
     (let (now, ev) = tev; rid = resource_of_tool pairs (ie_name ev);
          (kind, severity, details) = from_integrity_event ev;
          event = \<lparr>se_timestamp = now, se_resource_id = rid, se_tool_name = Some (ie_name ev), se_kind = kind,
                   se_severity = severity, se_details = details\<rparr>;
          s1 = (if (case repo of Some ok \<Rightarrow> ok event | None \<Rightarrow> False)
                then s\<lparr>ds_persisted := ds_persisted s @ [event]\<rparr> else s)
      in if rid = [] then s1
         else (case policy_of config rid of
                 Some p \<Rightarrow>
                   if p \<in> {Quarantine, Block}
                   then s1\<lparr>ds_quarantined := (ds_quarantined s1)(ie_name ev \<mapsto> p)\<rparr> else s1
               | None \<Rightarrow> s1))"

definition check_drift ::
  "(json \<Rightarrow> string) \<Rightarrow> sha256 \<Rightarrow> gateway_config \<Rightarrow> (security_event \<Rightarrow> bool) option \<Rightarrow> (nat \<Rightarrow> datetime) \<Rightarrow>
   (string \<times> tool_descriptor) list \<Rightarrow> drift_state \<Rightarrow> drift_state" where
  "check_drift ser sha config repo clock pairs s =
     (let descriptors = map snd pairs;
          events = check_baseline ser sha (ds_pins s) descriptors;
          s1 = foldl (\<lambda>s tev. drift_event config repo pairs tev s) s
                 (zip (map clock [0 ..< length events]) events)
      in s1\<lparr>ds_pins := rebase ser sha (clock (length events)) descriptors (ds_pins s1)\<rparr>)"

definition pin_initial_baseline ::
  "(json \<Rightarrow> string) \<Rightarrow> sha256 \<Rightarrow> datetime \<Rightarrow> (string \<times> tool_descriptor) list \<Rightarrow> drift_state \<Rightarrow> drift_state" where
  "pin_initial_baseline ser sha now pairs s = s\<lparr>ds_pins := rebase ser sha now (map snd pairs) (ds_pins s)\<rparr>"

section \<open>Pins and fingerprints\<close>

definition same_definition :: "(json \<Rightarrow> string) \<Rightarrow> sha256 \<Rightarrow> tool_descriptor \<Rightarrow> tool_descriptor \<Rightarrow> bool" where
  "same_definition ser sha d d' \<longleftrightarrow>
     fingerprint ser sha d = fingerprint ser sha d' \<and>
     read_hint (td_input_schema d) ''readOnlyHint'' = read_hint (td_input_schema d') ''readOnlyHint'' \<and>
     read_hint (td_input_schema d) ''destructiveHint'' = read_hint (td_input_schema d') ''destructiveHint''"

lemma same_definition_trans:
  "same_definition ser sha d d' \<Longrightarrow> same_definition ser sha d' d'' \<Longrightarrow> same_definition ser sha d d''"
  by (simp add: same_definition_def)

lemma pin_tools_get:
  "map_of (pin_tools ser sha now tools pins) n =
     (case map_of pins n of
        Some p \<Rightarrow> Some p
      | None \<Rightarrow> map_option (pin_of ser sha now) (find (\<lambda>d. td_name d = n) tools))"
  by (induction tools arbitrary: pins) (auto simp: pin_tools_def split: option.splits)

lemma rebase_get:
  "map_of (rebase ser sha now tools pins) n = map_option (pin_of ser sha now) (find (\<lambda>d. td_name d = n) tools)"
  by (simp add: rebase_def pin_tools_get)

lemma check_tool_pinned:
  "map_of pins (td_name d) = Some (pin_of ser sha now d0) \<Longrightarrow>
     check_tool ser sha pins d = [] \<longleftrightarrow> same_definition ser sha d d0"
  by (auto simp: check_tool_def hint_flips_def pin_of_def same_definition_def Let_def)

lemma ie_name_check_tool: "ev \<in> set (check_tool ser sha pins d) \<Longrightarrow> ie_name ev = td_name d"
  by (auto simp: check_tool_def hint_flips_def Let_def split: option.splits if_splits)

text \<open>After the baseline is replaced by a listing, that listing shows no drift.\<close>

lemma check_after_rebase:
  assumes "distinct (map td_name tools)"
  shows "check_baseline ser sha (rebase ser sha now tools pins) tools = []"
proof -
  have "check_tool ser sha (rebase ser sha now tools pins) d = []" if "d \<in> set tools" for d
    using find_distinct [OF assms that] check_tool_pinned [of "rebase ser sha now tools pins" d ser sha now d]
    by (simp add: rebase_get same_definition_def)
  moreover have "n \<in> set (map td_name tools)" if "n \<in> set (map fst (rebase ser sha now tools pins))" for n
  proof -
    from that have "map_of (rebase ser sha now tools pins) n \<noteq> None" by (simp add: map_of_eq_None_iff)
    then show ?thesis by (auto simp: rebase_get find_Some_iff)
  qed
  ultimately show ?thesis by (auto simp: check_baseline_def concat_eq_Nil_conv filter_empty_conv)
qed

text \<open>
  The hash input determines the definition as long as the name and the serialised schema hold no line
  break, so two definitions get the same fingerprint only by a collision of the hash.
\<close>

lemma fingerprint_input_inject:
  assumes "inj ser" and "\<And>v. CHR 0x0A \<notin> set (ser v)"
    and "CHR 0x0A \<notin> set (td_name d)" and "CHR 0x0A \<notin> set (td_name d')"
    and "fingerprint_input ser d = fingerprint_input ser d'"
  shows "d = d'"
proof -
  let ?nl = "CHR 0x0A"
  have "split_once ?nl (fingerprint_input ser x) = Some (td_name x, td_description x @ [?nl] @ ser (td_input_schema x))"
    if "?nl \<notin> set (td_name x)" for x :: tool_descriptor
    using that by (simp add: split_once_Some_iff fingerprint_input_def)
  with assms(3-5) have n: "td_name d = td_name d'"
    and r: "td_description d @ [?nl] @ ser (td_input_schema d) = td_description d' @ [?nl] @ ser (td_input_schema d')"
    by (metis option.inject prod.inject)+
  have "split_once ?nl (rev (a @ [?nl] @ ser v)) = Some (rev (ser v), rev a)" for a v
    using assms(2) by (simp add: split_once_Some_iff)
  with r have "rev (ser (td_input_schema d)) = rev (ser (td_input_schema d'))"
      "rev (td_description d) = rev (td_description d')"
    by (metis option.inject prod.inject)+
  with n assms(1) show ?thesis by (auto dest: injD intro: tool_descriptor.equality)
qed

section \<open>What a refresh quarantines\<close>

definition strict :: "gateway_config \<Rightarrow> string \<Rightarrow> bool" where
  "strict config rid \<longleftrightarrow> rid \<noteq> [] \<and> policy_of config rid \<in> {Some Quarantine, Some Block}"

lemma drift_event_quarantined:
  "n \<in> dom (ds_quarantined (drift_event config repo pairs (now, ev) s)) \<longleftrightarrow>
     n \<in> dom (ds_quarantined s) \<or> n = ie_name ev \<and> strict config (resource_of_tool pairs n)"
  by (auto simp: drift_event_def strict_def Let_def split: prod.splits option.splits if_splits)

lemma drift_event_pins [frame_simps]: "ds_pins (drift_event config repo pairs tev s) = ds_pins s"
  by (auto simp: drift_event_def Let_def split: prod.splits option.splits)

lemma drift_events_quarantined:
  "n \<in> dom (ds_quarantined (foldl (\<lambda>s tev. drift_event config repo pairs tev s) s tevs)) \<longleftrightarrow>
     n \<in> dom (ds_quarantined s) \<or> n \<in> ie_name ` snd ` set tevs \<and> strict config (resource_of_tool pairs n)"
proof (induction tevs arbitrary: s)
  case (Cons tev tevs)
  then show ?case by (cases tev) (auto simp: drift_event_quarantined simp del: domIff)
qed simp

lemma check_drift_quarantined:
  "n \<in> dom (ds_quarantined (check_drift ser sha config repo clock pairs s)) \<longleftrightarrow>
     n \<in> dom (ds_quarantined s) \<or>
     n \<in> ie_name ` set (check_baseline ser sha (ds_pins s) (map snd pairs)) \<and>
       strict config (resource_of_tool pairs n)"
proof -
  let ?ev = "check_baseline ser sha (ds_pins s) (map snd pairs)"
  have "snd ` set (zip (map clock [0 ..< length ?ev]) ?ev) = set ?ev"
    by (metis length_map length_upt minus_nat.diff_0 map_snd_zip set_map)
  then show ?thesis
    by (simp add: check_drift_def Let_def drift_events_quarantined del: domIff)
qed

lemma check_drift_pins:
  "map_of (ds_pins (check_drift ser sha config repo clock pairs s)) n =
     map_option (pin_of ser sha (clock (length (check_baseline ser sha (ds_pins s) (map snd pairs)))))
       (find (\<lambda>d. td_name d = n) (map snd pairs))"
  by (simp add: check_drift_def Let_def rebase_get)

lemma resource_of_tool_distinct:
  assumes "distinct (map (td_name \<circ> snd) pairs)" and "(rid, d) \<in> set pairs"
  shows "resource_of_tool pairs (td_name d) = rid"
  using find_distinct [OF assms] by (simp add: resource_of_tool_def case_prod_beta')

lemma check_drift_not_quarantined:
  assumes "ds_quarantined (check_drift ser sha config repo clock pairs s) (td_name d) = None"
    and "distinct (map (td_name \<circ> snd) pairs)" and "(rid, d) \<in> set pairs" and "strict config rid"
    and pin: "\<And>n. map_of (ds_pins s) n = map_option (pin_of ser sha t) (find (\<lambda>d. td_name d = n) ds)"
  shows "ds_quarantined s (td_name d) = None \<and>
     (\<exists>d0 \<in> set ds. td_name d0 = td_name d \<and> same_definition ser sha d d0)"
proof -
  have q: "ds_quarantined s (td_name d) = None"
    and ev: "td_name d \<notin> ie_name ` set (check_baseline ser sha (ds_pins s) (map snd pairs))"
    using assms(1,4) check_drift_quarantined [of "td_name d" ser sha config repo clock pairs s]
      resource_of_tool_distinct [OF assms(2,3)] by (auto simp: domIff)
  have nil: "check_tool ser sha (ds_pins s) d = []"
  proof (rule ccontr)
    assume "check_tool ser sha (ds_pins s) d \<noteq> []"
    then obtain e where e: "e \<in> set (check_tool ser sha (ds_pins s) d)" by (cases "check_tool ser sha (ds_pins s) d") auto
    with assms(3) have "e \<in> set (check_baseline ser sha (ds_pins s) (map snd pairs))"
      by (force simp: check_baseline_def)
    with ev ie_name_check_tool [OF e] show False by force
  qed
  then obtain d0 where d0: "find (\<lambda>x. td_name x = td_name d) ds = Some d0"
    using pin [of "td_name d"] by (cases "find (\<lambda>x. td_name x = td_name d) ds") (auto simp: check_tool_def)
  with pin nil have "same_definition ser sha d d0" by (simp add: check_tool_pinned)
  moreover from d0 have "d0 \<in> set ds" "td_name d0 = td_name d" by (auto simp: find_Some_iff)
  ultimately show ?thesis using q by blast
qed

section \<open>Runs of refreshes\<close>

definition drift_run ::
  "(json \<Rightarrow> string) \<Rightarrow> sha256 \<Rightarrow> gateway_config \<Rightarrow> (security_event \<Rightarrow> bool) option \<Rightarrow>
   ((nat \<Rightarrow> datetime) \<times> (string \<times> tool_descriptor) list) list \<Rightarrow> drift_state \<Rightarrow> drift_state" where
  "drift_run ser sha config repo ls s = foldl (\<lambda>s (clock, l). check_drift ser sha config repo clock l s) s ls"

lemma drift_run_snoc:
  "drift_run ser sha config repo (ls @ [(clock, l)]) s =
     check_drift ser sha config repo clock l (drift_run ser sha config repo ls s)"
  by (simp add: drift_run_def)

lemma drift_run_pins:
  "\<exists>t. \<forall>n. map_of (ds_pins (drift_run ser sha config repo ls (pin_initial_baseline ser sha t0 l0 s0))) n =
     map_option (pin_of ser sha t) (find (\<lambda>d. td_name d = n) (map snd (last (l0 # map snd ls))))"
proof (cases ls rule: rev_cases)
  case Nil
  then show ?thesis by (auto simp: drift_run_def pin_initial_baseline_def rebase_get)
next
  case (snoc ls' x)
  then show ?thesis by (cases x) (auto simp: drift_run_snoc check_drift_pins)
qed


text \<open>A server under the quarantine policy whose tool keeps its definition over a refresh.\<close>

definition example_tool_a :: tool_descriptor where
  "example_tool_a = \<lparr>td_name = ''x__y__a'', td_description = ''d'', td_input_schema = JObject []\<rparr>"

definition example_strict_config :: gateway_config where
  "example_strict_config =
     \<lparr>gc_default_response_format = None, gc_failure_mode = FailOpen, gc_oauth = None, gc_api_resources = [], gc_builtin_mcp = [],
      gc_mcp_servers =
        [\<lparr>ms_id = ''srv'', ms_domain = ''x'', ms_provider = ''y'', ms_url = ''http://y/'', ms_description = [],
          ms_auth = AuthNone, ms_security = default_security_config\<lparr>sc_integrity_policy := Quarantine\<rparr>,
          ms_health_check_enabled = False, ms_limits = None\<rparr>],
      gc_proxy_keys = []\<rparr>"

definition example_drift :: drift_state where
  "example_drift = \<lparr>ds_pins = [], ds_quarantined = Map.empty, ds_persisted = []\<rparr>"


end
