(* ===== verification/Machine.thy ===== *)
theory Machine
  imports Prelude
begin

text \<open>
  Step relations and their invariants. A component whose operations interleave is given as initial
  states and labelled steps; \<open>reach\<close> are the states any sequence of steps leads to, and the
  locale \<open>invariant_of\<close> turns a one-step argument into a fact about all of them.
\<close>

inductive reach :: "('s \<Rightarrow> bool) \<Rightarrow> ('s \<Rightarrow> 'l \<Rightarrow> 's \<Rightarrow> bool) \<Rightarrow> 's \<Rightarrow> bool"
  for init :: "'s \<Rightarrow> bool" and step :: "'s \<Rightarrow> 'l \<Rightarrow> 's \<Rightarrow> bool" where
  reach_init: "init s \<Longrightarrow> reach init step s"
| reach_step: "reach init step s \<Longrightarrow> step s l s' \<Longrightarrow> reach init step s'"

inductive run :: "('s \<Rightarrow> 'l \<Rightarrow> 's \<Rightarrow> bool) \<Rightarrow> 's \<Rightarrow> 'l list \<Rightarrow> 's \<Rightarrow> bool"
  for step :: "'s \<Rightarrow> 'l \<Rightarrow> 's \<Rightarrow> bool" where
  run_Nil: "run step s [] s"
| run_Cons: "step s l s' \<Longrightarrow> run step s' ls s'' \<Longrightarrow> run step s (l # ls) s''"

inductive_simps run_Nil_iff [simp]: "run step s [] s'"
inductive_simps run_Cons_iff: "run step s (l # ls) s'"

lemma reach_run: "run step s ls s' \<Longrightarrow> reach init step s \<Longrightarrow> reach init step s'"
  by (induction rule: run.induct) (auto intro: reach_step)

lemma run_append: "run step s ls s' \<Longrightarrow> run step s' ms s'' \<Longrightarrow> run step s (ls @ ms) s''"
  by (induction rule: run.induct) (auto intro: run_Cons)

lemma reach_has_run: "reach init step s \<Longrightarrow> \<exists>s0 ls. init s0 \<and> run step s0 ls s"
proof (induction rule: reach.induct)
  case (reach_step s l s')
  moreover have "run step s [l] s'" using reach_step.hyps(2) by (simp add: run_Cons_iff)
  ultimately show ?case by (blast intro: run_append)
qed (blast intro: run_Nil)

locale invariant_of =
  fixes init :: "'s \<Rightarrow> bool"
    and step :: "'s \<Rightarrow> 'l \<Rightarrow> 's \<Rightarrow> bool"
    and inv :: "'s \<Rightarrow> bool"
  assumes inv_init: "init s \<Longrightarrow> inv s"
    and inv_step: "inv s \<Longrightarrow> step s l s' \<Longrightarrow> inv s'"
begin

lemma reach_inv: "reach init step s \<Longrightarrow> inv s"
  by (induction rule: reach.induct) (auto intro: inv_init inv_step)

lemma run_inv: "run step s ls s' \<Longrightarrow> inv s \<Longrightarrow> inv s'"
  by (induction rule: run.induct) (auto intro: inv_step)

end

end
