(* ===== verification/McpRegistry.thy ===== *)
theory McpRegistry
  imports McpSurface Integrity Machine
begin

text \<open>
  The registry of upstream MCP servers (\<open>src/mcp/registry.rs\<close>, \<open>health.rs\<close>, \<open>dedup.rs\<close>,
  \<open>convert.rs\<close>, \<open>transport.rs\<close>): connecting, probing and refreshing the servers, their health records,
  the removal of duplicate wire names, run-time changes and the look-ups of calls, prompts and reads.
  Peers are values of a type parameter \<open>'p\<close>; what connecting and listing return (the \<open>rmcp\<close>
  client) is an argument of each operation. An operation reads a snapshot of the entries, awaits the
  upstream and then writes under the lock: the two halves of a refresh are separate definitions, so
  that other operations can run in between.
\<close>

section \<open>Wrapping upstream tools (convert.rs)\<close>

record rmcp_tool =
  ut_name :: string
  ut_description :: "string option"
  ut_input_schema :: "(string \<times> json) list"

definition wrap_tool :: "mcp_server_config \<Rightarrow> rmcp_tool \<Rightarrow> mcp_error + wrapped_tool \<times> tool_descriptor" where
  "wrap_tool config tool =
     (case tool_name_new (ms_domain config) (ms_provider config) (ut_name tool) of
        Inl e \<Rightarrow> Inl (McpInvalidCall (tool_name_error_msg e))
      | Inr name \<Rightarrow>
          (let description = (case ut_description tool of Some d \<Rightarrow> d | None \<Rightarrow> []);
               input_schema = JObject (ut_input_schema tool)
           in Inr (\<lparr>wt_name = name, wt_resource_id = ms_id config, wt_description = description,
                    wt_upstream_path = ut_name tool, wt_http_method = Post, wt_input_schema = input_schema,
                    wt_param_locations = None, wt_exposed_name = None\<rparr>,
                   \<lparr>td_name = to_wire_name name, td_description = description, td_input_schema = input_schema\<rparr>)))"

definition wrap_tools ::
  "mcp_server_config \<Rightarrow> rmcp_tool list \<Rightarrow> mcp_error + wrapped_tool list \<times> tool_descriptor list" where
  "wrap_tools config tools =
     and_then (try_map (wrap_tool config) tools) (\<lambda>ps. Inr (map fst ps, map snd ps))"

definition arguments_to_object :: "json \<Rightarrow> mcp_error + (string \<times> json) list" where
  "arguments_to_object arguments =
     (case arguments of
        JNull \<Rightarrow> Inr []
      | JObject m \<Rightarrow> Inr m
      | _ \<Rightarrow> Inl (McpInvalidCall ''MCP tool arguments must be a JSON object''))"

section \<open>Transport (transport.rs)\<close>

record transport =
  tr_uri :: string
  tr_auth_header :: "string option"
  tr_headers :: "(string \<times> string) list"

text \<open>
  \<open>hdr_name\<close> is \<open>HeaderName::from_str\<close> with the error text, \<open>hdr_value\<close> \<open>HeaderValue::from_str\<close>.
  A raw string that is no secret reference is taken as the secret itself.
\<close>

definition resolve_mcp_secret :: "secret_resolver \<Rightarrow> string \<Rightarrow> mcp_error + string" where
  "resolve_mcp_secret resolve raw =
     (case secret_ref_from_str raw of Inr r \<Rightarrow> map_err McpSecret (resolve r) | Inl _ \<Rightarrow> Inr raw)"

definition transport_config ::
  "(string \<Rightarrow> string + string) \<Rightarrow> (string \<Rightarrow> bool) \<Rightarrow> secret_resolver \<Rightarrow> mcp_server_config \<Rightarrow> mcp_error + transport" where
  "transport_config hdr_name hdr_value resolve server =
     (let config = \<lparr>tr_uri = ms_url server, tr_auth_header = None, tr_headers = []\<rparr>
      in case ms_auth server of
           AuthNone \<Rightarrow> Inr config
         | AuthOAuth _ _ _ _ \<Rightarrow> Inr config
         | AuthBearer token_ref \<Rightarrow>
             and_then (resolve_mcp_secret resolve token_ref) (\<lambda>secret. Inr (config\<lparr>tr_auth_header := Some secret\<rparr>))
         | AuthHeader name value_ref \<Rightarrow>
             and_then (resolve_mcp_secret resolve value_ref) (\<lambda>secret.
             and_then (map_err (\<lambda>e. McpInvalidCall (''invalid MCP auth header name: '' @ e)) (hdr_name name)) (\<lambda>h.
               if hdr_value secret then Inr (config\<lparr>tr_headers := [(h, secret)]\<rparr>)
               else Inl (McpInvalidCall ''invalid MCP auth header value''))))"

record 'p connector =
  cn_connect :: "mcp_server_config \<Rightarrow> transport \<Rightarrow> mcp_error + 'p"
  cn_connect_oauth :: "mcp_server_config \<Rightarrow> transport \<Rightarrow> string option \<Rightarrow> mcp_error + 'p"
  cn_hdr_name :: "string \<Rightarrow> string + string"
  cn_hdr_value :: "string \<Rightarrow> bool"

definition connect_server ::
  "'p connector \<Rightarrow> secret_resolver \<Rightarrow> mcp_server_config \<Rightarrow> mcp_error + 'p" where
  "connect_server cn resolve server =
     and_then (transport_config (cn_hdr_name cn) (cn_hdr_value cn) resolve server) (\<lambda>tr.
       case ms_auth server of
         AuthOAuth _ _ client_secret_ref _ \<Rightarrow>
           and_then
             (case client_secret_ref of
                Some raw \<Rightarrow>
                  and_then (map_err McpSecret (secret_ref_from_str raw)) (\<lambda>r.
                  and_then (map_err McpSecret (resolve r)) (\<lambda>s. Inr (Some s)))
              | None \<Rightarrow> Inr None)
             (cn_connect_oauth cn server tr)
       | _ \<Rightarrow> cn_connect cn server tr)"

section \<open>Health (health.rs)\<close>

datatype health_status = HsOk | HsUnreachable | HsAuthRequired | HsUnknown | HsDisabled

definition is_unavailable :: "health_status \<Rightarrow> bool" where
  "is_unavailable s = (s \<in> {HsUnreachable, HsAuthRequired})"

definition health_status_str :: "health_status \<Rightarrow> string" where
  "health_status_str s =
     (case s of HsOk \<Rightarrow> ''ok'' | HsUnreachable \<Rightarrow> ''unreachable'' | HsAuthRequired \<Rightarrow> ''auth_required''
      | HsUnknown \<Rightarrow> ''unknown'' | HsDisabled \<Rightarrow> ''disabled'')"

record server_health =
  sh_server_id :: string
  sh_status :: health_status
  sh_last_check_at :: "datetime option"
  sh_last_ok_at :: "datetime option"
  sh_latency_ms :: "u64 option"
  sh_consecutive_failures :: u32
  sh_last_error :: "string option"
  sh_tool_count :: nat

definition initial_health :: "mcp_server_config \<Rightarrow> server_health" where
  "initial_health config =
     \<lparr>sh_server_id = ms_id config, sh_status = (if ms_health_check_enabled config then HsUnknown else HsDisabled),
      sh_last_check_at = None, sh_last_ok_at = None, sh_latency_ms = None, sh_consecutive_failures = 0,
      sh_last_error = None, sh_tool_count = 0\<rparr>"

definition mark_ok :: "datetime \<Rightarrow> bool \<Rightarrow> u64 \<Rightarrow> nat \<Rightarrow> server_health \<Rightarrow> server_health" where
  "mark_ok now enabled latency tool_count h =
     h\<lparr>sh_status := (if enabled then HsOk else HsDisabled), sh_last_check_at := Some now, sh_last_ok_at := Some now,
       sh_latency_ms := Some latency, sh_consecutive_failures := 0, sh_last_error := None,
       sh_tool_count := tool_count\<rparr>"

definition mark_failed :: "datetime \<Rightarrow> bool \<Rightarrow> mcp_error \<Rightarrow> server_health \<Rightarrow> server_health" where
  "mark_failed now enabled err h =
     h\<lparr>sh_status :=
         (if \<not> enabled then HsDisabled else if err = McpAuthRequired then HsAuthRequired else HsUnreachable),
       sh_last_check_at := Some now,
       sh_consecutive_failures :=
         (if sh_consecutive_failures h = - 1 then - 1 else sh_consecutive_failures h + 1),
       sh_last_error := Some (mcp_error_msg err)\<rparr>"

definition elapsed_ms :: "duration \<Rightarrow> u64" where
  "elapsed_ms d = (let ms = d div 1000000 in if ms < 2 ^ 64 then word_of_nat ms else - 1)"

record 'p mcp_entry =
  me_config :: mcp_server_config
  me_peer :: "'p option"
  me_tools :: "wrapped_tool list"
  me_descriptors :: "tool_descriptor list"
  me_health :: server_health
  me_surface :: surface_snapshot

definition health_view :: "'p mcp_entry \<Rightarrow> server_health" where
  "health_view e = (me_health e)\<lparr>sh_tool_count := length (me_tools e)\<rparr>"

definition health_snapshot :: "'p mcp_entry list \<Rightarrow> server_health list" where
  "health_snapshot es = map health_view es"

text \<open>What one probe of a peer returns, when it ended and how long it took.\<close>

record probe_answer =
  pa_list_tools :: "mcp_error + rmcp_tool list"
  pa_lists :: upstream_lists
  pa_elapsed :: duration
  pa_now :: datetime

definition probe_entry :: "probe_answer \<Rightarrow> 'p \<Rightarrow> 'p mcp_entry \<Rightarrow> 'p mcp_entry" where
  "probe_entry pa peer entry =
     (let enabled = ms_health_check_enabled (me_config entry)
      in (case and_then (pa_list_tools pa) (wrap_tools (me_config entry)) of
            Inr (tools, descriptors) \<Rightarrow>
              entry\<lparr>me_tools := tools, me_descriptors := descriptors,
                    me_surface := load_surface (me_config entry) (pa_lists pa) (me_surface entry),
                    me_health := mark_ok (pa_now pa) enabled (elapsed_ms (pa_elapsed pa)) (length tools) (me_health entry)\<rparr>
          | Inl err \<Rightarrow> entry\<lparr>me_health := mark_failed (pa_now pa) enabled err (me_health entry)\<rparr>)
         \<lparr>me_peer := Some peer\<rparr>)"

text \<open>The environment of one connection attempt: the result of connecting, and the probe that follows.\<close>

record 'p server_env =
  sv_connect :: "mcp_server_config \<Rightarrow> mcp_error + 'p"
  sv_failed_at :: datetime
  sv_probe :: "'p \<Rightarrow> probe_answer"

text \<open>The attempt that connects with the code's own \<open>connect_server\<close>.\<close>

definition server_env_with ::
  "'p connector \<Rightarrow> secret_resolver \<Rightarrow> datetime \<Rightarrow> ('p \<Rightarrow> probe_answer) \<Rightarrow> 'p server_env" where
  "server_env_with cn resolve failed_at probe =
     \<lparr>sv_connect = connect_server cn resolve, sv_failed_at = failed_at, sv_probe = probe\<rparr>"

definition empty_entry :: "mcp_server_config \<Rightarrow> server_health \<Rightarrow> 'p mcp_entry" where
  "empty_entry config health =
     \<lparr>me_config = config, me_peer = None, me_tools = [], me_descriptors = [], me_health = health,
      me_surface = surface_default\<rparr>"

definition establish_entry :: "'p server_env \<Rightarrow> mcp_server_config \<Rightarrow> server_health option \<Rightarrow> 'p mcp_entry" where
  "establish_entry env config prev =
     (let health = (case prev of Some h \<Rightarrow> h | None \<Rightarrow> initial_health config)
      in case sv_connect env config of
           Inr peer \<Rightarrow> probe_entry (sv_probe env peer) peer (empty_entry config health)
         | Inl err \<Rightarrow>
             empty_entry config (mark_failed (sv_failed_at env) (ms_health_check_enabled config) err health))"

section \<open>Duplicate wire names (dedup.rs)\<close>

definition dedup_entry_tools :: "string set \<Rightarrow> 'p mcp_entry \<Rightarrow> 'p mcp_entry \<times> string set" where
  "dedup_entry_tools seen entry =
     (let (kept, seen') = retain_fresh (\<lambda>p. wire (fst p)) seen (zip (me_tools entry) (me_descriptors entry))
      in (entry\<lparr>me_tools := map fst kept, me_descriptors := map snd kept\<rparr>, seen'))"

definition dedup_prompts :: "string set \<Rightarrow> prompt_snap list \<Rightarrow> prompt_snap list \<times> string set" where
  "dedup_prompts seen prompts = retain_fresh ps_wire_name seen prompts"

definition set_prompts :: "prompt_snap list \<Rightarrow> 'p mcp_entry \<Rightarrow> 'p mcp_entry" where
  "set_prompts ps entry = entry\<lparr>me_surface := (me_surface entry)\<lparr>sf_prompts := ps\<rparr>\<rparr>"

definition prompt_wire_names :: "'p mcp_entry list \<Rightarrow> string set" where
  "prompt_wire_names es = (\<Union>e \<in> set es. ps_wire_name ` set (sf_prompts (me_surface e)))"

definition push_deduped_entry ::
  "'p mcp_entry \<Rightarrow> 'p mcp_entry list \<times> string set \<Rightarrow> ('p mcp_entry list \<times> string set) \<times> nat" where
  "push_deduped_entry entry acc =
     (let (new_entries, seen) = acc; (entry1, seen') = dedup_entry_tools seen entry;
          entry2 = set_prompts (fst (dedup_prompts (prompt_wire_names new_entries) (sf_prompts (me_surface entry1)))) entry1
      in ((new_entries @ [entry2], seen'), length (me_tools entry2)))"

definition others :: "nat option \<Rightarrow> 'p mcp_entry list \<Rightarrow> 'p mcp_entry list" where
  "others skip es = map snd (filter (\<lambda>(i, _). Some i \<noteq> skip) (enumerate 0 es))"

definition wires_of :: "'p mcp_entry list \<Rightarrow> string set" where
  "wires_of es = (\<Union>e \<in> set es. wire ` set (me_tools e))"

definition dedup_against_others :: "'p mcp_entry list \<Rightarrow> nat option \<Rightarrow> 'p mcp_entry \<Rightarrow> 'p mcp_entry" where
  "dedup_against_others es skip entry =
     (let entry1 = fst (dedup_entry_tools (wires_of (others skip es)) entry)
      in set_prompts (fst (dedup_prompts (prompt_wire_names (others skip es)) (sf_prompts (me_surface entry1)))) entry1)"

section \<open>The registry (registry.rs, health.rs)\<close>

text \<open>\<open>position\<close> of the first entry with an id.\<close>

fun position :: "('a \<Rightarrow> bool) \<Rightarrow> 'a list \<Rightarrow> nat option" where
  "position P [] = None"
| "position P (x # xs) = (if P x then Some 0 else map_option Suc (position P xs))"

definition entry_id :: "'p mcp_entry \<Rightarrow> string" where
  "entry_id e = ms_id (me_config e)"

definition connect_all_with :: "(nat \<Rightarrow> 'p server_env) \<Rightarrow> mcp_server_config list \<Rightarrow> 'p mcp_entry list" where
  "connect_all_with env configs =
     fst (foldl (\<lambda>acc (i, config). fst (push_deduped_entry (establish_entry (env i) config None) acc)) ([], {})
       (enumerate 0 configs))"

definition mcp_resource_ids :: "'p mcp_entry list \<Rightarrow> string set" where
  "mcp_resource_ids es = entry_id ` set es"

definition all_wrapped_tools :: "'p mcp_entry list \<Rightarrow> wrapped_tool list" where
  "all_wrapped_tools es = concat (map me_tools es)"

definition all_descriptors :: "'p mcp_entry list \<Rightarrow> (string \<times> tool_descriptor) list" where
  "all_descriptors es = concat (map (\<lambda>e. map (Pair (entry_id e)) (me_descriptors e)) es)"

fun find_tool :: "'p mcp_entry list \<Rightarrow> string \<Rightarrow> ('p \<times> string) option" where
  "find_tool [] wire_name = None"
| "find_tool (e # es) wire_name =
     (case me_peer e of
        None \<Rightarrow> find_tool es wire_name
      | Some peer \<Rightarrow>
          (case find (\<lambda>t. wire t = wire_name) (me_tools e) of
             Some tool \<Rightarrow> Some (peer, wt_upstream_path tool)
           | None \<Rightarrow> find_tool es wire_name))"

definition contains_tool :: "'p mcp_entry list \<Rightarrow> string \<Rightarrow> bool" where
  "contains_tool es wire_name = (find_tool es wire_name \<noteq> None)"

text \<open>
  What the peer answers to \<open>tools/call\<close>: content blocks with their text, if they have one, and their
  serialised form; the structured content is given by its serialisation.
\<close>

record content_block =
  cb_text :: "string option"
  cb_json :: string

record rmcp_call_result =
  cr_content :: "content_block list"
  cr_structured :: "string option"
  cr_is_error :: "bool option"

datatype rmcp_call_response = RComplete rmcp_call_result | RInputRequired json | RTask | ROther

record tool_call_result =
  tc_content :: "string list"
  tc_is_error :: bool

datatype call_outcome = Complete tool_call_result | InputRequired json

definition content_block_to_tool_content :: "content_block \<Rightarrow> string" where
  "content_block_to_tool_content b = (case cb_text b of Some t \<Rightarrow> t | None \<Rightarrow> cb_json b)"

definition convert_call_result :: "rmcp_call_result \<Rightarrow> tool_call_result" where
  "convert_call_result result =
     (let content = map content_block_to_tool_content (cr_content result)
      in \<lparr>tc_content =
            (case (content, cr_structured result) of ([], Some value) \<Rightarrow> [value] | _ \<Rightarrow> content),
          tc_is_error = (case cr_is_error result of Some b \<Rightarrow> b | None \<Rightarrow> False)\<rparr>)"

definition convert_call_response :: "rmcp_call_response \<Rightarrow> mcp_error + call_outcome" where
  "convert_call_response response =
     (case response of
        RComplete result \<Rightarrow> Inr (Complete (convert_call_result result))
      | RInputRequired value \<Rightarrow> Inr (InputRequired value)
      | RTask \<Rightarrow> Inl (McpUpstreamFailure ''upstream returned a task handle; Tasks extension is not proxied'')
      | ROther \<Rightarrow> Inl (McpUpstreamFailure ''unsupported upstream tools/call result type''))"

text \<open>\<open>call\<close> is the peer's \<open>tools/call\<close> with the upstream name, the arguments and the retry fields.\<close>

definition call_tool_ex ::
  "('p \<Rightarrow> string \<Rightarrow> json \<Rightarrow> 'x \<Rightarrow> mcp_error + call_outcome) \<Rightarrow> 'p mcp_entry list \<Rightarrow> string \<Rightarrow> json \<Rightarrow> 'x \<Rightarrow>
   mcp_error + call_outcome" where
  "call_tool_ex call es wire_name arguments extras =
     and_then (ok_or (McpUnknownTool wire_name) (find_tool es wire_name)) (\<lambda>(peer, upstream_path).
       call peer upstream_path arguments extras)"

definition call_tool ::
  "('p \<Rightarrow> string \<Rightarrow> json \<Rightarrow> 'x \<Rightarrow> mcp_error + call_outcome) \<Rightarrow> 'p mcp_entry list \<Rightarrow> string \<Rightarrow> json \<Rightarrow> 'x \<Rightarrow>
   mcp_error + tool_call_result" where
  "call_tool call es wire_name arguments default_extras =
     and_then (call_tool_ex call es wire_name arguments default_extras) (\<lambda>r.
       case r of
         Complete result \<Rightarrow> Inr result
       | InputRequired _ \<Rightarrow> Inl (McpUpstreamFailure ''upstream requires additional input''))"

definition prompts_for_key :: "regex_engine \<Rightarrow> proxy_key \<Rightarrow> 'p mcp_entry list \<Rightarrow> policy_error + rmcp_prompt list" where
  "prompts_for_key re key es =
     and_then (try_map (\<lambda>e. try_filter (\<lambda>snap. key_can_use_name re key (ps_wire_name snap) (entry_id e))
         (sf_prompts (me_surface e))) es)
       (\<lambda>xss. Inr (map to_prompt (concat xss)))"

definition resources_for_key ::
  "regex_engine \<Rightarrow> proxy_key \<Rightarrow> 'p mcp_entry list \<Rightarrow> policy_error + rmcp_resource list" where
  "resources_for_key re key es =
     and_then (try_map (\<lambda>e.
         and_then (try_filter (\<lambda>snap. key_can_use_name re key (rs_scope_name snap) (entry_id e))
           (sf_resources (me_surface e))) (\<lambda>xs. Inr (map (to_resource (entry_id e)) xs))) es)
       (\<lambda>xss. Inr (concat xss))"

definition templates_for_key ::
  "regex_engine \<Rightarrow> proxy_key \<Rightarrow> 'p mcp_entry list \<Rightarrow> policy_error + rmcp_template list" where
  "templates_for_key re key es =
     and_then (try_map (\<lambda>e.
         and_then (try_filter (\<lambda>snap. key_can_use_name re key (ts_scope_name snap) (entry_id e))
           (sf_templates (me_surface e))) (\<lambda>xs. Inr (map (to_template (entry_id e)) xs))) es)
       (\<lambda>xss. Inr (concat xss))"

record 'p resolved_prompt =
  rpm_peer :: 'p
  rpm_upstream_name :: string
  rpm_server_id :: string

fun resolve_prompt ::
  "regex_engine \<Rightarrow> proxy_key \<Rightarrow> string \<Rightarrow> 'p mcp_entry list \<Rightarrow> policy_error + 'p resolved_prompt option" where
  "resolve_prompt re key wire_name [] = Inr None"
| "resolve_prompt re key wire_name (e # es) =
     (case me_peer e of
        None \<Rightarrow> resolve_prompt re key wire_name es
      | Some peer \<Rightarrow>
          (case find (\<lambda>snap. ps_wire_name snap = wire_name) (sf_prompts (me_surface e)) of
             None \<Rightarrow> resolve_prompt re key wire_name es
           | Some snap \<Rightarrow>
               and_then (key_can_use_name re key (ps_wire_name snap) (entry_id e)) (\<lambda>ok.
                 if \<not> ok then Inr None
                 else Inr (Some \<lparr>rpm_peer = peer, rpm_upstream_name = rp_name (ps_prompt snap),
                                 rpm_server_id = entry_id e\<rparr>))))"

record 'p resolved_read =
  rrd_peer :: 'p
  rrd_upstream_uri :: string
  rrd_server_id :: string
  rrd_scope_name :: string

definition resolve_read ::
  "regex_engine \<Rightarrow> proxy_key \<Rightarrow> string \<Rightarrow> 'p mcp_entry list \<Rightarrow> policy_error + 'p resolved_read option" where
  "resolve_read re key uri es =
     (case parse_gateway_uri uri of
        None \<Rightarrow> Inr None
      | Some (server_id, upstream_uri) \<Rightarrow>
          (case find (\<lambda>e. entry_id e = server_id) es of
             None \<Rightarrow> Inr None
           | Some e \<Rightarrow>
               (case me_peer e of
                  None \<Rightarrow> Inr None
                | Some peer \<Rightarrow>
                    (case scope_name_for_read (sf_resources (me_surface e)) (sf_templates (me_surface e)) upstream_uri of
                       None \<Rightarrow> Inr None
                     | Some scope_name \<Rightarrow>
                         and_then (key_can_use_name re key scope_name server_id) (\<lambda>ok.
                           if \<not> ok then Inr None
                           else Inr (Some \<lparr>rrd_peer = peer, rrd_upstream_uri = upstream_uri,
                                           rrd_server_id = server_id, rrd_scope_name = scope_name\<rparr>))))))"

section \<open>Changing the registry\<close>

definition replace_entry :: "'p mcp_entry \<Rightarrow> 'p mcp_entry list \<Rightarrow> server_health option \<times> 'p mcp_entry list" where
  "replace_entry entry es =
     (case position (\<lambda>e. entry_id e = entry_id entry) es of
        None \<Rightarrow> (None, es)
      | Some pos \<Rightarrow>
          (let entry' = dedup_against_others es (Some pos) entry in (Some (health_view entry'), es[pos := entry'])))"

definition find_entry :: "string \<Rightarrow> 'p mcp_entry list \<Rightarrow> 'p mcp_entry option" where
  "find_entry server_id es = find (\<lambda>e. entry_id e = server_id) es"

text \<open>
  The second list is the registry at the time of the write, which other operations may have changed since
  the snapshot, the first list, was read.
\<close>

definition commit_replace ::
  "string \<Rightarrow> 'p mcp_entry \<Rightarrow> 'p mcp_entry list \<Rightarrow> (mcp_error + server_health) \<times> 'p mcp_entry list" where
  "commit_replace server_id refreshed es =
     (let (r, es') = replace_entry refreshed es in (ok_or (McpUnknownServer server_id) r, es'))"

definition probe_server ::
  "'p server_env \<Rightarrow> string \<Rightarrow> 'p mcp_entry list \<Rightarrow> 'p mcp_entry list \<Rightarrow> (mcp_error + server_health) \<times> 'p mcp_entry list" where
  "probe_server env server_id snapshot es =
     (case find_entry server_id snapshot of
        None \<Rightarrow> (Inl (McpUnknownServer server_id), es)
      | Some e \<Rightarrow>
          commit_replace server_id
            (case me_peer e of
               Some peer \<Rightarrow> probe_entry (sv_probe env peer) peer e
             | None \<Rightarrow> establish_entry env (me_config e) (Some (me_health e))) es)"

definition reconnect ::
  "'p server_env \<Rightarrow> string \<Rightarrow> 'p mcp_entry list \<Rightarrow> 'p mcp_entry list \<Rightarrow> (mcp_error + server_health) \<times> 'p mcp_entry list" where
  "reconnect env server_id snapshot es =
     (case find_entry server_id snapshot of
        None \<Rightarrow> (Inl (McpUnknownServer server_id), es)
      | Some e \<Rightarrow> commit_replace server_id (establish_entry env (me_config e) (Some (me_health e))) es)"

definition duplicate_server :: "string \<Rightarrow> mcp_error" where
  "duplicate_server server_id = McpInvalidCall (''MCP server already registered: '' @ server_id)"

definition add_server ::
  "'p server_env \<Rightarrow> mcp_server_config \<Rightarrow> 'p mcp_entry list \<Rightarrow> 'p mcp_entry list \<Rightarrow>
   (mcp_error + server_health) \<times> 'p mcp_entry list" where
  "add_server env config snapshot es =
     (if list_ex (\<lambda>e. entry_id e = ms_id config) snapshot then (Inl (duplicate_server (ms_id config)), es)
      else
        (let entry = establish_entry env config None
         in if list_ex (\<lambda>e. entry_id e = entry_id entry) es then (Inl (duplicate_server (entry_id entry)), es)
            else (let entry' = dedup_against_others es None entry in (Inr (health_view entry'), es @ [entry']))))"

definition update_server ::
  "'p server_env \<Rightarrow> mcp_server_config \<Rightarrow> 'p mcp_entry list \<Rightarrow> 'p mcp_entry list \<Rightarrow>
   (mcp_error + server_health) \<times> 'p mcp_entry list" where
  "update_server env config snapshot es =
     (case find_entry (ms_id config) snapshot of
        None \<Rightarrow> (Inl (McpUnknownServer (ms_id config)), es)
      | Some old \<Rightarrow>
          (let needs_reconnect =
                 me_peer old = None \<or> ms_url (me_config old) \<noteq> ms_url config \<or> ms_auth (me_config old) \<noteq> ms_auth config
           in commit_replace (ms_id config)
                (case (me_peer old, needs_reconnect) of
                   (Some peer, False) \<Rightarrow> probe_entry (sv_probe env peer) peer (old\<lparr>me_config := config\<rparr>)
                 | _ \<Rightarrow> establish_entry env config (Some (me_health old))) es))"

definition remove_server :: "string \<Rightarrow> 'p mcp_entry list \<Rightarrow> bool \<times> 'p mcp_entry list" where
  "remove_server server_id es =
     (let es' = filter (\<lambda>e. entry_id e \<noteq> server_id) es in (length es' \<noteq> length es, es'))"

section \<open>Listing under fail-closed (mod.rs)\<close>

definition list_blocked_by_fail_closed :: "'p mcp_entry list option \<Rightarrow> mcp_failure_mode \<Rightarrow> bool" where
  "list_blocked_by_fail_closed registry mode =
     (if mode \<noteq> FailClosed then False
      else
        (case registry of
           None \<Rightarrow> False
         | Some es \<Rightarrow> list_ex (\<lambda>h. is_unavailable (sh_status h)) (health_snapshot es)))"

definition fail_closed_list_error :: asterlane_error where
  "fail_closed_list_error = internal McpUpstreamUnavailable ''one or more MCP upstreams are unreachable''"

section \<open>Refreshing\<close>

record refresh_result =
  rf_old_tool_count :: nat
  rf_new_tool_count :: nat
  rf_failed_server_ids :: "string list"

text \<open>
  One server of the refresh: the entry to keep, and whether the server counts as failed. \<open>secrets\<close>
  tells whether the variant with a secret store runs.
\<close>

definition refresh_one :: "bool \<Rightarrow> 'p server_env \<Rightarrow> 'p mcp_entry \<Rightarrow> 'p mcp_entry \<times> bool" where
  "refresh_one secrets env e =
     (if \<not> ms_health_check_enabled (me_config e) then (e, False)
      else
        (case (me_peer e, secrets) of
           (Some peer, _) \<Rightarrow>
             (let r = probe_entry (sv_probe env peer) peer e in (r, is_unavailable (sh_status (me_health r))))
         | (None, True) \<Rightarrow>
             (let r = establish_entry env (me_config e) (Some (me_health e)) in (r, is_unavailable (sh_status (me_health r))))
         | (None, False) \<Rightarrow> (e, True)))"

definition refresh_step ::
  "bool \<Rightarrow> (nat \<Rightarrow> 'p server_env) \<Rightarrow> ('p mcp_entry list \<times> string set) \<times> nat \<times> string list \<Rightarrow> nat \<times> 'p mcp_entry \<Rightarrow>
   ('p mcp_entry list \<times> string set) \<times> nat \<times> string list" where
  "refresh_step secrets env acc ie =
     (let (es, total, failed) = acc; (r, bad) = refresh_one secrets (env (fst ie)) (snd ie);
          (es', n) = push_deduped_entry r es
      in (es', total + n, if bad then failed @ [entry_id (snd ie)] else failed))"

definition refresh_probe ::
  "bool \<Rightarrow> (nat \<Rightarrow> 'p server_env) \<Rightarrow> 'p mcp_entry list \<Rightarrow> 'p mcp_entry list \<times> nat \<times> string list" where
  "refresh_probe secrets env snapshot =
     (let ((es, _), total, failed) = foldl (refresh_step secrets env) (([], {}), 0, []) (enumerate 0 snapshot)
      in (es, total, failed))"

fun refresh_merge :: "'p mcp_entry list \<Rightarrow> 'p mcp_entry list \<Rightarrow> 'p mcp_entry list" where
  "refresh_merge [] es = es"
| "refresh_merge (r # rs) es =
     refresh_merge rs
       (case position (\<lambda>e. entry_id e = entry_id r) es of Some pos \<Rightarrow> es[pos := r] | None \<Rightarrow> es)"

definition refresh_commit ::
  "'p mcp_entry list \<times> nat \<times> string list \<Rightarrow> 'p mcp_entry list \<Rightarrow> refresh_result \<times> 'p mcp_entry list" where
  "refresh_commit probed es =
     (let (refreshed, total, failed) = probed
      in (\<lparr>rf_old_tool_count = sum_list (map (\<lambda>e. length (me_tools e)) es), rf_new_tool_count = total,
           rf_failed_server_ids = failed\<rparr>, refresh_merge refreshed es))"

definition refresh ::
  "bool \<Rightarrow> (nat \<Rightarrow> 'p server_env) \<Rightarrow> 'p mcp_entry list \<Rightarrow> 'p mcp_entry list \<Rightarrow> refresh_result \<times> 'p mcp_entry list" where
  "refresh secrets env snapshot es = refresh_commit (refresh_probe secrets env snapshot) es"

section \<open>Well-formed entries\<close>

text \<open>
  The invariant of the code's comments: no tools without a peer, one descriptor per tool, tools owned by the
  server of the entry.
\<close>

definition entry_ok :: "'p mcp_entry \<Rightarrow> bool" where
  "entry_ok e \<longleftrightarrow>
     (me_peer e = None \<longrightarrow> me_tools e = [] \<and> me_surface e = surface_default) \<and>
     map td_name (me_descriptors e) = map wire (me_tools e) \<and>
     (\<forall>t \<in> set (me_tools e). wt_resource_id t = entry_id e)"

lemma wrap_tools_ok:
  assumes "wrap_tools config tools = Inr (ts, ds)"
  shows "map td_name ds = map wire ts \<and> (\<forall>t \<in> set ts. wt_resource_id t = ms_id config) \<and>
     map wt_upstream_path ts = map ut_name tools"
proof -
  obtain ps where ps: "list_all2 (\<lambda>x y. wrap_tool config x = Inr y) tools ps" "ts = map fst ps" "ds = map snd ps"
    using assms by (auto simp: wrap_tools_def and_then_Inr_iff try_map_Inr_iff)
  have w: "td_name (snd p) = wire (fst p) \<and> wt_resource_id (fst p) = ms_id config \<and> wt_upstream_path (fst p) = ut_name x"
    if "wrap_tool config x = Inr p" for x p
    using that by (auto simp: wrap_tool_def wire_def Let_def split: sum.splits)
  from ps(1) have "map (td_name \<circ> snd) ps = map (wire \<circ> fst) ps \<and>
      (\<forall>p \<in> set ps. wt_resource_id (fst p) = ms_id config) \<and> map (wt_upstream_path \<circ> fst) ps = map ut_name tools"
    by (induction rule: list_all2_induct) (auto dest: w)
  with ps(2,3) show ?thesis by auto
qed

lemma probe_entry_ok [wf_intros]: "entry_ok e \<Longrightarrow> entry_ok (probe_entry pa peer e)"
  by (auto simp: entry_ok_def probe_entry_def entry_id_def Let_def and_then_Inr_iff dest: wrap_tools_ok split: sum.splits)

lemma probe_entry_config [frame_simps]: "me_config (probe_entry pa peer e) = me_config e"
  by (simp add: probe_entry_def Let_def split: sum.splits prod.splits)

lemma empty_entry_ok [wf_intros]: "entry_ok (empty_entry config h)"
  by (simp add: entry_ok_def empty_entry_def)

lemma establish_entry_ok [wf_intros]: "entry_ok (establish_entry env config prev)"
  by (auto simp: establish_entry_def Let_def intro!: wf_intros split: sum.splits)

lemma establish_entry_config [frame_simps]: "me_config (establish_entry env config prev) = config"
  by (simp add: establish_entry_def Let_def frame_simps empty_entry_def split: sum.splits)

lemma refresh_one_ok [wf_intros]: "entry_ok e \<Longrightarrow> entry_ok (fst (refresh_one secrets env e))"
  by (auto simp: refresh_one_def Let_def intro!: wf_intros split: option.splits bool.splits)

lemma refresh_one_config [frame_simps]: "me_config (fst (refresh_one secrets env e)) = me_config e"
  by (auto simp: refresh_one_def Let_def frame_simps split: option.splits bool.splits)

section \<open>Wire names are unique across servers\<close>

definition prompts_of :: "'p mcp_entry \<Rightarrow> string list" where
  "prompts_of e = map ps_wire_name (sf_prompts (me_surface e))"

definition tool_wires :: "'p mcp_entry \<Rightarrow> string list" where
  "tool_wires e = map wire (me_tools e)"

definition reg_ok :: "'p mcp_entry list \<Rightarrow> bool" where
  "reg_ok es \<longleftrightarrow>
     list_all entry_ok es \<and> distinct (concat (map tool_wires es)) \<and> distinct (concat (map prompts_of es)) \<and>
     distinct (map entry_id es)"

text \<open>An entry that can stand beside the others.\<close>

definition fits :: "'p mcp_entry list \<Rightarrow> 'p mcp_entry \<Rightarrow> bool" where
  "fits es e \<longleftrightarrow>
     entry_ok e \<and> distinct (tool_wires e) \<and> set (tool_wires e) \<inter> wires_of es = {} \<and>
     distinct (prompts_of e) \<and> set (prompts_of e) \<inter> prompt_wire_names es = {} \<and> entry_id e \<notin> entry_id ` set es"

lemma wires_of_concat: "wires_of es = set (concat (map tool_wires es))"
  by (auto simp: wires_of_def tool_wires_def)

lemma prompt_wire_names_concat: "prompt_wire_names es = set (concat (map prompts_of es))"
  by (auto simp: prompt_wire_names_def prompts_of_def)

lemma reg_ok_insert: "reg_ok (xs @ e # ys) \<longleftrightarrow> reg_ok (xs @ ys) \<and> fits (xs @ ys) e"
  by (auto simp: reg_ok_def fits_def wires_of_concat prompt_wire_names_concat)

lemma retain_fresh_zip:
  assumes "map td_name ds = map wire ts"
  shows "map td_name (map snd (fst (retain_fresh (\<lambda>p. wire (fst p)) seen (zip ts ds)))) =
     map wire (map fst (fst (retain_fresh (\<lambda>p. wire (fst p)) seen (zip ts ds))))"
proof -
  have "td_name (snd p) = wire (fst p)" if "p \<in> set (zip ts ds)" for p
    using that assms
    by (auto simp: in_set_zip dest: arg_cong [where f = "\<lambda>xs. xs ! n" for n])
      (metis length_map nth_map)
  with retain_fresh_spec [of "\<lambda>p. wire (fst p)" seen "zip ts ds"] show ?thesis by auto
qed

lemma dedup_entry_tools_ok:
  assumes "entry_ok e" and "dedup_entry_tools seen e = (e', seen')"
  shows "entry_ok e' \<and> distinct (tool_wires e') \<and> set (tool_wires e') \<inter> seen = {} \<and>
     seen' = seen \<union> set (tool_wires e') \<and> me_config e' = me_config e \<and> me_surface e' = me_surface e \<and> me_peer e' = me_peer e"
proof -
  let ?r = "retain_fresh (\<lambda>p. wire (fst p)) seen (zip (me_tools e) (me_descriptors e))"
  have len: "length (me_descriptors e) = length (me_tools e)"
    using assms(1) by (metis entry_ok_def length_map)
  have e': "e' = e\<lparr>me_tools := map fst (fst ?r), me_descriptors := map snd (fst ?r)\<rparr>" "seen' = snd ?r"
    using assms(2) by (auto simp: dedup_entry_tools_def Let_def split: prod.splits)
  note sp = retain_fresh_spec [of "\<lambda>p. wire (fst p)" seen "zip (me_tools e) (me_descriptors e)"]
  have "set (map fst (fst ?r)) \<subseteq> set (me_tools e)"
  proof
    fix t assume "t \<in> set (map fst (fst ?r))"
    then obtain d where "(t, d) \<in> set (fst ?r)" by auto
    with sp have "(t, d) \<in> set (zip (me_tools e) (me_descriptors e))" by blast
    then show "t \<in> set (me_tools e)" by (rule set_zip_leftD)
  qed
  then have "entry_ok e'"
    using assms(1) retain_fresh_zip [of "me_descriptors e" "me_tools e" seen]
    by (auto simp: e' entry_ok_def entry_id_def)
  moreover have "tool_wires e' = map (\<lambda>p. wire (fst p)) (fst ?r)" by (simp add: e' tool_wires_def)
  ultimately show ?thesis using sp retain_fresh_set [of "\<lambda>p. wire (fst p)" seen] by (auto simp: e')
qed

lemma set_prompts_ok:
  "entry_ok e \<Longrightarrow> (me_peer e = None \<Longrightarrow> ps = []) \<Longrightarrow> entry_ok (set_prompts ps e)"
  by (auto simp: entry_ok_def set_prompts_def entry_id_def surface_default_def)

lemma dedup_fits:
  assumes "entry_ok e" and "wires_of es \<subseteq> seen" and "dedup_entry_tools seen e = (e1, seen')"
    and "e2 = set_prompts (fst (dedup_prompts (prompt_wire_names es) (sf_prompts (me_surface e1)))) e1"
    and "entry_id e \<notin> entry_id ` set es"
  shows "fits es e2 \<and> seen' = seen \<union> set (tool_wires e2) \<and> me_config e2 = me_config e"
proof -
  note d = dedup_entry_tools_ok [OF assms(1,3)]
  note sp = retain_fresh_spec [of ps_wire_name "prompt_wire_names es" "sf_prompts (me_surface e1)"]
  have nil: "sf_prompts (me_surface e1) = []" if "me_peer e1 = None"
    using d that by (auto simp: entry_ok_def surface_default_def)
  have "entry_ok e2"
    using d nil by (auto simp: assms(4) dedup_prompts_def intro!: set_prompts_ok)
  moreover have "prompts_of e2 = map ps_wire_name (fst (retain_fresh ps_wire_name (prompt_wire_names es) (sf_prompts (me_surface e1))))"
    by (simp add: assms(4) prompts_of_def set_prompts_def dedup_prompts_def)
  moreover have "tool_wires e2 = tool_wires e1" "me_config e2 = me_config e1"
    by (simp_all add: assms(4) tool_wires_def set_prompts_def)
  ultimately show ?thesis using d sp assms(2,5) by (auto simp: fits_def entry_id_def)
qed

lemma push_deduped_entry_ok:
  assumes "reg_ok es" and "wires_of es \<subseteq> seen" and "entry_ok e" and "entry_id e \<notin> entry_id ` set es"
    and "push_deduped_entry e (es, seen) = ((es', seen'), n)"
  shows "reg_ok es' \<and> wires_of es' \<subseteq> seen' \<and> map entry_id es' = map entry_id es @ [entry_id e]"
proof -
  obtain e1 seen1 where d: "dedup_entry_tools seen e = (e1, seen1)" by force
  let ?e2 = "set_prompts (fst (dedup_prompts (prompt_wire_names es) (sf_prompts (me_surface e1)))) e1"
  have r: "es' = es @ [?e2]" "seen' = seen1"
    using assms(5) by (simp_all add: push_deduped_entry_def d Let_def)
  from dedup_fits [OF assms(3,2) d refl assms(4)]
  have f: "fits es ?e2" "seen1 = seen \<union> set (tool_wires ?e2)" "me_config ?e2 = me_config e" by auto
  with assms(1,2) show ?thesis
    using reg_ok_insert [of es ?e2 "[]"] by (auto simp: r entry_id_def wires_of_concat)
qed

text \<open>A list of entries with distinct ids, each pushed in turn.\<close>

lemma push_all_ok:
  assumes "reg_ok es" and "wires_of es \<subseteq> seen" and "list_all entry_ok xs"
    and "distinct (map entry_id es @ map entry_id xs)"
  shows "reg_ok (fst (foldl (\<lambda>acc e. fst (push_deduped_entry e acc)) (es, seen) xs)) \<and>
     map entry_id (fst (foldl (\<lambda>acc e. fst (push_deduped_entry e acc)) (es, seen) xs)) = map entry_id es @ map entry_id xs"
  using assms
proof (induction xs arbitrary: es seen)
  case (Cons x xs)
  obtain es1 seen1 n where p: "push_deduped_entry x (es, seen) = ((es1, seen1), n)" by (metis prod.exhaust)
  have "reg_ok es1 \<and> wires_of es1 \<subseteq> seen1 \<and> map entry_id es1 = map entry_id es @ [entry_id x]"
    using Cons.prems by (intro push_deduped_entry_ok [OF _ _ _ _ p]) auto
  with Cons.IH [of es1 seen1] Cons.prems show ?case by (simp add: p)
qed simp

lemma reg_ok_Nil [simp]: "reg_ok []"
  by (simp add: reg_ok_def)

lemma map_snd_enumerate: "map snd (enumerate n xs) = xs"
  by simp

lemma connect_all_ok:
  assumes "distinct (map ms_id configs)"
  shows "reg_ok (connect_all_with env configs)"
proof -
  let ?xs = "map (\<lambda>(i, config). establish_entry (env i) config None) (enumerate 0 configs)"
  have "map entry_id ?xs = map (ms_id \<circ> snd) (enumerate 0 configs)"
    by (auto simp: entry_id_def frame_simps)
  also have "\<dots> = map ms_id configs" by (metis map_map map_snd_enumerate)
  finally have "map entry_id ?xs = map ms_id configs" .
  moreover have "list_all entry_ok ?xs" by (auto simp: list_all_iff intro: wf_intros)
  ultimately have "reg_ok (fst (foldl (\<lambda>acc e. fst (push_deduped_entry e acc)) ([], {}) ?xs))"
    using push_all_ok [of "[]" "{}" ?xs] assms by (simp add: wires_of_def)
  then show ?thesis by (simp add: connect_all_with_def foldl_map case_prod_beta')
qed

lemma refresh_probe_foldl:
  "fst (foldl (refresh_step secrets env) (acc, tail) ixs) =
     foldl (\<lambda>acc e. fst (push_deduped_entry e acc)) acc (map (\<lambda>(i, e). fst (refresh_one secrets (env i) e)) ixs)"
proof (induction ixs arbitrary: acc tail)
  case (Cons ie ixs)
  obtain acc' tail' where s: "refresh_step secrets env (acc, tail) ie = (acc', tail')"
    by (metis prod.exhaust)
  then have "acc' = fst (push_deduped_entry (fst (refresh_one secrets (env (fst ie)) (snd ie))) acc)"
    by (cases tail) (auto simp: refresh_step_def Let_def split: prod.splits)
  with Cons.IH [of acc' tail'] s show ?case by (simp add: case_prod_beta')
qed simp

lemma refresh_probe_ok:
  assumes "list_all entry_ok sn" and "distinct (map entry_id sn)"
  shows "reg_ok (fst (refresh_probe secrets env sn)) \<and> map entry_id (fst (refresh_probe secrets env sn)) = map entry_id sn"
proof -
  let ?xs = "map (\<lambda>(i, e). fst (refresh_one secrets (env i) e)) (enumerate 0 sn)"
  have "map entry_id ?xs = map (entry_id \<circ> snd) (enumerate 0 sn)"
    by (auto simp: entry_id_def frame_simps)
  also have "\<dots> = map entry_id sn" by (metis map_map map_snd_enumerate)
  finally have ids: "map entry_id ?xs = map entry_id sn" .
  have "snd ` set (enumerate 0 sn) = set sn" by (metis map_snd_enumerate set_map)
  then have "list_all entry_ok ?xs"
    using assms(1) by (force simp: list_all_iff intro!: wf_intros)
  with ids assms(2) push_all_ok [of "[]" "{}" ?xs]
  have "reg_ok (fst (foldl (\<lambda>acc e. fst (push_deduped_entry e acc)) ([], {}) ?xs)) \<and>
      map entry_id (fst (foldl (\<lambda>acc e. fst (push_deduped_entry e acc)) ([], {}) ?xs)) = map entry_id sn"
    by (simp add: wires_of_def)
  moreover have "fst (refresh_probe secrets env sn) = fst (foldl (\<lambda>acc e. fst (push_deduped_entry e acc)) ([], {}) ?xs)"
    using refresh_probe_foldl [of secrets env "([], {})" "(0, [])" "enumerate 0 sn"]
    by (simp add: refresh_probe_def Let_def case_prod_beta')
  ultimately show ?thesis by simp
qed

section \<open>Every operation keeps the invariant\<close>

lemma position_Some:
  "position P xs = Some i \<Longrightarrow> i < length xs \<and> P (xs ! i) \<and> (\<forall>j < i. \<not> P (xs ! j))"
proof (induction xs arbitrary: i)
  case (Cons x xs)
  then show ?case by (auto simp: less_Suc_eq_0_disj nth_Cons' split: if_splits)
qed simp

lemma position_None: "position P xs = None \<longleftrightarrow> (\<forall>x \<in> set xs. \<not> P x)"
  by (induction xs) auto

lemma others_None: "others None es = es"
  by (simp add: others_def)

lemma others_Some: "i < length es \<Longrightarrow> others (Some i) es = take i es @ drop (Suc i) es"
proof -
  have "map snd (filter (\<lambda>(j, _). Some j \<noteq> Some i) (enumerate n xs)) =
      (if i < n then xs else take (i - n) xs @ drop (Suc (i - n)) xs)" for n and xs :: "'a mcp_entry list"
  proof (induction xs arbitrary: n)
    case (Cons x xs)
    show ?case
    proof (cases "i - n")
      case 0
      with Cons [of "Suc n"] show ?thesis by (cases "i = n") (auto split: if_splits)
    next
      case (Suc m)
      then have "i - Suc n = m" "\<not> i < Suc n" "n \<noteq> i" "\<not> i < n" by auto
      with Cons [of "Suc n"] Suc show ?thesis by simp
    qed
  qed simp
  from this [of 0 es] show ?thesis by (simp add: others_def)
qed

lemma reg_ok_remove: "reg_ok (xs @ e # ys) \<Longrightarrow> reg_ok (xs @ ys)"
  by (simp add: reg_ok_insert)

lemma replace_entry_ok [wf_intros]:
  assumes "reg_ok es" and "entry_ok e"
  shows "reg_ok (snd (replace_entry e es))"
proof (cases "position (\<lambda>x. entry_id x = entry_id e) es")
  case None
  with assms(1) show ?thesis by (simp add: replace_entry_def)
next
  case (Some i)
  note i = position_Some [OF Some]
  let ?o = "take i es @ drop (Suc i) es"
  have es: "es = take i es @ es ! i # drop (Suc i) es" using i by (simp add: id_take_nth_drop)
  have ok: "reg_ok ?o" and fi: "fits ?o (es ! i)"
    using assms(1) reg_ok_insert [of "take i es" "es ! i" "drop (Suc i) es"] es by auto
  obtain e1 seen where d: "dedup_entry_tools (wires_of ?o) e = (e1, seen)" by force
  let ?e2 = "set_prompts (fst (dedup_prompts (prompt_wire_names ?o) (sf_prompts (me_surface e1)))) e1"
  have "entry_id e \<notin> entry_id ` set ?o" using fi i by (simp add: fits_def)
  from dedup_fits [OF assms(2) order_refl d refl this] have "fits ?o ?e2" by blast
  moreover have "snd (replace_entry e es) = take i es @ ?e2 # drop (Suc i) es"
    using i by (simp add: replace_entry_def Some dedup_against_others_def others_Some d Let_def upd_conv_take_nth_drop)
  ultimately show ?thesis using ok by (simp add: reg_ok_insert)
qed

lemma commit_replace_snd: "snd (commit_replace i e es) = snd (replace_entry e es)"
  by (simp add: commit_replace_def case_prod_beta' Let_def)

lemma find_entry_ok: "list_all entry_ok sn \<Longrightarrow> find_entry i sn = Some e \<Longrightarrow> entry_ok e"
  by (auto simp: find_entry_def find_Some_iff list_all_iff)

lemma update_config_ok: "entry_ok e \<Longrightarrow> ms_id config = entry_id e \<Longrightarrow> entry_ok (e\<lparr>me_config := config\<rparr>)"
  by (auto simp: entry_ok_def entry_id_def)

lemma probe_server_ok [wf_intros]:
  "reg_ok es \<Longrightarrow> list_all entry_ok sn \<Longrightarrow> reg_ok (snd (probe_server env i sn es))"
  by (auto simp: probe_server_def commit_replace_snd dest: find_entry_ok intro!: wf_intros split: option.splits)

lemma reconnect_ok [wf_intros]: "reg_ok es \<Longrightarrow> reg_ok (snd (reconnect env i sn es))"
  by (auto simp: reconnect_def commit_replace_snd intro!: wf_intros split: option.splits)

lemma update_server_ok [wf_intros]:
  assumes "reg_ok es" and "list_all entry_ok sn"
  shows "reg_ok (snd (update_server env config sn es))"
proof (cases "find_entry (ms_id config) sn")
  case None
  with assms(1) show ?thesis by (simp add: update_server_def)
next
  case (Some old)
  have "entry_ok (old\<lparr>me_config := config\<rparr>)"
    using find_entry_ok [OF assms(2) Some] Some by (intro update_config_ok) (auto simp: find_entry_def find_Some_iff)
  with assms(1) show ?thesis
    by (auto simp: update_server_def Some Let_def commit_replace_snd intro!: wf_intros split: option.splits bool.splits)
qed

lemma add_server_ok [wf_intros]:
  assumes "reg_ok es"
  shows "reg_ok (snd (add_server env config sn es))"
proof (cases "list_ex (\<lambda>e. entry_id e = ms_id config) sn \<or> list_ex (\<lambda>e. entry_id e = ms_id config) es")
  case True
  with assms show ?thesis by (auto simp: add_server_def Let_def entry_id_def frame_simps)
next
  case False
  let ?e = "establish_entry env config None"
  have ie: "entry_id ?e = ms_id config" by (simp add: entry_id_def frame_simps)
  with False have n: "entry_id ?e \<notin> entry_id ` set es" by (auto simp: list_ex_iff)
  obtain e1 seen where d: "dedup_entry_tools (wires_of es) ?e = (e1, seen)" by force
  from dedup_fits [OF establish_entry_ok order_refl d refl n]
  have "fits es (dedup_against_others es None ?e)" by (simp add: dedup_against_others_def others_None d Let_def)
  then show ?thesis using assms False reg_ok_insert [of es _ "[]"] by (simp add: add_server_def ie Let_def)
qed

lemma remove_server_ok [wf_intros]: "reg_ok es \<Longrightarrow> reg_ok (snd (remove_server i es))"
proof -
  have "reg_ok (xs @ es) \<Longrightarrow> reg_ok (xs @ filter P es)" for P and xs :: "'a mcp_entry list"
  proof (induction es arbitrary: xs)
    case (Cons e es)
    then show ?case using Cons.IH [of "xs @ [e]"] Cons.IH [of xs] reg_ok_remove [of xs e es] by auto
  qed simp
  from this [of "[]"] show "reg_ok es \<Longrightarrow> reg_ok (snd (remove_server i es))" by (simp add: remove_server_def Let_def)
qed

lemma refresh_merge_same:
  assumes "distinct (map entry_id rs)" and "map entry_id rs = map entry_id es"
  shows "refresh_merge rs es = rs"
proof -
  have "refresh_merge rs (ps @ es) = ps @ rs"
    if "map entry_id rs = map entry_id es" "distinct (map entry_id ps @ map entry_id rs)" for ps
    using that
  proof (induction rs arbitrary: ps es)
    case (Cons r rs)
    then obtain e es' where es: "es = e # es'" "entry_id r = entry_id e" by (cases es) auto
    have "position (\<lambda>x. entry_id x = entry_id r) (qs @ e # es') = Some (length qs)"
      if "entry_id r \<notin> entry_id ` set qs" for qs
      using that es(2) by (induction qs) auto
    with Cons.prems(2) have "position (\<lambda>x. entry_id x = entry_id r) (ps @ e # es') = Some (length ps)" by auto
    with Cons.IH [of es' "ps @ [r]"] Cons.prems es show ?case by simp
  qed simp
  from this [of "[]"] assms show ?thesis by simp
qed

lemma refresh_ok [wf_intros]:
  assumes "reg_ok es"
  shows "reg_ok (snd (refresh secrets env es es))"
proof -
  have w: "list_all entry_ok es" "distinct (map entry_id es)" using assms by (simp_all add: reg_ok_def)
  from refresh_probe_ok [OF this, of secrets env]
  have p: "reg_ok (fst (refresh_probe secrets env es))"
    "map entry_id (fst (refresh_probe secrets env es)) = map entry_id es" by auto
  have "snd (refresh secrets env es es) = refresh_merge (fst (refresh_probe secrets env es)) es"
    by (simp add: refresh_def refresh_commit_def case_prod_beta' Let_def)
  with p w(2) refresh_merge_same [of "fst (refresh_probe secrets env es)" es] show ?thesis by simp
qed

section \<open>Interleaved changes\<close>

text \<open>
  The state of the concurrent registry: the entries, and the snapshots that operations under way have
  read and may still commit with. A probe, a reconnect, an addition or an update reads one snapshot and
  commits later, with any number of other operations in between; a refresh is taken in one piece (what
  happens when it is not, \<open>refresh_reverts_update\<close> shows).
\<close>

record 'p reg_state =
  rg_entries :: "'p mcp_entry list"
  rg_pending :: "'p mcp_entry list list"

datatype 'p reg_label =
    Snapshot
  | Probe "'p server_env" string
  | Reconnect "'p server_env" string
  | Add "'p server_env" mcp_server_config
  | Update "'p server_env" mcp_server_config
  | Remove string
  | Refresh bool "nat \<Rightarrow> 'p server_env"

inductive reg_step :: "'p reg_state \<Rightarrow> 'p reg_label \<Rightarrow> 'p reg_state \<Rightarrow> bool" where
  step_snapshot: "reg_step s Snapshot (s\<lparr>rg_pending := rg_entries s # rg_pending s\<rparr>)"
| step_probe:
    "sn \<in> set (rg_pending s) \<Longrightarrow>
     reg_step s (Probe env i) (s\<lparr>rg_entries := snd (probe_server env i sn (rg_entries s))\<rparr>)"
| step_reconnect:
    "sn \<in> set (rg_pending s) \<Longrightarrow>
     reg_step s (Reconnect env i) (s\<lparr>rg_entries := snd (reconnect env i sn (rg_entries s))\<rparr>)"
| step_add:
    "sn \<in> set (rg_pending s) \<Longrightarrow>
     reg_step s (Add env c) (s\<lparr>rg_entries := snd (add_server env c sn (rg_entries s))\<rparr>)"
| step_update:
    "sn \<in> set (rg_pending s) \<Longrightarrow>
     reg_step s (Update env c) (s\<lparr>rg_entries := snd (update_server env c sn (rg_entries s))\<rparr>)"
| step_remove: "reg_step s (Remove i) (s\<lparr>rg_entries := snd (remove_server i (rg_entries s))\<rparr>)"
| step_refresh:
    "reg_step s (Refresh b envs) (s\<lparr>rg_entries := snd (refresh b envs (rg_entries s) (rg_entries s))\<rparr>)"

inductive_cases reg_stepE: "reg_step s l s'"

text \<open>A gateway starts by connecting to the configured servers, whose ids the configuration keeps distinct.\<close>

definition reg_init :: "'p reg_state \<Rightarrow> bool" where
  "reg_init s \<longleftrightarrow>
     (\<exists>env configs. distinct (map ms_id configs) \<and> s = \<lparr>rg_entries = connect_all_with env configs, rg_pending = []\<rparr>)"

definition reg_inv :: "'p reg_state \<Rightarrow> bool" where
  "reg_inv s \<longleftrightarrow> reg_ok (rg_entries s) \<and> (\<forall>sn \<in> set (rg_pending s). list_all entry_ok sn)"

interpretation reg: invariant_of reg_init reg_step reg_inv
proof
  fix s :: "'p reg_state" assume "reg_init s"
  then show "reg_inv s" by (auto simp: reg_init_def reg_inv_def intro: connect_all_ok)
next
  fix s s' :: "'p reg_state" and l assume "reg_inv s" and "reg_step s l s'"
  from this(2,1) show "reg_inv s'"
    by (cases rule: reg_step.cases) (auto simp: reg_inv_def reg_ok_def [of "rg_entries s"] intro: wf_intros)
qed

section \<open>Routing\<close>

lemma find_tool_listed:
  assumes "reg_ok es" and "e \<in> set es" and "t \<in> set (me_tools e)"
  shows "\<exists>peer. me_peer e = Some peer \<and> find_tool es (wire t) = Some (peer, wt_upstream_path t)"
proof -
  obtain peer where p: "me_peer e = Some peer"
    using assms by (cases "me_peer e") (auto simp: reg_ok_def list_all_iff entry_ok_def)
  have "find_tool es (wire t) = Some (peer, wt_upstream_path t)"
    using assms(1,2)
  proof (induction es)
    case (Cons x xs)
    have d: "reg_ok xs" "fits xs x" using Cons.prems(1) reg_ok_insert [of "[]" x xs] by auto
    show ?case
    proof (cases "x = e")
      case True
      have "find (\<lambda>y. wire y = wire t) (me_tools e) = Some t"
        using d(2) True assms(3) by (intro find_distinct) (auto simp: fits_def tool_wires_def)
      with True p show ?thesis by simp
    next
      case False
      then have "e \<in> set xs" using Cons.prems by simp
      with assms(3) have "wire t \<in> wires_of xs" by (auto simp: wires_of_def)
      then have "find (\<lambda>y. wire y = wire t) (me_tools x) = None"
        using d(2) by (auto simp: find_None_iff fits_def tool_wires_def)
      with Cons.IH d(1) \<open>e \<in> set xs\<close> show ?thesis by (auto split: option.splits)
    qed
  qed simp
  with p show ?thesis by simp
qed

lemma find_tool_Some:
  "find_tool es w = Some (peer, up) \<Longrightarrow>
   \<exists>e \<in> set es. \<exists>t \<in> set (me_tools e). me_peer e = Some peer \<and> wire t = w \<and> wt_upstream_path t = up"
proof (induction es w rule: find_tool.induct)
  case (2 e es w)
  then show ?case by (fastforce simp: find_Some_iff split: option.splits if_splits)
qed simp

lemma descriptors_wires:
  "list_all entry_ok es \<Longrightarrow> map (td_name \<circ> snd) (all_descriptors es) = map wire (all_wrapped_tools es)"
  by (induction es) (auto simp: all_descriptors_def all_wrapped_tools_def entry_ok_def comp_def)

lemma all_wires: "map wire (all_wrapped_tools es) = concat (map tool_wires es)"
  by (simp add: all_wrapped_tools_def tool_wires_def [abs_def] map_concat comp_def)

section \<open>A refresh that overlaps an update\<close>

lemma push_deduped_configs:
  "map me_config (fst (foldl (\<lambda>acc e. fst (push_deduped_entry e acc)) acc xs)) =
     map me_config (fst acc) @ map me_config xs"
proof (induction xs arbitrary: acc)
  case (Cons x xs)
  have "map me_config (fst (fst (push_deduped_entry x acc))) = map me_config (fst acc) @ [me_config x]"
    by (simp add: push_deduped_entry_def dedup_entry_tools_def set_prompts_def Let_def case_prod_beta')
  with Cons.IH [of "fst (push_deduped_entry x acc)"] show ?case by simp
qed simp

lemma refresh_probe_configs: "map me_config (fst (refresh_probe secrets env sn)) = map me_config sn"
proof -
  let ?xs = "map (\<lambda>(i, e). fst (refresh_one secrets (env i) e)) (enumerate 0 sn)"
  have "fst (refresh_probe secrets env sn) = fst (foldl (\<lambda>acc e. fst (push_deduped_entry e acc)) ([], {}) ?xs)"
    using refresh_probe_foldl [of secrets env "([], {})" "(0, [])" "enumerate 0 sn"]
    by (simp add: refresh_probe_def Let_def case_prod_beta')
  moreover have "map me_config ?xs = map (me_config \<circ> snd) (enumerate 0 sn)" by (auto simp: frame_simps)
  moreover have "\<dots> = map me_config sn" by (metis map_map map_snd_enumerate)
  ultimately show ?thesis using push_deduped_configs [of "([], {})" ?xs] by simp
qed

lemma dedup_against_others_config [frame_simps]: "me_config (dedup_against_others es skip e) = me_config e"
  by (simp add: dedup_against_others_def dedup_entry_tools_def set_prompts_def Let_def case_prod_beta')

lemma replace_entry_configs:
  assumes "find_entry (entry_id e) es = Some old"
  shows "find_entry (entry_id e) (snd (replace_entry e es)) \<noteq> None \<and>
    map entry_id (snd (replace_entry e es)) = map entry_id es \<and>
    me_config (the (find_entry (entry_id e) (snd (replace_entry e es)))) = me_config e"
proof (cases "position (\<lambda>x. entry_id x = entry_id e) es")
  case None
  with assms show ?thesis by (auto simp: position_None find_entry_def find_Some_iff)
next
  case (Some i)
  note i = position_Some [OF Some]
  let ?e = "dedup_against_others es (Some i) e"
  have id: "entry_id ?e = entry_id e" by (simp add: entry_id_def frame_simps)
  have r: "snd (replace_entry e es) = es[i := ?e]" by (simp add: replace_entry_def Some Let_def)
  have "find_entry (entry_id e) (es[i := ?e]) = Some ?e"
    using i id by (auto simp: find_entry_def find_Some_iff intro!: exI [of _ i])
  moreover have "map entry_id (es[i := ?e]) = map entry_id es"
    using i id by (simp add: map_update list_update_same_conv)
  ultimately show ?thesis by (simp add: r frame_simps)
qed

lemma update_server_configs:
  assumes "find_entry (ms_id config) es = Some old"
  shows "map_option me_config (find_entry (ms_id config) (snd (update_server env config es es))) = Some config \<and>
    map entry_id (snd (update_server env config es es)) = map entry_id es"
proof -
  have i: "entry_id old = ms_id config" using assms by (auto simp: find_entry_def find_Some_iff)
  have *: "map_option me_config (find_entry (ms_id config) (snd (replace_entry e es))) = Some config \<and>
      map entry_id (snd (replace_entry e es)) = map entry_id es" if "me_config e = config" for e
    using replace_entry_configs [of e es old] assms that by (auto simp: entry_id_def)
  show ?thesis
    by (auto simp: update_server_def assms Let_def commit_replace_snd frame_simps * split: option.split bool.split)
qed

section \<open>Properties\<close>

definition example_server :: "string \<Rightarrow> string \<Rightarrow> mcp_server_config" where
  "example_server i url =
     \<lparr>ms_id = i, ms_domain = ''docs'', ms_provider = ''p'', ms_url = url, ms_description = [],
      ms_auth = AuthNone, ms_security = default_security_config, ms_health_check_enabled = True, ms_limits = None\<rparr>"

text \<open>The peer is the URL it is connected to; every server lists the one tool \<open>search\<close>.\<close>

definition example_server_env :: "string server_env" where
  "example_server_env =
     \<lparr>sv_connect = (\<lambda>c. Inr (ms_url c)), sv_failed_at = 0,
      sv_probe = (\<lambda>_. \<lparr>pa_list_tools = Inr [\<lparr>ut_name = ''search'', ut_description = None, ut_input_schema = []\<rparr>],
        pa_lists = \<lparr>ul_supports_prompts = False, ul_supports_resources = True, ul_prompts = Inr [],
          ul_resources = Inr [\<lparr>rr_uri = ''db:a'', rr_name = ''a'', rr_meta = JNull\<rparr>], ul_templates = Inr []\<rparr>,
        pa_elapsed = 0, pa_now = 0\<rparr>)\<rparr>"

definition example_entry_of :: "string \<Rightarrow> string \<Rightarrow> wrapped_tool list \<Rightarrow> tool_descriptor list \<Rightarrow> string mcp_entry" where
  "example_entry_of i u ts ds =
     \<lparr>me_config = example_server i u, me_peer = Some u, me_tools = ts, me_descriptors = ds,
      me_health = mark_ok 0 True 0 1 (initial_health (example_server i u)),
      me_surface = \<lparr>sf_prompts = [],
        sf_resources = [\<lparr>rs_scope_name = ''docs__p__a'', rs_resource = \<lparr>rr_uri = ''db:a'', rr_name = ''a'', rr_meta = JNull\<rparr>\<rparr>],
        sf_templates = []\<rparr>\<rparr>"

definition example_search :: "string \<Rightarrow> wrapped_tool" where
  "example_search i =
     \<lparr>wt_name = \<lparr>tn_domain = ''docs'', tn_provider = ''p'', tn_tool = ''search''\<rparr>, wt_resource_id = i, wt_description = [],
      wt_upstream_path = ''search'', wt_http_method = Post, wt_input_schema = JObject [],
      wt_param_locations = None, wt_exposed_name = None\<rparr>"

definition example_search_descriptor :: tool_descriptor where
  "example_search_descriptor = \<lparr>td_name = ''docs__p__search'', td_description = [], td_input_schema = JObject []\<rparr>"

definition example_servers :: "string mcp_entry list" where
  "example_servers = connect_all_with (\<lambda>_. example_server_env) [example_server ''a'' ''u'', example_server ''b'' ''v'']"

lemma example_names:
  "tool_name_new ''docs'' ''p'' ''search'' = Inr \<lparr>tn_domain = ''docs'', tn_provider = ''p'', tn_tool = ''search''\<rparr>"
  "scope_match_name ''docs'' ''p'' ''a'' = Inr ''docs__p__a''"
  "to_wire_name \<lparr>tn_domain = ''docs'', tn_provider = ''p'', tn_tool = ''search''\<rparr> = ''docs__p__search''"
  "wire (example_search i) = ''docs__p__search''"
proof -
  let ?n = "\<lparr>tn_domain = ''docs'', tn_provider = ''p'', tn_tool = ''search''\<rparr>"
  have w: "wf_tool_name ?n" by code_simp
  from tool_name_new_id [OF w] show "tool_name_new ''docs'' ''p'' ''search'' = Inr ?n" by simp
  have "normalize_segment ''docs'' = Inr ''docs''" "normalize_segment ''p'' = Inr ''p''"
    using w by (simp_all add: wf_tool_name_def normalize_segment_id)
  then show "scope_match_name ''docs'' ''p'' ''a'' = Inr ''docs__p__a''" by (simp add: scope_match_name_def)
  show n: "to_wire_name ?n = ''docs__p__search''" by (simp add: to_wire_name_def)
  from n show "wire (example_search i) = ''docs__p__search''" by (simp add: example_search_def wire_def)
qed

lemma example_establish:
  "establish_entry example_server_env (example_server i u) None =
     example_entry_of i u [example_search i] [example_search_descriptor]"
  by (simp add: establish_entry_def example_server_env_def example_server_def empty_entry_def probe_entry_def Let_def
      wrap_tools_def wrap_tool_def example_names example_entry_of_def example_search_def example_search_descriptor_def
      elapsed_ms_def load_surface_def load_kind_def wrap_resources_def wrap_templates_def unique_by_def map_filter_simps)

lemma example_servers_eq:
  "example_servers =
     [example_entry_of ''a'' ''u'' [example_search ''a''] [example_search_descriptor], example_entry_of ''b'' ''v'' [] []]"
  by (simp add: example_servers_def connect_all_with_def example_establish push_deduped_entry_def dedup_entry_tools_def
      example_entry_of_def example_names set_prompts_def dedup_prompts_def Let_def)

lemma example_servers_reach: "reach reg_init reg_step \<lparr>rg_entries = example_servers, rg_pending = []\<rparr>"
  by (rule reach_init) (auto simp: reg_init_def example_servers_def example_server_def
      intro!: exI [of _ "\<lambda>_. example_server_env"] exI [of _ "[example_server ''a'' ''u'', example_server ''b'' ''v'']"])



text \<open>A refresh replaces whole entries by what it probed from its snapshot. When an update of a server
  commits after the snapshot was read and before the refresh writes, the registry holds the new
  configuration after the update and every old configuration again after the refresh, the updated
  server's included.\<close>

lemma refresh_reverts_update:
  assumes "reg_ok es" and "find_entry (ms_id config) es = Some old"
  shows "map_option me_config (find_entry (ms_id config) (snd (update_server env config es es))) = Some config \<and>
    map me_config (snd (refresh secrets envs es (snd (update_server env config es es)))) = map me_config es"
proof -
  let ?es = "snd (update_server env config es es)" and ?p = "fst (refresh_probe secrets envs es)"
  note u = update_server_configs [OF assms(2), of env]
  have "map entry_id ?p = map entry_id es" "distinct (map entry_id es)"
    using assms(1) refresh_probe_ok [of es secrets envs] by (auto simp: reg_ok_def)
  then have "refresh_merge ?p ?es = ?p" using u by (intro refresh_merge_same) auto
  with u show ?thesis by (simp add: refresh_def refresh_commit_def Let_def case_prod_beta' refresh_probe_configs)
qed

lemma refresh_reverts_update_witness:
  "map (ms_url \<circ> me_config)
     (snd (refresh True (\<lambda>_. example_server_env) example_servers
       (snd (update_server example_server_env (example_server ''a'' ''new'') example_servers example_servers)))) = [''u'', ''v'']"
proof -
  have ok: "reg_ok example_servers"
    using reg.reach_inv [OF example_servers_reach] by (simp add: reg_inv_def)
  have f: "find_entry (ms_id (example_server ''a'' ''new'')) example_servers = Some (example_servers ! 0)"
    by (simp add: example_servers_eq find_entry_def entry_id_def example_entry_of_def example_server_def)
  have "map ms_url (map me_config example_servers) = [''u'', ''v'']"
    by (simp add: example_servers_eq example_entry_of_def example_server_def)
  with refresh_reverts_update [OF ok f, of example_server_env True "\<lambda>_. example_server_env"]
  show ?thesis by (metis map_map)
qed

text \<open>A resource read that the gateway lets through names a URI of its own name space; it goes to the
  connected peer of the server in that URI, with the upstream URI, and the key's scope covers the name of
  the resource, or, when no resource has the URI, the name of a template whose literal prefix is a longest
  one that matches.\<close>

lemma resolve_read_confined:
  assumes "resolve_read re key uri es = Inr (Some r)"
  shows "uri = gateway_uri (rrd_server_id r) (rrd_upstream_uri r) \<and>
    scope_spec re key (rrd_scope_name r) (rrd_server_id r) \<and>
    (\<exists>e \<in> set es. entry_id e = rrd_server_id r \<and> me_peer e = Some (rrd_peer r) \<and>
       ((\<exists>x \<in> set (sf_resources (me_surface e)).
           rr_uri (rs_resource x) = rrd_upstream_uri r \<and> rs_scope_name x = rrd_scope_name r) \<or>
        (\<forall>x \<in> set (sf_resources (me_surface e)). rr_uri (rs_resource x) \<noteq> rrd_upstream_uri r) \<and>
        (\<exists>t \<in> set (sf_templates (me_surface e)). ts_scope_name t = rrd_scope_name r \<and>
           starts_with (rrd_upstream_uri r) (ts_literal_prefix t) \<and>
           (\<forall>t' \<in> set (sf_templates (me_surface e)). starts_with (rrd_upstream_uri r) (ts_literal_prefix t') \<longrightarrow>
              length (ts_literal_prefix t') \<le> length (ts_literal_prefix t)))))"
proof -
  from assms obtain e ok where u: "parse_gateway_uri uri = Some (rrd_server_id r, rrd_upstream_uri r)"
    and e: "find (\<lambda>e. entry_id e = rrd_server_id r) es = Some e" "me_peer e = Some (rrd_peer r)"
    and n: "scope_name_for_read (sf_resources (me_surface e)) (sf_templates (me_surface e)) (rrd_upstream_uri r) =
      Some (rrd_scope_name r)"
    and k: "key_can_use_name re key (rrd_scope_name r) (rrd_server_id r) = Inr True"
    by (auto simp: resolve_read_def and_then_Inr_iff split: option.splits prod.splits if_splits)
  from e(1) have "e \<in> set es \<and> entry_id e = rrd_server_id r" by (auto simp: find_Some_iff)
  moreover have "uri = gateway_uri (rrd_server_id r) (rrd_upstream_uri r)" using u by (simp add: parse_gateway_uri_Some)
  moreover have "scope_spec re key (rrd_scope_name r) (rrd_server_id r)" using key_can_use_name_spec [OF k] by simp
  ultimately show ?thesis using e(2) scope_name_for_read_spec [OF n] by blast
qed

lemma resolve_read_confined_witness:
  "\<exists>e \<in> set example_servers. entry_id e = ''b'' \<and> me_peer e = Some ''v''"
proof -
  have parse: "parse_gateway_uri (gateway_uri ''b'' ''db:a'') = Some (''b'', ''db:a'')"
    by (simp add: parse_gateway_uri_Some)
  let ?re = "\<lparr>re_new = (\<lambda>_. Inr (\<lambda>_. False)), re_set_new = (\<lambda>_. Inr (\<lambda>_. False))\<rparr>"
  have "resolve_read ?re ((plain_key ''k'')\<lparr>pk_allowed_servers := [''b'']\<rparr>) (gateway_uri ''b'' ''db:a'') example_servers =
      Inr (Some \<lparr>rrd_peer = ''v'', rrd_upstream_uri = ''db:a'', rrd_server_id = ''b'', rrd_scope_name = ''docs__p__a''\<rparr>)"
    unfolding resolve_read_def parse
    by (simp add: example_servers_eq entry_id_def example_entry_of_def example_server_def scope_name_for_read_def
        key_can_use_name_def plain_key_def)
  from resolve_read_confined [OF this] show ?thesis by auto
qed

end
