(* ===== verification/Discovery.thy ===== *)
theory Discovery
  imports Semantic CatalogQuery McpRegistry
begin

text \<open>
  The gateway's own tools (\<open>src/discovery.rs\<close>): an agent in lazy mode sees only the six \<open>asl__*\<close> tools and finds
  the real ones through them. Here are their descriptors and the handlers of \<open>asl__status\<close> and \<open>asl__search\<close>, by
  keyword and by meaning. The input schemas that schemars derives from the batch requests, Unicode case folding and serde's
  printer are parameters. The pages of a search, read in order, are shown to give every hit once, and no tool
  outside the key's scope.
\<close>

section \<open>Meta-tools\<close>

definition STATUS :: string where "STATUS = ''asl__status''"
definition SEARCH_TOOLS :: string where "SEARCH_TOOLS = ''asl__search''"
definition GET_TOOLS :: string where "GET_TOOLS = ''asl__describe''"
definition CALL_TOOL :: string where "CALL_TOOL = ''asl__call''"
definition CALL_TOOLS :: string where "CALL_TOOLS = ''asl__batch''"
definition FETCH_RESULT :: string where "FETCH_RESULT = ''asl__fetch''"

definition META_TOOLS :: "string list" where
  "META_TOOLS = [STATUS, SEARCH_TOOLS, GET_TOOLS, CALL_TOOL, CALL_TOOLS, FETCH_RESULT]"

lemmas meta_names = STATUS_def SEARCH_TOOLS_def GET_TOOLS_def CALL_TOOL_def CALL_TOOLS_def FETCH_RESULT_def

datatype discovery_mode = DiscFull | DiscLazy

definition discovery_mode_from_config :: "string option \<Rightarrow> discovery_mode" where
  "discovery_mode_from_config s = (if s = Some ''full'' then DiscFull else DiscLazy)"

definition is_meta_tool :: "string \<Rightarrow> bool" where
  "is_meta_tool wire_name = (wire_name \<in> set META_TOOLS)"

definition status_descriptor :: "tool_descriptor" where
  "status_descriptor =
     \<lparr>td_name = STATUS,
      td_description =
      ''Report gateway status: number of configured providers, total tools, and how many tools are visible '' @
      ''to your current key.'',
      td_input_schema =
      JObject [(''additionalProperties'', JBool False), (''properties'', JObject []), (''type'', JString ''object'')]\<rparr>"

definition search_descriptor :: "tool_descriptor" where
  "search_descriptor =
     \<lparr>td_name = SEARCH_TOOLS,
      td_description =
      ''Search tools available to this key by name or description. Returns a capped description and a '' @
      ''compact parameter signature in pages; pass next_cursor to continue. Use asl__describe with returned '' @
      ''canonical names to read callable input schemas before calling.'',
      td_input_schema =
      JObject [(''additionalProperties'', JBool False), (''properties'', JObject [(''cursor'',
      JObject [(''description'', JString ''Offset returned as next_cursor by the previous page.''), (''minimum'',
      JPosInt 0), (''type'', JString ''integer'')]), (''include_schema'', JObject [(''description'',
      JString ''Include the same compact input schema that asl__describe returns. Default false.''), (''type'',
      JString ''boolean'')]), (''limit'', JObject [(''description'', JString ''Results per page. Default 10.''),
      (''maximum'', JPosInt 50), (''minimum'', JPosInt 1), (''type'', JString ''integer'')]), (''query'',
      JObject [(''description'', JString ''Keyword to match against tool names and descriptions.''), (''type'',
      JString ''string'')])]), (''required'', JArray [JString ''query'']), (''type'', JString ''object'')]\<rparr>"

definition describe_descriptor :: "json \<Rightarrow> tool_descriptor" where
  "describe_descriptor names_schema =
     \<lparr>td_name = GET_TOOLS,
      td_description =
      ''Get descriptions and callable input schemas for up to 10 canonical tool names returned by '' @
      ''asl__search. Schemas keep types, required fields, enums, and constraints, and omit JSON Schema '' @
      ''boilerplate. Results follow input order; unavailable names return not_found.'',
      td_input_schema =
        names_schema\<rparr>"

definition call_descriptor :: "tool_descriptor" where
  "call_descriptor =
     \<lparr>td_name = CALL_TOOL,
      td_description =
      ''Call one tool after reading its input schema with asl__describe. The name accepts the canonical '' @
      ''wire name (domain__provider__tool), a provider__tool pair, or a bare tool name when unambiguous. '' @
      ''Pass the tool name and its arguments as JSON.'',
      td_input_schema =
      JObject [(''additionalProperties'', JBool False), (''properties'', JObject [(''arguments'',
      JObject [(''description'', JString ''Arguments to pass to the tool, matching its input schema.''), (''type'',
      JString ''object'')]), (''domain'', JObject [(''description'',
      JString ''Optional: disambiguate short tool names by domain''), (''type'', JString ''string'')]), (''name'',
      JObject [(''description'', JString ''Tool name: canonical wire name (e.g. search__tavily__web_search),
      provider__tool, or bare tool name when unambiguous.''), (''type'', JString ''string'')]), (''provider'',
      JObject [(''description'', JString ''Optional: disambiguate short tool names by provider''), (''type'',
      JString ''string'')])]), (''required'', JArray [JString ''name'', JString ''arguments'']), (''type'',
      JString ''object'')]\<rparr>"

definition batch_descriptor :: "json \<Rightarrow> tool_descriptor" where
  "batch_descriptor calls_schema =
     \<lparr>td_name = CALL_TOOLS,
      td_description =
      ''Call up to 10 independent tools in one request after reading their input schemas with '' @
      ''asl__describe. Calls run in input order and each result is returned separately. That order only '' @
      ''aligns results: a later call cannot use an earlier result, and must not assume an earlier call'' @ [CHR 0x27] @ ''s '' @
      ''upstream side effect is visible. A failed item does not stop or roll back the others. Successful '' @
      ''upstream side effects remain; there is no transaction. Retry failed items individually. When the '' @
      ''next arguments depend on a previous result, use asl__call.'',
      td_input_schema =
        calls_schema\<rparr>"

definition fetch_descriptor :: "tool_descriptor" where
  "fetch_descriptor =
     \<lparr>td_name = FETCH_RESULT,
      td_description =
      ''Fetch subsequent chunks of a large tool result using a cursor returned from a previous call.'',
      td_input_schema =
      JObject [(''additionalProperties'', JBool False), (''properties'', JObject [(''cursor'',
      JObject [(''description'', JString ''Opaque cursor string from a previous tool call result.''), (''type'',
      JString ''string'')]), (''offset'', JObject [(''description'',
      JString ''Byte offset into the cached result. Default 0.''), (''type'', JString ''integer'')])]),
      (''required'', JArray [JString ''cursor'']), (''type'', JString ''object'')]\<rparr>"

text \<open>The two derived schemas are the arguments.\<close>

definition meta_tool_descriptors :: "json \<Rightarrow> json \<Rightarrow> tool_descriptor list" where
  "meta_tool_descriptors names_schema calls_schema =
     [status_descriptor, search_descriptor, describe_descriptor names_schema, call_descriptor,
      batch_descriptor calls_schema, fetch_descriptor]"

lemma meta_tool_descriptors_names: "map td_name (meta_tool_descriptors a b) = META_TOOLS"
  by (simp add: meta_tool_descriptors_def META_TOOLS_def status_descriptor_def search_descriptor_def describe_descriptor_def
      call_descriptor_def batch_descriptor_def fetch_descriptor_def)

section \<open>Handlers\<close>

definition text_ok :: "string \<Rightarrow> tool_call_result" where
  "text_ok t = \<lparr>tc_content = [t], tc_is_error = False\<rparr>"

definition text_error :: "string \<Rightarrow> tool_call_result" where
  "text_error t = \<lparr>tc_content = [t], tc_is_error = True\<rparr>"

text \<open>The Unicode tables, the regular expressions and the JSON printer that the handlers use.\<close>

record discovery_env =
  de_regex :: regex_engine
  de_lower :: "string \<Rightarrow> string"
  de_upper :: "string \<Rightarrow> bool"
  de_ser :: "json \<Rightarrow> string"
  de_semantic :: semantic_env

definition json_nat :: "nat \<Rightarrow> json" where
  "json_nat n = JPosInt (of_nat n)"

definition handle_status :: "discovery_env \<Rightarrow> tool_catalog \<Rightarrow> gateway_config \<Rightarrow> proxy_key \<Rightarrow> asterlane_error + tool_call_result" where
  "handle_status env catalog config key =
     and_then (map_err ErrCatalog (count_visible_for_key (de_regex env) catalog key)) (\<lambda>visible.
       Inr (text_ok (de_ser env (JObject
         [(''providers'', json_nat (length (gc_api_resources config))),
          (''total_tools'', json_nat (total_tool_count catalog)), (''visible_tools'', json_nat visible)]))))"

record search_options =
  so_limit :: nat
  so_cursor :: nat
  so_include_schema :: bool

definition invalid_search :: asterlane_error where
  "invalid_search =
     internal CatalogInvalidPagination ''search limit must be 1..=50 and cursor must be a nonnegative integer''"

definition search_options_parse :: "json \<Rightarrow> asterlane_error + search_options" where
  "search_options_parse args =
     and_then
       (case json_get args ''limit'' of
          None \<Rightarrow> Inr 10
        | Some v \<Rightarrow> ok_or invalid_search (Option.bind (as_u64 v) (\<lambda>n. if 1 \<le> n \<and> n \<le> 50 then Some (unat n) else None)))
       (\<lambda>limit.
     and_then
       (case json_get args ''cursor'' of
          None \<Rightarrow> Inr 0
        | Some v \<Rightarrow> ok_or invalid_search (map_option unat (as_u64 v)))
       (\<lambda>cursor.
          Inr \<lparr>so_limit = limit, so_cursor = cursor,
               so_include_schema = unwrap_or (Option.bind (json_get args ''include_schema'') as_bool) False\<rparr>))"

definition search_item :: "discovery_env \<Rightarrow> bool \<Rightarrow> wrapped_tool \<Rightarrow> json" where
  "search_item env include_schema tool =
     (let schema = wt_input_schema tool;
          parameters = (case Option.bind (json_get schema ''properties'') as_object of Some m \<Rightarrow> map fst m | None \<Rightarrow> [])
      in JObject
           ([(''description'', JString (cap_text (de_upper env) (wt_description tool)))] @
            (if include_schema then [(''input_schema'', project_schema (de_upper env) schema)] else []) @
            [(''name'', JString (wire tool)), (''parameters'', JArray (map JString parameters)),
             (''required'', unwrap_or (json_get schema ''required'') (JArray [])),
             (''signature'', JString (compact_signature (de_ser env) schema))]))"

text \<open>The page of a result list: its tools and the cursor of the next one.\<close>

definition search_page :: "'t list \<Rightarrow> nat \<Rightarrow> nat \<Rightarrow> asterlane_error + 't list \<times> nat option" where
  "search_page results limit cursor =
     (if length results < cursor
      then Inl (internal CatalogInvalidPagination ''search cursor is outside the visible results'')
      else
        (let stop = min (saturating_add_usize cursor limit) (length results)
         in Inr (drop cursor (take stop results), if stop < length results then Some stop else None)))"

definition search_response :: "discovery_env \<Rightarrow> wrapped_tool list \<Rightarrow> search_options \<Rightarrow> asterlane_error + tool_call_result" where
  "search_response env results options =
     and_then (search_page results (so_limit options) (so_cursor options)) (\<lambda>(tools, next_cursor).
       Inr (text_ok (de_ser env (JObject
         [(''next_cursor'', case next_cursor of Some n \<Rightarrow> json_nat n | None \<Rightarrow> JNull),
          (''tools'', JArray (map (search_item env (so_include_schema options)) tools))]))))"

definition query_of :: "json \<Rightarrow> string" where
  "query_of args = unwrap_or (Option.bind (json_get args ''query'') as_str) []"

definition handle_search :: "discovery_env \<Rightarrow> json \<Rightarrow> tool_catalog \<Rightarrow> proxy_key \<Rightarrow> asterlane_error + tool_call_result" where
  "handle_search env args catalog key =
     and_then (search_options_parse args) (\<lambda>options.
     and_then (map_err ErrCatalog (search_for_key (de_regex env) (de_lower env) catalog (query_of args) key usize_max)) (\<lambda>results.
       search_response env results options))"

definition handle_search_semantic ::
  "discovery_env \<Rightarrow> json \<Rightarrow> tool_catalog \<Rightarrow> proxy_key \<Rightarrow> semantic_index \<Rightarrow>
   (asterlane_error + tool_call_result) \<times> semantic_index" where
  "handle_search_semantic env args catalog key ix =
     (case search_options_parse args of
        Inl e \<Rightarrow> (Inl e, ix)
      | Inr options \<Rightarrow>
          if query_of args = [] then (handle_search env args catalog key, ix)
          else
            (case map_err ErrCatalog (search_for_key (de_regex env) (de_lower env) catalog [] key usize_max) of
               Inl e \<Rightarrow> (Inl e, ix)
             | Inr visible \<Rightarrow>
                 (case semantic_rank (de_semantic env) ix (query_of args)
                         (map (\<lambda>t. (wire t, wt_description t)) visible) usize_max of
                    (Inr ranked, ix1) \<Rightarrow> (search_response env (List.map_filter (find_by_wire_name catalog) ranked) options, ix1)
                  | (Inl _, ix1) \<Rightarrow> (handle_search env args catalog key, ix1))))"

definition handle_meta_tool_call ::
  "discovery_env \<Rightarrow> string \<Rightarrow> json \<Rightarrow> tool_catalog \<Rightarrow> gateway_config \<Rightarrow> proxy_key \<Rightarrow> asterlane_error + tool_call_result" where
  "handle_meta_tool_call env name args catalog config key =
     (if name = STATUS then handle_status env catalog config key
      else if name = SEARCH_TOOLS then handle_search env args catalog key
      else if name \<in> {GET_TOOLS, CALL_TOOL, CALL_TOOLS, FETCH_RESULT}
      then Inl (internal McpInvalidToolCall
        (name @ '' is dispatched by the HTTP/MCP invoke pipeline; this helper only serves asl__status and asl__search''))
      else Inr (text_error (''unknown meta-tool: '' @ name)))"

section \<open>Pages cover the hits\<close>

lemma search_page_Inr:
  "search_page results limit cursor = Inr (tools, nxt) \<longleftrightarrow>
     cursor \<le> length results \<and> (let stop = min (min usize_max (cursor + limit)) (length results) in
       tools = drop cursor (take stop results) \<and> nxt = (if stop < length results then Some stop else None))"
  by (auto simp: search_page_def saturating_add_usize_def Let_def)

text \<open>Reading page after page from a cursor on.\<close>

inductive search_walk :: "'t list \<Rightarrow> nat \<Rightarrow> nat \<Rightarrow> 't list \<Rightarrow> bool" for results limit where
  walk_end: "search_page results limit cursor = Inr (tools, None) \<Longrightarrow> search_walk results limit cursor tools"
| walk_next: "search_page results limit cursor = Inr (tools, Some nxt) \<Longrightarrow> search_walk results limit nxt rest \<Longrightarrow>
     search_walk results limit cursor (tools @ rest)"

lemma search_walk_rest:
  "search_walk results limit cursor ts \<Longrightarrow> length results \<le> usize_max \<Longrightarrow> ts = drop cursor results"
proof (induction rule: search_walk.induct)
  case (walk_end cursor tools)
  then show ?case by (auto simp: search_page_Inr Let_def min_def split: if_splits)
next
  case (walk_next cursor tools nxt rest)
  have n: "nxt = min (cursor + limit) (length results)" "tools = drop cursor (take nxt results)" "cursor \<le> length results"
    using walk_next(1,4) by (auto simp: search_page_Inr Let_def min_def split: if_splits)
  have "drop cursor results = drop cursor (take nxt results @ drop nxt results)" by simp
  also have "\<dots> = drop cursor (take nxt results) @ drop nxt results" using n(1,3) by (subst drop_append) simp
  finally show ?case using n walk_next(3,4) by simp
qed

lemma search_walk_ends:
  "cursor \<le> length results \<Longrightarrow> length results \<le> usize_max \<Longrightarrow> 0 < limit \<Longrightarrow> \<exists>ts. search_walk results limit cursor ts"
proof (induction "length results - cursor" arbitrary: cursor rule: less_induct)
  case less
  let ?stop = "min (min usize_max (cursor + limit)) (length results)"
  have p: "search_page results limit cursor =
      Inr (drop cursor (take ?stop results), if ?stop < length results then Some ?stop else None)"
    using less.prems(1) by (simp add: search_page_Inr Let_def)
  show ?case
  proof (cases "?stop < length results")
    case True
    then have "length results - ?stop < length results - cursor" using less.prems by (auto simp: min_def split: if_splits)
    from less.hyps [OF this] obtain ts where "search_walk results limit ?stop ts" using less.prems by auto
    moreover have "search_page results limit cursor = Inr (drop cursor (take ?stop results), Some ?stop)"
      unfolding p if_P [OF True] ..
    ultimately show ?thesis using walk_next by blast
  next
    case False
    then show ?thesis using walk_end [of results limit cursor] p by auto
  qed
qed

lemma search_walk_all: "length results \<le> usize_max \<Longrightarrow> 0 < limit \<Longrightarrow> search_walk results limit 0 ts \<longleftrightarrow> ts = results"
  using search_walk_rest [of results limit 0 ts] search_walk_ends [of 0 results limit] search_walk_rest [of results limit 0]
  by auto

text \<open>The list that a search is paged from: keyword hits, or all visible tools in the order of the ranking.\<close>

definition keyword_hits :: "discovery_env \<Rightarrow> tool_catalog \<Rightarrow> string \<Rightarrow> proxy_key \<Rightarrow> wrapped_tool multiset" where
  "keyword_hits env c query key = mset (map fst (search_hits (de_regex env) (de_lower env) c query key))"

lemma search_hits_length: "length (search_hits re lower c query key) \<le> length (cat_tools c)"
  unfolding search_hits_def visible_tools_def map_filter_def
  by (auto intro!: order.trans [OF length_filter_le])

lemma search_for_key_all:
  assumes "search_for_key re lower c query key usize_max = Inr rs" and "length (cat_tools c) \<le> usize_max"
  shows "mset rs = mset (map fst (search_hits re lower c query key))"
proof -
  have "length (search_hits re lower c query key) \<le> usize_max" using search_hits_length assms(2) by (rule order.trans)
  then show ?thesis using assms(1) by (simp add: search_for_key_hits mset_map)
qed

lemma keyword_search_hits:
  assumes "handle_search env args c key = Inr r" and "length (cat_tools c) \<le> usize_max"
    and "search_options_parse args = Inr opts"
  shows "\<exists>hits. search_response env hits opts = Inr r \<and> mset hits = keyword_hits env c (query_of args) key"
  using assms search_for_key_all [of "de_regex env" "de_lower env" c "query_of args" key]
  by (auto simp: handle_search_def keyword_hits_def and_then_Inr_iff)

lemma find_ranked:
  assumes "wires_distinct (cat_tools c)" and "mset ws = mset (map wire ts)" and "set ts \<subseteq> set (cat_tools c)"
  shows "mset (List.map_filter (find_by_wire_name c) ws) = mset ts"
proof -
  have f: "find_by_wire_name c (wire t) = Some t" if "t \<in> set ts" for t
    unfolding find_by_wire_name_def using that assms(1,3) find_distinct [of wire "cat_tools c" t]
    by (auto simp: wires_distinct_def)
  have "mset (List.map_filter (find_by_wire_name c) ws) =
      image_mset (the \<circ> find_by_wire_name c) (filter_mset (\<lambda>w. find_by_wire_name c w \<noteq> None) (mset ws))"
    by (simp add: map_filter_def mset_filter mset_map)
  also have "\<dots> = mset (List.map_filter (find_by_wire_name c) (map wire ts))"
    by (simp add: assms(2) map_filter_def mset_filter mset_map)
  also have "List.map_filter (find_by_wire_name c) (map wire us) = us" if "set us \<subseteq> set ts" for us
    using that by (induction us) (auto simp: map_filter_simps f)
  finally show ?thesis by simp
qed

lemma search_hits_filter: "\<exists>P. map fst (search_hits re lower c query key) = filter P (visible_tools re c key)"
proof (cases "query = []")
  case True
  then have "map fst (search_hits re lower c query key) = filter (\<lambda>_. True) (visible_tools re c key)"
    by (simp add: search_hits_def comp_def)
  then show ?thesis by blast
next
  case False
  have "map fst (List.map_filter (\<lambda>t. map_option (\<lambda>s. (t, s)) (f t)) ts) = filter (\<lambda>t. f t \<noteq> None) ts" for f :: "_ \<Rightarrow> nat option" and ts
    by (induction ts) (auto simp: map_filter_simps)
  then show ?thesis using False by (auto simp: search_hits_def)
qed

lemma semantic_search_hits:
  assumes "fst (handle_search_semantic env args c key ix) = Inr answer" and "wires_distinct (cat_tools c)"
    and "length (cat_tools c) \<le> usize_max" and "search_options_parse args = Inr opts"
  shows "\<exists>hits. search_response env hits opts = Inr answer \<and>
     mset hits \<in> {keyword_hits env c (query_of args) key, mset (visible_tools (de_regex env) c key)}"
proof (cases "handle_search env args c key = Inr answer")
  case True
  then show ?thesis using keyword_search_hits assms(3,4) by blast
next
  case False
  let ?vis = "visible_tools (de_regex env) c key"
  obtain visible ranked ix1 where v: "search_for_key (de_regex env) (de_lower env) c [] key usize_max = Inr visible"
    "semantic_rank (de_semantic env) ix (query_of args) (map (\<lambda>t. (wire t, wt_description t)) visible) usize_max = (Inr ranked, ix1)"
    "search_response env (List.map_filter (find_by_wire_name c) ranked) opts = Inr answer"
    using assms(1,4) False
    by (auto simp: handle_search_semantic_def map_err_Inr_iff split: if_splits sum.splits prod.splits)
  have m: "mset visible = mset ?vis"
    using search_for_key_all [OF v(1) assms(3)] by (simp add: search_hits_def comp_def)
  have s: "set visible \<subseteq> set (cat_tools c)" using mset_eq_setD [OF m] by (auto simp: visible_tools_def)
  have "length visible = length ?vis" using mset_eq_length [OF m] .
  also have "\<dots> \<le> usize_max" using assms(3) by (simp add: visible_tools_def order.trans [OF length_filter_le])
  finally have "mset ranked = mset (map wire visible)" using semantic_rank_permutes [OF v(2)] by (simp add: comp_def)
  from find_ranked [OF assms(2) this s] m v(3) show ?thesis by auto
qed


section \<open>Runs\<close>

definition example_discovery :: discovery_env where
  "example_discovery =
     \<lparr>de_regex = literal_engine, de_lower = map ascii_lower, de_upper = (\<lambda>_. False), de_ser = (\<lambda>_. []),
      de_semantic =
        \<lparr>sv_ops = \<lparr>fl_add = (\<lambda>a b. a), fl_mul = (\<lambda>a b. a), fl_div = (\<lambda>a b. a), fl_sqrt = (\<lambda>a. a)\<rparr>, sv_hash = (\<lambda>_. 0),
         sv_post = (\<lambda>_ _. NoResponse ''down''), sv_query_post = (\<lambda>_. NoResponse ''down'')\<rparr>\<rparr>"


end
