(* ===== verification/Shaping.thy ===== *)
theory Shaping
  imports Expiring
begin

text \<open>
  Shaping of large results (\<open>src/shaping.rs\<close>): truncation at a character boundary, the cache
  of full results and the cursor interface that reads them back in chunks. Strings are UTF-8 byte
  sequences. The cache is an \<open>expiring_store\<close>; reading chunk after chunk reassembles the stored result.
\<close>

definition DEFAULT_BUDGET_BYTES :: nat where "DEFAULT_BUDGET_BYTES = 48 * 1024"
definition CACHE_TTL :: duration where "CACHE_TTL = 15 * 60 * 10 ^ 9"
definition MAX_CACHE_ENTRIES :: nat where "MAX_CACHE_ENTRIES = 64"
definition MAX_CACHE_BYTES :: nat where "MAX_CACHE_BYTES = 64 * 1024 * 1024"

record cached_result =
  cr_body :: string
  cr_created_at :: instant
  cr_proxy_key :: string

record result_cache =
  rc_entries :: "(string, cached_result) hashmap"
  rc_counter :: u64

record shaped_chunk =
  sh_text :: string
  sh_offset :: nat
  sh_total_len :: nat
  sh_has_more :: bool

datatype shaping_outcome = Unchanged | Shaped (so_head: string) (so_cursor: string) (so_total_len: nat)

text \<open>What \<open>fetch\<close> does: no such result, a chunk, or the panic of an inverted or misaligned slice.\<close>

datatype fetch_outcome = Missing | Chunk shaped_chunk | SlicePanic

section \<open>UTF-8 helpers\<close>

fun floor_loop :: "string \<Rightarrow> nat \<Rightarrow> nat" where
  "floor_loop s 0 = 0"
| "floor_loop s (Suc i) = (if is_char_boundary s (Suc i) then Suc i else floor_loop s i)"

definition floor_char_boundary :: "string \<Rightarrow> nat \<Rightarrow> nat" where
  "floor_char_boundary s index = (if length s \<le> index then length s else floor_loop s index)"

definition truncate_utf8 :: "string \<Rightarrow> nat \<Rightarrow> string" where
  "truncate_utf8 s max_bytes =
     (if length s \<le> max_bytes then s else take (floor_char_boundary s max_bytes) s)"

definition slice :: "string \<Rightarrow> nat \<Rightarrow> nat \<Rightarrow> string option" where
  "slice s i j =
     (if i \<le> j \<and> j \<le> length s \<and> is_char_boundary s i \<and> is_char_boundary s j
      then Some (drop i (take j s)) else None)"

section \<open>The cache\<close>

definition result_cache_new :: result_cache where
  "result_cache_new = \<lparr>rc_entries = [], rc_counter = 0\<rparr>"

text \<open>\<open>elapsed().as_secs() < CACHE_TTL_SECS\<close>.\<close>

definition fresh :: "instant \<Rightarrow> cached_result \<Rightarrow> bool" where
  "fresh now e = ((now - cr_created_at e) div 10 ^ 9 < CACHE_TTL div 10 ^ 9)"

definition sweep :: "instant \<Rightarrow> result_cache \<Rightarrow> result_cache" where
  "sweep now c = c\<lparr>rc_entries := hm_retain (\<lambda>_ e. fresh now e) (rc_entries c)\<rparr>"

definition total_bytes_inner :: "(string, cached_result) hashmap \<Rightarrow> nat" where
  "total_bytes_inner m = sum_list (map (\<lambda>(_, e). length (cr_body e)) m)"

definition oldest_key :: "(string, cached_result) hashmap \<Rightarrow> string option" where
  "oldest_key m = map_option fst (min_by_key (\<lambda>(_, e). cr_created_at e) m)"

lemma oldest_key_in: "oldest_key m = Some k \<Longrightarrow> k \<in> fst ` set m"
  by (auto simp: oldest_key_def dest!: min_by_key_Some intro: rev_image_eqI)

lemma length_delete_less: "k \<in> fst ` set m \<Longrightarrow> length (AList.delete k m) < length m"
  unfolding AList.delete_eq by (induction m) (auto intro: le_imp_less_Suc length_filter_le)

function evict :: "(string, cached_result) hashmap \<Rightarrow> (string, cached_result) hashmap" where
  "evict m =
     (if MAX_CACHE_ENTRIES \<le> length m \<or> MAX_CACHE_BYTES \<le> total_bytes_inner m
      then (case oldest_key m of Some k \<Rightarrow> evict (AList.delete k m) | None \<Rightarrow> m)
      else m)"
  by pat_completeness auto
termination by (relation "measure length") (auto dest!: oldest_key_in intro: length_delete_less)

declare evict.simps [simp del]

definition cursor_of :: "u64 \<Rightarrow> string" where
  "cursor_of i = ''r'' @ dec (unat i)"

definition cache_put :: "result_cache \<Rightarrow> instant \<Rightarrow> string \<Rightarrow> string \<times> string \<Rightarrow> result_cache" where
  "cache_put c now cursor owner_body =
     (let c1 = sweep now c
      in c1\<lparr>rc_entries := AList.update cursor
           \<lparr>cr_body = snd owner_body, cr_created_at = now, cr_proxy_key = fst owner_body\<rparr>
           (evict (rc_entries c1))\<rparr>)"

definition store :: "instant \<Rightarrow> string \<Rightarrow> string \<Rightarrow> result_cache \<Rightarrow> string \<times> result_cache" where
  "store now body proxy_key c =
     (let cursor = cursor_of (rc_counter c)
      in (cursor, (cache_put c now cursor (proxy_key, body))\<lparr>rc_counter := rc_counter c + 1\<rparr>))"

definition usize_add :: "nat \<Rightarrow> nat \<Rightarrow> nat" where
  "usize_add a b = (a + b) mod 2 ^ 64"

definition fetch_entry :: "cached_result \<Rightarrow> nat \<Rightarrow> nat \<Rightarrow> fetch_outcome" where
  "fetch_entry e offset limit =
     (let body = cr_body e; total_len = length body
      in if total_len \<le> offset
         then Chunk \<lparr>sh_text = [], sh_offset = offset, sh_total_len = total_len, sh_has_more = False\<rparr>
         else
           (let end = min total_len (usize_add offset limit);
                safe_end = floor_char_boundary body end;
                safe_offset = floor_char_boundary body offset
            in case slice body safe_offset safe_end of
                 None \<Rightarrow> SlicePanic
               | Some text \<Rightarrow>
                   Chunk \<lparr>sh_text = text, sh_offset = safe_offset, sh_total_len = total_len,
                          sh_has_more = safe_end < total_len\<rparr>))"

definition fetch ::
  "instant \<Rightarrow> string \<Rightarrow> string \<Rightarrow> nat \<Rightarrow> nat \<Rightarrow> result_cache \<Rightarrow> fetch_outcome \<times> result_cache" where
  "fetch now cursor proxy_key offset limit c =
     (let c1 = sweep now c
      in (case map_of (rc_entries c1) cursor of
            None \<Rightarrow> Missing
          | Some e \<Rightarrow>
              if cr_proxy_key e \<noteq> proxy_key then Missing
              else if \<not> fresh now e then Missing
              else fetch_entry e offset limit, c1))"

definition budget_for :: "nat option \<Rightarrow> nat" where
  "budget_for per_resource = (case per_resource of None \<Rightarrow> DEFAULT_BUDGET_BYTES | Some b \<Rightarrow> b)"

definition shape_result ::
  "instant \<Rightarrow> string \<Rightarrow> nat \<Rightarrow> string \<Rightarrow> result_cache \<Rightarrow> shaping_outcome \<times> result_cache" where
  "shape_result now body budget proxy_key c =
     (if length body \<le> budget then (Unchanged, c)
      else (let (cursor, c') = store now body proxy_key c
            in (Shaped (truncate_utf8 body budget) cursor (length body), c')))"

section \<open>Boundaries\<close>

lemma floor_loop_le: "floor_loop s i \<le> i"
  by (induction s i rule: floor_loop.induct) auto

lemma floor_loop_boundary: "is_char_boundary s (floor_loop s i)"
  by (induction s i rule: floor_loop.induct) (auto simp: is_char_boundary_def)

lemma floor_loop_max: "j \<le> i \<Longrightarrow> is_char_boundary s j \<Longrightarrow> j \<le> floor_loop s i"
  by (induction s i rule: floor_loop.induct) (auto simp: le_Suc_eq)

lemma is_char_boundary_ends [simp]: "is_char_boundary s 0" "is_char_boundary s (length s)"
  by (simp_all add: is_char_boundary_def)

lemma floor_boundary: "is_char_boundary s (floor_char_boundary s i)"
  by (simp add: floor_char_boundary_def floor_loop_boundary)

lemma floor_le: "floor_char_boundary s i \<le> min i (length s)"
  using floor_loop_le [of s i] by (auto simp: floor_char_boundary_def)

lemma floor_max: "j \<le> i \<Longrightarrow> is_char_boundary s j \<Longrightarrow> j \<le> length s \<Longrightarrow> j \<le> floor_char_boundary s i"
  by (auto simp: floor_char_boundary_def floor_loop_max)

lemma floor_mono: "i \<le> j \<Longrightarrow> floor_char_boundary s i \<le> floor_char_boundary s j"
  using floor_le [of s i] by (intro floor_max floor_boundary) auto

lemma floor_id: "is_char_boundary s i \<Longrightarrow> i \<le> length s \<Longrightarrow> floor_char_boundary s i = i"
  using floor_le [of s i] floor_max [of i i s] by simp

text \<open>
  The byte shape of UTF-8: a lead byte is followed by as many continuation bytes, at most three, as
  it announces. Every Rust string has it.
\<close>

definition lead_len :: "char \<Rightarrow> nat" where
  "lead_len c =
     (let n = (of_char c :: nat)
      in if n < 128 then 1 else if 192 \<le> n \<and> n < 224 then 2 else if 224 \<le> n \<and> n < 240 then 3
         else if 240 \<le> n \<and> n < 248 then 4 else 0)"

function utf8_shape :: "string \<Rightarrow> bool" where
  "utf8_shape [] = True"
| "utf8_shape (c # cs) =
     (0 < lead_len c \<and> lead_len c - 1 \<le> length cs \<and> list_all is_continuation (take (lead_len c - 1) cs) \<and>
      utf8_shape (drop (lead_len c - 1) cs))"
  by pat_completeness auto
termination by (relation "measure length") auto

lemma lead_len_le: "lead_len c \<le> 4"
  by (simp add: lead_len_def Let_def)

lemma lead_not_continuation: "0 < lead_len c \<Longrightarrow> \<not> is_continuation c"
  by (auto simp: lead_len_def is_continuation_def Let_def split: if_splits)

lemma utf8_boundary_append: "utf8_shape r \<Longrightarrow> is_char_boundary (a @ r) (length a)"
  by (cases r) (auto simp: is_char_boundary_def nth_append lead_not_continuation)

lemma utf8_drop:
  "utf8_shape s \<Longrightarrow> is_char_boundary s i \<Longrightarrow> i \<le> length s \<Longrightarrow> utf8_shape (drop i s)"
proof (induction s arbitrary: i rule: utf8_shape.induct)
  case (2 c cs)
  let ?n = "lead_len c"
  show ?case
  proof (cases "i = 0 \<or> i = length (c # cs)")
    case True
    with 2 show ?thesis by auto
  next
    case False
    with "2.prems" have lt: "0 < i" "i < length (c # cs)" and nc: "\<not> is_continuation ((c # cs) ! i)"
      by (auto simp: is_char_boundary_def split: if_splits)
    from "2.prems"(1) have n: "0 < ?n" "?n - 1 \<le> length cs" "list_all is_continuation (take (?n - 1) cs)"
      "utf8_shape (drop (?n - 1) cs)" by simp_all
    have ge: "?n \<le> i"
    proof (rule ccontr)
      assume "\<not> ?n \<le> i"
      with lt have "i - 1 < length (take (?n - 1) cs)" by auto
      with n(3) have "is_continuation (take (?n - 1) cs ! (i - 1))" by (simp add: list_all_length)
      with \<open>\<not> ?n \<le> i\<close> lt nc show False by (cases i) auto
    qed
    let ?i = "i - ?n"
    have d: "drop i (c # cs) = drop ?i (drop (?n - 1) cs)" using ge n(1) lt by (cases i) auto
    have bd: "is_char_boundary (drop (?n - 1) cs) ?i"
    proof (cases "?i = 0")
      case False
      have "drop (?n - 1) cs ! ?i = (c # cs) ! i" using ge n lt by (cases i) auto
      with nc lt ge n show ?thesis by (simp add: is_char_boundary_def) linarith
    qed simp
    have "?i \<le> length (drop (?n - 1) cs)" using lt ge n by simp
    with "2.IH" [OF n(4) bd] show ?thesis unfolding d .
  qed
qed simp

lemma next_boundary:
  assumes "utf8_shape s" "is_char_boundary s i" "i < length s"
  obtains j where "i < j" "j \<le> i + 4" "j \<le> length s" "is_char_boundary s j"
proof -
  from assms have "utf8_shape (drop i s)" by (simp add: utf8_drop)
  then obtain c cs where d: "drop i s = c # cs" and sh: "0 < lead_len c" "lead_len c - 1 \<le> length cs"
      "utf8_shape (drop (lead_len c - 1) cs)"
    using assms(3) by (cases "drop i s") auto
  let ?j = "i + lead_len c"
  have j: "?j \<le> length s" using sh arg_cong [OF d, of length] by simp
  have "drop ?j s = drop (lead_len c) (drop i s)" by (simp add: add.commute)
  also have "\<dots> = drop (lead_len c - 1) cs" using sh(1) by (simp add: d drop_Cons')
  finally have "utf8_shape (drop ?j s)" using sh(3) by simp
  from utf8_boundary_append [OF this, of "take ?j s"] j have "is_char_boundary s ?j" by (simp add: min_absorb2)
  with that [of ?j] sh(1) lead_len_le [of c] j show thesis by simp
qed

section \<open>Reading back\<close>

lemma fetch_entry_chunk:
  assumes "is_char_boundary (cr_body e) offset" "offset \<le> length (cr_body e)" "offset + limit < 2 ^ 64"
  shows "fetch_entry e offset limit =
     (let b = cr_body e; j = floor_char_boundary b (min (length b) (offset + limit))
      in Chunk \<lparr>sh_text = drop offset (take j b), sh_offset = offset, sh_total_len = length b, sh_has_more = j < length b\<rparr>)"
proof (cases "offset = length (cr_body e)")
  case True
  then show ?thesis by (simp add: fetch_entry_def Let_def floor_char_boundary_def)
next
  case False
  let ?b = "cr_body e"
  let ?j = "floor_char_boundary ?b (min (length ?b) (offset + limit))"
  have o: "floor_char_boundary ?b offset = offset" using assms by (intro floor_id)
  have "offset \<le> ?j" using floor_mono [of offset "min (length ?b) (offset + limit)" ?b] assms(2) by (simp add: o)
  moreover have "?j \<le> length ?b" using floor_le [of ?b] by simp
  ultimately have "slice ?b offset ?j = Some (drop offset (take ?j ?b))"
    using assms(1) by (simp add: slice_def floor_boundary)
  with False assms show ?thesis by (simp add: fetch_entry_def Let_def usize_add_def o)
qed

lemma fresh_iff: "fresh now e \<longleftrightarrow> now - cr_created_at e < CACHE_TTL"
proof -
  have "CACHE_TTL = CACHE_TTL div 10 ^ 9 * 10 ^ 9" by (simp add: CACHE_TTL_def)
  then show ?thesis
    unfolding fresh_def using div_less_iff_less_mult [of "10 ^ 9" "now - cr_created_at e" "CACHE_TTL div 10 ^ 9"] by simp
qed

definition live :: "result_cache \<Rightarrow> instant \<Rightarrow> string \<Rightarrow> cached_result option" where
  "live c t k = (case map_of (rc_entries c) k of Some e \<Rightarrow> if fresh t e then Some e else None | None \<Rightarrow> None)"

definition rc_wf :: "result_cache \<Rightarrow> bool" where
  "rc_wf c = hm_wf (rc_entries c)"

lemma sweep_wf [simp]: "rc_wf c \<Longrightarrow> rc_wf (sweep now c)"
  by (simp add: rc_wf_def sweep_def)

lemma sweep_entry: "rc_wf c \<Longrightarrow> map_of (rc_entries (sweep now c)) k = live c now k"
  by (simp add: sweep_def rc_wf_def hm_get_retain live_def)

lemma fresh_mono: "t \<le> t' \<Longrightarrow> fresh t' e \<Longrightarrow> fresh t e"
  by (auto simp: fresh_iff)

lemma live_sweep: "rc_wf c \<Longrightarrow> now \<le> t \<Longrightarrow> live (sweep now c) t k = live c t k"
  using fresh_mono [of now t] by (auto simp: live_def [of "sweep now c"] sweep_entry) (auto simp: live_def split: option.splits)

lemma fetch_live:
  "rc_wf c \<Longrightarrow> fetch now cursor key offset limit c =
     (case live c now cursor of
        None \<Rightarrow> Missing
      | Some e \<Rightarrow> if cr_proxy_key e = key then fetch_entry e offset limit else Missing, sweep now c)"
  by (auto simp: fetch_def Let_def sweep_entry live_def split: option.splits)

text \<open>A client that reads from \<open>offset\<close> on, one request per instant, until there is no more.\<close>

fun read_all :: "instant list \<Rightarrow> string \<Rightarrow> string \<Rightarrow> nat \<Rightarrow> nat \<Rightarrow> result_cache \<Rightarrow> string option" where
  "read_all [] cursor key offset limit c = None"
| "read_all (t # ts) cursor key offset limit c =
     (case fetch t cursor key offset limit c of
        (Chunk ch, c') \<Rightarrow>
          if sh_has_more ch
          then map_option (append (sh_text ch)) (read_all ts cursor key (sh_offset ch + length (sh_text ch)) limit c')
          else Some (sh_text ch)
      | _ \<Rightarrow> None)"

lemma read_all_from:
  assumes "utf8_shape (cr_body e)" "cr_proxy_key e = key" "4 \<le> limit" "length (cr_body e) + limit < 2 ^ 64"
  shows "rc_wf c \<Longrightarrow> \<forall>t \<in> set ts. live c t cursor = Some e \<Longrightarrow> sorted ts \<Longrightarrow>
     is_char_boundary (cr_body e) offset \<Longrightarrow> offset \<le> length (cr_body e) \<Longrightarrow> length (cr_body e) < offset + length ts \<Longrightarrow>
     read_all ts cursor key offset limit c = Some (drop offset (cr_body e))"
proof (induction ts arbitrary: offset c)
  case (Cons t ts)
  let ?b = "cr_body e"
  define j where "j = floor_char_boundary ?b (min (length ?b) (offset + limit))"
  have fe: "fetch t cursor key offset limit c =
      (Chunk \<lparr>sh_text = drop offset (take j ?b), sh_offset = offset, sh_total_len = length ?b, sh_has_more = j < length ?b\<rparr>,
       sweep t c)"
    using Cons.prems assms by (simp add: fetch_live fetch_entry_chunk j_def Let_def)
  have jb: "is_char_boundary ?b j" "j \<le> length ?b" using floor_boundary floor_le [of ?b] by (auto simp: j_def)
  show ?case
  proof (cases "j < length ?b")
    case True
    have lt: "offset < length ?b"
      using True floor_mono [of offset "min (length ?b) (offset + limit)" ?b] floor_id [of ?b offset] Cons.prems
      by (auto simp: j_def)
    obtain k where k: "offset < k" "k \<le> offset + 4" "k \<le> length ?b" "is_char_boundary ?b k"
      using next_boundary [OF assms(1) Cons.prems(4) lt] .
    with assms(3) have "k \<le> j" unfolding j_def by (intro floor_max) auto
    with k have oj: "offset < j" by simp
    have "read_all ts cursor key j limit (sweep t c) = Some (drop j ?b)"
      using Cons.prems oj jb by (intro Cons.IH) (auto simp: live_sweep)
    moreover have "drop offset (take j ?b) @ drop j ?b = drop offset ?b"
      using oj jb by (metis append_take_drop_id drop_append diff_is_0_eq drop_0 length_take less_imp_le min_absorb2)
    ultimately show ?thesis using True oj jb by (simp add: fe min_absorb2)
  next
    case False
    with jb show ?thesis by (simp add: fe)
  qed
qed simp

section \<open>The cache is an expiring store\<close>

lemma evict_subset: "hm_wf m \<Longrightarrow> hm_wf (evict m) \<and> (\<forall>k e. map_of (evict m) k = Some e \<longrightarrow> map_of m k = Some e)"
proof (induction m rule: evict.induct)
  case (1 m)
  show ?case
  proof (cases "(MAX_CACHE_ENTRIES \<le> length m \<or> MAX_CACHE_BYTES \<le> total_bytes_inner m) \<and> oldest_key m \<noteq> None")
    case True
    then obtain k where k: "oldest_key m = Some k" by auto
    with True have e: "evict m = evict (AList.delete k m)" by (subst evict.simps) auto
    have "hm_wf (evict (AList.delete k m)) \<and>
        (\<forall>j e. map_of (evict (AList.delete k m)) j = Some e \<longrightarrow> map_of (AList.delete k m) j = Some e)"
      using 1 True k by auto
    moreover have "map_of (AList.delete k m) j = Some x \<Longrightarrow> map_of m j = Some x" for j x by (simp split: if_splits)
    ultimately show ?thesis unfolding e by blast
  next
    case False
    then have "evict m = m" by (subst evict.simps) auto
    with "1.prems" show ?thesis by simp
  qed
qed

lemma put_wf [simp]: "rc_wf c \<Longrightarrow> rc_wf (cache_put c now k v)"
  using evict_subset [of "rc_entries (sweep now c)"] sweep_wf [of c now]
  by (simp add: rc_wf_def cache_put_def Let_def)

definition rc_alive :: "result_cache \<Rightarrow> instant \<Rightarrow> string \<Rightarrow> (string \<times> string) option" where
  "rc_alive c t k = map_option (\<lambda>e. (cr_proxy_key e, cr_body e)) (live c t k)"

definition rc_get :: "result_cache \<Rightarrow> instant \<Rightarrow> string \<Rightarrow> (string \<times> string) option \<times> result_cache" where
  "rc_get c t k = (rc_alive c t k, sweep t c)"

lemma live_put_same:
  assumes "rc_wf c"
  shows "live (cache_put c now k v) t k =
     (if t - now < CACHE_TTL then Some \<lparr>cr_body = snd v, cr_created_at = now, cr_proxy_key = fst v\<rparr> else None)"
  by (simp add: live_def cache_put_def Let_def fresh_iff)

lemma live_put_other:
  assumes "rc_wf c" "k' \<noteq> k" "live (cache_put c now k v) t k' = Some e" "now \<le> t"
  shows "live c t k' = Some e"
proof -
  have "live (sweep now c) t k' = Some e"
    using assms(1-3) evict_subset [of "rc_entries (sweep now c)"] sweep_wf [of c now]
    by (auto simp: live_def cache_put_def Let_def rc_wf_def split: option.splits if_splits)
  then show ?thesis using assms(1,4) by (simp add: live_sweep)
qed

interpretation rcache: expiring_store rc_wf "\<lambda>_. CACHE_TTL" rc_alive cache_put rc_get
  by unfold_locales
    (auto simp: rc_get_def rc_alive_def live_sweep live_put_same dest: live_put_other split: if_splits)

section \<open>Properties\<close>

text \<open>A result within the budget is returned unchanged and nothing is stored; a larger one is cut to a
  prefix that fits the budget and ends between two characters, the longest such prefix, and the whole
  result is stored under the returned cursor for the caller's key.\<close>

lemma shape_result_correct:
  assumes "rc_wf c"
  shows "case shape_result now body budget key c of
     (Unchanged, c') \<Rightarrow> length body \<le> budget \<and> c' = c
   | (Shaped head cursor n, c') \<Rightarrow>
       budget < length body \<and> n = length body \<and> length head \<le> budget \<and>
       head = take (length head) body \<and> is_char_boundary body (length head) \<and>
       (\<forall>j. j \<le> budget \<and> is_char_boundary body j \<longrightarrow> j \<le> length head) \<and>
       live c' now cursor = Some \<lparr>cr_body = body, cr_created_at = now, cr_proxy_key = key\<rparr> \<and> rc_wf c'"
proof (cases "length body \<le> budget")
  case False
  let ?n = "floor_char_boundary body budget"
  have n: "?n \<le> budget" "?n \<le> length body" using floor_le [of body budget] by auto
  have "live (snd (store now body key c)) now (fst (store now body key c)) =
      Some \<lparr>cr_body = body, cr_created_at = now, cr_proxy_key = key\<rparr>"
    using live_put_same [OF assms, of now "cursor_of (rc_counter c)" "(key, body)" now]
    by (simp add: store_def Let_def live_def CACHE_TTL_def)
  moreover have "rc_wf (snd (store now body key c))"
    using put_wf [OF assms] by (simp add: store_def Let_def rc_wf_def)
  ultimately show ?thesis
    using False n by (auto simp: shape_result_def truncate_utf8_def case_prod_beta min_absorb2 floor_boundary
        intro: floor_max)
qed (simp add: shape_result_def)

text \<open>C29: reading a stored result chunk by chunk, each request starting where the last chunk ended, with a
  limit of at least four bytes and within the result's life time, yields the whole result, in at most one
  request more than it has bytes.\<close>

theorem chunks_reassemble:
  assumes "rc_wf c" and "\<forall>t \<in> set ts. live c t cursor = Some e" and "sorted ts"
    and "utf8_shape (cr_body e)" and "4 \<le> limit" and "length (cr_body e) + limit < 2 ^ 64"
    and "length (cr_body e) < length ts"
  shows "read_all ts cursor (cr_proxy_key e) 0 limit c = Some (cr_body e)"
  using read_all_from [OF assms(4) refl assms(5,6,1,2,3), of 0] assms(7) by simp

datatype cache_op = CStore string string | CFetch string string nat nat

fun rc_step :: "result_cache \<Rightarrow> instant \<times> cache_op \<Rightarrow> result_cache" where
  "rc_step c (t, CStore body key) = snd (store t body key c)"
| "rc_step c (t, CFetch cursor key offset limit) = snd (fetch t cursor key offset limit c)"

text \<open>The cursors that the stores of a trace return, from a given counter on.\<close>

fun rc_trace :: "u64 \<Rightarrow> (instant \<times> cache_op) list \<Rightarrow> (instant \<times> (string, string \<times> string) store_op) list" where
  "rc_trace n [] = []"
| "rc_trace n ((t, CStore body key) # xs) = (t, Put (cursor_of n) (key, body)) # rc_trace (n + 1) xs"
| "rc_trace n ((t, CFetch cursor key offset limit) # xs) = (t, Look cursor) # rc_trace n xs"

lemma fst_rc_trace: "map fst (rc_trace n xs) = map fst xs"
  by (induction n xs rule: rc_trace.induct) auto

lemma put_counter: "cache_put (c\<lparr>rc_counter := n\<rparr>) t k v = (cache_put c t k v)\<lparr>rc_counter := n\<rparr>"
  by (simp add: cache_put_def sweep_def Let_def)

lemma sweep_counter: "sweep t (c\<lparr>rc_counter := n\<rparr>) = (sweep t c)\<lparr>rc_counter := n\<rparr>"
  by (simp add: sweep_def)

lemma rc_run_entries:
  "rc_entries (foldl rc_step (c\<lparr>rc_counter := n\<rparr>) xs) = rc_entries (foldl (store_step cache_put rc_get) c (rc_trace n xs))"
proof (induction n xs arbitrary: c rule: rc_trace.induct)
  case (2 n t body key xs)
  have "snd (store t body key (c\<lparr>rc_counter := n\<rparr>)) = (cache_put c t (cursor_of n) (key, body))\<lparr>rc_counter := n + 1\<rparr>"
    by (simp add: store_def Let_def put_counter)
  with 2 show ?case by simp
next
  case (3 n t cursor key offset limit xs)
  have "snd (fetch t cursor key offset limit (c\<lparr>rc_counter := n\<rparr>)) = (sweep t c)\<lparr>rc_counter := n\<rparr>"
    by (simp add: fetch_def Let_def sweep_counter)
  with 3 show ?case by (simp add: rc_get_def)
qed simp

lemma fetch_entry_part:
  assumes "fetch_entry e offset limit = Chunk ch"
  shows "\<exists>i j. sh_text ch = drop i (take j (cr_body e))" "sh_total_len ch = length (cr_body e)"
proof -
  have "sh_text ch = [] \<or> (\<exists>i j. sh_text ch = drop i (take j (cr_body e)))"
    using assms unfolding fetch_entry_def Let_def slice_def by (force split: if_splits)
  then show "\<exists>i j. sh_text ch = drop i (take j (cr_body e))" by (metis take_0 drop_Nil)
  show "sh_total_len ch = length (cr_body e)"
    using assms by (auto simp: fetch_entry_def Let_def split: if_splits option.splits)
qed

text \<open>Whatever stores and fetches went before, a chunk that a fetch returns is a part of a result that the
  same gateway key stored under that cursor less than fifteen minutes earlier; another key's cursor and an
  expired one never yield data.\<close>

lemma fetch_isolated:
  assumes "c = foldl rc_step result_cache_new xs" and "sorted (map fst xs)" and "\<forall>x \<in> set xs. fst x \<le> now"
    and "fst (fetch now cursor key offset limit c) = Chunk ch"
  shows "\<exists>t0 body i j. last_put (rc_trace 0 xs) cursor = Some (t0, (key, body)) \<and>
     now < t0 + CACHE_TTL \<and> sh_text ch = drop i (take j body) \<and> sh_total_len ch = length body"
proof -
  let ?d = "foldl (store_step cache_put rc_get) result_cache_new (rc_trace 0 xs)"
  have w: "rc_wf result_cache_new" by (simp add: rc_wf_def result_cache_new_def)
  have nil: "rc_alive result_cache_new t k = None" for t k
    by (simp add: rc_alive_def live_def result_cache_new_def)
  have "result_cache_new\<lparr>rc_counter := 0\<rparr> = result_cache_new" by (simp add: result_cache_new_def)
  then have ce: "rc_entries c = rc_entries ?d" using rc_run_entries [of 0 result_cache_new xs] assms(1) by simp
  have wf: "rc_wf ?d" by (rule rcache.inv_run [OF w])
  with ce have "rc_wf c" by (simp add: rc_wf_def)
  with assms(4) obtain e where e: "live c now cursor = Some e" "cr_proxy_key e = key" "fetch_entry e offset limit = Chunk ch"
    by (auto simp: fetch_live split: option.splits if_splits)
  with ce have "rc_alive ?d now cursor = Some (key, cr_body e)" by (simp add: rc_alive_def live_def)
  moreover have "\<forall>x \<in> set (rc_trace 0 xs). fst x \<le> now"
    using assms(3) fst_rc_trace [of 0 xs] by (metis (no_types) image_eqI image_iff list.set_map)
  ultimately obtain t0 where "last_put (rc_trace 0 xs) cursor = Some (t0, (key, cr_body e))" "now < t0 + CACHE_TTL"
    using rcache.provenance [OF w nil, of "rc_trace 0 xs" now cursor "(key, cr_body e)"] assms(2) fst_rc_trace [of 0 xs]
    by auto
  with fetch_entry_part [OF e(3)] show ?thesis by blast
qed

lemma evict_bounds: "length (evict m) < MAX_CACHE_ENTRIES \<and> total_bytes_inner (evict m) < MAX_CACHE_BYTES"
proof (induction m rule: evict.induct)
  case (1 m)
  show ?case
  proof (cases "MAX_CACHE_ENTRIES \<le> length m \<or> MAX_CACHE_BYTES \<le> total_bytes_inner m")
    case True
    then have "m \<noteq> []" by (auto simp: MAX_CACHE_ENTRIES_def MAX_CACHE_BYTES_def total_bytes_inner_def)
    then obtain k where "oldest_key m = Some k"
      by (auto simp: oldest_key_def dest: min_by_key_ex [where f = "\<lambda>(_, e). cr_created_at e"])
    with 1 True show ?thesis by (subst (1 2) evict.simps) simp
  next
    case False
    then show ?thesis by (subst (1 2) evict.simps) auto
  qed
qed

lemma length_update_le: "length (AList.update k v m) \<le> Suc (length m)"
  by (induction m) auto

lemma total_bytes_update:
  "total_bytes_inner (AList.update k v m) \<le> total_bytes_inner m + length (cr_body v)"
  by (induction m) (auto simp: total_bytes_inner_def)

text \<open>After every store the cache holds at most 64 results, and all results but the one just stored
  together take less than 64 MiB.\<close>

lemma cache_capacity:
  "length (rc_entries (snd (store now body key c))) \<le> 64 \<and>
   total_bytes_inner (rc_entries (snd (store now body key c))) < 64 * 1024 * 1024 + length body"
proof -
  let ?m = "evict (rc_entries (sweep now c))"
  let ?e = "\<lparr>cr_body = body, cr_created_at = now, cr_proxy_key = key\<rparr>"
  have "rc_entries (snd (store now body key c)) = AList.update (cursor_of (rc_counter c)) ?e ?m"
    by (simp add: store_def cache_put_def Let_def)
  with evict_bounds [of "rc_entries (sweep now c)"] length_update_le [of "cursor_of (rc_counter c)" ?e ?m]
    total_bytes_update [of "cursor_of (rc_counter c)" ?e ?m]
  show ?thesis by (simp add: MAX_CACHE_ENTRIES_def MAX_CACHE_BYTES_def)
qed

section \<open>Runs\<close>

definition example_cache :: result_cache where
  "example_cache = foldl rc_step result_cache_new [(5, CStore ''hello world'' ''alice'')]"

lemma example_cache_eq:
  "example_cache = \<lparr>rc_entries = [(''r0'', \<lparr>cr_body = ''hello world'', cr_created_at = 5, cr_proxy_key = ''alice''\<rparr>)],
     rc_counter = 1\<rparr>"
proof -
  have "evict [] = []" by (subst evict.simps) (simp add: oldest_key_def)
  moreover have "cursor_of 0 = ''r0''" unfolding cursor_of_def by code_simp
  ultimately show ?thesis
    by (simp add: example_cache_def store_def cache_put_def sweep_def result_cache_new_def hm_retain_def Let_def)
qed

lemma example_cache_live:
  "live example_cache t ''r0'' =
     (if t - 5 < CACHE_TTL then Some \<lparr>cr_body = ''hello world'', cr_created_at = 5, cr_proxy_key = ''alice''\<rparr> else None)"
  by (simp add: example_cache_eq live_def fresh_iff)

lemma shape_result_correct_witness:
  "case shape_result 7 ''hello world'' 5 ''bob'' example_cache of
     (Unchanged, c') \<Rightarrow> False | (Shaped head cursor n, c') \<Rightarrow> n = 11 \<and> length head \<le> 5"
proof -
  have "rc_wf example_cache" by (simp add: example_cache_eq rc_wf_def hm_wf_def)
  from shape_result_correct [OF this, where now = 7 and body = "''hello world''" and budget = 5 and key = "''bob''"] show ?thesis
    by (auto split: prod.splits shaping_outcome.splits)
qed

theorem chunks_reassemble_witness:
  "read_all [6, 7, 8, 9, 10, 11, 12, 13, 14, 15, 16, 17] ''r0'' ''alice'' 0 4 example_cache = Some ''hello world''"
proof -
  let ?e = "\<lparr>cr_body = ''hello world'', cr_created_at = 5, cr_proxy_key = ''alice''\<rparr>"
  have w: "rc_wf example_cache" by (simp add: example_cache_eq rc_wf_def hm_wf_def)
  have l: "\<forall>t \<in> set [6, 7, 8, 9, 10, 11, 12, 13, 14, 15, 16, 17]. live example_cache t ''r0'' = Some ?e"
    by (simp add: example_cache_live CACHE_TTL_def)
  have "utf8_shape ''hello world''" by (simp add: lead_len_def)
  with chunks_reassemble [OF w l, of 4] show ?thesis by simp
qed

lemma fetch_isolated_witness:
  "\<exists>t0 body i j. last_put (rc_trace 0 [(5, CStore ''hello world'' ''alice'')]) ''r0'' = Some (t0, (''alice'', body)) \<and>
     (6 :: instant) < t0 + CACHE_TTL \<and> ''hello'' = drop i (take j body) \<and> 11 = length body"
proof -
  let ?ch = "\<lparr>sh_text = ''hello'', sh_offset = 0, sh_total_len = 11, sh_has_more = True\<rparr>"
  have "is_char_boundary ''hello world'' 5" by (simp add: is_char_boundary_def is_continuation_def)
  then have "floor_char_boundary ''hello world'' (Suc (Suc (Suc (Suc (Suc 0))))) = 5"
    using floor_id [of "''hello world''" 5] by (simp add: eval_nat_numeral)
  then have f: "fst (fetch 6 ''r0'' ''alice'' 0 5 example_cache) = Chunk ?ch"
    by (simp add: fetch_live rc_wf_def hm_wf_def example_cache_eq)
      (simp add: live_def fresh_iff CACHE_TTL_def fetch_entry_chunk Let_def)
  from fetch_isolated [OF example_cache_def, of 6, OF _ _ f] show ?thesis by simp
qed

end
