(* ===== verification/MetaTools.thy ===== *)
theory MetaTools
  imports Discovery Shaping
begin

text \<open>
  The batch tools (\<open>src/mcp/call.rs\<close>, \<open>src/mcp/model.rs\<close>): describing up to ten tools in one request, reading a stored result
  further, and the byte budget of a batch response, over which the largest item is moved to the result cache and
  replaced by a cursor until the rest fits. What serde derives (the decoding of the requests and the printer) is a
  parameter. The two loops that keep the budget share the locale \<open>byte_budget\<close>: they end, keep the order, and every
  item they move can be read back from the cache.
\<close>

section \<open>Requests and responses (model.rs)\<close>

definition BATCH_LIMIT :: nat where "BATCH_LIMIT = 10"

definition deserialize_batch :: "'a list \<Rightarrow> string + 'a list" where
  "deserialize_batch items =
     (if 1 \<le> length items \<and> length items \<le> BATCH_LIMIT then Inr items else Inl ''batch must contain 1 to 10 items'')"

record batch_tool_call =
  bc_name :: string
  bc_arguments :: "(string \<times> json) list"
  bc_domain :: "string option"
  bc_provider :: "string option"
  bc_input_responses :: "json option"
  bc_request_state :: "string option"

record batch_tool_detail =
  bd_name :: string
  bd_tool :: "tool_descriptor option"
  bd_error :: "string option"
  bd_cursor :: "string option"

record batch_call_result =
  br_name :: string
  br_request_id :: "string option"
  br_result :: "json option"
  br_input_required :: "json option"
  br_error :: "string option"
  br_cursor :: "string option"

text \<open>The derived \<open>Serialize\<close>: fields in order, a missing optional field left out.\<close>

definition opt_field :: "string \<Rightarrow> json option \<Rightarrow> (string \<times> json) list" where
  "opt_field k v = (case v of Some j \<Rightarrow> [(k, j)] | None \<Rightarrow> [])"

definition descriptor_json :: "tool_descriptor \<Rightarrow> json" where
  "descriptor_json d =
     JObject [(''name'', JString (td_name d)), (''description'', JString (td_description d)),
              (''input_schema'', td_input_schema d)]"

definition detail_json :: "batch_tool_detail \<Rightarrow> json" where
  "detail_json d =
     JObject ([(''name'', JString (bd_name d))] @ opt_field ''tool'' (map_option descriptor_json (bd_tool d)) @
       opt_field ''error'' (map_option JString (bd_error d)) @ opt_field ''cursor'' (map_option JString (bd_cursor d)))"

definition call_result_json :: "batch_call_result \<Rightarrow> json" where
  "call_result_json r =
     JObject ([(''name'', JString (br_name r))] @ opt_field ''request_id'' (map_option JString (br_request_id r)) @
       opt_field ''result'' (br_result r) @ opt_field ''input_required'' (br_input_required r) @
       opt_field ''error'' (map_option JString (br_error r)) @ opt_field ''cursor'' (map_option JString (br_cursor r)))"

definition results_json :: "json list \<Rightarrow> json" where
  "results_json rs = JObject [(''results'', JArray rs)]"

section \<open>The byte budget (call.rs)\<close>

definition OVER_BUDGET :: string where "OVER_BUDGET = ''batch response exceeds byte budget''"

text \<open>The position of the last of the heaviest items, among those that have a weight.\<close>

definition heaviest :: "('i \<Rightarrow> nat option) \<Rightarrow> 'i list \<Rightarrow> nat option" where
  "heaviest weight items =
     map_option fst (max_by_key snd (List.map_filter (\<lambda>(i, x). map_option (Pair i) (weight x)) (enumerate 0 items)))"

lemma heaviest_Some: "heaviest weight items = Some i \<Longrightarrow> i < length items \<and> weight (items ! i) \<noteq> None"
  by (auto simp: heaviest_def map_filter_def in_set_enumerate_eq dest!: max_by_key_Some)

lemma heaviest_None: "heaviest weight items = None \<longleftrightarrow> (\<forall>x \<in> set items. weight x = None)"
proof -
  have "(\<exists>p \<in> set (enumerate 0 items). weight (snd p) \<noteq> None) \<longleftrightarrow> (\<exists>x \<in> set items. weight x \<noteq> None)"
    by (metis (no_types, lifting) image_iff list.set_map map_snd_enumerate)
  then show ?thesis by (fastforce simp: heaviest_def map_filter_def filter_empty_conv)
qed

definition movable :: "('i \<Rightarrow> nat option) \<Rightarrow> 'i list \<Rightarrow> 'i list" where
  "movable weight items = filter (\<lambda>x. weight x \<noteq> None) items"

lemma movable_update:
  assumes "i < length items" and "weight (items ! i) \<noteq> None" and "weight y = None"
  shows "\<exists>a b. movable weight items = a @ items ! i # b \<and> movable weight (items[i := y]) = a @ b"
proof -
  let ?a = "movable weight (take i items)" and ?b = "movable weight (drop (Suc i) items)"
  have "movable weight items = movable weight (take i items @ items ! i # drop (Suc i) items)"
    using id_take_nth_drop [OF assms(1)] by simp
  then have "movable weight items = ?a @ items ! i # ?b" unfolding movable_def filter_append using assms(2) by simp
  moreover have "movable weight (items[i := y]) = ?a @ ?b"
    using assms(1,3) by (simp add: movable_def upd_conv_take_nth_drop)
  ultimately show ?thesis by blast
qed

lemma movable_less [termination_simp]:
  "i < length items \<Longrightarrow> weight (items ! i) \<noteq> None \<Longrightarrow> weight y = None \<Longrightarrow>
   length (movable weight (items[i := y])) < length (movable weight items)"
  using movable_update [of i items weight y] by auto

text \<open>\<open>now k\<close> is the clock when the \<open>k\<close>-th item is stored.\<close>

definition detail_weight :: "(json \<Rightarrow> string) \<Rightarrow> batch_tool_detail \<Rightarrow> nat option" where
  "detail_weight ser d = map_option (\<lambda>t. length (ser (descriptor_json t))) (bd_tool d)"

definition detail_full :: "(json \<Rightarrow> string) \<Rightarrow> batch_tool_detail \<Rightarrow> string" where
  "detail_full ser d = (case bd_tool d of Some t \<Rightarrow> ser (descriptor_json t) | None \<Rightarrow> [])"

definition detail_mark :: "string \<Rightarrow> batch_tool_detail \<Rightarrow> batch_tool_detail" where
  "detail_mark cursor d = d\<lparr>bd_tool := None, bd_cursor := Some cursor\<rparr>"

function fit_details ::
  "(json \<Rightarrow> string) \<Rightarrow> (nat \<Rightarrow> instant) \<Rightarrow> string \<Rightarrow> nat \<Rightarrow> batch_tool_detail list \<Rightarrow> result_cache \<Rightarrow>
   (string + batch_tool_detail list) \<times> result_cache" where
  "fit_details ser now owner k items cache =
     (if length (ser (results_json (map detail_json items))) \<le> DEFAULT_BUDGET_BYTES then (Inr items, cache)
      else
        (case heaviest (detail_weight ser) items of
           None \<Rightarrow> (Inl OVER_BUDGET, cache)
         | Some i \<Rightarrow>
             fit_details ser now owner (Suc k)
               (items[i := detail_mark (fst (store (now k) (detail_full ser (items ! i)) owner cache)) (items ! i)])
               (snd (store (now k) (detail_full ser (items ! i)) owner cache))))"
  by pat_completeness auto
termination
  by (relation "measure (\<lambda>(ser, _, _, _, items, _). length (movable (detail_weight ser) items))")
    (auto simp: detail_mark_def detail_weight_def dest!: heaviest_Some intro!: movable_less)

definition null_or :: "json option \<Rightarrow> json" where
  "null_or v = (case v of Some j \<Rightarrow> j | None \<Rightarrow> JNull)"

definition result_weight :: "(json \<Rightarrow> string) \<Rightarrow> batch_call_result \<Rightarrow> nat option" where
  "result_weight ser r =
     (if br_cursor r = None \<and> (br_result r \<noteq> None \<or> br_input_required r \<noteq> None \<or> br_error r \<noteq> None)
      then Some (length (ser (JArray [null_or (br_result r), null_or (br_input_required r), null_or (map_option JString (br_error r))])))
      else None)"

definition result_full :: "(json \<Rightarrow> string) \<Rightarrow> batch_call_result \<Rightarrow> string" where
  "result_full ser r =
     (case (if br_result r \<noteq> None then br_result r else br_input_required r) of
        Some v \<Rightarrow> ser v
      | None \<Rightarrow> (case br_error r of Some e \<Rightarrow> ser (JObject [(''error'', JString e)]) | None \<Rightarrow> []))"

definition result_mark :: "string \<Rightarrow> batch_call_result \<Rightarrow> batch_call_result" where
  "result_mark cursor r =
     (if br_result r \<noteq> None then r\<lparr>br_result := None, br_cursor := Some cursor\<rparr>
      else if br_input_required r \<noteq> None then r\<lparr>br_input_required := None, br_cursor := Some cursor\<rparr>
      else r\<lparr>br_error := Some ''error details available via cursor'', br_cursor := Some cursor\<rparr>)"

function fit_batch_budget ::
  "(json \<Rightarrow> string) \<Rightarrow> (nat \<Rightarrow> instant) \<Rightarrow> string \<Rightarrow> nat \<Rightarrow> batch_call_result list \<Rightarrow> result_cache \<Rightarrow>
   (string + batch_call_result list) \<times> result_cache" where
  "fit_batch_budget ser now owner k items cache =
     (if length (ser (results_json (map call_result_json items))) \<le> DEFAULT_BUDGET_BYTES then (Inr items, cache)
      else
        (case heaviest (result_weight ser) items of
           None \<Rightarrow> (Inl OVER_BUDGET, cache)
         | Some i \<Rightarrow>
             fit_batch_budget ser now owner (Suc k)
               (items[i := result_mark (fst (store (now k) (result_full ser (items ! i)) owner cache)) (items ! i)])
               (snd (store (now k) (result_full ser (items ! i)) owner cache))))"
  by pat_completeness auto
termination
  by (relation "measure (\<lambda>(ser, _, _, _, items, _). length (movable (result_weight ser) items))")
    (auto simp: result_mark_def result_weight_def dest!: heaviest_Some intro!: movable_less)

declare fit_details.simps [simp del] fit_batch_budget.simps [simp del]

section \<open>Describing tools and reading on (call.rs)\<close>

record meta_env =
  mt_de_names :: "json \<Rightarrow> string + string list"
  mt_de_calls :: "json \<Rightarrow> string + batch_tool_call list"
  mt_ser :: "json \<Rightarrow> string"
  mt_regex :: regex_engine
  mt_upper :: "string \<Rightarrow> bool"
  mt_now :: "nat \<Rightarrow> instant"

definition not_found_detail :: "string \<Rightarrow> batch_tool_detail" where
  "not_found_detail name = \<lparr>bd_name = name, bd_tool = None, bd_error = Some ''not_found'', bd_cursor = None\<rparr>"

definition describe_tool :: "meta_env \<Rightarrow> tool_catalog \<Rightarrow> proxy_key \<Rightarrow> string \<Rightarrow> string + batch_tool_detail" where
  "describe_tool env catalog key name =
     (case find_by_wire_name catalog name of
        None \<Rightarrow> Inr (not_found_detail name)
      | Some tool \<Rightarrow>
          and_then (map_err policy_error_msg (key_can_use_tool (mt_regex env) key (wt_name tool) (wt_resource_id tool))) (\<lambda>visible.
            Inr (if visible
                 then \<lparr>bd_name = name,
                       bd_tool = Some \<lparr>td_name = wire tool, td_description = wt_description tool,
                                       td_input_schema = project_schema (mt_upper env) (wt_input_schema tool)\<rparr>,
                       bd_error = None, bd_cursor = None\<rparr>
                 else not_found_detail name)))"

definition get_tools ::
  "meta_env \<Rightarrow> json \<Rightarrow> tool_catalog \<Rightarrow> proxy_key \<Rightarrow> result_cache \<Rightarrow> (string + batch_tool_detail list) \<times> result_cache" where
  "get_tools env args catalog key cache =
     (case and_then (and_then (mt_de_names env args) deserialize_batch) (try_map (describe_tool env catalog key)) of
        Inl e \<Rightarrow> (Inl e, cache)
      | Inr items \<Rightarrow> fit_details (mt_ser env) (mt_now env) (pk_id key) 0 items cache)"

definition more_hint :: "string \<Rightarrow> nat \<Rightarrow> string" where
  "more_hint cursor next_offset =
     nl @ nl @ ''[More data available. Use cursor '' @ [CHR 0x22] @ cursor @ [CHR 0x22] @ '' with offset '' @
     dec next_offset @ '' to continue.]''"

definition offset_of :: "json \<Rightarrow> nat" where
  "offset_of args = unat (unwrap_or (Option.bind (json_get args ''offset'') as_u64) 0)"

text \<open>\<^const>\<open>None\<close> is the panic of a slice.\<close>

definition fetch_text :: "instant \<Rightarrow> string \<Rightarrow> proxy_key \<Rightarrow> nat \<Rightarrow> nat \<Rightarrow> result_cache \<Rightarrow> tool_call_result option \<times> result_cache" where
  "fetch_text now cursor key offset budget cache =
     (case fetch now cursor (pk_id key) offset budget cache of
        (Chunk ch, c') \<Rightarrow>
          (Some (text_ok
             (if sh_has_more ch then sh_text ch @ more_hint cursor (sh_offset ch + length (sh_text ch)) else sh_text ch)), c')
      | (Missing, c') \<Rightarrow> (Some (text_error ''cursor not found or expired''), c')
      | (SlicePanic, c') \<Rightarrow> (None, c'))"

definition fetch_result_meta_tool ::
  "instant \<Rightarrow> result_cache \<Rightarrow> proxy_key \<Rightarrow> json \<Rightarrow> nat \<Rightarrow> tool_call_result option \<times> result_cache" where
  "fetch_result_meta_tool now cache key args budget_bytes =
     (case Option.bind (json_get args ''cursor'') as_str of
        None \<Rightarrow>
          (Some (text_error (''missing '' @ [CHR 0x27] @ ''cursor'' @ [CHR 0x27] @ '' in asl__fetch arguments'')), cache)
      | Some cursor \<Rightarrow> fetch_text now cursor key (offset_of args) budget_bytes cache)"

section \<open>Eviction spares the newest\<close>

definition young :: "instant \<Rightarrow> (string, cached_result) hashmap \<Rightarrow> (string, cached_result) hashmap" where
  "young t0 m = filter (\<lambda>(k, e). t0 \<le> cr_created_at e) m"

lemma young_delete:
  assumes "hm_wf m" and "(k, e) \<in> set m" and "cr_created_at e < t0"
  shows "young t0 (AList.delete k m) = young t0 m"
proof -
  have "p = (k, e)" if "p \<in> set m" "fst p = k" for p
    using assms(1,2) that by (auto simp: hm_wf_def distinct_map inj_on_def)
  then show ?thesis unfolding young_def AList.delete_eq filter_filter
    using assms(3) by (intro filter_cong) (auto simp: case_prod_beta)
qed

lemma evict_young:
  "hm_wf m \<Longrightarrow> length (young t0 m) < MAX_CACHE_ENTRIES \<Longrightarrow> total_bytes_inner (young t0 m) < MAX_CACHE_BYTES \<Longrightarrow>
   young t0 (evict m) = young t0 m"
proof (induction m rule: evict.induct)
  case (1 m)
  show ?case
  proof (cases "(MAX_CACHE_ENTRIES \<le> length m \<or> MAX_CACHE_BYTES \<le> total_bytes_inner m) \<and> oldest_key m \<noteq> None")
    case True
    then obtain k e where k: "oldest_key m = Some k" and e: "(k, e) \<in> set m"
      "\<forall>p \<in> set m. cr_created_at e \<le> cr_created_at (snd p)"
    proof -
      obtain q where "min_by_key (\<lambda>(_, e). cr_created_at e) m = Some q" using True by (cases "min_by_key (\<lambda>(_, e). cr_created_at e) m") (auto simp: oldest_key_def)
      with min_by_key_Some [OF this] that [of "fst q" "snd q"] show thesis by (auto simp: oldest_key_def case_prod_beta)
    qed
    have "young t0 m \<noteq> m" using True 1(3,4) by auto
    then obtain p where "p \<in> set m" "cr_created_at (snd p) < t0"
      unfolding young_def by (metis (no_types, lifting) case_prod_beta filter_True not_le_imp_less)
    then have "cr_created_at e < t0" using e(2) by fastforce
    then have y: "young t0 (AList.delete k m) = young t0 m" using young_delete 1(2) e(1) by blast
    have "evict m = evict (AList.delete k m)" using True k by (subst evict.simps) auto
    moreover have "young t0 (evict (AList.delete k m)) = young t0 (AList.delete k m)"
      using 1(1) [OF _ k] True 1(2-4) y by (simp add: hm_wf_delete)
    ultimately show ?thesis using y by simp
  next
    case False
    then have "evict m = m" by (subst evict.simps) auto
    then show ?thesis by simp
  qed
qed

lemma young_get: "hm_wf m \<Longrightarrow> map_of m k = Some e \<Longrightarrow> t0 \<le> cr_created_at e \<Longrightarrow> map_of (young t0 m) k = Some e"
  unfolding young_def using hm_get_retain [of m "\<lambda>_ e. t0 \<le> cr_created_at e" k] by (simp add: hm_retain_def)

lemma get_young: "hm_wf m \<Longrightarrow> map_of (young t0 m) k = Some e \<Longrightarrow> map_of m k = Some e"
  unfolding young_def using hm_get_retain [of m "\<lambda>_ e. t0 \<le> cr_created_at e" k]
  by (cases "map_of m k") (auto simp: hm_retain_def split: if_splits)

lemma young_update:
  "length (young t0 (AList.update k v m)) \<le> Suc (length (young t0 m))"
  "total_bytes_inner (young t0 (AList.update k v m)) \<le> total_bytes_inner (young t0 m) + length (cr_body v)"
  by (induction m) (auto simp: young_def total_bytes_inner_def)

lemma cursor_of_inject [simp]: "cursor_of a = cursor_of b \<longleftrightarrow> a = b"
  using dec_inject [of "unat a" "unat b"] by (auto simp: cursor_of_def word_unat_eq_iff)

text \<open>
  After \<open>k\<close> stores since \<open>t0\<close>, when the counter was \<open>n0\<close>: the results \<open>M\<close> stored since then are in the
  cache under their cursors, and what was stored since then takes \<open>k\<close> entries and \<open>b\<close> bytes at most.
\<close>

definition stored_in :: "string \<Rightarrow> instant \<Rightarrow> u64 \<Rightarrow> nat \<Rightarrow> nat \<Rightarrow> (string \<times> string) set \<Rightarrow> result_cache \<Rightarrow> bool" where
  "stored_in owner t0 n0 k b M c \<longleftrightarrow>
     rc_wf c \<and> rc_counter c = n0 + of_nat k \<and> fst ` M \<subseteq> (\<lambda>j. cursor_of (n0 + of_nat j)) ` {..<k} \<and>
     (\<forall>(cursor, body) \<in> M. \<exists>e. map_of (rc_entries c) cursor = Some e \<and> cr_body e = body \<and> cr_proxy_key e = owner \<and>
        t0 \<le> cr_created_at e) \<and>
     length (young t0 (rc_entries c)) \<le> k \<and> total_bytes_inner (young t0 (rc_entries c)) \<le> b"

lemma store_stored_in:
  assumes "stored_in owner t0 n0 k b M c" and "t0 \<le> t" and "t < t0 + CACHE_TTL" and "k < MAX_CACHE_ENTRIES" and "b < MAX_CACHE_BYTES"
    and "store t body owner c = (cursor, c')"
  shows "stored_in owner t0 n0 (Suc k) (b + length body) (insert (cursor, body) M) c'"
proof -
  note s = assms(1) [unfolded stored_in_def]
  have wf: "rc_wf c" "rc_counter c = n0 + of_nat k" and i: "fst ` M \<subseteq> (\<lambda>j. cursor_of (n0 + of_nat j)) ` {..<k}" using s by auto
  have sM: "\<forall>p \<in> M. \<exists>e. map_of (rc_entries c) (fst p) = Some e \<and> cr_body e = snd p \<and> cr_proxy_key e = owner \<and> t0 \<le> cr_created_at e"
    using s by (simp add: case_prod_beta)
  let ?m = "rc_entries (sweep t c)" and ?e = "\<lparr>cr_body = body, cr_created_at = t, cr_proxy_key = owner\<rparr>"
  have c: "cursor = cursor_of (n0 + of_nat k)" "rc_entries c' = AList.update cursor ?e (evict ?m)" "rc_counter c' = n0 + of_nat (Suc k)"
    using assms(6) wf(2) by (auto simp: store_def cache_put_def Let_def algebra_simps)
  have wm: "hm_wf ?m" using sweep_wf [OF wf(1), of t] by (simp add: rc_wf_def)
  have ym: "young t0 ?m = young t0 (rc_entries c)"
  proof -
    have "fresh t e" if "t0 \<le> cr_created_at e" for e using that assms(3) by (auto simp: fresh_iff CACHE_TTL_def)
    then show ?thesis unfolding young_def sweep_def hm_retain_def by (auto simp: intro: filter_cong)
  qed
  have ye: "young t0 (evict ?m) = young t0 (rc_entries c)"
    using evict_young [OF wm, of t0] s assms(4,5) unfolding ym by simp
  have we: "hm_wf (evict ?m)" using evict_subset [OF wm] by blast
  have "length (young t0 (rc_entries c')) \<le> Suc k" "total_bytes_inner (young t0 (rc_entries c')) \<le> b + length body"
    using young_update [of t0 cursor ?e "evict ?m"] s unfolding c(2) ye by auto
  moreover have "\<exists>e. map_of (rc_entries c') cur = Some e \<and> cr_body e = bd \<and> cr_proxy_key e = owner \<and> t0 \<le> cr_created_at e"
    if "(cur, bd) \<in> insert (cursor, body) M" for cur bd
  proof (cases "(cur, bd) = (cursor, body)")
    case True
    then show ?thesis using assms(2) by (simp add: c(2) update_conv')
  next
    case False
    then have M: "(cur, bd) \<in> M" using that by auto
    obtain e where e: "map_of (rc_entries c) cur = Some e" "cr_body e = bd" "cr_proxy_key e = owner" "t0 \<le> cr_created_at e"
      using bspec [OF sM M] by auto
    have "map_of (evict ?m) cur = Some e"
    proof (rule get_young [OF we, of t0])
      show "map_of (young t0 (evict ?m)) cur = Some e"
        unfolding ye by (rule young_get [OF _ e(1,4)]) (use wf(1) in \<open>simp add: rc_wf_def\<close>)
    qed
    moreover have "cur \<noteq> cursor"
    proof -
      have "cur \<in> fst ` M" using image_eqI [OF _ M, of cur fst] by simp
      then have "cur \<in> (\<lambda>j. cursor_of (n0 + of_nat j)) ` {..<k}" by (rule subsetD [OF i])
      then obtain j where "j < k" "cur = cursor_of (n0 + of_nat j)" by auto
      moreover have "of_nat j \<noteq> (of_nat k :: u64)"
        using \<open>j < k\<close> assms(4) by (simp add: MAX_CACHE_ENTRIES_def of_nat_inverse word_unat_eq_iff unat_of_nat take_bit_nat_eq_self)
      ultimately show ?thesis by (simp add: c(1))
    qed
    ultimately show ?thesis using e(2-4) by (simp add: c(2) update_conv')
  qed
  moreover have "rc_wf c'" using we by (simp add: rc_wf_def c(2))
  moreover have "fst ` insert (cursor, body) M \<subseteq> (\<lambda>j. cursor_of (n0 + of_nat j)) ` {..<Suc k}"
    using i by (auto simp: c(1))
  ultimately show ?thesis using c(3) unfolding stored_in_def by blast
qed

section \<open>What the budget keeps\<close>

text \<open>An item of the answer against the item it was made from: the same, or its cursor in place of the contents.\<close>

definition moved ::
  "('i \<Rightarrow> nat option) \<Rightarrow> ('i \<Rightarrow> string) \<Rightarrow> (string \<Rightarrow> 'i \<Rightarrow> 'i) \<Rightarrow> (string \<times> string) set \<Rightarrow> 'i \<Rightarrow> 'i \<Rightarrow> bool" where
  "moved weight full mark M x y \<longleftrightarrow> y = x \<or> weight x \<noteq> None \<and> (\<exists>cursor. y = mark cursor x \<and> (cursor, full x) \<in> M)"

lemma moved_mono: "moved weight full mark M x y \<Longrightarrow> M \<subseteq> M' \<Longrightarrow> moved weight full mark M' x y"
  by (auto simp: moved_def)

locale byte_budget =
  fixes size_of :: "'i list \<Rightarrow> nat"
    and weight :: "'i \<Rightarrow> nat option"
    and full :: "'i \<Rightarrow> string"
    and mark :: "string \<Rightarrow> 'i \<Rightarrow> 'i"
    and fit :: "(nat \<Rightarrow> instant) \<Rightarrow> string \<Rightarrow> nat \<Rightarrow> 'i list \<Rightarrow> result_cache \<Rightarrow> (string + 'i list) \<times> result_cache"
  assumes fit_unfold:
    "fit now owner k items cache =
       (if size_of items \<le> DEFAULT_BUDGET_BYTES then (Inr items, cache)
        else
          (case heaviest weight items of
             None \<Rightarrow> (Inl OVER_BUDGET, cache)
           | Some i \<Rightarrow>
               fit now owner (Suc k) (items[i := mark (fst (store (now k) (full (items ! i)) owner cache)) (items ! i)])
                 (snd (store (now k) (full (items ! i)) owner cache))))"
    and mark_weight: "weight (mark c x) = None"
begin

lemma moved_update:
  assumes "list_all2 (moved weight full mark M) xs ys" and "i < length ys" and "weight (ys ! i) \<noteq> None"
  shows "list_all2 (moved weight full mark (insert (c, full (ys ! i)) M)) xs (ys[i := mark c (ys ! i)])"
proof -
  have "moved weight full mark M (xs ! i) (ys ! i)" using list_all2_nthD2 [OF assms(1,2)] .
  then have "ys ! i = xs ! i" using assms(3) mark_weight by (auto simp: moved_def)
  then have "moved weight full mark (insert (c, full (ys ! i)) M) (xs ! i) (mark c (ys ! i))"
    using assms(3) by (auto simp: moved_def)
  moreover have "list_all2 (moved weight full mark (insert (c, full (ys ! i)) M)) xs ys"
    by (rule list_all2_mono [OF assms(1)]) (auto intro: moved_mono)
  ultimately have "list_all2 (moved weight full mark (insert (c, full (ys ! i)) M)) (xs[i := xs ! i]) (ys[i := mark c (ys ! i)])"
    by (intro list_all2_update_cong)
  then show ?thesis by simp
qed

lemma fit_outcome:
  assumes "list_all2 (moved weight full mark M) xs ys" and "stored_in owner t0 n0 k b M cache"
    and "k + length (movable weight ys) \<le> MAX_CACHE_ENTRIES"
    and "b + sum_list (map (\<lambda>x. length (full x)) (movable weight ys)) < MAX_CACHE_BYTES"
    and "\<And>j. t0 \<le> now j \<and> now j < t0 + CACHE_TTL"
  shows "\<exists>M' k' b'. stored_in owner t0 n0 k' b' M' (snd (fit now owner k ys cache)) \<and>
    (case fst (fit now owner k ys cache) of
       Inr zs \<Rightarrow> list_all2 (moved weight full mark M') xs zs \<and> size_of zs \<le> DEFAULT_BUDGET_BYTES
     | Inl e \<Rightarrow> e = OVER_BUDGET \<and> (\<exists>zs. list_all2 (moved weight full mark M') xs zs \<and> movable weight zs = [] \<and>
         DEFAULT_BUDGET_BYTES < size_of zs))"
  using assms(1-4)
proof (induction "length (movable weight ys)" arbitrary: ys k b M cache rule: less_induct)
  case less
  consider "size_of ys \<le> DEFAULT_BUDGET_BYTES" | "DEFAULT_BUDGET_BYTES < size_of ys" "heaviest weight ys = None"
    | i where "DEFAULT_BUDGET_BYTES < size_of ys" "heaviest weight ys = Some i" by fastforce
  then show ?case
  proof cases
    case 1
    then have "fit now owner k ys cache = (Inr ys, cache)" by (subst fit_unfold) simp
    then show ?thesis using less.prems 1 by auto
  next
    case 2
    then have f: "fit now owner k ys cache = (Inl OVER_BUDGET, cache)" by (subst fit_unfold) simp
    have "movable weight ys = []" using 2(2) by (simp add: heaviest_None movable_def filter_empty_conv)
    then show ?thesis using less.prems(1,2) 2 unfolding f by auto
  next
    case 3
    define cur c' where "cur = fst (store (now k) (full (ys ! i)) owner cache)"
      and "c' = snd (store (now k) (full (ys ! i)) owner cache)"
    have f: "fit now owner k ys cache = fit now owner (Suc k) (ys[i := mark cur (ys ! i)]) c'"
      using 3 unfolding cur_def c'_def by (subst fit_unfold) simp
    note i = heaviest_Some [OF 3(2)]
    obtain a d where m: "movable weight ys = a @ ys ! i # d" "movable weight (ys[i := mark cur (ys ! i)]) = a @ d"
      using movable_update [OF conjunct1 [OF i] conjunct2 [OF i] mark_weight, of cur "ys ! i"] by blast
    have "stored_in owner t0 n0 (Suc k) (b + length (full (ys ! i))) (insert (cur, full (ys ! i)) M) c'"
    proof (rule store_stored_in [OF less.prems(2)])
      show "store (now k) (full (ys ! i)) owner cache = (cur, c')" by (simp add: cur_def c'_def)
    qed (use assms(5) [of k] less.prems(3,4) m(1) in auto)
    moreover have "list_all2 (moved weight full mark (insert (cur, full (ys ! i)) M)) xs (ys[i := mark cur (ys ! i)])"
      using moved_update [OF less.prems(1)] i by blast
    ultimately show ?thesis unfolding f using less.prems(3,4) m by (intro less.hyps) auto
  qed
qed

end

interpretation detail_budget: byte_budget "\<lambda>items. length (ser (results_json (map detail_json items)))" "detail_weight ser"
  "detail_full ser" detail_mark "fit_details ser" for ser
  by unfold_locales (subst fit_details.simps, rule refl, simp add: detail_weight_def detail_mark_def)

interpretation call_budget: byte_budget "\<lambda>items. length (ser (results_json (map call_result_json items)))" "result_weight ser"
  "result_full ser" result_mark "fit_batch_budget ser" for ser
  by unfold_locales (subst fit_batch_budget.simps, rule refl, simp add: result_weight_def result_mark_def)

section \<open>Describing tools\<close>

definition shown :: "meta_env \<Rightarrow> wrapped_tool \<Rightarrow> tool_descriptor" where
  "shown env tool =
     \<lparr>td_name = wire tool, td_description = wt_description tool,
      td_input_schema = project_schema (mt_upper env) (wt_input_schema tool)\<rparr>"

definition visible_tool :: "regex_engine \<Rightarrow> tool_catalog \<Rightarrow> proxy_key \<Rightarrow> string \<Rightarrow> wrapped_tool option" where
  "visible_tool rx catalog key name =
     (case find_by_wire_name catalog name of
        None \<Rightarrow> None
      | Some tool \<Rightarrow> if key_can_use_tool rx key (wt_name tool) (wt_resource_id tool) = Inr True then Some tool else None)"

text \<open>The body can be read with the cursor, by the key that stored it, until its time is over.\<close>

definition readable :: "result_cache \<Rightarrow> instant \<Rightarrow> string \<Rightarrow> string \<Rightarrow> string \<Rightarrow> bool" where
  "readable c t0 owner cursor body \<longleftrightarrow>
     (\<forall>t < t0 + CACHE_TTL. map_option (\<lambda>e. (cr_body e, cr_proxy_key e)) (live c t cursor) = Some (body, owner))"

definition describes :: "meta_env \<Rightarrow> tool_catalog \<Rightarrow> proxy_key \<Rightarrow> instant \<Rightarrow> result_cache \<Rightarrow> string \<Rightarrow> batch_tool_detail \<Rightarrow> bool" where
  "describes env catalog key t0 c name d \<longleftrightarrow>
     (case visible_tool (mt_regex env) catalog key name of
        None \<Rightarrow> d = not_found_detail name
      | Some tool \<Rightarrow>
          d = \<lparr>bd_name = name, bd_tool = Some (shown env tool), bd_error = None, bd_cursor = None\<rparr> \<or>
          (\<exists>cursor. d = \<lparr>bd_name = name, bd_tool = None, bd_error = None, bd_cursor = Some cursor\<rparr> \<and>
             readable c t0 (pk_id key) cursor (mt_ser env (descriptor_json (shown env tool)))))"

lemma stored_readable:
  assumes "stored_in owner t0 n0 k b M c" and "(cursor, body) \<in> M"
  shows "readable c t0 owner cursor body"
proof -
  have "\<forall>(cursor, body) \<in> M. \<exists>e. map_of (rc_entries c) cursor = Some e \<and> cr_body e = body \<and> cr_proxy_key e = owner \<and>
      t0 \<le> cr_created_at e"
    using assms(1) by (simp add: stored_in_def)
  from bspec [OF this assms(2)] obtain e where "map_of (rc_entries c) cursor = Some e" "cr_body e = body"
    "cr_proxy_key e = owner" "t0 \<le> cr_created_at e" by auto
  then show ?thesis by (auto simp: readable_def live_def fresh_iff CACHE_TTL_def)
qed

lemma stored_in_start: "rc_wf c \<Longrightarrow> \<forall>e \<in> snd ` set (rc_entries c). cr_created_at e < t0 \<Longrightarrow> stored_in owner t0 (rc_counter c) 0 0 {} c"
  by (fastforce simp: stored_in_def young_def total_bytes_inner_def filter_empty_conv)

lemma describe_tool_Inr:
  "describe_tool env catalog key name = Inr d \<Longrightarrow>
   d = (case visible_tool (mt_regex env) catalog key name of
          None \<Rightarrow> not_found_detail name
        | Some tool \<Rightarrow> \<lparr>bd_name = name, bd_tool = Some (shown env tool), bd_error = None, bd_cursor = None\<rparr>)"
  by (auto simp: describe_tool_def visible_tool_def shown_def and_then_Inr_iff split: option.splits if_splits)

lemma visible_tool_in: "visible_tool rx catalog key name = Some tool \<Longrightarrow> tool \<in> set (cat_tools catalog)"
  by (auto simp: visible_tool_def find_by_wire_name_def split: option.splits if_splits dest: find_Some_iff [THEN iffD1])

lemma moved_describes:
  assumes "describe_tool env catalog key name = Inr d" and "stored_in (pk_id key) t0 n0 k b M c"
    and "moved (detail_weight (mt_ser env)) (detail_full (mt_ser env)) detail_mark M d d'"
  shows "describes env catalog key t0 c name d'"
  using assms(3) unfolding moved_def describes_def describe_tool_Inr [OF assms(1)]
  by (auto simp: detail_weight_def detail_full_def detail_mark_def not_found_detail_def split: option.splits
      dest: stored_readable [OF assms(2)])

lemma movable_bytes:
  assumes "\<forall>x \<in> set xs. length (g x) \<le> n"
  shows "length (movable w xs) \<le> length xs" and "sum_list (map (\<lambda>x. length (g x)) (movable w xs)) \<le> length xs * n"
proof -
  show l: "length (movable w xs) \<le> length xs" by (simp add: movable_def)
  have "sum_list (map (\<lambda>x. length (g x)) (movable w xs)) \<le> sum_list (map (\<lambda>_. n) (movable w xs))"
    using assms by (intro sum_list_mono) (auto simp: movable_def)
  also have "\<dots> \<le> length xs * n" using l by (simp add: sum_list_triv)
  finally show "sum_list (map (\<lambda>x. length (g x)) (movable w xs)) \<le> length xs * n" .
qed

text \<open>C6: an answer of \<open>asl__describe\<close> has an item for each requested name, in the order of the request, and fits in
  48 KiB. A name of no tool and the name of a tool outside the key's scope give the same item, \<open>not_found\<close>; any other
  item holds the tool with its projected schema, or a cursor under which the key can read it until the cache forgets it:
  moving the later items to the cache never evicts an earlier one. Each description is assumed to be under a tenth of
  what the cache may hold, the clock to stay within the cache's life time and the cached results to be older.\<close>

theorem describe_contract:
  assumes "rc_wf cache" and "\<forall>e \<in> snd ` set (rc_entries cache). cr_created_at e < t0"
    and "\<forall>j. t0 \<le> mt_now env j \<and> mt_now env j < t0 + CACHE_TTL"
    and "\<forall>tool \<in> set (cat_tools catalog). length (mt_ser env (descriptor_json (shown env tool))) \<le> 6 * 1024 * 1024"
    and "mt_de_names env args = Inr names" and "get_tools env args catalog key cache = (Inr items, cache')"
  shows "list_all2 (describes env catalog key t0 cache') names items \<and>
    length (mt_ser env (results_json (map detail_json items))) \<le> DEFAULT_BUDGET_BYTES"
proof -
  let ?full = "detail_full (mt_ser env)"
  obtain ds where ds: "try_map (describe_tool env catalog key) names = Inr ds" "length names \<le> BATCH_LIMIT"
      "fit_details (mt_ser env) (mt_now env) (pk_id key) 0 ds cache = (Inr items, cache')"
    using assms(5,6)
    by (auto simp: get_tools_def deserialize_batch_def and_then_Inr_iff split: sum.splits if_splits)
  have d: "list_all2 (\<lambda>name d. describe_tool env catalog key name = Inr d) names ds"
    using ds(1) by (simp add: try_map_Inr_iff)
  have "length (?full x) \<le> 6 * 1024 * 1024" if x: "x \<in> set ds" for x
  proof -
    obtain name where "describe_tool env catalog key name = Inr x"
      using d x by (auto simp: list_all2_conv_all_nth in_set_conv_nth)
    from describe_tool_Inr [OF this] show ?thesis
      using assms(4) visible_tool_in by (force simp: detail_full_def not_found_detail_def split: option.splits)
  qed
  then have m: "length (movable (detail_weight (mt_ser env)) ds) \<le> length ds"
      "sum_list (map (\<lambda>x. length (?full x)) (movable (detail_weight (mt_ser env)) ds)) \<le> length ds * (6 * 1024 * 1024)"
    using movable_bytes [of ds ?full] by blast+
  have l: "length ds \<le> 10" using d ds(2) by (simp add: list_all2_lengthD BATCH_LIMIT_def)
  have "list_all2 (moved (detail_weight (mt_ser env)) ?full detail_mark {}) ds ds"
    by (simp add: list_all2_same moved_def)
  note fit = detail_budget.fit_outcome [where now = "mt_now env", OF this stored_in_start [OF assms(1,2)]]
  obtain M k b where f: "stored_in (pk_id key) t0 (rc_counter cache) k b M cache'"
      "list_all2 (moved (detail_weight (mt_ser env)) ?full detail_mark M) ds items"
      "length (mt_ser env (results_json (map detail_json items))) \<le> DEFAULT_BUDGET_BYTES"
    using fit [of "pk_id key"] m l assms(3) ds(3) by (auto simp: MAX_CACHE_ENTRIES_def MAX_CACHE_BYTES_def)
  have "describes env catalog key t0 cache' (names ! i) (items ! i)" if "i < length names" for i
    using that d f(2) by (intro moved_describes [OF _ f(1), of _ _ _ "ds ! i"]) (auto simp: list_all2_conv_all_nth)
  then show ?thesis using d f(2,3) by (auto simp: list_all2_conv_all_nth)
qed

section \<open>Runs\<close>

text \<open>A printer that makes every value long but the answer whose first item has been moved.\<close>

definition example_printer :: "json \<Rightarrow> string" where
  "example_printer j =
     (if j = results_json [JObject [(''name'', JString ''search__exa__crawl''), (''cursor'', JString ''r0'')],
                           detail_json (not_found_detail ''search__exa__find'')]
      then [] else replicate 50000 (CHR ''x''))"

definition example_meta :: meta_env where
  "example_meta =
     \<lparr>mt_de_names = (\<lambda>_. Inr [''search__exa__crawl'', ''search__exa__find'']), mt_de_calls = (\<lambda>_. Inl []),
      mt_ser = example_printer, mt_regex = literal_engine, mt_upper = (\<lambda>_. False), mt_now = (\<lambda>_. 20)\<rparr>"

definition example_details :: "batch_tool_detail list" where
  "example_details =
     [\<lparr>bd_name = ''search__exa__crawl'', bd_tool = None, bd_error = None, bd_cursor = Some ''r0''\<rparr>,
      not_found_detail ''search__exa__find'']"

lemma example_get_tools:
  "fst (get_tools example_meta JNull example_catalog example_key result_cache_new) = Inr example_details"
proof -
  let ?d = "\<lparr>bd_name = ''search__exa__crawl'', bd_tool = Some (shown example_meta (example_tool ''crawl'')), bd_error = None,
      bd_cursor = None\<rparr>" and ?n = "not_found_detail ''search__exa__find''"
  have "key_can_use_tool literal_engine example_key (wt_name (example_tool ''crawl'')) ''exa'' = Inr True" by code_simp
  moreover have "key_can_use_tool literal_engine example_key (wt_name (example_tool ''find'')) ''exa'' = Inr False" by code_simp
  moreover have "find_by_wire_name example_catalog ''search__exa__crawl'' = Some (example_tool ''crawl'')" by code_simp
  moreover have "find_by_wire_name example_catalog ''search__exa__find'' = Some (example_tool ''find'')" by code_simp
  ultimately have d: "try_map (describe_tool example_meta example_catalog example_key) [''search__exa__crawl'', ''search__exa__find''] =
      Inr [?d, ?n]"
    by (simp add: describe_tool_def shown_def example_meta_def example_tool_def)
  have e: "evict [] = []" by (subst evict.simps) (simp add: oldest_key_def)
  have c: "cursor_of 0 = ''r0''" unfolding cursor_of_def by code_simp
  have "heaviest (detail_weight example_printer) [?d, ?n] = Some 0"
    by (simp add: heaviest_def detail_weight_def not_found_detail_def map_filter_simps)
  then have "fst (fit_details example_printer (\<lambda>_. 20) ''dev'' 0 [?d, ?n] result_cache_new) = Inr example_details"
    by (subst fit_details.simps, subst fit_details.simps)
      (simp add: store_def cache_put_def sweep_def result_cache_new_def hm_retain_def Let_def c e detail_mark_def
        example_details_def example_printer_def results_json_def detail_json_def opt_field_def DEFAULT_BUDGET_BYTES_def)
  then show ?thesis
    using d by (simp add: get_tools_def example_meta_def deserialize_batch_def BATCH_LIMIT_def example_key_def)
qed

theorem describe_contract_witness:
  "list_all2 (describes example_meta example_catalog example_key 10
       (snd (get_tools example_meta JNull example_catalog example_key result_cache_new)))
     [''search__exa__crawl'', ''search__exa__find''] example_details \<and>
   length (example_printer (results_json (map detail_json example_details))) \<le> DEFAULT_BUDGET_BYTES"
proof -
  let ?r = "get_tools example_meta JNull example_catalog example_key result_cache_new"
  have l: "length (example_printer j) \<le> 6 * 1024 * 1024" for j by (simp add: example_printer_def)
  have "rc_wf result_cache_new" by (simp add: rc_wf_def result_cache_new_def hm_wf_def)
  moreover have "?r = (Inr example_details, snd ?r)" using example_get_tools by (simp add: prod_eq_iff)
  moreover have "\<forall>e \<in> snd ` set (rc_entries result_cache_new). cr_created_at e < 10" by (simp add: result_cache_new_def)
  moreover have "\<forall>j. 10 \<le> mt_now example_meta j \<and> mt_now example_meta j < 10 + CACHE_TTL"
    by (simp add: example_meta_def CACHE_TTL_def)
  moreover have "\<forall>tool \<in> set (cat_tools example_catalog).
      length (mt_ser example_meta (descriptor_json (shown example_meta tool))) \<le> 6 * 1024 * 1024"
    using l by (simp add: example_meta_def)
  moreover have "mt_de_names example_meta JNull = Inr [''search__exa__crawl'', ''search__exa__find'']" by (simp add: example_meta_def)
  ultimately have "list_all2 (describes example_meta example_catalog example_key 10 (snd ?r))
       [''search__exa__crawl'', ''search__exa__find''] example_details \<and>
      length (mt_ser example_meta (results_json (map detail_json example_details))) \<le> DEFAULT_BUDGET_BYTES"
    by (intro describe_contract)
  then show ?thesis by (simp add: example_meta_def)
qed

end
