(* ===== verification/Observe.thy ===== *)
theory Observe
  imports Secrets Shaping Integrity
begin

text \<open>
  What the gateway records of a call (\<open>src/observability/model.rs\<close>, \<open>aggregation.rs\<close>,
  \<open>capture.rs\<close>, \<open>request_id.rs\<close>, \<open>src/store/events.rs\<close>) and the scan of results for injected
  instructions (\<open>src/defense/mod.rs\<close>). Regular expressions, Unicode case folding and the database are
  parameters.
\<close>

section \<open>Events (model.rs)\<close>

datatype request_status = StSuccess | StUpstreamError u16 | StTimeout | StConnectionFailed | StLimited

definition status_label :: "request_status \<Rightarrow> string" where
  "status_label s =
     (case s of StSuccess \<Rightarrow> ''200'' | StUpstreamError code \<Rightarrow> dec (unat code) | StTimeout \<Rightarrow> ''0''
      | StConnectionFailed \<Rightarrow> ''0'' | StLimited \<Rightarrow> ''429'')"

definition is_transport_failure :: "request_status \<Rightarrow> bool" where
  "is_transport_failure s = (s = StUpstreamError 0 \<or> s = StTimeout \<or> s = StConnectionFailed)"

datatype request_kind = KindTool | KindPrompt | KindResource

definition request_kind_str :: "request_kind \<Rightarrow> string" where
  "request_kind_str k = (case k of KindTool \<Rightarrow> ''tool'' | KindPrompt \<Rightarrow> ''prompt'' | KindResource \<Rightarrow> ''resource'')"

definition request_kind_parse :: "string \<Rightarrow> request_kind option" where
  "request_kind_parse v =
     (if v = ''tool'' then Some KindTool else if v = ''prompt'' then Some KindPrompt
      else if v = ''resource'' then Some KindResource else None)"

record request_event =
  re_timestamp :: datetime
  re_request_id :: string
  re_proxy_key_id :: string
  re_resource_id :: string
  re_request_kind :: request_kind
  re_tool_name :: string
  re_upstream_key_ref :: string
  re_status :: request_status
  re_latency_ms :: u32
  re_request_units :: u32
  re_retry_count :: u8
  re_rate_limited :: bool
  re_queued_ms :: u32
  re_request_args :: "string option"
  re_response_preview :: "string option"
  re_upstream_latency_ms :: "u32 option"

lemma request_kind_roundtrip: "request_kind_parse (request_kind_str k) = Some k"
  by (cases k) (simp_all add: request_kind_parse_def request_kind_str_def)

section \<open>Request ids (request_id.rs)\<close>

definition pad20 :: "string \<Rightarrow> string" where
  "pad20 s = replicate (20 - length s) (CHR ''0'') @ s"

text \<open>The id and the counter after it; \<open>fetch_add\<close> wraps.\<close>

definition next_request_id :: "u64 \<Rightarrow> string \<times> u64" where
  "next_request_id counter = (''req_'' @ pad20 (dec (unat counter)), counter + 1)"

section \<open>Usage buckets (aggregation.rs)\<close>

datatype bucket_granularity = GMinute | GHour | GDay

definition granularity_label :: "bucket_granularity \<Rightarrow> string" where
  "granularity_label g = (case g of GMinute \<Rightarrow> ''minute'' | GHour \<Rightarrow> ''hour'' | GDay \<Rightarrow> ''day'')"

definition granularity_ns :: "bucket_granularity \<Rightarrow> int" where
  "granularity_ns g = (case g of GMinute \<Rightarrow> 60 * 10 ^ 9 | GHour \<Rightarrow> 3600 * 10 ^ 9 | GDay \<Rightarrow> 86400 * 10 ^ 9)"

definition bucket_start :: "datetime \<Rightarrow> bucket_granularity \<Rightarrow> datetime" where
  "bucket_start t g = t - t mod granularity_ns g"

record usage_bucket =
  ub_bucket_start :: datetime
  ub_granularity :: bucket_granularity
  ub_proxy_key_id :: string
  ub_resource_id :: string
  ub_tool_name :: string
  ub_upstream_key_ref :: string
  ub_status :: string
  ub_request_count :: u64
  ub_total_units :: u64
  ub_error_count :: u64
  ub_rate_limit_hits :: u64
  ub_total_latency_ms :: u64
  ub_total_queued_ms :: u64

definition bucket_absorb :: "request_event \<Rightarrow> usage_bucket \<Rightarrow> usage_bucket" where
  "bucket_absorb e b =
     b\<lparr>ub_request_count := ub_request_count b + 1,
       ub_total_units := ub_total_units b + ucast (re_request_units e),
       ub_error_count := ub_error_count b + (if re_status e \<noteq> StSuccess then 1 else 0),
       ub_rate_limit_hits := ub_rate_limit_hits b + (if re_rate_limited e then 1 else 0),
       ub_total_latency_ms := ub_total_latency_ms b + ucast (re_latency_ms e),
       ub_total_queued_ms := ub_total_queued_ms b + ucast (re_queued_ms e)\<rparr>"

definition bucket_from_event :: "datetime \<Rightarrow> bucket_granularity \<Rightarrow> request_event \<Rightarrow> usage_bucket" where
  "bucket_from_event start g e =
     bucket_absorb e
       \<lparr>ub_bucket_start = start, ub_granularity = g, ub_proxy_key_id = re_proxy_key_id e,
        ub_resource_id = re_resource_id e, ub_tool_name = re_tool_name e, ub_upstream_key_ref = re_upstream_key_ref e,
        ub_status = status_label (re_status e), ub_request_count = 0, ub_total_units = 0, ub_error_count = 0,
        ub_rate_limit_hits = 0, ub_total_latency_ms = 0, ub_total_queued_ms = 0\<rparr>"

text \<open>Buckets of an hour start on the hour, not after the event and less than an hour before it.\<close>

lemma bucket_start_bounds:
  "bucket_start t g \<le> t \<and> t < bucket_start t g + granularity_ns g \<and> granularity_ns g dvd bucket_start t g \<and>
   bucket_start (bucket_start t g) g = bucket_start t g"
proof -
  have "0 < granularity_ns g" by (cases g) (simp_all add: granularity_ns_def)
  then have m: "0 \<le> t mod granularity_ns g" "t mod granularity_ns g < granularity_ns g" by simp_all
  have "(t - t mod granularity_ns g) mod granularity_ns g = 0" by (simp add: mod_diff_right_eq)
  then show ?thesis using m by (simp add: bucket_start_def mod_eq_0_iff_dvd)
qed

section \<open>The repository (store/events.rs)\<close>

text \<open>
  What the database has taken in: events, and the rows handed to the bucket upsert. Either insertion may
  fail, which the code only logs; \<open>fails\<close> says which.
\<close>

record event_repo =
  er_events :: "request_event list"
  er_buckets :: "usage_bucket list"
  er_security :: "security_event list"

definition persist_request_event :: "bool \<times> bool \<Rightarrow> request_event \<Rightarrow> event_repo \<Rightarrow> event_repo" where
  "persist_request_event fails e r =
     (let r1 = (if fst fails then r else r\<lparr>er_events := er_events r @ [e]\<rparr>);
          bucket = bucket_from_event (bucket_start (re_timestamp e) GHour) GHour e
      in if snd fails then r1 else r1\<lparr>er_buckets := er_buckets r1 @ [bucket]\<rparr>)"

section \<open>Payload capture (capture.rs)\<close>

datatype redaction_pattern = PatBearer | PatAuthHeader | PatApiKey | PatSecretRef

datatype replacement = ReplSecretKey | ReplSecretRef | ReplRedacted

definition REDACTION_PATTERNS :: "(redaction_pattern \<times> replacement) list" where
  "REDACTION_PATTERNS =
     [(PatBearer, ReplRedacted), (PatAuthHeader, ReplRedacted), (PatApiKey, ReplSecretKey), (PatSecretRef, ReplSecretRef)]"

text \<open>
  \<open>rx\<close> splits a text into the matches of a pattern, marked \<^const>\<open>True\<close>, and what is between them. The
  pattern of API keys matches ASCII only, so \<open>redact_secret_key\<close> finds its character boundaries.
\<close>

type_synonym regex_cut = "redaction_pattern \<Rightarrow> string \<Rightarrow> (bool \<times> string) list"

definition redact_match :: "replacement \<Rightarrow> string \<Rightarrow> string" where
  "redact_match r s =
     (case r of
        ReplSecretKey \<Rightarrow> (case redact_secret_key s of Some t \<Rightarrow> t | None \<Rightarrow> ''<redacted>'')
      | ReplSecretRef \<Rightarrow> redact_secret_ref s
      | ReplRedacted \<Rightarrow> ''<redacted>'')"

definition redact_text :: "regex_cut \<Rightarrow> string \<Rightarrow> string" where
  "redact_text rx text =
     foldl (\<lambda>t (p, r). concat (map (\<lambda>(hit, s). if hit then redact_match r s else s) (rx p t))) text REDACTION_PATTERNS"

definition capture_text :: "regex_cut \<Rightarrow> string \<Rightarrow> nat \<Rightarrow> string" where
  "capture_text rx s max_bytes = redact_text rx (truncate_utf8 s max_bytes)"

text \<open>\<open>utf8\<close> is the validation of \<open>std::str::from_utf8\<close>.\<close>

definition capture_bytes :: "(string \<Rightarrow> bool) \<Rightarrow> regex_cut \<Rightarrow> string \<Rightarrow> nat \<Rightarrow> string" where
  "capture_bytes utf8 rx bytes max_bytes =
     (if utf8 bytes then capture_text rx bytes max_bytes else ''<non-utf8 '' @ dec (length bytes) @ '' bytes>'')"

section \<open>Content defense (defense/mod.rs)\<close>

record defense_result =
  df_flagged :: bool
  df_matched_rules :: "string list"

definition DEFENSE_RULES :: "(string \<times> string list) list" where
  "DEFENSE_RULES =
     [(''ignore_previous'', [''ignore previous'', ''ignore prior'', ''ignore above'']),
      (''disregard_above'', [''disregard the above'']),
      (''forget_instructions'', [''forget your instructions'', ''forget instructions'']),
      (''do_not_follow'',
       [''do not follow your instructions'', ''do not follow your rules'', ''do not follow instructions'']),
      (''you_are_now'', [''you are now '']),
      (''act_as'', [''act as a '', ''act as an '']),
      (''pretend_you_are'', [''pretend you are '', ''pretend to be '']),
      (''you_are_ai'',
       [''you are an ai'', ''you are now an ai'', ''you are a ai'', ''you are an assistant'', ''you are a language model'']),
      (''system_prompt'', [''system prompt'']),
      (''new_instructions'', [''new instructions'', ''new instruction'']),
      (''override'', [''override'']),
      (''system_tag'', [''<system>'', ''[system]'', ''### system'', ''###system''])]"

definition scan_content :: "(string \<Rightarrow> string) \<Rightarrow> string \<Rightarrow> defense_result" where
  "scan_content lower text =
     (let t = lower text;
          matched = map fst (filter (\<lambda>(_, kws). list_ex (contains_str t) kws) DEFENSE_RULES)
      in \<lparr>df_flagged = (matched \<noteq> []), df_matched_rules = matched\<rparr>)"

text \<open>A rule hits a text when one of its phrases is in it after folding, wherever it stands.\<close>

lemma scan_content_hit:
  assumes "(rule, kws) \<in> set DEFENSE_RULES" and "kw \<in> set kws" and "lower text = a @ kw @ b"
  shows "df_flagged (scan_content lower text) \<and> rule \<in> set (df_matched_rules (scan_content lower text))"
proof -
  let ?m = "map fst (filter (\<lambda>(_, kws). list_ex (contains_str (lower text)) kws) DEFENSE_RULES)"
  have "contains_str (lower text) kw" using assms(3) by (auto simp: contains_str_iff)
  with assms(2) have "list_ex (contains_str (lower text)) kws" by (auto simp: list_ex_iff)
  with assms(1) have "rule \<in> set ?m" by (force intro: image_eqI [where x = "(rule, kws)"])
  moreover from this have "?m \<noteq> []" by (metis empty_iff list.set(1))
  ultimately show ?thesis unfolding scan_content_def Let_def by (simp only: defense_result.simps simp_thms)
qed

lemma scan_content_flagged:
  "df_flagged (scan_content lower text) \<longleftrightarrow>
     (\<exists>(rule, kws) \<in> set DEFENSE_RULES. \<exists>kw \<in> set kws. contains_str (lower text) kw)"
  unfolding scan_content_def Let_def by (simp add: filter_empty_conv list_ex_iff case_prod_beta')

text \<open>Only rule names leave the scan, never the text.\<close>

lemma scan_content_names: "set (df_matched_rules (scan_content lower text)) \<subseteq> fst ` set DEFENSE_RULES"
  by (auto simp: scan_content_def Let_def)

end
