(* ===== verification/Keys.thy ===== *)
theory Keys
  imports Errors Machine "HOL-Library.Multiset"
begin

text \<open>
  The upstream key pool (\<open>src/keys/\<close> \<open>state.rs\<close>, \<open>strategy.rs\<close>, \<open>pool.rs\<close>): key states,
  the five load-balancing strategies and the operations under the pool's lock, with the clock and
  the random choices as arguments. The lemmas give every operation's effect on the entries; the
  machine at the end interleaves them with the guards that callers hold.
\<close>

section \<open>State (state.rs)\<close>

datatype key_state = Available | CoolingUntil instant | Leased u32

definition active_count :: "key_state \<Rightarrow> u32" where
  "active_count s = (case s of Leased c \<Rightarrow> c | _ \<Rightarrow> 0)"

definition is_cooling :: "key_state \<Rightarrow> bool" where
  "is_cooling s = (case s of CoolingUntil _ \<Rightarrow> True | _ \<Rightarrow> False)"

section \<open>Strategies (strategy.rs)\<close>

record key_candidate =
  kc_id :: key_id
  kc_weight :: u32
  kc_active_count :: u32
  kc_ewma_latency_ms :: "u32 option"

text \<open>
  The random choices: \<open>random_range(0..n)\<close>, and the weighted index, \<^const>\<open>None\<close> when
  \<open>WeightedIndex::new\<close> rejects the weights.
\<close>

record lb_random =
  lb_range :: "nat \<Rightarrow> nat"
  lb_weighted :: "u32 list \<Rightarrow> nat option"

definition select_key ::
  "lb_random \<Rightarrow> load_balance_strategy \<Rightarrow> key_candidate list \<Rightarrow> u64 \<Rightarrow> key_candidate option \<times> u64" where
  "select_key rnd strategy candidates cursor =
     (if candidates = [] then (None, cursor)
      else case strategy of
             RoundRobin \<Rightarrow> (nth_opt candidates (unat cursor mod length candidates), cursor + 1)
           | Random \<Rightarrow> (nth_opt candidates (lb_range rnd (length candidates)), cursor)
           | LeastRequests \<Rightarrow> (min_by_key kc_active_count candidates, cursor)
           | FastestResponse \<Rightarrow>
               (min_by_key (\<lambda>c. case kc_ewma_latency_ms c of None \<Rightarrow> (- 1 :: u32) | Some l \<Rightarrow> l) candidates, cursor)
           | Weighted \<Rightarrow>
               (case lb_weighted rnd (map (\<lambda>c. max 1 (kc_weight c)) candidates) of
                  None \<Rightarrow> (nth_opt candidates 0, cursor)
                | Some idx \<Rightarrow> (nth_opt candidates idx, cursor)))"

section \<open>The pool (pool.rs)\<close>

record key_entry =
  ke_state :: key_state
  ke_weight :: u32
  ke_ewma_latency_ms :: "u32 option"

record pool_state =
  ps_entries :: "(key_id, key_entry) hashmap"
  ps_rr_cursor :: u64

record key_status_snapshot =
  kss_key_id :: key_id
  kss_state :: key_state
  kss_cooling_remaining :: "duration option"
  kss_weight :: u32
  kss_ewma_latency_ms :: "u32 option"

definition DEFAULT_COOLDOWN :: duration where
  "DEFAULT_COOLDOWN = 60 * 10 ^ 9"

definition key_entry_new :: "u32 \<Rightarrow> key_entry" where
  "key_entry_new w = \<lparr>ke_state = Available, ke_weight = w, ke_ewma_latency_ms = None\<rparr>"

definition pool_new :: pool_state where
  "pool_new = \<lparr>ps_entries = [], ps_rr_cursor = 0\<rparr>"

definition expire_entry :: "instant \<Rightarrow> key_entry \<Rightarrow> key_entry" where
  "expire_entry now e =
     (case ke_state e of CoolingUntil t \<Rightarrow> if t \<le> now then e\<lparr>ke_state := Available\<rparr> else e | _ \<Rightarrow> e)"

definition expire_cooling :: "instant \<Rightarrow> pool_state \<Rightarrow> pool_state" where
  "expire_cooling now p = p\<lparr>ps_entries := hm_map (expire_entry now) (ps_entries p)\<rparr>"

definition release_state :: "key_state \<Rightarrow> key_state" where
  "release_state s =
     (case s of Leased c \<Rightarrow> if c = 1 then Available else Leased (c - 1) | other \<Rightarrow> other)"

definition lease :: "key_state \<Rightarrow> key_state" where
  "lease s = (case s of Available \<Rightarrow> Leased 1 | Leased c \<Rightarrow> Leased (c + 1) | CoolingUntil _ \<Rightarrow> s)"

definition update_entry :: "key_id \<Rightarrow> (key_entry \<Rightarrow> key_entry) \<Rightarrow> pool_state \<Rightarrow> pool_state" where
  "update_entry k f p = p\<lparr>ps_entries := hm_modify k f (ps_entries p)\<rparr>"

definition release :: "key_id \<Rightarrow> pool_state \<Rightarrow> pool_state" where
  "release k p = update_entry k (\<lambda>e. e\<lparr>ke_state := release_state (ke_state e)\<rparr>) p"

definition pool_insert :: "key_id \<Rightarrow> u32 \<Rightarrow> pool_state \<Rightarrow> pool_state" where
  "pool_insert k w p = p\<lparr>ps_entries := AList.update k (key_entry_new w) (ps_entries p)\<rparr>"

definition pool_build :: "(key_id \<times> u32) list \<Rightarrow> pool_state" where
  "pool_build ks = foldl (\<lambda>p (k, w). pool_insert k w p) pool_new ks"

definition candidate_of :: "key_id \<times> key_entry \<Rightarrow> key_candidate" where
  "candidate_of ke =
     \<lparr>kc_id = fst ke, kc_weight = ke_weight (snd ke), kc_active_count = active_count (ke_state (snd ke)),
      kc_ewma_latency_ms = ke_ewma_latency_ms (snd ke)\<rparr>"

definition candidates :: "pool_state \<Rightarrow> key_candidate list" where
  "candidates p =
     sort_key kc_id (map candidate_of (filter (\<lambda>ke. \<not> is_cooling (ke_state (snd ke))) (ps_entries p)))"

definition acquire ::
  "lb_random \<Rightarrow> load_balance_strategy \<Rightarrow> instant \<Rightarrow> pool_state \<Rightarrow> (key_pool_error + key_id) \<times> pool_state" where
  "acquire rnd strategy now p =
     (let p1 = expire_cooling now p; cs = candidates p1
      in if cs = [] then (Inl NoAvailableKey, p1)
         else
           (let (sel, cursor) = select_key rnd strategy cs (ps_rr_cursor p1);
                p2 = p1\<lparr>ps_rr_cursor := cursor\<rparr>
            in case sel of
                 None \<Rightarrow> (Inl NoAvailableKey, p2)
               | Some c \<Rightarrow>
                   (case map_of (ps_entries p2) (kc_id c) of
                      Some e \<Rightarrow>
                        (Inr (kc_id c), update_entry (kc_id c) (\<lambda>e. e\<lparr>ke_state := lease (ke_state e)\<rparr>) p2)
                    | None \<Rightarrow> (Inl (KeyNotFound (kc_id c)), p2))))"

definition mark_cooling :: "key_id \<Rightarrow> duration option \<Rightarrow> instant \<Rightarrow> pool_state \<Rightarrow> pool_state" where
  "mark_cooling k retry_after now p =
     (let d = (case retry_after of None \<Rightarrow> DEFAULT_COOLDOWN | Some d \<Rightarrow> d)
      in update_entry k (\<lambda>e. e\<lparr>ke_state := CoolingUntil (now + d)\<rparr>) p)"

definition is_available :: "key_id \<Rightarrow> instant \<Rightarrow> pool_state \<Rightarrow> bool \<times> pool_state" where
  "is_available k now p =
     (case map_of (ps_entries p) k of
        Some e \<Rightarrow> (\<not> is_cooling (ke_state (expire_entry now e)), update_entry k (expire_entry now) p)
      | None \<Rightarrow> (False, p))"

definition restore_runtime ::
  "key_id \<Rightarrow> duration option \<Rightarrow> u32 option \<Rightarrow> instant \<Rightarrow> pool_state \<Rightarrow> pool_state" where
  "restore_runtime k cooling_remaining ewma now p =
     update_entry k
       (\<lambda>e. (case cooling_remaining of
               Some d \<Rightarrow> if d \<noteq> 0 then e\<lparr>ke_state := CoolingUntil (now + d)\<rparr> else e
             | None \<Rightarrow> e)\<lparr>ke_ewma_latency_ms := ewma\<rparr>) p"

definition snapshot_of :: "instant \<Rightarrow> key_id \<times> key_entry \<Rightarrow> key_status_snapshot" where
  "snapshot_of now ke =
     \<lparr>kss_key_id = fst ke, kss_state = ke_state (snd ke),
      kss_cooling_remaining =
        (case ke_state (snd ke) of CoolingUntil t \<Rightarrow> if now \<le> t then Some (t - now) else None | _ \<Rightarrow> None),
      kss_weight = ke_weight (snd ke), kss_ewma_latency_ms = ke_ewma_latency_ms (snd ke)\<rparr>"

definition snapshot :: "instant \<Rightarrow> pool_state \<Rightarrow> key_status_snapshot list \<times> pool_state" where
  "snapshot now p =
     (let p1 = expire_cooling now p
      in (sort_key kss_key_id (map (snapshot_of now) (ps_entries p1)), p1))"

section \<open>Latency averages\<close>

text \<open>
  The \<open>f64\<close> arithmetic of \<open>record_latency\<close>, on non-negative values scaled by \<open>2 ^ 54\<close>: the two
  coefficients are the doubles nearest to 0.3 and to one minus that, every intermediate
  value is a multiple of \<open>2 ^ -54\<close>, and a result with more than 53 significant bits is rounded to
  nearest, ties to even.
\<close>

definition ALPHA_BITS :: nat where "ALPHA_BITS = 5404319552844595"
definition BETA_BITS :: nat where "BETA_BITS = 12610078956637388"

definition round_even :: "nat \<Rightarrow> nat \<Rightarrow> nat" where
  "round_even d m =
     (let q = m div d; r = m mod d
      in if 2 * r < d \<or> (2 * r = d \<and> even q) then q * d else (q + 1) * d)"

function round53_from :: "nat \<Rightarrow> nat \<Rightarrow> nat" where
  "round53_from d m =
     (if d = 0 then 0 else if m < 2 ^ 53 * d then round_even d m else round53_from (2 * d) m)"
  by pat_completeness auto
termination by (relation "measure (\<lambda>(d, m). m - d)") auto

declare round53_from.simps [simp del]

definition round53 :: "nat \<Rightarrow> nat" where
  "round53 m = round53_from 1 m"

definition ewma_ms :: "nat \<Rightarrow> nat \<Rightarrow> nat" where
  "ewma_ms ms prev =
     (let a = round53 (ALPHA_BITS * ms); b = round53 (BETA_BITS * prev); s = round53 (a + b)
      in min (s div 2 ^ 54) (2 ^ 32 - 1))"

definition latency_ms :: "duration \<Rightarrow> nat" where
  "latency_ms latency = min (latency div 10 ^ 6) (2 ^ 32 - 1)"

definition record_latency :: "key_id \<Rightarrow> duration \<Rightarrow> pool_state \<Rightarrow> pool_state" where
  "record_latency k latency p =
     update_entry k
       (\<lambda>e. e\<lparr>ke_ewma_latency_ms :=
          Some (case ke_ewma_latency_ms e of
                  Some prev \<Rightarrow> word_of_nat (ewma_ms (latency_ms latency) (unat prev))
                | None \<Rightarrow> word_of_nat (latency_ms latency))\<rparr>) p"

section \<open>Bounds of the average\<close>

lemma round_even_error:
  assumes "0 < d"
  shows "2 * round_even d m \<le> 2 * m + d" "2 * m \<le> 2 * round_even d m + d"
proof -
  obtain x where x: "x = m div d * d" by blast
  have m: "m = x + m mod d" by (simp add: x)
  have r: "m mod d < d" using assms by simp
  have e: "round_even d m = (if 2 * (m mod d) < d \<or> (2 * (m mod d) = d \<and> even (m div d)) then x else x + d)"
    by (simp add: round_even_def Let_def x)
  show "2 * round_even d m \<le> 2 * m + d" "2 * m \<le> 2 * round_even d m + d"
    unfolding e using m r by (cases "2 * (m mod d) < d \<or> (2 * (m mod d) = d \<and> even (m div d))"; simp; linarith)+
qed

lemma round_even_1 [simp]: "round_even 1 m = m"
  by (simp add: round_even_def Let_def)

lemma round53_from_error:
  assumes "d = 1 \<or> 2 ^ 52 * d \<le> m" "0 < d"
  shows "2 ^ 53 * round53_from d m \<le> (2 ^ 53 + 1) * m \<and> (2 ^ 53 - 1) * m \<le> 2 ^ 53 * round53_from d m"
  using assms
proof (induction d m rule: round53_from.induct)
  case (1 d m)
  show ?case
  proof (cases "m < 2 ^ 53 * d")
    case True
    then have e: "round53_from d m = round_even d m"
      using "1.prems" by (simp add: round53_from.simps)
    show ?thesis
    proof (cases "d = 1")
      case True
      then have "round53_from d m = m" unfolding e by (metis round_even_1)
      then show ?thesis by simp
    next
      case False
      with "1.prems" have "2 ^ 52 * d \<le> m" by simp
      with round_even_error [OF "1.prems"(2), of m] show ?thesis by (simp add: e)
    qed
  next
    case False
    then have "2 ^ 52 * (2 * d) \<le> m" by simp
    with "1.IH" "1.prems" False show ?thesis by (subst (1 2) round53_from.simps) simp
  qed
qed

lemmas round53_error = round53_from_error [of 1, folded round53_def, simplified]

lemma ewma_upper:
  assumes "ms \<le> M" "prev \<le> M" "M < 2 ^ 32"
  shows "ewma_ms ms prev \<le> M"
proof -
  let ?a = "round53 (ALPHA_BITS * ms)" and ?b = "round53 (BETA_BITS * prev)"
  have "2 ^ 53 * ?a \<le> (2 ^ 53 + 1) * (ALPHA_BITS * M)"
    using round53_error [of "ALPHA_BITS * ms"] assms(1) by (simp add: ALPHA_BITS_def)
  moreover have "2 ^ 53 * ?b \<le> (2 ^ 53 + 1) * (BETA_BITS * M)"
    using round53_error [of "BETA_BITS * prev"] assms(2) by (simp add: BETA_BITS_def)
  moreover have "2 ^ 53 * round53 (?a + ?b) \<le> (2 ^ 53 + 1) * (?a + ?b)"
    using round53_error [of "?a + ?b"] by simp
  ultimately have "round53 (?a + ?b) < 2 ^ 54 * (M + 1)"
    using assms(3) by (simp add: ALPHA_BITS_def BETA_BITS_def)
  then have "round53 (?a + ?b) div 2 ^ 54 < M + 1"
    by (simp add: less_mult_imp_div_less mult.commute)
  then show ?thesis by (simp add: ewma_ms_def Let_def)
qed

lemma ewma_lower:
  assumes "m \<le> ms" "m \<le> prev" "m < 2 ^ 32"
  shows "m \<le> ewma_ms ms prev + 1"
proof -
  let ?a = "round53 (ALPHA_BITS * ms)" and ?b = "round53 (BETA_BITS * prev)"
  have "(2 ^ 53 - 1) * (ALPHA_BITS * m) \<le> 2 ^ 53 * ?a"
    using round53_error [of "ALPHA_BITS * ms"] assms(1) by (simp add: ALPHA_BITS_def)
  moreover have "(2 ^ 53 - 1) * (BETA_BITS * m) \<le> 2 ^ 53 * ?b"
    using round53_error [of "BETA_BITS * prev"] assms(2) by (simp add: BETA_BITS_def)
  moreover have "(2 ^ 53 - 1) * (?a + ?b) \<le> 2 ^ 53 * round53 (?a + ?b)"
    using round53_error [of "?a + ?b"] by simp
  ultimately have "2 ^ 54 * m \<le> round53 (?a + ?b) + 2 ^ 54"
    using assms(3) by (simp add: ALPHA_BITS_def BETA_BITS_def)
  then have "m \<le> round53 (?a + ?b) div 2 ^ 54 + 1" by simp
  then show ?thesis using assms(3) by (simp add: ewma_ms_def Let_def)
qed

section \<open>What the operations do to the entries\<close>

abbreviation entry :: "pool_state \<Rightarrow> key_id \<Rightarrow> key_entry option" where
  "entry p k \<equiv> map_of (ps_entries p) k"

definition pool_wf :: "pool_state \<Rightarrow> bool" where
  "pool_wf p = hm_wf (ps_entries p)"

lemma entry_update [simp]:
  "entry (update_entry k f p) j = (if j = k then map_option f (entry p k) else entry p j)"
  by (simp add: update_entry_def)

lemma entry_expire [simp]: "entry (expire_cooling now p) k = map_option (expire_entry now) (entry p k)"
  by (simp add: expire_cooling_def)

lemma pool_wf_simps [simp]:
  "pool_wf (update_entry k f p) = pool_wf p" "pool_wf (expire_cooling now p) = pool_wf p"
  "pool_wf (p\<lparr>ps_rr_cursor := c\<rparr>) = pool_wf p"
  by (simp_all add: pool_wf_def update_entry_def expire_cooling_def)

lemma pool_wf_insert [wf_intros]: "pool_wf p \<Longrightarrow> pool_wf (pool_insert k w p)"
  by (simp add: pool_wf_def pool_insert_def)

lemma pool_wf_build [wf_intros]: "pool_wf (pool_build ks)"
proof -
  have "pool_wf p \<Longrightarrow> pool_wf (foldl (\<lambda>p (k, w). pool_insert k w p) p ks)" for p
    by (induction ks arbitrary: p) (auto intro: wf_intros)
  then show ?thesis by (simp add: pool_build_def pool_wf_def pool_new_def)
qed

definition cooling_at :: "instant \<Rightarrow> key_entry \<Rightarrow> bool" where
  "cooling_at now e = (case ke_state e of CoolingUntil t \<Rightarrow> now < t | _ \<Rightarrow> False)"

lemma is_cooling_expire [simp]: "is_cooling (ke_state (expire_entry now e)) = cooling_at now e"
  by (simp add: is_cooling_def expire_entry_def cooling_at_def split: key_state.splits)

lemma candidate_of_simps [simp]:
  "kc_id (candidate_of (k, e)) = k" "kc_active_count (candidate_of (k, e)) = active_count (ke_state e)"
  "kc_ewma_latency_ms (candidate_of (k, e)) = ke_ewma_latency_ms e"
  by (simp_all add: candidate_of_def)

lemma set_candidates:
  "pool_wf p \<Longrightarrow> set (candidates p) =
     {candidate_of (k, e) | k e. entry p k = Some e \<and> \<not> is_cooling (ke_state e)}"
  by (force simp: candidates_def pool_wf_def simp flip: hm_wf_get)

text \<open>The random choices fall into the ranges \<open>rand\<close> documents.\<close>

definition lb_ok :: "lb_random \<Rightarrow> bool" where
  "lb_ok rnd = ((\<forall>n > 0. lb_range rnd n < n) \<and> (\<forall>ws i. lb_weighted rnd ws = Some i \<longrightarrow> i < length ws))"

lemma select_key_in: "select_key rnd st cs cur = (Some c, cur') \<Longrightarrow> c \<in> set cs"
  by (auto simp: select_key_def dest: nth_opt_Some min_by_key_Some
      split: if_splits load_balance_strategy.splits option.splits)

lemma select_key_total:
  assumes "lb_ok rnd" "cs \<noteq> []"
  shows "\<exists>c cur'. select_key rnd st cs cur = (Some c, cur')"
proof (cases st)
  case Weighted
  then show ?thesis
    using assms by (auto simp: select_key_def nth_opt_def lb_ok_def split: option.splits) (metis length_map)+
qed (use assms in \<open>auto simp: select_key_def nth_opt_def lb_ok_def intro: min_by_key_ex\<close>)

lemma acquire_Inr:
  assumes wf: "pool_wf p" and acq: "acquire rnd st now p = (Inr k, p')"
  shows "\<exists>e. entry p k = Some e \<and> \<not> cooling_at now e \<and>
     entry p' k = Some ((expire_entry now e)\<lparr>ke_state := lease (ke_state (expire_entry now e))\<rparr>)"
    and "j \<noteq> k \<Longrightarrow> entry p' j = map_option (expire_entry now) (entry p j)"
    and "pool_wf p'"
proof -
  let ?p = "expire_cooling now p"
  obtain sel cur where s: "select_key rnd st (candidates ?p) (ps_rr_cursor ?p) = (sel, cur)" by force
  from acq s obtain c where c: "sel = Some c" "k = kc_id c"
      "p' = update_entry k (\<lambda>e. e\<lparr>ke_state := lease (ke_state e)\<rparr>) (?p\<lparr>ps_rr_cursor := cur\<rparr>)"
    by (auto simp: acquire_def Let_def split: if_splits option.splits)
  from select_key_in s c(1) have "c \<in> set (candidates ?p)" by blast
  with wf c(2) obtain e where "entry p k = Some e" "\<not> cooling_at now e"
    by (auto simp: set_candidates)
  then show "\<exists>e. entry p k = Some e \<and> \<not> cooling_at now e \<and>
     entry p' k = Some ((expire_entry now e)\<lparr>ke_state := lease (ke_state (expire_entry now e))\<rparr>)"
    by (simp add: c(3))
  show "j \<noteq> k \<Longrightarrow> entry p' j = map_option (expire_entry now) (entry p j)" "pool_wf p'"
    using wf by (simp_all add: c(3))
qed

lemma acquire_Inl:
  assumes "pool_wf p" "lb_ok rnd" "acquire rnd st now p = (Inl err, p')"
  shows "err = NoAvailableKey" "entry p k = Some e \<Longrightarrow> cooling_at now e"
    "p' = expire_cooling now p"
proof -
  let ?p = "expire_cooling now p"
  have "candidates ?p = []"
  proof (rule ccontr)
    assume ne: "candidates ?p \<noteq> []"
    then obtain c cur where s: "select_key rnd st (candidates ?p) (ps_rr_cursor ?p) = (Some c, cur)"
      using select_key_total [OF assms(2)] by blast
    with select_key_in have "c \<in> set (candidates ?p)" by blast
    with assms(1) obtain e where "entry ?p (kc_id c) = Some e" by (auto simp: set_candidates)
    with assms(3) ne s show False by (auto simp: acquire_def Let_def)
  qed
  then show "err = NoAvailableKey" "p' = ?p" using assms(3) by (simp_all add: acquire_def Let_def)
  show "entry p k = Some e \<Longrightarrow> cooling_at now e"
    using \<open>candidates ?p = []\<close> set_candidates [of ?p] assms(1) by (auto simp flip: is_cooling_expire)
qed

section \<open>The pool with its guards\<close>

text \<open>
  A guard is a live \<open>KeyGuard\<close>; dropping it releases its key once. Every method runs under the
  pool's lock, so an execution interleaves whole operations with the passing of time. The \<open>u32\<close>
  counters bound the guards that may be alive at once.
\<close>

record pool_sys =
  sys_pool :: pool_state
  sys_guards :: "key_id multiset"
  sys_now :: instant

datatype pool_label =
    LAcquire load_balance_strategy key_id
  | LAcquireFail load_balance_strategy
  | LDrop key_id
  | LCool key_id "duration option"
  | LLatency key_id duration
  | LQuery key_id
  | LSnapshot
  | LTick duration

inductive pool_step :: "pool_sys \<Rightarrow> pool_label \<Rightarrow> pool_sys \<Rightarrow> bool" where
  step_acquire:
    "acquire rnd st (sys_now s) (sys_pool s) = (Inr k, p) \<Longrightarrow> size (sys_guards s) < 2 ^ 32 - 1 \<Longrightarrow>
     pool_step s (LAcquire st k) (s\<lparr>sys_pool := p, sys_guards := add_mset k (sys_guards s)\<rparr>)"
| step_acquire_fail:
    "acquire rnd st (sys_now s) (sys_pool s) = (Inl e, p) \<Longrightarrow> lb_ok rnd \<Longrightarrow>
     pool_step s (LAcquireFail st) (s\<lparr>sys_pool := p\<rparr>)"
| step_drop:
    "k \<in># sys_guards s \<Longrightarrow>
     pool_step s (LDrop k) (s\<lparr>sys_pool := release k (sys_pool s), sys_guards := sys_guards s - {#k#}\<rparr>)"
| step_cool: "pool_step s (LCool k d) (s\<lparr>sys_pool := mark_cooling k d (sys_now s) (sys_pool s)\<rparr>)"
| step_latency: "pool_step s (LLatency k d) (s\<lparr>sys_pool := record_latency k d (sys_pool s)\<rparr>)"
| step_query: "pool_step s (LQuery k) (s\<lparr>sys_pool := snd (is_available k (sys_now s) (sys_pool s))\<rparr>)"
| step_snapshot: "pool_step s LSnapshot (s\<lparr>sys_pool := snd (snapshot (sys_now s) (sys_pool s))\<rparr>)"
| step_tick: "pool_step s (LTick d) (s\<lparr>sys_now := sys_now s + d\<rparr>)"

inductive_cases pool_stepE: "pool_step s l s'"

definition pool_init :: "pool_sys \<Rightarrow> bool" where
  "pool_init s = (\<exists>ks now. s = \<lparr>sys_pool = pool_build ks, sys_guards = {#}, sys_now = now\<rparr>)"

definition lease_ok :: "nat \<Rightarrow> key_state \<Rightarrow> bool" where
  "lease_ok n s = (case s of Leased c \<Rightarrow> 1 \<le> unat c \<and> unat c \<le> n | _ \<Rightarrow> True)"

definition pool_inv :: "pool_sys \<Rightarrow> bool" where
  "pool_inv s =
     (pool_wf (sys_pool s) \<and> size (sys_guards s) \<le> 2 ^ 32 - 1 \<and>
      (\<forall>k e. entry (sys_pool s) k = Some e \<longrightarrow> lease_ok (count (sys_guards s) k) (ke_state e)))"

lemma lease_ok_unleased [simp]: "lease_ok n Available" "lease_ok n (CoolingUntil t)"
  by (simp_all add: lease_ok_def)

lemma lease_ok_mono: "lease_ok m s \<Longrightarrow> m \<le> n \<Longrightarrow> lease_ok n s"
  by (auto simp: lease_ok_def split: key_state.splits)

lemma lease_ok_expire [simp]: "lease_ok n (ke_state e) \<Longrightarrow> lease_ok n (ke_state (expire_entry now e))"
  by (auto simp: lease_ok_def expire_entry_def split: key_state.splits)

lemma lease_ok_lease:
  assumes "lease_ok n s" "n < 2 ^ 32 - 1"
  shows "lease_ok (Suc n) (lease s)"
proof (cases s)
  case (Leased c)
  with assms have "1 \<le> unat c" "unat c \<le> n" by (auto simp: lease_ok_def)
  moreover from this assms(2) have "unat (c + 1) = unat c + 1"
    by (subst unat_add_lem [THEN iffD1]) simp_all
  ultimately show ?thesis by (simp add: Leased lease_def lease_ok_def)
qed (auto simp: lease_def lease_ok_def)

lemma lease_ok_release:
  assumes "lease_ok n s"
  shows "lease_ok (n - Suc 0) (release_state s)"
proof (cases s)
  case (Leased c)
  with assms have c: "1 \<le> unat c" "unat c \<le> n" by (auto simp: lease_ok_def)
  show ?thesis
  proof (cases "c = 1")
    case False
    from False have "unat c \<noteq> 1" by (metis unat_1 word_unat_eq_iff)
    moreover from c(1) have "c \<noteq> 0" by auto
    then have "unat (c - 1) = unat c - 1" by (rule unat_minus_one)
    ultimately have "1 \<le> unat (c - 1)" "unat (c - 1) \<le> n - 1" using c by simp_all
    with False show ?thesis by (simp add: Leased release_state_def lease_ok_def)
  qed (simp add: Leased release_state_def lease_ok_def)
qed (auto simp: release_state_def lease_ok_def)

lemma pool_build_available: "entry (pool_build ks) k = Some e \<Longrightarrow> ke_state e = Available"
proof -
  have "\<forall>k e. entry p k = Some e \<longrightarrow> ke_state e = Available \<Longrightarrow>
      \<forall>k e. entry (foldl (\<lambda>p (k, w). pool_insert k w p) p ks) k = Some e \<longrightarrow> ke_state e = Available" for p
  proof (induction ks arbitrary: p)
    case (Cons kw ks)
    have "\<forall>k e. entry (pool_insert (fst kw) (snd kw) p) k = Some e \<longrightarrow> ke_state e = Available"
      using Cons.prems by (auto simp: pool_insert_def key_entry_new_def split: if_splits)
    with Cons.IH show ?case by (simp add: case_prod_beta)
  qed simp
  from this [of pool_new] show "entry (pool_build ks) k = Some e \<Longrightarrow> ke_state e = Available"
    by (simp add: pool_build_def pool_new_def)
qed

lemma expire_entry_state: "ke_state (expire_entry now e) = ke_state e \<or> ke_state (expire_entry now e) = Available"
  by (auto simp: expire_entry_def split: key_state.splits)

lemma pool_inv_acquire:
  assumes "pool_inv s" "acquire rnd st (sys_now s) (sys_pool s) = (Inr k, p)" "size (sys_guards s) < 2 ^ 32 - 1"
  shows "pool_inv (s\<lparr>sys_pool := p, sys_guards := add_mset k (sys_guards s)\<rparr>)"
proof -
  let ?G = "sys_guards s"
  from assms(1) have wf: "pool_wf (sys_pool s)"
    and ok: "\<And>k e. entry (sys_pool s) k = Some e \<Longrightarrow> lease_ok (count ?G k) (ke_state e)"
    by (auto simp: pool_inv_def)
  note a = acquire_Inr [OF wf assms(2)]
  have "count ?G k < 2 ^ 32 - 1" using assms(3) count_le_size [of ?G k] by (rule le_less_trans [rotated])
  then have "lease_ok (count (add_mset k ?G) j) (ke_state e)" if "entry p j = Some e" for j e
    using that a(1) a(2) [of j] ok by (cases "j = k") (auto intro!: lease_ok_lease)
  with a(3) assms(3) show ?thesis by (auto simp: pool_inv_def)
qed

lemma pool_inv_frame:
  assumes "pool_inv s" "pool_wf p"
    and "\<And>k e. entry p k = Some e \<Longrightarrow> \<exists>e0. entry (sys_pool s) k = Some e0 \<and>
       (ke_state e = ke_state e0 \<or> ke_state e = Available \<or> is_cooling (ke_state e))"
  shows "pool_inv (s\<lparr>sys_pool := p\<rparr>)"
  using assms unfolding pool_inv_def
  by (fastforce simp: lease_ok_def is_cooling_def split: key_state.splits)

lemma pool_inv_step: "pool_inv s \<Longrightarrow> pool_step s l s' \<Longrightarrow> pool_inv s'"
proof (erule pool_stepE, goal_cases)
  case (1 rnd st k p)
  then show ?case by (auto intro: pool_inv_acquire)
next
  case (2 rnd st e p)
  then have "p = expire_cooling (sys_now s) (sys_pool s)" by (intro acquire_Inl(3)) (auto simp: pool_inv_def)
  with 2 show ?case
    using expire_entry_state by (auto simp: pool_inv_def intro!: pool_inv_frame)
next
  case (3 k)
  then show ?case
    by (auto simp: pool_inv_def release_def size_Diff_singleton lease_ok_release)
next
  case (4 k d)
  then show ?case
    by (auto simp: mark_cooling_def pool_inv_def is_cooling_def intro!: pool_inv_frame split: if_splits)
next
  case (5 k d)
  then show ?case
    by (auto simp: record_latency_def pool_inv_def intro!: pool_inv_frame split: if_splits)
next
  case (6 k)
  then show ?case
    using expire_entry_state
    by (auto simp: is_available_def pool_inv_def intro!: pool_inv_frame split: option.splits if_splits)
next
  case 7
  then show ?case
    using expire_entry_state by (auto simp: snapshot_def Let_def pool_inv_def intro!: pool_inv_frame)
next
  case (8 d)
  then show ?case by (simp add: pool_inv_def)
qed

interpretation pool: invariant_of pool_init pool_step pool_inv
proof
  show "pool_init s \<Longrightarrow> pool_inv s" for s
    by (auto simp: pool_init_def pool_inv_def pool_wf_build lease_ok_def dest!: pool_build_available)
qed (rule pool_inv_step)

section \<open>Properties\<close>


text \<open>C22: in every execution of a pool shared by callers that hold guards, a key counts as leased
  only while guards on it are alive, with a count between one and their number: leases never leak past
  the drop of the last guard and the counter never underflows.\<close>

theorem pool_leases_bounded:
  assumes "reach pool_init pool_step s" and "entry (sys_pool s) k = Some e" and "ke_state e = Leased c"
  shows "1 \<le> unat c \<and> unat c \<le> count (sys_guards s) k"
proof -
  have "lease_ok (count (sys_guards s) k) (ke_state e)"
    using pool.reach_inv [OF assms(1)] assms(2) by (simp add: pool_inv_def)
  with assms(3) show ?thesis by (simp add: lease_ok_def)
qed

lemma cooling_step:
  assumes "pool_step s l s'" "pool_wf (sys_pool s)" "entry (sys_pool s) k = Some e" "ke_state e = CoolingUntil t"
    and "\<forall>d. l \<noteq> LCool k d" "sys_now s < t"
  shows "sys_now s \<le> sys_now s' \<and> pool_wf (sys_pool s') \<and>
     (\<exists>e'. entry (sys_pool s') k = Some e' \<and> ke_state e' = CoolingUntil t) \<and> (\<forall>st. l \<noteq> LAcquire st k)"
proof -
  have c: "cooling_at (sys_now s) e" "expire_entry (sys_now s) e = e"
    using assms(4,6) by (auto simp: cooling_at_def expire_entry_def)
  show ?thesis
    using assms(1)
  proof (cases rule: pool_step.cases)
    case (step_acquire rnd st k' p)
    note a = acquire_Inr [OF assms(2) step_acquire(3)]
    from a(1) c assms(3) have "k' \<noteq> k" by auto
    with a(2) [of k] a(3) step_acquire c assms(3,4) show ?thesis by auto
  next
    case (step_acquire_fail rnd st err p)
    with acquire_Inl(3) [OF assms(2) _ step_acquire_fail(3)] c assms(2-4) show ?thesis by auto
  next
    case (step_latency k' d)
    with assms(2-4) show ?thesis by (auto simp: record_latency_def)
  qed (use assms c in \<open>auto simp: release_def release_state_def mark_cooling_def
      is_available_def snapshot_def Let_def split: option.splits\<close>)
qed

text \<open>Once a key is cooling down until an instant, no caller is given that key before the instant, in
  any interleaving of pool operations in which the key is not marked again.\<close>

lemma cooling_key_not_acquired:
  assumes "run pool_step s ls s'" and "pool_wf (sys_pool s)"
    and "entry (sys_pool s) k = Some e" and "ke_state e = CoolingUntil t"
    and "\<forall>d. LCool k d \<notin> set ls" and "sys_now s' < t"
  shows "\<forall>st. LAcquire st k \<notin> set ls"
proof -
  have mono: "run pool_step s ls s' \<Longrightarrow> sys_now s \<le> sys_now s'" for s ls s'
    by (induction rule: run.induct) (auto elim!: pool_stepE)
  show ?thesis
    using assms
  proof (induction arbitrary: e rule: run.induct)
    case (run_Cons s l s1 ls s')
    have "sys_now s1 \<le> sys_now s'" by (rule mono [OF run_Cons.hyps(2)])
    moreover have "sys_now s \<le> sys_now s1"
      using run_Cons.hyps(1) by (auto elim!: pool_stepE)
    ultimately have lt: "sys_now s < t" using run_Cons.prems by simp
    from run_Cons.prems have "\<forall>d. l \<noteq> LCool k d" by auto
    from cooling_step [OF run_Cons.hyps(1) run_Cons.prems(1,2,3) this lt] run_Cons.IH run_Cons.prems
    show ?case by auto
  qed simp
qed

text \<open>A latency average is a number of milliseconds between the smaller of the previous average and
  the new sample, less one for truncation, and the larger of them, for every sample and every
  average a \<open>u32\<close> can hold, with the rounding of double precision arithmetic.\<close>

lemma record_latency_bounds:
  assumes "entry p k = Some e" and "ke_ewma_latency_ms e = Some prev"
  shows "\<exists>avg. map_option ke_ewma_latency_ms (entry (record_latency k latency p) k) = Some (Some avg) \<and>
     min (latency_ms latency) (unat prev) \<le> unat avg + 1 \<and> unat avg \<le> max (latency_ms latency) (unat prev)"
proof -
  let ?n = "ewma_ms (latency_ms latency) (unat prev)"
  have p: "unat prev < 2 ^ 32" using unsigned_less [of prev] by simp
  have l: "latency_ms latency < 2 ^ 32" by (simp add: latency_ms_def)
  have u: "?n \<le> max (latency_ms latency) (unat prev)"
    using p l by (intro ewma_upper) auto
  moreover have "min (latency_ms latency) (unat prev) \<le> ?n + 1"
    using p l by (intro ewma_lower) auto
  moreover have "unat (word_of_nat ?n :: u32) = ?n"
    using u p l by (simp add: unat_of_nat)
  ultimately show ?thesis using assms by (simp add: record_latency_def)
qed

subsection \<open>Round robin\<close>

fun acquire_each ::
  "lb_random \<Rightarrow> load_balance_strategy \<Rightarrow> instant list \<Rightarrow> pool_state \<Rightarrow> (key_id list \<times> pool_state) option" where
  "acquire_each rnd st [] p = Some ([], p)"
| "acquire_each rnd st (t # ts) p =
     (case acquire rnd st t p of
        (Inr k, p') \<Rightarrow> map_option (map_prod (Cons k) id) (acquire_each rnd st ts p')
      | (Inl _, _) \<Rightarrow> None)"

definition none_cooling :: "pool_state \<Rightarrow> bool" where
  "none_cooling p = list_all (\<lambda>ke. \<not> is_cooling (ke_state (snd ke))) (ps_entries p)"

definition pool_ids :: "pool_state \<Rightarrow> key_id list" where
  "pool_ids p = sort (map fst (ps_entries p))"

lemma map_sort_key_self: "map f (sort_key f xs) = sort (map f xs)"
  by (rule sym, rule properties_for_sort) simp_all

lemma expire_none_cooling: "none_cooling p \<Longrightarrow> expire_cooling now p = p"
proof -
  assume nc: "none_cooling p"
  have "hm_map (expire_entry now) (ps_entries p) = ps_entries p"
    unfolding hm_map_def
  proof (rule map_idI)
    fix ke assume "ke \<in> set (ps_entries p)"
    with nc have "\<not> is_cooling (ke_state (snd ke))" by (simp add: none_cooling_def list_all_iff)
    then show "(case ke of (k, v) \<Rightarrow> (k, expire_entry now v)) = ke"
      by (cases ke) (simp add: expire_entry_def is_cooling_def split: key_state.splits)
  qed
  then show ?thesis by (simp add: expire_cooling_def)
qed

lemma candidates_none_cooling: "none_cooling p \<Longrightarrow> map kc_id (candidates p) = pool_ids p"
proof -
  assume "none_cooling p"
  then have "filter (\<lambda>ke. \<not> is_cooling (ke_state (snd ke))) (ps_entries p) = ps_entries p"
    by (simp add: none_cooling_def list_all_iff filter_id_conv)
  then show ?thesis by (simp add: candidates_def map_sort_key_self pool_ids_def candidate_of_def comp_def)
qed

lemma is_cooling_lease [simp]: "is_cooling (lease s) = is_cooling s"
  by (simp add: lease_def is_cooling_def split: key_state.splits)

lemma lease_none_cooling:
  "none_cooling p \<Longrightarrow> none_cooling (update_entry k (\<lambda>e. e\<lparr>ke_state := lease (ke_state e)\<rparr>) p)"
  by (fastforce simp: none_cooling_def update_entry_def hm_modify_def list_all_iff split: if_splits)

lemma acquire_round_robin:
  assumes "pool_wf p" "none_cooling p" "ps_entries p \<noteq> []"
  shows "\<exists>p'. acquire rnd RoundRobin now p =
       (Inr (pool_ids p ! (unat (ps_rr_cursor p) mod length (pool_ids p))), p') \<and>
     pool_wf p' \<and> none_cooling p' \<and> pool_ids p' = pool_ids p \<and> ps_rr_cursor p' = ps_rr_cursor p + 1"
proof -
  let ?cs = "candidates p" and ?i = "unat (ps_rr_cursor p) mod length (candidates p)"
  have ids: "map kc_id ?cs = pool_ids p" by (rule candidates_none_cooling [OF assms(2)])
  then have len: "length ?cs = length (pool_ids p)" by (metis length_map)
  have "pool_ids p \<noteq> []" using assms(3) unfolding pool_ids_def by (metis length_0_conv length_map length_sort)
  with len have ne: "?cs \<noteq> []" by auto
  then have i: "?i < length ?cs" by simp
  define c where "c = ?cs ! ?i"
  have ck: "kc_id c = pool_ids p ! ?i" using i by (simp add: c_def flip: ids)
  have "c \<in> set ?cs" using i by (simp add: c_def)
  then obtain e where e: "entry p (kc_id c) = Some e" using assms(1) by (auto simp: set_candidates)
  have sel: "select_key rnd RoundRobin ?cs (ps_rr_cursor p) = (Some c, ps_rr_cursor p + 1)"
    using ne i by (simp add: select_key_def nth_opt_def c_def)
  let ?p' = "update_entry (kc_id c) (\<lambda>e. e\<lparr>ke_state := lease (ke_state e)\<rparr>) (p\<lparr>ps_rr_cursor := ps_rr_cursor p + 1\<rparr>)"
  have "acquire rnd RoundRobin now p = (Inr (kc_id c), ?p')"
    using ne sel e by (simp add: acquire_def expire_none_cooling [OF assms(2)] Let_def)
  moreover have "none_cooling (p\<lparr>ps_rr_cursor := x\<rparr>)" for x using assms(2) by (simp add: none_cooling_def)
  then have "none_cooling ?p'" by (rule lease_none_cooling)
  moreover have "pool_ids ?p' = pool_ids p" by (simp add: pool_ids_def update_entry_def)
  ultimately show ?thesis using assms(1) ck len by (simp add: update_entry_def pool_wf_def)
qed

lemma round_robin_rotation:
  assumes "pool_wf p" "none_cooling p" "ps_entries p \<noteq> []" "unat (ps_rr_cursor p) + length ts \<le> 2 ^ 64"
  shows "\<exists>p'. acquire_each rnd RoundRobin ts p =
     Some (map (\<lambda>i. pool_ids p ! ((unat (ps_rr_cursor p) + i) mod length (pool_ids p))) [0 ..< length ts], p')"
  using assms
proof (induction ts arbitrary: p)
  case (Cons t ts)
  obtain p1 where a: "acquire rnd RoundRobin t p =
       (Inr (pool_ids p ! (unat (ps_rr_cursor p) mod length (pool_ids p))), p1)"
     "pool_wf p1" "none_cooling p1" "pool_ids p1 = pool_ids p" "ps_rr_cursor p1 = ps_rr_cursor p + 1"
    using acquire_round_robin [OF Cons.prems(1-3)] by blast
  show ?case
  proof (cases ts)
    case Nil
    with a show ?thesis by simp
  next
    case (Cons t' ts')
    with Cons.prems(4) have "unat (ps_rr_cursor p) + 1 < 2 ^ 64" by simp
    then have u: "unat (ps_rr_cursor p1) = unat (ps_rr_cursor p) + 1"
      unfolding a(5) by (subst unat_add_lem [THEN iffD1]) simp_all
    have ne: "ps_entries p1 \<noteq> []"
      using a(4) Cons.prems(3) unfolding pool_ids_def by (metis length_0_conv length_map length_sort)
    from Cons.IH [OF a(2,3) ne] Cons.prems(4) u obtain p' where
      "acquire_each rnd RoundRobin ts p1 =
         Some (map (\<lambda>i. pool_ids p ! ((unat (ps_rr_cursor p) + 1 + i) mod length (pool_ids p))) [0 ..< length ts], p')"
      by (auto simp: a(4))
    then show ?thesis
      by (simp add: a(1) upt_conv_Cons map_Suc_upt [symmetric] comp_def del: upt_Suc map_Suc_upt)
  qed
qed simp


section \<open>Runs\<close>

definition example_random :: lb_random where
  "example_random = \<lparr>lb_range = \<lambda>n. n - 1, lb_weighted = \<lambda>ws. if ws = [] then None else Some 0\<rparr>"

definition example_pool :: pool_state where
  "example_pool = pool_build [(1, 5), (2, 0), (3, 1)]"

lemma example_random_ok: "lb_ok example_random"
  by (auto simp: lb_ok_def example_random_def split: if_splits)



definition example_sys :: pool_sys where
  "example_sys = \<lparr>sys_pool = example_pool, sys_guards = {#}, sys_now = 0\<rparr>"

theorem pool_leases_bounded_witness:
  "\<exists>s k e c. reach pool_init pool_step s \<and> entry (sys_pool s) k = Some e \<and> ke_state e = Leased c \<and>
     1 \<le> unat c \<and> unat c \<le> count (sys_guards s) k"
proof -
  have i: "reach pool_init pool_step example_sys"
    by (rule reach_init) (auto simp: pool_init_def example_sys_def example_pool_def)
  obtain p' where a: "acquire example_random RoundRobin 0 example_pool = (Inr 1, p')"
      "entry p' 1 = Some \<lparr>ke_state = Leased 1, ke_weight = 5, ke_ewma_latency_ms = None\<rparr>"
    by (simp add: example_pool_def pool_build_def pool_insert_def pool_new_def acquire_def expire_cooling_def
        hm_map_def key_entry_new_def expire_entry_def candidates_def is_cooling_def candidate_of_def select_key_def
        nth_opt_def update_entry_def hm_modify_def lease_def)
  have "pool_step example_sys (LAcquire RoundRobin 1) (example_sys\<lparr>sys_pool := p', sys_guards := {#1#}\<rparr>)"
    using step_acquire [of example_random RoundRobin example_sys 1 p'] a by (simp add: example_sys_def)
  from reach_step [OF i this] have r: "reach pool_init pool_step (example_sys\<lparr>sys_pool := p', sys_guards := {#1#}\<rparr>)" .
  from pool_leases_bounded [OF this, of 1 _ 1] a(2) r show ?thesis by fastforce
qed

lemma cooling_key_not_acquired_witness:
  "\<forall>st. LAcquire st (1 :: key_id) \<notin> set [LTick 3]"
proof (rule cooling_key_not_acquired [where t = 5])
  let ?s = "example_sys\<lparr>sys_pool := mark_cooling 1 (Some 5) 0 example_pool\<rparr>"
  show "run pool_step ?s [LTick 3] (?s\<lparr>sys_now := 3\<rparr>)"
    using step_tick [of ?s 3] by (auto simp: run_Cons_iff example_sys_def)
  show "pool_wf (sys_pool ?s)" by (simp add: mark_cooling_def example_pool_def pool_wf_build)
  show "entry (sys_pool ?s) 1 = Some \<lparr>ke_state = CoolingUntil 5, ke_weight = 5, ke_ewma_latency_ms = None\<rparr>"
    by (simp add: mark_cooling_def example_pool_def pool_build_def pool_insert_def pool_new_def key_entry_new_def)
qed simp_all

lemma record_latency_bounds_witness:
  "\<exists>avg. map_option ke_ewma_latency_ms
       (entry (record_latency 1 (2 * 10 ^ 8) (record_latency 1 (10 ^ 8) example_pool)) 1) = Some (Some avg) \<and>
     min (latency_ms (2 * 10 ^ 8)) (unat (100 :: u32)) \<le> unat avg + 1 \<and>
     unat avg \<le> max (latency_ms (2 * 10 ^ 8)) (unat (100 :: u32))"
proof (rule record_latency_bounds)
  show "entry (record_latency 1 (10 ^ 8) example_pool) 1 =
      Some \<lparr>ke_state = Available, ke_weight = 5, ke_ewma_latency_ms = Some 100\<rparr>"
    by (simp add: record_latency_def example_pool_def pool_build_def pool_insert_def pool_new_def key_entry_new_def
        latency_ms_def)
qed simp

end
