(* ===== verification/KeyRegistry.thy ===== *)
theory KeyRegistry
  imports Keys Secrets
begin

text \<open>
  The key pools of all resources (\<open>src/keys/registry.rs\<close>): construction from the
  configuration with its start-up checks, the map from key ids to secret references, and the
  carrying of cooldowns and latency averages into the pools of a reloaded configuration.
\<close>

record resource_key_pool =
  rkp_pool :: pool_state
  rkp_strategy :: load_balance_strategy
  rkp_refs :: "string list"

type_synonym key_pool_registry = "(string, resource_key_pool) hashmap"

definition key_at :: "nat \<Rightarrow> key_id" where
  "key_at i = word_of_nat i + 1"

definition resource_key_pool_new :: "load_balance_strategy \<Rightarrow> (string \<times> u32) list \<Rightarrow> resource_key_pool" where
  "resource_key_pool_new strategy keys =
     \<lparr>rkp_pool = foldl (\<lambda>p (i, (_, weight)). pool_insert (key_at i) weight p) pool_new (enumerate 0 keys),
      rkp_strategy = strategy, rkp_refs = map fst keys\<rparr>"

definition secret_ref_for :: "resource_key_pool \<Rightarrow> key_id \<Rightarrow> string option" where
  "secret_ref_for r k = (if k = 0 then None else nth_opt (rkp_refs r) (unat (k - 1)))"

definition check_pool_refs :: "string \<Rightarrow> pool_key_config list \<Rightarrow> key_pool_error + unit" where
  "check_pool_refs rid keys =
     and_then
       (try_map (\<lambda>k. map_err (\<lambda>_. KeyPoolInvalidConfig
            (''resource '' @ rid @ '': key_pool ref is not a valid secret:// URI''))
          (secret_ref_from_str (pkc_secret_ref k))) keys)
       (\<lambda>_. Inr ())"

fun registry_pools ::
  "api_resource list \<Rightarrow> key_pool_registry \<Rightarrow> key_pool_error + key_pool_registry" where
  "registry_pools [] pools = Inr pools"
| "registry_pools (r # rs) pools =
     (case ar_key_pool r of
        None \<Rightarrow> registry_pools rs pools
      | Some pc \<Rightarrow>
          if kpc_keys pc = [] then
            Inl (KeyPoolInvalidConfig (''resource '' @ ar_id r @ '': key_pool.keys must not be empty''))
          else if auth_is_none (ar_auth r) then
            Inl (KeyPoolInvalidConfig (''resource '' @ ar_id r @
              '': key_pool requires auth type bearer or header (injection shape)''))
          else
            and_then (check_pool_refs (ar_id r) (kpc_keys pc)) (\<lambda>_.
              registry_pools rs
                (AList.update (ar_id r)
                   (resource_key_pool_new (kpc_strategy pc)
                      (map (\<lambda>k. (pkc_secret_ref k, pkc_weight k)) (kpc_keys pc))) pools)))"

definition registry_from_config :: "gateway_config \<Rightarrow> key_pool_error + key_pool_registry option" where
  "registry_from_config config =
     and_then (registry_pools (gc_api_resources config) []) (\<lambda>pools.
       Inr (if pools = [] then None else Some pools))"

text \<open>\<open>collect\<close> into a \<open>HashMap\<close>: a later entry replaces an earlier one with the same key.\<close>

definition collect_map :: "('k \<times> 'v) list \<Rightarrow> 'k \<rightharpoonup> 'v" where
  "collect_map xs = foldl (\<lambda>m (k, v). m(k \<mapsto> v)) Map.empty xs"

definition old_by_ref :: "instant \<Rightarrow> resource_key_pool \<Rightarrow> string \<rightharpoonup> key_status_snapshot" where
  "old_by_ref now old =
     collect_map (List.map_filter (\<lambda>s. map_option (\<lambda>r. (r, s)) (secret_ref_for old (kss_key_id s)))
       (fst (snapshot now (rkp_pool old))))"

fun restore_refs ::
  "(nat \<Rightarrow> instant) \<Rightarrow> (string \<rightharpoonup> key_status_snapshot) \<Rightarrow> (nat \<times> string) list \<Rightarrow> pool_state \<Rightarrow> pool_state" where
  "restore_refs at m [] p = p"
| "restore_refs at m ((i, r) # xs) p =
     restore_refs at m xs
       (case m r of
          None \<Rightarrow> p
        | Some s \<Rightarrow> restore_runtime (key_at i) (kss_cooling_remaining s) (kss_ewma_latency_ms s) (at i) p)"

text \<open>
  \<open>snap_at\<close> and \<open>restore_at\<close> are the readings of the clock: one per old pool, one per restored
  key. The snapshot also ends the expired cooldowns of the old pool.
\<close>

definition carry_pool ::
  "instant \<Rightarrow> (nat \<Rightarrow> instant) \<Rightarrow> resource_key_pool \<Rightarrow> resource_key_pool \<Rightarrow> resource_key_pool" where
  "carry_pool snap_at restore_at old new =
     new\<lparr>rkp_pool := restore_refs restore_at (old_by_ref snap_at old) (enumerate 0 (rkp_refs new)) (rkp_pool new)\<rparr>"

definition carry_runtime_from ::
  "(string \<Rightarrow> instant) \<Rightarrow> (string \<Rightarrow> nat \<Rightarrow> instant) \<Rightarrow> key_pool_registry \<Rightarrow> key_pool_registry \<Rightarrow>
   key_pool_registry \<times> key_pool_registry" where
  "carry_runtime_from snap_at restore_at new old =
     (map (\<lambda>(rid, np). (rid,
        case map_of old rid of None \<Rightarrow> np | Some op \<Rightarrow> carry_pool (snap_at rid) (restore_at rid) op np)) new,
      map (\<lambda>(rid, op). (rid,
        if map_of new rid = None then op
        else op\<lparr>rkp_pool := snd (snapshot (snap_at rid) (rkp_pool op))\<rparr>)) old)"

section \<open>Key ids and references\<close>

definition rkp_wf :: "resource_key_pool \<Rightarrow> bool" where
  "rkp_wf r =
     (pool_wf (rkp_pool r) \<and> length (rkp_refs r) < 2 ^ 64 \<and>
      (\<forall>k. entry (rkp_pool r) k \<noteq> None \<longleftrightarrow> k \<in> key_at ` {..< length (rkp_refs r)}))"

lemma unat_key_at: "i < 2 ^ 64 - 1 \<Longrightarrow> unat (key_at i) = Suc i"
  unfolding key_at_def by (subst unat_add_lem [THEN iffD1]) (simp_all add: unat_of_nat)

lemma key_at_inject: "i < 2 ^ 64 \<Longrightarrow> j < 2 ^ 64 \<Longrightarrow> key_at i = key_at j \<longleftrightarrow> i = j"
  by (simp add: key_at_def word_of_nat_eq_iff take_bit_eq_mod)

lemma insert_all_wf:
  "pool_wf p \<Longrightarrow> pool_wf (foldl (\<lambda>p (i, (_, w)). pool_insert (key_at i) w p) p xs)"
  by (induction xs arbitrary: p) (auto intro: wf_intros)

lemma entry_insert [simp]:
  "entry (pool_insert k w p) j = (if j = k then Some (key_entry_new w) else entry p j)"
  by (simp add: pool_insert_def)

lemma insert_all_entry:
  "entry (foldl (\<lambda>p (i, (_, w)). pool_insert (key_at i) w p) p xs) k = None \<longleftrightarrow>
     k \<notin> (\<lambda>x. key_at (fst x)) ` set xs \<and> entry p k = None"
  by (induction xs arbitrary: p) (auto split: if_splits)

lemma insert_all_available:
  "entry (foldl (\<lambda>p (i, (_, w)). pool_insert (key_at i) w p) p xs) k = Some e \<Longrightarrow>
     ke_state e = Available \<or> entry p k = Some e"
proof (induction xs arbitrary: p)
  case (Cons x xs)
  from Cons.IH [of "case x of (i, (_, w)) \<Rightarrow> pool_insert (key_at i) w p"] Cons.prems show ?case
    by (auto simp: key_entry_new_def split: prod.splits if_splits)
qed simp

lemma resource_key_pool_new_wf [wf_intros]:
  assumes "length keys < 2 ^ 64"
  shows "rkp_wf (resource_key_pool_new st keys)"
proof -
  have "(\<lambda>x. key_at (fst x)) ` set (enumerate 0 keys) = key_at ` {..< length keys}"
    by (simp add: enumerate_eq_zip lessThan_atLeast0 flip: image_image [of key_at fst] set_map)
  then show ?thesis
    using assms insert_all_entry [of pool_new "enumerate 0 keys"] insert_all_wf [of pool_new "enumerate 0 keys"]
    by (simp add: rkp_wf_def resource_key_pool_new_def pool_new_def pool_wf_def)
qed

lemma secret_ref_for_at:
  assumes "i < length (rkp_refs r)" "length (rkp_refs r) < 2 ^ 64"
  shows "secret_ref_for r (key_at i) = Some (rkp_refs r ! i)"
proof -
  have "unat (key_at i) = Suc i" using assms by (intro unat_key_at) simp
  then have "key_at i \<noteq> 0" by auto
  moreover have "unat (key_at i - 1) = i" using assms by (simp add: key_at_def unat_of_nat)
  ultimately show ?thesis using assms by (simp add: secret_ref_for_def nth_opt_def)
qed

lemma rkp_wf_acquire:
  assumes "rkp_wf r" "acquire rnd st now (rkp_pool r) = (Inr k, p)"
  shows "\<exists>ref. secret_ref_for r k = Some ref" "rkp_wf (r\<lparr>rkp_pool := p\<rparr>)"
proof -
  from assms(1) have wf: "pool_wf (rkp_pool r)" by (simp add: rkp_wf_def)
  note a = acquire_Inr [OF wf assms(2)]
  from a(1) assms(1) obtain i where "i < length (rkp_refs r)" "k = key_at i"
    by (force simp: rkp_wf_def)
  with assms(1) show "\<exists>ref. secret_ref_for r k = Some ref"
    by (auto simp: rkp_wf_def secret_ref_for_at)
  have "entry p j \<noteq> None \<longleftrightarrow> entry (rkp_pool r) j \<noteq> None" for j
    using a(1) a(2) [of j] by (cases "j = k") auto
  with assms(1) a(3) show "rkp_wf (r\<lparr>rkp_pool := p\<rparr>)" by (simp add: rkp_wf_def)
qed

section \<open>Carrying the run-time state\<close>

lemma collect_map_snoc: "collect_map (xs @ [(k, v)]) = (collect_map xs)(k \<mapsto> v)"
  by (simp add: collect_map_def)

lemma collect_map_distinct: "distinct (map fst xs) \<Longrightarrow> collect_map xs = map_of xs"
proof (induction xs rule: rev_induct)
  case (snoc x xs)
  obtain k v where x: "x = (k, v)" by force
  with snoc have "map_of xs k = None" by (auto simp: map_of_eq_None_iff)
  with snoc show ?case by (auto simp: x collect_map_snoc map_add_def fun_eq_iff split: option.splits)
qed (simp add: collect_map_def)

lemma restore_refs_other:
  "k \<notin> (\<lambda>x. key_at (fst x)) ` set xs \<Longrightarrow> entry (restore_refs at m xs p) k = entry p k"
proof (induction at m xs p rule: restore_refs.induct)
  case (2 at m i r xs p)
  then show ?case by (simp add: restore_runtime_def split: option.splits)
qed simp

lemma restore_refs_entry:
  assumes "distinct (map (key_at \<circ> fst) xs)" "(i, r) \<in> set xs"
  shows "entry (restore_refs at m xs p) (key_at i) =
     entry (case m r of None \<Rightarrow> p
       | Some s \<Rightarrow> restore_runtime (key_at i) (kss_cooling_remaining s) (kss_ewma_latency_ms s) (at i) p) (key_at i)"
  using assms
proof (induction at m xs p rule: restore_refs.induct)
  case (2 at m i' r' xs p)
  show ?case
  proof (cases "(i', r') = (i, r)")
    case True
    with "2.prems" have "key_at i \<notin> (\<lambda>x. key_at (fst x)) ` set xs" by (auto simp: comp_def image_iff)
    with True show ?thesis by (simp add: restore_refs_other)
  next
    case False
    with "2.prems" have in_xs: "(i, r) \<in> set xs" by auto
    with "2.prems"(1) have ne: "key_at i \<noteq> key_at i'" by (force simp: image_iff)
    from "2.IH" "2.prems"(1) in_xs ne show ?thesis
      by (simp add: restore_runtime_def split: option.splits)
  qed
qed simp

lemma snapshot_get:
  assumes "pool_wf p"
  shows "set (fst (snapshot now p)) = {snapshot_of now (k, expire_entry now e) | k e. entry p k = Some e}"
proof -
  have "(k, e') \<in> set (ps_entries (expire_cooling now p)) \<longleftrightarrow> (\<exists>e. entry p k = Some e \<and> e' = expire_entry now e)" for k e'
    using assms hm_wf_get [of "ps_entries (expire_cooling now p)" k e']
    by (auto simp: pool_wf_def expire_cooling_def)
  then show ?thesis by (force simp: snapshot_def Let_def)
qed

lemma old_by_ref_get:
  assumes "rkp_wf old" "distinct (rkp_refs old)" "j < length (rkp_refs old)" "entry (rkp_pool old) (key_at j) = Some e"
  shows "old_by_ref now old (rkp_refs old ! j) = Some (snapshot_of now (key_at j, expire_entry now e))"
proof -
  let ?S = "fst (snapshot now (rkp_pool old))"
  let ?f = "\<lambda>s. map_option (\<lambda>r. (r, s)) (secret_ref_for old (kss_key_id s))"
  from assms(1) have wf: "pool_wf (rkp_pool old)" and len: "length (rkp_refs old) < 2 ^ 64"
    and dom: "\<And>k e. entry (rkp_pool old) k = Some e \<Longrightarrow> \<exists>i < length (rkp_refs old). k = key_at i"
    by (auto simp: rkp_wf_def)
  have ids: "map kss_key_id ?S = pool_ids (expire_cooling now (rkp_pool old))"
    by (simp add: snapshot_def Let_def map_sort_key_self pool_ids_def snapshot_of_def comp_def)
  then have dist: "distinct (map kss_key_id ?S)"
    using wf by (simp add: pool_ids_def pool_wf_def hm_wf_def expire_cooling_def)
  have ref: "\<exists>i < length (rkp_refs old). kss_key_id s = key_at i \<and> secret_ref_for old (kss_key_id s) = Some (rkp_refs old ! i)"
    if "s \<in> set ?S" for s
    using that dom len by (fastforce simp: snapshot_get [OF wf] snapshot_of_def secret_ref_for_at)
  then have mf: "List.map_filter ?f ?S = map (\<lambda>s. (the (secret_ref_for old (kss_key_id s)), s)) ?S"
    unfolding map_filter_def by (subst filter_True) (fastforce simp: Let_def)+
  have "inj_on (\<lambda>k. the (secret_ref_for old k)) (kss_key_id ` set ?S)"
  proof (rule inj_onI)
    fix k k' assume "k \<in> kss_key_id ` set ?S" "k' \<in> kss_key_id ` set ?S"
      and eq: "the (secret_ref_for old k) = the (secret_ref_for old k')"
    with ref obtain i i' where "i < length (rkp_refs old)" "k = key_at i" "i' < length (rkp_refs old)" "k' = key_at i'"
      by (metis imageE)
    with eq len assms(2) show "k = k'" by (simp add: secret_ref_for_at nth_eq_iff_index_eq)
  qed
  with dist have "distinct (map fst (List.map_filter ?f ?S))"
    by (simp add: mf comp_def distinct_map) (metis comp_inj_on_iff comp_apply inj_on_cong)
  then have "old_by_ref now old = map_of (List.map_filter ?f ?S)"
    unfolding old_by_ref_def by (rule collect_map_distinct)
  moreover have "(rkp_refs old ! j, snapshot_of now (key_at j, expire_entry now e)) \<in> set (List.map_filter ?f ?S)"
    using assms(3,4) len by (force simp: mf snapshot_get [OF wf] snapshot_of_def secret_ref_for_at)
  ultimately show ?thesis using \<open>distinct (map fst (List.map_filter ?f ?S))\<close> by simp
qed

lemma old_by_ref_unknown:
  assumes "rkp_wf old" "r \<notin> set (rkp_refs old)"
  shows "old_by_ref now old r = None"
proof -
  have none: "collect_map xs r = None" if "r \<notin> fst ` set xs" for xs :: "(string \<times> key_status_snapshot) list"
    using that by (induction xs rule: rev_induct) (auto simp: collect_map_snoc, auto simp: collect_map_def)
  show ?thesis
    unfolding old_by_ref_def
    using assms(2) by (intro none) (auto simp: map_filter_def secret_ref_for_def nth_opt_def split: if_splits)
qed

definition carried :: "instant \<Rightarrow> instant \<Rightarrow> key_entry \<Rightarrow> key_entry \<Rightarrow> key_entry" where
  "carried snap restore old new =
     (case ke_state old of
        CoolingUntil t \<Rightarrow> if snap < t then new\<lparr>ke_state := CoolingUntil (restore + (t - snap))\<rparr> else new
      | _ \<Rightarrow> new)\<lparr>ke_ewma_latency_ms := ke_ewma_latency_ms old\<rparr>"

lemma restore_snapshot:
  "map_of (ps_entries (restore_runtime k (kss_cooling_remaining (snapshot_of snap (j, expire_entry snap e)))
      (kss_ewma_latency_ms (snapshot_of snap (j, expire_entry snap e))) t p)) k =
   map_option (carried snap t e) (entry p k)"
  by (cases "ke_state e") (auto simp: restore_runtime_def snapshot_of_def expire_entry_def carried_def
      intro!: option.map_cong)

text \<open>Reloading the configuration carries the remaining cooldown and the latency average of each
  key by its secret reference, whatever the order of the keys; leases are not carried, and a key whose
  reference is new starts fresh.\<close>

lemma carry_runtime_by_ref:
  assumes "rkp_wf old" and "distinct (rkp_refs old)" and "rkp_wf new"
    and "i < length (rkp_refs new)" and "entry (rkp_pool new) (key_at i) = Some e0"
  shows "(\<forall>j e. j < length (rkp_refs old) \<longrightarrow> rkp_refs old ! j = rkp_refs new ! i \<longrightarrow>
        entry (rkp_pool old) (key_at j) = Some e \<longrightarrow>
        entry (rkp_pool (carry_pool snap restore old new)) (key_at i) = Some (carried snap (restore i) e e0)) \<and>
     (rkp_refs new ! i \<notin> set (rkp_refs old) \<longrightarrow>
        entry (rkp_pool (carry_pool snap restore old new)) (key_at i) = Some e0)"
proof -
  from assms(3) have len: "length (rkp_refs new) < 2 ^ 64" by (simp add: rkp_wf_def)
  let ?xs = "enumerate 0 (rkp_refs new)"
  have "distinct (map (key_at \<circ> fst) ?xs)"
    unfolding map_map [symmetric] map_fst_enumerate
    using len by (auto simp: distinct_map key_at_inject intro!: inj_onI)
  moreover have "(i, rkp_refs new ! i) \<in> set ?xs" using assms(4) by (simp add: in_set_enumerate_eq)
  ultimately have r: "entry (rkp_pool (carry_pool snap restore old new)) (key_at i) =
      entry (case old_by_ref snap old (rkp_refs new ! i) of None \<Rightarrow> rkp_pool new
        | Some s \<Rightarrow> restore_runtime (key_at i) (kss_cooling_remaining s) (kss_ewma_latency_ms s) (restore i) (rkp_pool new))
        (key_at i)"
    by (simp add: carry_pool_def restore_refs_entry)
  show ?thesis
    unfolding r
  proof (intro conjI allI impI)
    fix j e assume "j < length (rkp_refs old)" "rkp_refs old ! j = rkp_refs new ! i"
      "entry (rkp_pool old) (key_at j) = Some e"
    with old_by_ref_get [OF assms(1,2), of j e snap]
    have "old_by_ref snap old (rkp_refs new ! i) = Some (snapshot_of snap (key_at j, expire_entry snap e))" by simp
    then show "entry (case old_by_ref snap old (rkp_refs new ! i) of None \<Rightarrow> rkp_pool new
        | Some s \<Rightarrow> restore_runtime (key_at i) (kss_cooling_remaining s) (kss_ewma_latency_ms s) (restore i) (rkp_pool new))
        (key_at i) = Some (carried snap (restore i) e e0)"
      using assms(5) by (simp only: option.case restore_snapshot option.map)
  qed (simp add: old_by_ref_unknown [OF assms(1)] assms(5))
qed

section \<open>Construction\<close>

definition pool_config_ok :: "api_resource \<Rightarrow> bool" where
  "pool_config_ok r =
     (case ar_key_pool r of
        None \<Rightarrow> True
      | Some pc \<Rightarrow> kpc_keys pc \<noteq> [] \<and> ar_auth r \<noteq> AuthNone \<and>
          (\<forall>k \<in> set (kpc_keys pc). \<exists>sr. pkc_secret_ref k = secret_ref_to_string sr \<and> wf_secret_ref sr))"

text \<open>What the start-up check accepts, and the pool it then builds.\<close>

lemma check_pool_refs_iff:
  "check_pool_refs rid keys = Inr u \<longleftrightarrow>
     (\<forall>k \<in> set keys. \<exists>sr. pkc_secret_ref k = secret_ref_to_string sr \<and> wf_secret_ref sr)"
proof -
  have "(\<exists>ys. list_all2 R xs ys) \<longleftrightarrow> (\<forall>x \<in> set xs. \<exists>y. R x y)" for R :: "pool_key_config \<Rightarrow> secret_ref \<Rightarrow> bool" and xs
    by (induction xs) (auto simp: list_all2_Cons1)
  then show ?thesis
    by (simp add: check_pool_refs_def and_then_Inr_iff try_map_Inr_iff secret_ref_from_str_iff)
qed

definition configured_pool :: "api_resource \<Rightarrow> resource_key_pool option" where
  "configured_pool r =
     map_option (\<lambda>pc. resource_key_pool_new (kpc_strategy pc)
       (map (\<lambda>k. (pkc_secret_ref k, pkc_weight k)) (kpc_keys pc))) (ar_key_pool r)"

lemma registry_pools_iff:
  "registry_pools rs pools = Inr out \<longleftrightarrow>
     list_all pool_config_ok rs \<and>
     out = foldl (\<lambda>m r. case configured_pool r of None \<Rightarrow> m | Some p \<Rightarrow> AList.update (ar_id r) p m) pools rs"
proof (induction rs pools rule: registry_pools.induct)
  case (2 r rs pools)
  show ?case
  proof (cases "ar_key_pool r")
    case None
    with "2.IH"(1) show ?thesis by (simp add: pool_config_ok_def configured_pool_def)
  next
    case (Some pc)
    show ?thesis
    proof (cases "kpc_keys pc \<noteq> [] \<and> \<not> auth_is_none (ar_auth r) \<and> check_pool_refs (ar_id r) (kpc_keys pc) = Inr ()")
      case True
      then have c: "check_pool_refs (ar_id r) (kpc_keys pc) = Inr ()" by simp
      from True have "pool_config_ok r"
        by (simp add: pool_config_ok_def Some check_pool_refs_iff auth_is_none_def)
      with True Some "2.IH"(2) [OF Some] show ?thesis by (simp add: configured_pool_def c)
    next
      case False
      then have "\<not> pool_config_ok r"
        using check_pool_refs_iff [of "ar_id r" "kpc_keys pc" "()"]
        by (auto simp: pool_config_ok_def Some auth_is_none_def)
      with False Some show ?thesis
        by (cases "check_pool_refs (ar_id r) (kpc_keys pc)") auto
    qed
  qed
qed auto

text \<open>The key pools are built from a configuration exactly when each configured pool has keys, an
  authentication shape to inject them into and only well-formed secret references; the registry then maps each
  resource with a pool to it, and is absent when no resource has one.\<close>

lemma registry_from_config_correct:
  "registry_from_config config = Inr reg \<longleftrightarrow>
     list_all pool_config_ok (gc_api_resources config) \<and>
     reg = (let pools = foldl (\<lambda>m r. case configured_pool r of None \<Rightarrow> m | Some p \<Rightarrow> AList.update (ar_id r) p m) []
                  (gc_api_resources config)
            in if pools = [] then None else Some pools)"
  by (auto simp: registry_from_config_def and_then_Inr_iff registry_pools_iff Let_def)

section \<open>Runs\<close>

definition example_old_pool :: resource_key_pool where
  "example_old_pool =
     (let r = resource_key_pool_new RoundRobin [(''secret://env/A'', 1), (''secret://env/B'', 1)]
      in r\<lparr>rkp_pool := mark_cooling 2 (Some 10) 0 (rkp_pool r)\<rparr>)"

definition example_new_pool :: resource_key_pool where
  "example_new_pool = resource_key_pool_new RoundRobin [(''secret://env/B'', 1), (''secret://env/C'', 1)]"

lemma example_old_wf: "rkp_wf example_old_pool"
proof -
  let ?r = "resource_key_pool_new RoundRobin [(''secret://env/A'', 1), (''secret://env/B'', 1)]"
  have "rkp_wf ?r" by (rule resource_key_pool_new_wf) simp
  moreover have "(entry (mark_cooling 2 (Some 10) 0 p) k \<noteq> None) = (entry p k \<noteq> None)" for p k
    by (simp add: mark_cooling_def)
  ultimately show ?thesis
    by (simp add: example_old_pool_def rkp_wf_def Let_def) (simp add: mark_cooling_def)
qed

lemma carry_runtime_by_ref_witness:
  "entry (rkp_pool (carry_pool 4 (\<lambda>_. 5) example_old_pool example_new_pool)) 1 =
     Some \<lparr>ke_state = CoolingUntil 11, ke_weight = 1, ke_ewma_latency_ms = None\<rparr>"
proof -
  have new: "rkp_wf example_new_pool" unfolding example_new_pool_def by (rule resource_key_pool_new_wf) simp
  have k: "key_at 0 = 1" "key_at 1 = 2" by (simp_all add: key_at_def)
  have e0: "entry (rkp_pool example_new_pool) (key_at 0) = Some (key_entry_new 1)"
    by (simp add: example_new_pool_def resource_key_pool_new_def key_at_def)
  have e: "entry (rkp_pool example_old_pool) (key_at 1) = Some ((key_entry_new 1)\<lparr>ke_state := CoolingUntil 10\<rparr>)"
    by (simp add: example_old_pool_def resource_key_pool_new_def key_at_def mark_cooling_def Let_def)
  have refs: "rkp_refs example_old_pool = [''secret://env/A'', ''secret://env/B'']"
    "rkp_refs example_new_pool = [''secret://env/B'', ''secret://env/C'']"
    by (simp_all add: example_old_pool_def example_new_pool_def resource_key_pool_new_def Let_def)
  have "entry (rkp_pool (carry_pool 4 (\<lambda>_. 5) example_old_pool example_new_pool)) (key_at 0) =
      Some (carried 4 5 ((key_entry_new 1)\<lparr>ke_state := CoolingUntil 10\<rparr>) (key_entry_new 1))"
    using carry_runtime_by_ref [OF example_old_wf _ new _ e0, where snap = 4 and restore = "\<lambda>_. 5",
        THEN conjunct1, rule_format, of 1] e
    by (simp add: refs)
  then show ?thesis by (simp add: k carried_def key_entry_new_def)
qed

end
