(* ===== verification/Egress.thy ===== *)
theory Egress
  imports Prelude
begin

unbundle bit_operations_syntax

text \<open>
  Outbound address checks (\<open>src/egress.rs\<close>): the classification of IPv4 and IPv6 addresses, the
  URL check, the filtering DNS resolver and the redirect decision. The URL parser of the \<open>url\<close>
  crate and the DNS lookup are parameters; the address parser of the standard library is modelled,
  since URL hosts are parsed with it. The classification is proved equal to a table of address blocks.
\<close>

section \<open>Addresses of the standard library\<close>

datatype ipv4 = IPv4 u8 u8 u8 u8
datatype ipv6 = IPv6 u16 u16 u16 u16 u16 u16 u16 u16
datatype ip_addr = V4 ipv4 | V6 ipv6

definition to_ipv4_mapped :: "ipv6 \<Rightarrow> ipv4 option" where
  "to_ipv4_mapped ip =
     (case ip of IPv6 a b c d e f g h \<Rightarrow>
        if a = 0 \<and> b = 0 \<and> c = 0 \<and> d = 0 \<and> e = 0 \<and> f = 0xffff
        then Some (IPv4 (ucast (drop_bit 8 g)) (ucast g) (ucast (drop_bit 8 h)) (ucast h)) else None)"

definition is_unspecified :: "ipv6 \<Rightarrow> bool" where
  "is_unspecified ip = (ip = IPv6 0 0 0 0 0 0 0 0)"

definition is_loopback :: "ipv6 \<Rightarrow> bool" where
  "is_loopback ip = (ip = IPv6 0 0 0 0 0 0 0 1)"

definition is_multicast :: "ipv6 \<Rightarrow> bool" where
  "is_multicast ip = (case ip of IPv6 a b c d e f g h \<Rightarrow> a AND 0xff00 = 0xff00)"

subsection \<open>Parsing\<close>

definition digit_value :: "nat \<Rightarrow> char \<Rightarrow> nat option" where
  "digit_value radix c =
     (let n = (of_char c :: nat);
          v = (if 48 \<le> n \<and> n \<le> 57 then Some (n - 48)
               else if 97 \<le> n \<and> n \<le> 122 then Some (n - 87)
               else if 65 \<le> n \<and> n \<le> 90 then Some (n - 55) else None)
      in case v of Some d \<Rightarrow> if d < radix then Some d else None | None \<Rightarrow> None)"

fun read_digits :: "nat \<Rightarrow> string \<Rightarrow> nat list \<times> string" where
  "read_digits radix [] = ([], [])"
| "read_digits radix (c # cs) =
     (case digit_value radix c of
        None \<Rightarrow> ([], c # cs)
      | Some d \<Rightarrow> (let (ds, r) = read_digits radix cs in (d # ds, r)))"

text \<open>\<open>read_number\<close>: at most \<open>max_digits\<close> digits, within the type's range, leading zeros on demand.\<close>

definition read_number :: "nat \<Rightarrow> nat \<Rightarrow> nat \<Rightarrow> bool \<Rightarrow> string \<Rightarrow> (nat \<times> string) option" where
  "read_number radix max_digits bound allow_zero_prefix s =
     (let (ds, r) = read_digits radix s; v = foldl (\<lambda>acc d. acc * radix + d) 0 ds
      in if ds = [] \<or> length ds > max_digits \<or> v > bound \<or>
            (\<not> allow_zero_prefix \<and> hd ds = 0 \<and> length ds > 1)
         then None else Some (v, r))"

definition read_separator :: "char \<Rightarrow> nat \<Rightarrow> (string \<Rightarrow> ('a \<times> string) option) \<Rightarrow> string \<Rightarrow> ('a \<times> string) option" where
  "read_separator sep i inner s =
     (if i = 0 then inner s
      else case s of c # cs \<Rightarrow> if c = sep then inner cs else None | [] \<Rightarrow> None)"

definition read_ipv4 :: "string \<Rightarrow> (ipv4 \<times> string) option" where
  "read_ipv4 s =
     (let num = read_number 10 3 255 False
      in Option.bind (read_separator (CHR ''.'') 0 num s) (\<lambda>(a, s).
         Option.bind (read_separator (CHR ''.'') 1 num s) (\<lambda>(b, s).
         Option.bind (read_separator (CHR ''.'') 2 num s) (\<lambda>(c, s).
         Option.bind (read_separator (CHR ''.'') 3 num s) (\<lambda>(d, s).
           Some (IPv4 (word_of_nat a) (word_of_nat b) (word_of_nat c) (word_of_nat d), s))))))"

text \<open>\<open>read_groups\<close> with \<open>left\<close> slots from index \<open>i\<close>: the groups read, whether the last two
  came from a trailing IPv4 address, and the rest of the text.\<close>

fun read_groups :: "nat \<Rightarrow> nat \<Rightarrow> string \<Rightarrow> u16 list \<times> bool \<times> string" where
  "read_groups i 0 s = ([], False, s)"
| "read_groups i (Suc left) s =
     (case (if left > 0 then read_separator (CHR '':'') i read_ipv4 s else None) of
        Some (IPv4 a b c d, r) \<Rightarrow>
          ([push_bit 8 (ucast a) OR ucast b, push_bit 8 (ucast c) OR ucast d], True, r)
      | None \<Rightarrow>
          (case read_separator (CHR '':'') i (read_number 16 4 65535 True) s of
             None \<Rightarrow> ([], False, s)
           | Some (g, r) \<Rightarrow>
               (let (gs, v4, r') = read_groups (Suc i) left r in (word_of_nat g # gs, v4, r'))))"

definition ipv6_of_list :: "u16 list \<Rightarrow> ipv6" where
  "ipv6_of_list xs =
     (case xs of [a, b, c, d, e, f, g, h] \<Rightarrow> IPv6 a b c d e f g h | _ \<Rightarrow> IPv6 0 0 0 0 0 0 0 0)"

definition read_ipv6 :: "string \<Rightarrow> (ipv6 \<times> string) option" where
  "read_ipv6 s =
     (let (hd_gs, hd_v4, r) = read_groups 0 8 s
      in if length hd_gs = 8 then Some (ipv6_of_list hd_gs, r)
         else if hd_v4 then None
         else case strip_prefix ''::'' r of
                None \<Rightarrow> None
              | Some r2 \<Rightarrow>
                  (let (tl_gs, _, r3) = read_groups 0 (7 - length hd_gs) r2
                   in Some (ipv6_of_list (hd_gs @ replicate (8 - length hd_gs - length tl_gs) 0 @ tl_gs), r3)))"

definition parse_ip_addr :: "string \<Rightarrow> ip_addr option" where
  "parse_ip_addr s =
     (case (case read_ipv4 s of Some (a, r) \<Rightarrow> Some (V4 a, r)
            | None \<Rightarrow> map_option (\<lambda>(a, r). (V6 a, r)) (read_ipv6 s)) of
        Some (a, []) \<Rightarrow> Some a
      | _ \<Rightarrow> None)"

section \<open>Classification\<close>

datatype block_reason =
    Unspecified | Loopback | Private | LinkLocal | Cgnat | Multicast | Reserved | Metadata
  | UniqueLocal | Hostname | Scheme | Unpinned | InvalidUrl | LookupFailed | Empty

definition SAFE_MESSAGE :: string where
  "SAFE_MESSAGE = ''upstream address is not allowed''"

definition reason_name :: "block_reason \<Rightarrow> string" where
  "reason_name r =
     (case r of
        Unspecified \<Rightarrow> ''unspecified'' | Loopback \<Rightarrow> ''loopback'' | Private \<Rightarrow> ''private''
      | LinkLocal \<Rightarrow> ''link_local'' | Cgnat \<Rightarrow> ''cgnat'' | Multicast \<Rightarrow> ''multicast''
      | Reserved \<Rightarrow> ''reserved'' | Metadata \<Rightarrow> ''metadata'' | UniqueLocal \<Rightarrow> ''unique_local''
      | Hostname \<Rightarrow> ''hostname'' | Scheme \<Rightarrow> ''scheme'' | Unpinned \<Rightarrow> ''unpinned''
      | InvalidUrl \<Rightarrow> ''invalid_url'' | LookupFailed \<Rightarrow> ''lookup_failed'' | Empty \<Rightarrow> ''empty'')"

definition egress_blocked_str :: "block_reason \<Rightarrow> string" where
  "egress_blocked_str r = SAFE_MESSAGE"

text \<open>An error and its \<open>source\<close> chain, each link an address rejection or something else.\<close>

fun find_blocked :: "block_reason option list \<Rightarrow> block_reason option" where
  "find_blocked [] = None"
| "find_blocked (e # es) = (case e of Some b \<Rightarrow> Some b | None \<Rightarrow> find_blocked es)"

definition classify_v4 :: "ipv4 \<Rightarrow> block_reason option" where
  "classify_v4 ip =
     (if ip = IPv4 168 63 129 16 then Some Metadata
      else case ip of IPv4 a b c d \<Rightarrow>
        if a = 0 then Some Unspecified
        else if a = 10 then Some Private
        else if a = 127 then Some Loopback
        else if a = 100 \<and> 64 \<le> b \<and> b < 128 then Some Cgnat
        else if a = 169 \<and> b = 254 then Some LinkLocal
        else if a = 172 \<and> 16 \<le> b \<and> b < 32 then Some Private
        else if a = 192 \<and> b = 168 then Some Private
        else if 224 \<le> a \<and> a \<le> 239 then Some Multicast
        else if 240 \<le> a then Some Reserved
        else None)"

definition is_nat64 :: "ipv6 \<Rightarrow> bool" where
  "is_nat64 ip = (case ip of IPv6 a b c d e f g h \<Rightarrow> a = 0x64 \<and> b = 0xff9b \<and> c = 0 \<and> d = 0 \<and> e = 0 \<and> f = 0)"

definition is_ipv4_compatible :: "ipv6 \<Rightarrow> bool" where
  "is_ipv4_compatible ip = (case ip of IPv6 a b c d e f g h \<Rightarrow> a = 0 \<and> b = 0 \<and> c = 0 \<and> d = 0 \<and> e = 0 \<and> f = 0)"

definition octets_of :: "u16 \<Rightarrow> u16 \<Rightarrow> ipv4" where
  "octets_of x y = IPv4 (ucast (drop_bit 8 x)) (ucast (x AND 0xff)) (ucast (drop_bit 8 y)) (ucast (y AND 0xff))"

definition last_ipv4 :: "ipv6 \<Rightarrow> ipv4" where
  "last_ipv4 ip = (case ip of IPv6 a b c d e f g h \<Rightarrow> octets_of g h)"

definition embedded_block :: "ipv6 \<Rightarrow> block_reason option" where
  "embedded_block ip =
     (if is_nat64 ip \<or> is_ipv4_compatible ip then classify_v4 (last_ipv4 ip)
      else case ip of IPv6 a b c d e f g h \<Rightarrow> if a = 0x2002 then classify_v4 (octets_of b c) else None)"

definition classify_v6 :: "ipv6 \<Rightarrow> block_reason option" where
  "classify_v6 ip =
     (case to_ipv4_mapped ip of
        Some v4 \<Rightarrow> classify_v4 v4
      | None \<Rightarrow>
          if is_unspecified ip then Some Unspecified
          else if is_loopback ip then Some Loopback
          else if is_multicast ip then Some Multicast
          else case ip of IPv6 a b c d e f g h \<Rightarrow>
            if a AND 0xffc0 = 0xfe80 then Some LinkLocal
            else if a AND 0xfe00 = 0xfc00 \<or> a AND 0xffc0 = 0xfec0 then Some UniqueLocal
            else embedded_block ip)"

definition classify_ip :: "ip_addr \<Rightarrow> block_reason option" where
  "classify_ip ip = (case ip of V4 a \<Rightarrow> classify_v4 a | V6 a \<Rightarrow> classify_v6 a)"

section \<open>URLs, names and redirects\<close>

definition blocked_hostname :: "string \<Rightarrow> bool" where
  "blocked_hostname h =
     (let host = map ascii_lower (trim_end_char (CHR ''.'') h)
      in host = ''localhost'' \<or> ends_with host ''.localhost'' \<or> host = ''metadata'' \<or>
         host = ''metadata.google.internal'' \<or> host = ''metadata.azure.internal'')"

record parsed_url =
  pu_scheme :: string
  pu_host_str :: "string option"

type_synonym url_parser = "string \<Rightarrow> parsed_url option"

definition check_parsed :: "parsed_url \<Rightarrow> bool \<Rightarrow> block_reason + unit" where
  "check_parsed url dns_pinned =
     (if pu_scheme url \<noteq> ''http'' \<and> pu_scheme url \<noteq> ''https'' then Inl Scheme
      else if \<not> dns_pinned then Inl Unpinned
      else case pu_host_str url of
             None \<Rightarrow> Inl InvalidUrl
           | Some host \<Rightarrow>
               (let unbracketed = Option.bind (strip_prefix ''['' host) (strip_suffix '']'');
                    reason =
                      (case parse_ip_addr (case unbracketed of Some h \<Rightarrow> h | None \<Rightarrow> host) of
                         Some ip \<Rightarrow> classify_ip ip
                       | None \<Rightarrow>
                           if unbracketed \<noteq> None then Some InvalidUrl
                           else if blocked_hostname host then Some Hostname else None)
                in case reason of Some r \<Rightarrow> Inl r | None \<Rightarrow> Inr ()))"

definition check_url :: "url_parser \<Rightarrow> string \<Rightarrow> bool \<Rightarrow> block_reason + unit" where
  "check_url parse url dns_pinned =
     (case parse url of None \<Rightarrow> Inl InvalidUrl | Some u \<Rightarrow> check_parsed u dns_pinned)"

type_synonym socket_addr = "ip_addr \<times> u16"

fun retain_loop ::
  "socket_addr list \<Rightarrow> socket_addr list \<Rightarrow> block_reason option \<Rightarrow> socket_addr list \<times> block_reason option" where
  "retain_loop [] allowed first_reason = (allowed, first_reason)"
| "retain_loop ((ip, port) # addrs) allowed first_reason =
     (case classify_ip ip of
        Some reason \<Rightarrow> retain_loop addrs allowed (if first_reason = None then Some reason else first_reason)
      | None \<Rightarrow> retain_loop addrs (allowed @ [(ip, 0)]) first_reason)"

definition retain_allowed :: "socket_addr list \<Rightarrow> block_reason + socket_addr list" where
  "retain_allowed addrs =
     (let (allowed, first_reason) = retain_loop addrs [] None
      in if allowed = [] then Inl (case first_reason of Some r \<Rightarrow> r | None \<Rightarrow> Empty) else Inr allowed)"

definition resolve_host :: "(string \<Rightarrow> socket_addr list option) \<Rightarrow> string \<Rightarrow> block_reason + socket_addr list" where
  "resolve_host lookup_host host =
     (if blocked_hostname host then Inl Hostname
      else case lookup_host host of None \<Rightarrow> Inl LookupFailed | Some addrs \<Rightarrow> retain_allowed addrs)"

definition MAX_REDIRECTS :: nat where "MAX_REDIRECTS = 10"

datatype redirect_choice = Follow | Blocked block_reason | Stopped

definition decide_redirect :: "url_parser \<Rightarrow> string \<Rightarrow> string list \<Rightarrow> redirect_choice" where
  "decide_redirect parse next previous =
     (if length previous > MAX_REDIRECTS \<or> next \<in> set previous then Stopped
      else case check_url parse next True of Inr _ \<Rightarrow> Follow | Inl b \<Rightarrow> Blocked b)"

section \<open>Words and numbers\<close>

lemma unat_and_not_mask: "unat ((a :: 'a::len word) AND NOT (mask n)) = unat a div 2 ^ n * 2 ^ n"
proof -
  have "(a AND NOT (mask n)) OR take_bit n a = a" "(a AND NOT (mask n)) AND take_bit n a = 0"
    by (rule bit_word_eqI; auto simp: bit_simps)+
  then have "unat (a AND NOT (mask n)) + unat (take_bit n a) = unat a"
    by (metis disjunctive_add_eq_or unsigned_and_eq unsigned_or_eq unsigned_0)
  moreover have "unat (take_bit n a) = unat a mod 2 ^ n"
    unfolding unsigned_take_bit_eq by (rule take_bit_eq_mod)
  ultimately show ?thesis by (metis add_diff_cancel_right' minus_mod_eq_div_mult)
qed

lemma prefix_masks:
  "(a :: u16) AND 0xff00 = 0xff00 \<longleftrightarrow> unat a div 2 ^ 8 = 0xff"
  "a AND 0xffc0 = 0xfe80 \<longleftrightarrow> unat a div 2 ^ 6 = 0x3fa"
  "a AND 0xfe00 = 0xfc00 \<longleftrightarrow> unat a div 2 ^ 9 = 0x7e"
  "a AND 0xffc0 = 0xfec0 \<longleftrightarrow> unat a div 2 ^ 6 = 0x3fb"
proof -
  have m: "(0xff00 :: u16) = NOT (mask 8)" "(0xffc0 :: u16) = NOT (mask 6)" "(0xfe00 :: u16) = NOT (mask 9)"
    by (simp_all add: mask_eq_exp_minus_1)
  note n = unat_and_not_mask [of a 8, folded m(1)] unat_and_not_mask [of a 6, folded m(2)]
    unat_and_not_mask [of a 9, folded m(3)]
  show "a AND 0xff00 = 0xff00 \<longleftrightarrow> unat a div 2 ^ 8 = 0xff" by (simp add: word_unat_eq_iff [of _ "0xff00"] n(1))
  show "a AND 0xffc0 = 0xfe80 \<longleftrightarrow> unat a div 2 ^ 6 = 0x3fa" by (simp add: word_unat_eq_iff [of _ "0xfe80"] n(2))
  show "a AND 0xfe00 = 0xfc00 \<longleftrightarrow> unat a div 2 ^ 9 = 0x7e" by (simp add: word_unat_eq_iff [of _ "0xfc00"] n(3))
  show "a AND 0xffc0 = 0xfec0 \<longleftrightarrow> unat a div 2 ^ 6 = 0x3fb" by (simp add: word_unat_eq_iff [of _ "0xfec0"] n(2))
qed

fun v4_num :: "ipv4 \<Rightarrow> nat" where
  "v4_num (IPv4 a b c d) = ((unat a * 2 ^ 8 + unat b) * 2 ^ 8 + unat c) * 2 ^ 8 + unat d"

fun v6_num :: "ipv6 \<Rightarrow> nat" where
  "v6_num (IPv6 a b c d e f g h) =
     ((((((unat a * 2 ^ 16 + unat b) * 2 ^ 16 + unat c) * 2 ^ 16 + unat d) * 2 ^ 16 + unat e) * 2 ^ 16 +
       unat f) * 2 ^ 16 + unat g) * 2 ^ 16 + unat h"

text \<open>\<open>in_block w base p n\<close>: the \<open>w\<close>-bit address number \<open>n\<close> lies in the block \<open>base/p\<close>.\<close>

definition in_block :: "nat \<Rightarrow> nat \<times> nat \<Rightarrow> nat \<Rightarrow> bool" where
  "in_block w bp n = (n div 2 ^ (w - snd bp) = fst bp div 2 ^ (w - snd bp))"

text \<open>0/8, 10/8, 100.64/10, 127/8, 169.254/16, 172.16/12, 192.168/16, 168.63.129.16/32, 224/4, 240/4.\<close>

definition blocked_v4 :: "nat \<Rightarrow> bool" where
  "blocked_v4 n = list_ex (\<lambda>b. in_block 32 b n)
     [(0, 8), (0x0a000000, 8), (0x64400000, 10), (0x7f000000, 8), (0xa9fe0000, 16), (0xac100000, 12),
      (0xc0a80000, 16), (0xa83f8110, 32), (0xe0000000, 4), (0xf0000000, 4)]"

text \<open>ff00::/8, fe80::/10, fc00::/7, fec0::/10; and the addresses that carry an IPv4 address:
  ::ffff:0:0/96, ::/96, 64:ff9b::/96 in their last 32 bits, 2002::/16 in the 32 bits after the prefix.\<close>

definition blocked_v6 :: "nat \<Rightarrow> bool" where
  "blocked_v6 n =
     (list_ex (\<lambda>b. in_block 128 b n)
        [(0xff * 2 ^ 120, 8), (0xfe80 * 2 ^ 112, 10), (0xfc00 * 2 ^ 112, 7), (0xfec0 * 2 ^ 112, 10)] \<or>
      list_ex (\<lambda>b. in_block 128 b n) [(0xffff * 2 ^ 32, 96), (0, 96), (0x64ff9b * 2 ^ 96, 96)] \<and>
        blocked_v4 (n mod 2 ^ 32) \<or>
      in_block 128 (0x2002 * 2 ^ 112, 16) n \<and> blocked_v4 (n div 2 ^ 80 mod 2 ^ 32))"

lemma octet_bounds: "unat (a :: u8) < 256" "unat (x :: u16) < 65536"
  using unsigned_less [of a] unsigned_less [of x] by simp_all

lemma div_digit: "r < k \<Longrightarrow> (x * k + r) div k = x" "r < k \<Longrightarrow> (x * k + r) mod k = (r :: nat)"
  by simp_all

lemma v4_num_div:
  fixes ip defines "N \<equiv> v4_num ip"
  assumes ip: "ip = IPv4 a b c d"
  shows "N div 2 ^ 16 = unat a * 256 + unat b" "N div 2 ^ 20 = unat a * 16 + unat b div 16"
    "N div 2 ^ 22 = unat a * 4 + unat b div 64" "N div 2 ^ 24 = unat a" "N div 2 ^ 28 = unat a div 16"
proof -
  let ?r = "unat c * 256 + unat d"
  note bd = octet_bounds(1) [of b] octet_bounds(1) [of c] octet_bounds(1) [of d]
  have "?r < 65536" using bd by simp
  moreover have "N = (unat a * 256 + unat b) * 65536 + ?r" by (simp add: N_def ip)
  ultimately show e: "N div 2 ^ 16 = unat a * 256 + unat b" using div_digit(1) by simp
  have s: "N div 2 ^ (16 + j) = (unat a * 256 + unat b) div 2 ^ j" for j
    by (simp only: power_add div_mult2_eq e)
  show "N div 2 ^ 20 = unat a * 16 + unat b div 16" using s [of 4] by simp
  show "N div 2 ^ 22 = unat a * 4 + unat b div 64" using s [of 6] by simp
  show "N div 2 ^ 24 = unat a" using s [of 8] bd by simp
  show "N div 2 ^ 28 = unat a div 16" using s [of 12] bd by simp
qed

lemma digit_eq: "r < k \<Longrightarrow> s < k \<Longrightarrow> x * k + r = y * k + s \<longleftrightarrow> x = y \<and> r = (s :: nat)"
  by (metis div_digit)

lemma v4_num_inject: "v4_num ip = v4_num ip' \<longleftrightarrow> ip = ip'"
proof -
  have b: "unat (x :: u8) < 2 ^ 8" for x using octet_bounds(1) [of x] by simp
  show ?thesis
    by (cases ip; cases ip') (simp only: v4_num.simps digit_eq [OF b b] word_unat_eq_iff [symmetric] ipv4.inject conj_assoc)
qed

lemma if_Some_eq_None: "((if c then Some x else y) = None) \<longleftrightarrow> \<not> c \<and> y = None"
  by simp

lemma octet_blocks:
  assumes "B < (256 :: nat)"
  shows "A * 4 + B div 64 = 0x191 \<longleftrightarrow> A = 100 \<and> 64 \<le> B \<and> B < 128"
    "A * 16 + B div 16 = 0xac1 \<longleftrightarrow> A = 172 \<and> 16 \<le> B \<and> B < 32"
    "A * 256 + B = 0xa9fe \<longleftrightarrow> A = 169 \<and> B = 254"
    "A * 256 + B = 0xc0a8 \<longleftrightarrow> A = 192 \<and> B = 168"
proof -
  have "B div 64 < 4" "B div 16 < 16" using assms by auto
  then have "A * 4 + B div 64 = 100 * 4 + 1 \<longleftrightarrow> A = 100 \<and> B div 64 = 1"
    "A * 16 + B div 16 = 172 * 16 + 1 \<longleftrightarrow> A = 172 \<and> B div 16 = 1"
    by (intro digit_eq; simp)+
  moreover have "B div 64 = 1 \<longleftrightarrow> 64 \<le> B \<and> B < 128" "B div 16 = 1 \<longleftrightarrow> 16 \<le> B \<and> B < 32"
    using assms by auto
  ultimately show "A * 4 + B div 64 = 0x191 \<longleftrightarrow> A = 100 \<and> 64 \<le> B \<and> B < 128"
    "A * 16 + B div 16 = 0xac1 \<longleftrightarrow> A = 172 \<and> 16 \<le> B \<and> B < 32" by simp_all
  show "A * 256 + B = 0xa9fe \<longleftrightarrow> A = 169 \<and> B = 254" "A * 256 + B = 0xc0a8 \<longleftrightarrow> A = 192 \<and> B = 168"
    using digit_eq [of B 256 254 A 169] digit_eq [of B 256 168 A 192] assms by simp_all
qed

lemma high_octet: "A < (256 :: nat) \<Longrightarrow> 224 \<le> A \<and> A \<le> 239 \<longleftrightarrow> A div 16 = 14" "A < (256 :: nat) \<Longrightarrow> 240 \<le> A \<longleftrightarrow> A div 16 = 15"
  by auto

lemma classify_v4_None:
  "classify_v4 (IPv4 a b c d) = None \<longleftrightarrow>
     IPv4 a b c d \<noteq> IPv4 168 63 129 16 \<and> unat a \<noteq> 0 \<and> unat a \<noteq> 10 \<and> unat a \<noteq> 127 \<and>
     \<not> (unat a = 100 \<and> 64 \<le> unat b \<and> unat b < 128) \<and> \<not> (unat a = 169 \<and> unat b = 254) \<and>
     \<not> (unat a = 172 \<and> 16 \<le> unat b \<and> unat b < 32) \<and> \<not> (unat a = 192 \<and> unat b = 168) \<and>
     \<not> (224 \<le> unat a \<and> unat a \<le> 239) \<and> \<not> 240 \<le> unat a"
proof -
  have n: "unat (0 :: u8) = 0" "unat (10 :: u8) = 10" "unat (127 :: u8) = 127" "unat (100 :: u8) = 100"
    "unat (64 :: u8) = 64" "unat (128 :: u8) = 128" "unat (169 :: u8) = 169" "unat (254 :: u8) = 254"
    "unat (172 :: u8) = 172" "unat (16 :: u8) = 16" "unat (32 :: u8) = 32" "unat (192 :: u8) = 192"
    "unat (168 :: u8) = 168" "unat (224 :: u8) = 224" "unat (239 :: u8) = 239" "unat (240 :: u8) = 240"
    by simp_all
  show ?thesis
    unfolding classify_v4_def ipv4.case if_Some_eq_None
    by (simp only: word_unat_eq_iff [of a] word_unat_eq_iff [of b] word_le_nat_alt word_less_nat_alt n simp_thms)
qed

lemma classify_v4_blocked: "classify_v4 ip = None \<longleftrightarrow> \<not> blocked_v4 (v4_num ip)"
proof (cases ip)
  case (IPv4 a b c d)
  note bd = octet_bounds(1) [of a] octet_bounds(1) [of b]
  have m: "v4_num ip = 0xa83f8110 \<longleftrightarrow> ip = IPv4 168 63 129 16"
    using v4_num_inject [of ip "IPv4 168 63 129 16"] by simp
  have "blocked_v4 (v4_num ip) \<longleftrightarrow>
      unat a = 0 \<or> unat a = 10 \<or> unat a * 4 + unat b div 64 = 0x191 \<or> unat a = 127 \<or>
      unat a * 256 + unat b = 0xa9fe \<or> unat a * 16 + unat b div 16 = 0xac1 \<or> unat a * 256 + unat b = 0xc0a8 \<or>
      ip = IPv4 168 63 129 16 \<or> unat a div 16 = 14 \<or> unat a div 16 = 15"
    using v4_num_div [OF IPv4] m by (simp add: blocked_v4_def in_block_def)
  then show ?thesis
    unfolding octet_blocks [OF bd(2)] high_octet [OF bd(1), symmetric] IPv4 classify_v4_None by argo
qed

subsection \<open>IPv6\<close>

lemma unat_octets:
  "unat (ucast (drop_bit 8 (x :: u16)) :: u8) = unat x div 2 ^ 8"
  "unat (ucast (x AND 0xff) :: u8) = unat x mod 2 ^ 8" "unat (ucast x :: u8) = unat x mod 2 ^ 8"
proof -
  have "take_bit 16 (unat x) = unat x" using octet_bounds(2) [of x] by (simp add: take_bit_eq_mod)
  then have "unat (drop_bit 8 x) = unat x div 2 ^ 8"
    unfolding unsigned_drop_bit_eq by (simp add: drop_bit_eq_div)
  moreover have "unat x div 2 ^ 8 < 2 ^ 8" using octet_bounds(2) [of x] by auto
  ultimately show "unat (ucast (drop_bit 8 x) :: u8) = unat x div 2 ^ 8"
    by (simp add: unsigned_ucast_eq take_bit_eq_mod)
  show c: "unat (ucast x :: u8) = unat x mod 2 ^ 8" by (simp add: unsigned_ucast_eq take_bit_eq_mod)
  have "ucast (x AND 0xff) = (ucast x :: u8)"
  proof -
    have "(0xff :: u16) = mask 8" by (simp add: mask_eq_exp_minus_1)
    then show ?thesis by (simp add: bit_eq_iff bit_simps)
  qed
  with c show "unat (ucast (x AND 0xff) :: u8) = unat x mod 2 ^ 8" by simp
qed

lemma v4_num_octets:
  "v4_num (octets_of x y) = unat x * 2 ^ 16 + unat y"
  "v4_num (IPv4 (ucast (drop_bit 8 x)) (ucast x) (ucast (drop_bit 8 y)) (ucast y)) = unat x * 2 ^ 16 + unat y"
proof -
  have *: "((X div 2 ^ 8 * 2 ^ 8 + X mod 2 ^ 8) * 2 ^ 8 + Y div 2 ^ 8) * 2 ^ 8 + Y mod 2 ^ 8 = X * 2 ^ 16 + Y" for X Y :: nat
  proof -
    have "Y div 2 ^ 8 * 2 ^ 8 + Y mod 2 ^ 8 = Y" by (rule div_mult_mod_eq)
    moreover have "(X * 2 ^ 8 + Y div 2 ^ 8) * 2 ^ 8 + Y mod 2 ^ 8 = X * 2 ^ 16 + (Y div 2 ^ 8 * 2 ^ 8 + Y mod 2 ^ 8)"
      by (simp add: algebra_simps)
    ultimately show ?thesis by (simp only: div_mult_mod_eq)
  qed
  show "v4_num (octets_of x y) = unat x * 2 ^ 16 + unat y"
    by (simp only: octets_of_def v4_num.simps unat_octets(1,2) *)
  show "v4_num (IPv4 (ucast (drop_bit 8 x)) (ucast x) (ucast (drop_bit 8 y)) (ucast y)) = unat x * 2 ^ 16 + unat y"
    unfolding v4_num.simps unat_octets(1) unfolding unat_octets(3) by (rule * )
qed

lemma v6_num_parts:
  fixes a b c d e f g h :: u16
  defines "N \<equiv> v6_num (IPv6 a b c d e f g h)"
  shows "N div 2 ^ 32 = ((((unat a * 2 ^ 16 + unat b) * 2 ^ 16 + unat c) * 2 ^ 16 + unat d) * 2 ^ 16 + unat e) * 2 ^ 16 + unat f"
    and "N mod 2 ^ 32 = unat g * 2 ^ 16 + unat h"
    and "N div 2 ^ 80 mod 2 ^ 32 = unat b * 2 ^ 16 + unat c"
    and "N div 2 ^ 112 = unat a"
proof -
  let ?U = "((((unat a * 2 ^ 16 + unat b) * 2 ^ 16 + unat c) * 2 ^ 16 + unat d) * 2 ^ 16 + unat e) * 2 ^ 16 + unat f"
  have b: "unat (x :: u16) < 2 ^ 16" for x using octet_bounds(2) [of x] by simp
  have pair: "unat x * 2 ^ 16 + unat y < 2 ^ 32" for x y :: u16 using b [of x] b [of y] by simp
  have N: "N = ?U * 2 ^ 32 + (unat g * 2 ^ 16 + unat h)" by (simp add: N_def algebra_simps)
  show u: "N div 2 ^ 32 = ?U" and "N mod 2 ^ 32 = unat g * 2 ^ 16 + unat h"
    unfolding N by (rule div_digit [OF pair])+
  have split: "n div 2 ^ (i + j) = n div 2 ^ i div 2 ^ j" for n i j :: nat
    by (simp only: power_add div_mult2_eq)
  have "N div 2 ^ 80 = ?U div 2 ^ 16 div 2 ^ 16 div 2 ^ 16"
    using split [of N 32 48] split [of ?U 16 32] split [of "?U div 2 ^ 16" 16 16] unfolding u by simp
  also have "\<dots> = (unat a * 2 ^ 16 + unat b) * 2 ^ 16 + unat c" by (simp only: div_digit(1) [OF b])
  finally have e: "N div 2 ^ 80 = (unat a * 2 ^ 16 + unat b) * 2 ^ 16 + unat c" .
  then have "N div 2 ^ 80 = unat a * 2 ^ 32 + (unat b * 2 ^ 16 + unat c)" by (simp add: algebra_simps)
  then show "N div 2 ^ 80 mod 2 ^ 32 = unat b * 2 ^ 16 + unat c" by (simp only: div_digit(2) [OF pair])
  have "N div 2 ^ 112 = N div 2 ^ 80 div 2 ^ 16 div 2 ^ 16"
    using split [of N 80 32] split [of "N div 2 ^ 80" 16 16] by simp
  then show "N div 2 ^ 112 = unat a" unfolding e by (simp only: div_digit(1) [OF b])
qed

lemma upper_eq:
  fixes a b c d e f :: u16
  assumes "A < 2 ^ 16" "B < 2 ^ 16" "C < 2 ^ 16" "D < 2 ^ 16" "E < 2 ^ 16" "F < 2 ^ 16"
  shows "((((unat a * 2 ^ 16 + unat b) * 2 ^ 16 + unat c) * 2 ^ 16 + unat d) * 2 ^ 16 + unat e) * 2 ^ 16 + unat f =
      ((((A * 2 ^ 16 + B) * 2 ^ 16 + C) * 2 ^ 16 + D) * 2 ^ 16 + E) * 2 ^ 16 + F \<longleftrightarrow>
    unat a = A \<and> unat b = B \<and> unat c = C \<and> unat d = D \<and> unat e = E \<and> unat f = F"
proof -
  have b: "unat (x :: u16) < 2 ^ 16" for x using octet_bounds(2) [of x] by simp
  show ?thesis
    by (simp only: digit_eq [OF b assms(2)] digit_eq [OF b assms(3)] digit_eq [OF b assms(4)] digit_eq [OF b assms(5)]
        digit_eq [OF b assms(6)] conj_assoc)
qed

lemma blocked_v6_num:
  fixes a b c d e f g h :: u16
  shows "blocked_v6 (v6_num (IPv6 a b c d e f g h)) \<longleftrightarrow>
     unat a div 2 ^ 8 = 0xff \<or> unat a div 2 ^ 6 = 0x3fa \<or> unat a div 2 ^ 9 = 0x7e \<or> unat a div 2 ^ 6 = 0x3fb \<or>
     (a = 0 \<and> b = 0 \<and> c = 0 \<and> d = 0 \<and> e = 0 \<and> f = 0xffff \<or> a = 0 \<and> b = 0 \<and> c = 0 \<and> d = 0 \<and> e = 0 \<and> f = 0 \<or>
      a = 0x64 \<and> b = 0xff9b \<and> c = 0 \<and> d = 0 \<and> e = 0 \<and> f = 0) \<and> blocked_v4 (unat g * 2 ^ 16 + unat h) \<or>
     a = 0x2002 \<and> blocked_v4 (unat b * 2 ^ 16 + unat c)"
proof -
  let ?N = "v6_num (IPv6 a b c d e f g h)"
  note p = v6_num_parts [of a b c d e f g h]
  have split: "n div 2 ^ (i + j) = n div 2 ^ i div 2 ^ j" for n i j :: nat
    by (simp only: power_add div_mult2_eq)
  have d: "?N div 2 ^ 120 = unat a div 2 ^ 8" "?N div 2 ^ 118 = unat a div 2 ^ 6" "?N div 2 ^ 121 = unat a div 2 ^ 9"
    using split [of ?N 112 8] split [of ?N 112 6] split [of ?N 112 9] unfolding p(4) by simp_all
  have "in_block 128 (0xffff * 2 ^ 32, 96) ?N \<longleftrightarrow> a = 0 \<and> b = 0 \<and> c = 0 \<and> d = 0 \<and> e = 0 \<and> f = 0xffff"
    using upper_eq [of 0 0 0 0 0 "0xffff" a b c d e f] p(1) by (simp add: in_block_def word_unat_eq_iff)
  moreover have "in_block 128 (0, 96) ?N \<longleftrightarrow> a = 0 \<and> b = 0 \<and> c = 0 \<and> d = 0 \<and> e = 0 \<and> f = 0"
    using upper_eq [of 0 0 0 0 0 0 a b c d e f] p(1) by (simp add: in_block_def word_unat_eq_iff)
  moreover have "in_block 128 (0x64ff9b * 2 ^ 96, 96) ?N \<longleftrightarrow> a = 0x64 \<and> b = 0xff9b \<and> c = 0 \<and> d = 0 \<and> e = 0 \<and> f = 0"
    using upper_eq [of "0x64" "0xff9b" 0 0 0 0 a b c d e f] p(1) by (simp add: in_block_def word_unat_eq_iff)
  moreover have "in_block 128 (0x2002 * 2 ^ 112, 16) ?N \<longleftrightarrow> a = 0x2002"
    using p(4) by (simp add: in_block_def word_unat_eq_iff)
  moreover have "in_block 128 (0xff * 2 ^ 120, 8) ?N \<longleftrightarrow> unat a div 2 ^ 8 = 0xff"
    "in_block 128 (0xfe80 * 2 ^ 112, 10) ?N \<longleftrightarrow> unat a div 2 ^ 6 = 0x3fa"
    "in_block 128 (0xfc00 * 2 ^ 112, 7) ?N \<longleftrightarrow> unat a div 2 ^ 9 = 0x7e"
    "in_block 128 (0xfec0 * 2 ^ 112, 10) ?N \<longleftrightarrow> unat a div 2 ^ 6 = 0x3fb"
    using d by (simp_all add: in_block_def)
  ultimately show ?thesis
    unfolding blocked_v6_def p(2,3) by (simp only: list.pred_inject list_ex_iff list.set ball_simps bex_simps simp_thms disj_assoc)
qed

lemma classify_v6_blocked: "classify_v6 ip = None \<longleftrightarrow> \<not> blocked_v6 (v6_num ip)"
proof (cases ip)
  case (IPv6 a b c d e f g h)
  let ?B = "blocked_v4 (unat g * 2 ^ 16 + unat h)"
  have z: "blocked_v4 0" "blocked_v4 1" by (simp_all add: blocked_v4_def in_block_def)
  have emb: "classify_v4 (octets_of x y) = None \<longleftrightarrow> \<not> blocked_v4 (unat x * 2 ^ 16 + unat y)" for x y
    by (simp only: classify_v4_blocked v4_num_octets)
  show ?thesis
  proof (cases "to_ipv4_mapped ip")
    case (Some v4)
    then have m: "a = 0" "b = 0" "c = 0" "d = 0" "e = 0" "f = 0xffff"
      and v4: "v4 = IPv4 (ucast (drop_bit 8 g)) (ucast g) (ucast (drop_bit 8 h)) (ucast h)"
      by (auto simp: to_ipv4_mapped_def IPv6 split: if_splits)
    have "classify_v6 ip = None \<longleftrightarrow> \<not> ?B"
      unfolding classify_v6_def Some option.case classify_v4_blocked v4 v4_num_octets ..
    then show ?thesis unfolding IPv6 blocked_v6_num by (simp add: m)
  next
    case None
    then have nm: "\<not> (a = 0 \<and> b = 0 \<and> c = 0 \<and> d = 0 \<and> e = 0 \<and> f = 0xffff)"
      by (simp add: to_ipv4_mapped_def IPv6 split: if_splits)
    have "is_unspecified ip \<Longrightarrow> ?B" "is_loopback ip \<Longrightarrow> ?B"
      using z by (simp_all add: is_unspecified_def is_loopback_def IPv6)
    moreover have "is_unspecified ip \<or> is_loopback ip \<Longrightarrow> is_ipv4_compatible ip"
      by (auto simp: is_unspecified_def is_loopback_def is_ipv4_compatible_def IPv6)
    moreover have "is_nat64 ip \<or> is_ipv4_compatible ip \<Longrightarrow> a \<noteq> 0x2002"
      by (auto simp: is_nat64_def is_ipv4_compatible_def IPv6)
    ultimately show ?thesis
      using nm None
      unfolding IPv6 blocked_v6_num classify_v6_def is_multicast_def embedded_block_def ipv6.case prefix_masks last_ipv4_def
        is_nat64_def is_ipv4_compatible_def if_Some_eq_None
      by (auto simp: emb)
  qed
qed

section \<open>Properties\<close>

definition ip_allowed :: "ip_addr \<Rightarrow> bool" where
  "ip_allowed ip = (case ip of V4 a \<Rightarrow> \<not> blocked_v4 (v4_num a) | V6 a \<Rightarrow> \<not> blocked_v6 (v6_num a))"

lemma classify_ip_allowed: "classify_ip ip = None \<longleftrightarrow> ip_allowed ip"
  by (simp add: classify_ip_def ip_allowed_def classify_v4_blocked classify_v6_blocked split: ip_addr.splits)

text \<open>C27: an address is let through exactly when it lies outside the table of blocked networks: for IPv4 the
  unspecified, private, shared, loopback, link-local, multicast and reserved blocks and the Azure metadata
  address, for IPv6 the multicast, link-local, unique-local and site-local blocks and every form that carries
  a blocked IPv4 address (mapped, compatible, NAT64, 6to4).\<close>

theorem classify_ip_blocks:
  "classify_ip ip = None \<longleftrightarrow>
     (case ip of V4 a \<Rightarrow> \<not> blocked_v4 (v4_num a) | V6 a \<Rightarrow> \<not> blocked_v6 (v6_num a))"
  by (simp add: classify_ip_allowed ip_allowed_def)

lemma retain_loop_eq:
  "retain_loop addrs acc r =
     (acc @ map (\<lambda>x. (fst x, 0)) (filter (\<lambda>x. ip_allowed (fst x)) addrs),
      case r of Some x \<Rightarrow> Some x
      | None \<Rightarrow> (case filter (\<lambda>x. \<not> ip_allowed (fst x)) addrs of [] \<Rightarrow> None | x # _ \<Rightarrow> classify_ip (fst x)))"
  by (induction addrs acc r rule: retain_loop.induct)
    (auto simp: classify_ip_allowed [symmetric] split: option.splits)

lemma retain_allowed_iff:
  "retain_allowed addrs = Inr out \<longleftrightarrow>
     out = map (\<lambda>x. (fst x, 0)) (filter (\<lambda>x. ip_allowed (fst x)) addrs) \<and> out \<noteq> []"
  by (auto simp: retain_allowed_def retain_loop_eq)

text \<open>The resolver hands the client exactly the allowed addresses of the lookup, in order and with the
  port left to the URL, and fails closed: for a blocked name, a failed lookup, an empty answer or an answer
  with no allowed address it returns no address at all.\<close>

lemma resolve_host_correct:
  "resolve_host lookup host = Inr out \<longleftrightarrow>
     \<not> blocked_hostname host \<and>
     (\<exists>addrs. lookup host = Some addrs \<and> out = map (\<lambda>x. (fst x, 0)) (filter (\<lambda>x. ip_allowed (fst x)) addrs)) \<and>
     out \<noteq> []"
  by (auto simp: resolve_host_def retain_allowed_iff split: option.splits)

definition url_accepted :: "parsed_url \<Rightarrow> bool" where
  "url_accepted u =
     (pu_scheme u \<in> {''http'', ''https''} \<and>
      (\<exists>host. pu_host_str u = Some host \<and>
         (case Option.bind (strip_prefix ''['' host) (strip_suffix '']'') of
            Some inner \<Rightarrow> \<exists>ip. parse_ip_addr inner = Some ip \<and> ip_allowed ip
          | None \<Rightarrow> (case parse_ip_addr host of Some ip \<Rightarrow> ip_allowed ip | None \<Rightarrow> \<not> blocked_hostname host))))"

lemma check_url_iff:
  "check_url parse url pinned = Inr x \<longleftrightarrow> pinned \<and> (\<exists>u. parse url = Some u \<and> url_accepted u)"
  by (auto simp: check_url_def check_parsed_def url_accepted_def Let_def simp flip: classify_ip_allowed
      split: option.splits if_splits)

text \<open>A URL is accepted before a request exactly when the guarded client exists, the URL parses with an
  HTTP scheme and a host, a literal address (bracketed or not) is an allowed one, and a name is not a blocked
  name; without the guarded client every URL is refused.\<close>

lemma check_url_correct:
  "check_url parse url pinned = Inr () \<longleftrightarrow> pinned \<and> (\<exists>u. parse url = Some u \<and> url_accepted u)"
  by (rule check_url_iff)

fun redirects_followed :: "url_parser \<Rightarrow> string list \<Rightarrow> string list \<Rightarrow> bool" where
  "redirects_followed parse previous [] = True"
| "redirects_followed parse previous (u # us) =
     (decide_redirect parse u previous = Follow \<and> redirects_followed parse (previous @ [u]) us)"

lemma decide_redirect_Follow:
  "decide_redirect parse u previous = Follow \<longleftrightarrow>
     length previous \<le> MAX_REDIRECTS \<and> u \<notin> set previous \<and> check_url parse u True = Inr ()"
  by (auto simp: decide_redirect_def split: sum.splits)

lemma redirects_followed_prefix:
  "redirects_followed parse previous us \<Longrightarrow>
     (us \<noteq> [] \<longrightarrow> length previous + length us \<le> Suc MAX_REDIRECTS) \<and> (distinct previous \<longrightarrow> distinct (previous @ us)) \<and>
     (\<forall>u \<in> set us. check_url parse u True = Inr ())"
proof (induction us arbitrary: previous)
  case (Cons u us)
  then have f: "length previous \<le> MAX_REDIRECTS" "u \<notin> set previous" "check_url parse u True = Inr ()"
    by (simp_all add: decide_redirect_Follow)
  from Cons.IH [of "previous @ [u]"] Cons.prems f show ?case by (cases "us = []") auto
qed simp

text \<open>C28: a chain of followed redirects has at most ten hops, never visits a URL twice, and every hop is
  a URL that passes the address check.\<close>

theorem redirect_chain_safe:
  assumes "redirects_followed parse [start] hops"
  shows "length hops \<le> 10 \<and> distinct (start # hops) \<and>
     (\<forall>u \<in> set hops. \<exists>p. parse u = Some p \<and> url_accepted p)"
  using redirects_followed_prefix [OF assms]
  by (cases "hops = []") (auto simp: MAX_REDIRECTS_def check_url_iff)

text \<open>A parser for the two URLs of the run below.\<close>

definition example_parse :: url_parser where
  "example_parse url =
     (if url = ''http://a/'' then Some \<lparr>pu_scheme = ''http'', pu_host_str = Some ''a''\<rparr>
      else if url = ''http://8.8.8.8/'' then
        Some \<lparr>pu_scheme = ''http'', pu_host_str = Some ''8.8.8.8''\<rparr>
      else None)"

theorem redirect_chain_safe_witness:
  "distinct [''http://a/'', ''http://8.8.8.8/''] \<and>
   (\<exists>p. example_parse ''http://8.8.8.8/'' = Some p \<and> url_accepted p)"
proof -
  have "parse_ip_addr ''8.8.8.8'' = Some (V4 (IPv4 8 8 8 8))"
    by (simp add: parse_ip_addr_def read_ipv4_def read_separator_def read_number_def digit_value_def Let_def)
  then have "redirects_followed example_parse [''http://a/''] [''http://8.8.8.8/'']"
    by (simp add: decide_redirect_def MAX_REDIRECTS_def check_url_def check_parsed_def example_parse_def classify_ip_def
        classify_v4_def)
  from redirect_chain_safe [OF this] show ?thesis by simp
qed

end
