(* ===== verification/Retry.thy ===== *)
theory Retry
  imports KeyRegistry Egress Catalog GatewayAuth
begin

text \<open>
  One upstream call over HTTP (\<open>src/proxy/retry.rs\<close>, \<open>src/proxy/auth.rs\<close>): building the
  URL and the request, injecting the credential, the retry loop with its key failover and cooldowns. What
  the \<open>reqwest\<close> client, the clock, the random choices, the secret store and the other users of the key
  pool do is an environment indexed by the attempt; the loop records the requests it hands to the client.
\<close>

section \<open>Requests (auth.rs, retry.rs)\<close>

record http_request =
  hr_method :: http_method
  hr_url :: string
  hr_headers :: "(string \<times> string) list"
  hr_body :: "json option"

text \<open>
  \<open>reqwest::RequestBuilder\<close>: a header whose name or value does not convert makes the builder fail, and
  sending it then fails without a request. \<open>fst\<close> of the codec normalises a header name, \<open>snd\<close> checks
  a value.
\<close>

type_synonym header_codec = "(string \<Rightarrow> string option) \<times> (string \<Rightarrow> bool)"
type_synonym request_builder = "http_request option"

definition builder_header :: "header_codec \<Rightarrow> string \<Rightarrow> string \<Rightarrow> request_builder \<Rightarrow> request_builder" where
  "builder_header codec name val b =
     (case b of
        None \<Rightarrow> None
      | Some r \<Rightarrow>
          (case fst codec name of
             None \<Rightarrow> None
           | Some n \<Rightarrow> if snd codec val then Some (r\<lparr>hr_headers := hr_headers r @ [(n, val)]\<rparr>) else None))"

definition builder_json :: "json \<Rightarrow> request_builder \<Rightarrow> request_builder" where
  "builder_json v b = map_option (\<lambda>r. r\<lparr>hr_body := Some v\<rparr>) b"

definition apply_auth :: "header_codec \<Rightarrow> upstream_auth \<Rightarrow> string option \<Rightarrow> request_builder \<Rightarrow> request_builder" where
  "apply_auth codec auth secret b =
     (case auth of
        AuthNone \<Rightarrow> b
      | AuthOAuth _ _ _ _ \<Rightarrow> b
      | AuthBearer _ \<Rightarrow>
          (case secret of Some token \<Rightarrow> builder_header codec ''authorization'' (''Bearer '' @ token) b | None \<Rightarrow> b)
      | AuthHeader name _ \<Rightarrow>
          (case secret of Some v \<Rightarrow> builder_header codec name v b | None \<Rightarrow> b))"

definition resolve_auth_secret :: "secret_resolver \<Rightarrow> upstream_auth \<Rightarrow> proxy_error + string option" where
  "resolve_auth_secret resolve auth =
     (case auth of
        AuthNone \<Rightarrow> Inr None
      | AuthBearer token_ref \<Rightarrow>
          and_then (map_err ProxySecret (secret_ref_from_str token_ref)) (\<lambda>r.
          and_then (map_err ProxySecret (resolve r)) (\<lambda>s. Inr (Some s)))
      | AuthHeader _ value_ref \<Rightarrow>
          and_then (map_err ProxySecret (secret_ref_from_str value_ref)) (\<lambda>r.
          and_then (map_err ProxySecret (resolve r)) (\<lambda>s. Inr (Some s)))
      | AuthOAuth _ _ _ _ \<Rightarrow> Inl (InvalidToolCall ''oauth auth is only supported for MCP servers''))"

text \<open>\<open>ser\<close> is the compact serialisation of \<open>serde_json\<close>, \<open>Value::to_string\<close>.\<close>

definition value_text :: "(json \<Rightarrow> string) \<Rightarrow> json \<Rightarrow> string" where
  "value_text ser v = (case v of JString s \<Rightarrow> s | _ \<Rightarrow> ser v)"

definition resolve_placeholder :: "(json \<Rightarrow> string) \<Rightarrow> string \<Rightarrow> string \<times> json \<Rightarrow> string" where
  "resolve_placeholder ser resolved kv =
     (let placeholder = ''{'' @ fst kv @ ''}''
      in if contains_str resolved placeholder then replace_str placeholder (value_text ser (snd kv)) resolved
         else resolved)"

fun push_query :: "(json \<Rightarrow> string) \<Rightarrow> json \<Rightarrow> bool \<Rightarrow> string list \<Rightarrow> string \<Rightarrow> string" where
  "push_query ser args first [] url = url"
| "push_query ser args first (name # names) url =
     (case json_get args name of
        None \<Rightarrow> push_query ser args first names url
      | Some v \<Rightarrow>
          push_query ser args False names
            (url @ (if first then ''?'' else ''&'') @ name @ ''='' @ value_text ser v))"

definition build_url :: "(json \<Rightarrow> string) \<Rightarrow> string \<Rightarrow> string \<Rightarrow> json \<Rightarrow> param_locations option \<Rightarrow> string" where
  "build_url ser base_url path args locations =
     (let resolved = (case as_object args of Some m \<Rightarrow> foldl (resolve_placeholder ser) path m | None \<Rightarrow> path);
          url = base_url @ resolved
      in case (locations, as_object args) of
           (Some pl, Some _) \<Rightarrow> push_query ser args True (pl_query_params pl) url
         | _ \<Rightarrow> url)"

text \<open>A header parameter that does not convert is skipped, unlike in the builder.\<close>

definition header_param :: "header_codec \<Rightarrow> json \<Rightarrow> request_builder \<Rightarrow> string \<times> string \<Rightarrow> request_builder" where
  "header_param codec args b fh =
     (case json_get args (fst fh) of
        Some (JString v) \<Rightarrow>
          if snd codec v \<and> fst codec (snd fh) \<noteq> None then builder_header codec (snd fh) v b else b
      | _ \<Rightarrow> b)"

definition apply_params :: "header_codec \<Rightarrow> json \<Rightarrow> param_locations option \<Rightarrow> bool \<Rightarrow> request_builder \<Rightarrow> request_builder" where
  "apply_params codec args locations is_get b =
     (case locations of
        Some pl \<Rightarrow>
          (case as_object args of
             None \<Rightarrow> b
           | Some _ \<Rightarrow>
               (let b1 = foldl (header_param codec args) b (pl_header_params pl)
                in if pl_has_body pl then
                     (case json_get args ''body'' of Some body \<Rightarrow> builder_json body b1 | None \<Rightarrow> b1)
                   else b1))
      | None \<Rightarrow> if \<not> is_get then builder_json args b else b)"

section \<open>Status codes and waiting times\<close>

definition RETRYABLE_STATUSES :: "u16 list" where
  "RETRYABLE_STATUSES = [429, 500, 502, 503, 504]"

definition is_retryable_status :: "u16 \<Rightarrow> bool" where
  "is_retryable_status s = (s \<in> set RETRYABLE_STATUSES)"

definition is_idempotent_method :: "http_method \<Rightarrow> bool" where
  "is_idempotent_method m = (m = Get)"

definition retry_attempt_limit :: "http_method \<Rightarrow> u32 \<Rightarrow> u32" where
  "retry_attempt_limit m configured = (if is_idempotent_method m then max configured 1 else 1)"

definition duration_ms :: "duration \<Rightarrow> u32" where
  "duration_ms d = word_of_nat (min (d div 1000000) (2 ^ 32 - 1))"

text \<open>\<open>u64::from_str\<close>: an optional plus sign and decimal digits, in range.\<close>

definition is_digit :: "char \<Rightarrow> bool" where
  "is_digit c = (CHR ''0'' \<le> c \<and> c \<le> CHR ''9'')"

definition decimal :: "string \<Rightarrow> nat" where
  "decimal s = foldl (\<lambda>n c. 10 * n + (of_char c - 48)) 0 s"

definition parse_u64 :: "string \<Rightarrow> u64 option" where
  "parse_u64 s =
     (let digits = (case s of CHR ''+'' # ds \<Rightarrow> ds | _ \<Rightarrow> s)
      in if digits = [] \<or> \<not> list_all is_digit digits \<or> 2 ^ 64 \<le> decimal digits then None
         else Some (word_of_nat (decimal digits)))"

definition parse_retry_after :: "string option \<Rightarrow> duration option" where
  "parse_retry_after h =
     (case h of
        None \<Rightarrow> None
      | Some v \<Rightarrow> map_option (\<lambda>s. unat s * 10 ^ 9) (parse_u64 (trim v)))"

definition final_status_error :: "u16 \<Rightarrow> u8 \<Rightarrow> u32 \<Rightarrow> proxy_error" where
  "final_status_error status retry_count attempt =
     (if 0 < retry_count \<and> is_retryable_status status then RetryExhausted attempt else UpstreamError status)"

section \<open>One attempt\<close>

record upstream_http_response =
  hs_status :: u16
  hs_content_type :: "string option"
  hs_retry_after :: "string option"
  hs_body :: "string option"
  hs_elapsed :: duration

text \<open>
  What sending comes to: the gateway's own time-out, an error of the client (whether it is a time-out, and
  the block reasons in its chain of sources) or a response, whose body may fail to arrive.
\<close>

datatype send_outcome = SendElapsed | SendFailed bool "block_reason option list" | SendOk upstream_http_response

record retry_env =
  rv_resolve :: "nat \<Rightarrow> secret_resolver"
  rv_random :: "nat \<Rightarrow> lb_random"
  rv_acquire_at :: "nat \<Rightarrow> instant"
  rv_done_at :: "nat \<Rightarrow> instant"
  rv_others :: "nat \<Rightarrow> pool_state \<Rightarrow> pool_state"
  rv_send :: "nat \<Rightarrow> http_request \<Rightarrow> send_outcome"
  rv_ser :: "json \<Rightarrow> string"
  rv_codec :: header_codec
  rv_parse :: url_parser

record retry_settings =
  rs_max_attempts :: u32
  rs_request_timeout :: duration
  rs_block_private :: bool
  rs_egress_dns_pinned :: bool

record upstream_request =
  uq_http_method :: http_method
  uq_upstream_path :: string
  uq_base_url :: string
  uq_auth :: upstream_auth
  uq_args :: json
  uq_secret :: "string option"
  uq_param_locations :: "param_locations option"

record upstream_response =
  us_status :: u16
  us_body :: string
  us_content_type :: "string option"
  us_retry_count :: u8
  us_upstream_key_ref :: string
  us_upstream_latency_ms :: u32

record execution_error =
  xe_proxy_error :: proxy_error
  xe_retry_count :: u8
  xe_upstream_key_ref :: string
  xe_upstream_latency_ms :: "u32 option"

datatype attempt_outcome =
    Success upstream_response duration
  | Status u16 "duration option" duration
  | Transport proxy_error

definition egress_block :: "url_parser \<Rightarrow> retry_settings \<Rightarrow> string \<Rightarrow> proxy_error option" where
  "egress_block parse cfg url =
     (if \<not> rs_block_private cfg then None
      else (case check_url parse url (rs_egress_dns_pinned cfg) of Inr _ \<Rightarrow> None | Inl _ \<Rightarrow> Some EgressBlockedError))"

definition build_request :: "retry_env \<Rightarrow> upstream_request \<Rightarrow> string \<Rightarrow> string option \<Rightarrow> request_builder" where
  "build_request env req url secret =
     apply_params (rv_codec env) (uq_args req) (uq_param_locations req) (uq_http_method req = Get)
       (apply_auth (rv_codec env) (uq_auth req) secret
         (Some \<lparr>hr_method = uq_http_method req, hr_url = url, hr_headers = [], hr_body = None\<rparr>))"

definition read_response :: "upstream_http_response \<Rightarrow> attempt_outcome" where
  "read_response r =
     (let latency = hs_elapsed r; status = hs_status r
      in if \<not> (200 \<le> status \<and> status < 300) then Status status (parse_retry_after (hs_retry_after r)) latency
         else
           Success
             \<lparr>us_status = status, us_body = (case hs_body r of Some b \<Rightarrow> b | None \<Rightarrow> []),
              us_content_type = hs_content_type r, us_retry_count = 0, us_upstream_key_ref = [],
              us_upstream_latency_ms = duration_ms latency\<rparr> latency)"

text \<open>The outcome of an attempt, and the request it handed to the client, if it did.\<close>

definition send_attempt ::
  "retry_env \<Rightarrow> retry_settings \<Rightarrow> upstream_request \<Rightarrow> string \<Rightarrow> nat \<Rightarrow> string option \<Rightarrow>
   attempt_outcome \<times> http_request option" where
  "send_attempt env cfg req url n secret =
     (case egress_block (rv_parse env) cfg url of
        Some blocked \<Rightarrow> (Transport blocked, None)
      | None \<Rightarrow>
          (case build_request env req url secret of
             None \<Rightarrow> (Transport ConnectionFailed, None)
           | Some r \<Rightarrow>
               (let timeout = Transport (UpstreamTimeout (word_of_nat (rs_request_timeout cfg div 1000000)))
                in (case rv_send env n r of
                      SendElapsed \<Rightarrow> timeout
                    | SendFailed is_timeout chain \<Rightarrow>
                        if is_timeout then timeout
                        else if find_blocked chain \<noteq> None then Transport EgressBlockedError
                        else Transport ConnectionFailed
                    | SendOk resp \<Rightarrow> read_response resp, Some r))))"

section \<open>The loop\<close>

definition map_pool :: "(pool_state \<Rightarrow> pool_state) \<Rightarrow> resource_key_pool \<Rightarrow> resource_key_pool" where
  "map_pool f r = r\<lparr>rkp_pool := f (rkp_pool r)\<rparr>"

text \<open>When the key of a guard has no usable secret, the guard is dropped with the error.\<close>

definition acquire_pool_key ::
  "retry_env \<Rightarrow> nat \<Rightarrow> resource_key_pool \<Rightarrow> (proxy_error + key_id \<times> string) \<times> resource_key_pool" where
  "acquire_pool_key env n rkp =
     (let (r, p) = acquire (rv_random env n) (rkp_strategy rkp) (rv_acquire_at env n) (rkp_pool rkp);
          rkp1 = rkp\<lparr>rkp_pool := p\<rparr>
      in case r of
           Inl e \<Rightarrow> (Inl (ProxyKeyPool e), rkp1)
         | Inr k \<Rightarrow>
             (case and_then (ok_or (ProxyKeyPool (KeyNotFound k)) (secret_ref_for rkp k)) (\<lambda>s.
                   and_then (map_err ProxySecret (secret_ref_from_str s)) (\<lambda>sr.
                   map_err ProxySecret (rv_resolve env n sr))) of
                Inl e \<Rightarrow> (Inl e, map_pool (release k) rkp1)
              | Inr secret \<Rightarrow> (Inr (k, secret), rkp1)))"

record retry_progress =
  rp_retry_count :: u8
  rp_upstream_key_ref :: string

definition progress_fail :: "retry_progress \<Rightarrow> proxy_error \<Rightarrow> u32 option \<Rightarrow> execution_error" where
  "progress_fail pr e latency =
     \<lparr>xe_proxy_error = e, xe_retry_count = rp_retry_count pr, xe_upstream_key_ref = rp_upstream_key_ref pr,
      xe_upstream_latency_ms = latency\<rparr>"

record retry_state =
  rt_pool :: "resource_key_pool option"
  rt_progress :: retry_progress
  rt_sent :: "(key_id option \<times> http_request) list"

definition on_pool :: "(pool_state \<Rightarrow> pool_state) \<Rightarrow> retry_state \<Rightarrow> retry_state" where
  "on_pool f st = st\<lparr>rt_pool := map_option (map_pool f) (rt_pool st)\<rparr>"

definition cool_key :: "key_id option \<Rightarrow> duration option \<Rightarrow> instant \<Rightarrow> retry_state \<Rightarrow> retry_state" where
  "cool_key guard retry_after now st =
     (case guard of Some k \<Rightarrow> on_pool (mark_cooling k retry_after now) st | None \<Rightarrow> st)"

definition drop_guard :: "key_id option \<Rightarrow> retry_state \<Rightarrow> retry_state" where
  "drop_guard guard st = (case guard of Some k \<Rightarrow> on_pool (release k) st | None \<Rightarrow> st)"

definition select_attempt_key ::
  "retry_env \<Rightarrow> upstream_request \<Rightarrow> nat \<Rightarrow> retry_state \<Rightarrow>
   (execution_error + key_id option \<times> string option) \<times> retry_state" where
  "select_attempt_key env req n st =
     (case rt_pool st of
        None \<Rightarrow> (Inr (None, uq_secret req), st)
      | Some rkp \<Rightarrow>
          (let (r, rkp1) = acquire_pool_key env n rkp; st1 = st\<lparr>rt_pool := Some rkp1\<rparr>
           in case r of
                Inl e \<Rightarrow> (Inl (progress_fail (rt_progress st) e None), st1)
              | Inr (k, secret) \<Rightarrow>
                  (Inr (Some k, Some secret),
                   st1\<lparr>rt_progress := (rt_progress st)\<lparr>rp_upstream_key_ref := key_id_str k\<rparr>\<rparr>)))"

text \<open>
  What an attempt makes of its outcome: the end of the call, or \<open>None\<close> to go on; and the state before the
  guard is dropped.
\<close>

definition settle_attempt ::
  "retry_env \<Rightarrow> nat \<Rightarrow> bool \<Rightarrow> key_id option \<Rightarrow> attempt_outcome \<Rightarrow> retry_state \<Rightarrow>
   (execution_error + upstream_response) option \<times> retry_state" where
  "settle_attempt env n can_retry guard outcome st =
     (let pr = rt_progress st
      in case outcome of
           Success resp latency \<Rightarrow>
             (Some (Inr (resp\<lparr>us_retry_count := rp_retry_count pr, us_upstream_key_ref := rp_upstream_key_ref pr\<rparr>)),
              (case guard of Some k \<Rightarrow> on_pool (record_latency k latency) st | None \<Rightarrow> st))
         | Status status retry_after latency \<Rightarrow>
             if \<not> (can_retry \<and> is_retryable_status status) then
               (Some (Inl (progress_fail pr (final_status_error status (rp_retry_count pr) (word_of_nat n))
                  (Some (duration_ms latency)))), st)
             else (None, cool_key guard retry_after (rv_done_at env n) st)
         | Transport e \<Rightarrow>
             if e = EgressBlockedError then (Some (Inl (progress_fail pr e None)), st)
             else
               (if can_retry then None else Some (Inl (progress_fail pr e None)),
                cool_key guard None (rv_done_at env n) st))"

definition retry_attempt ::
  "retry_env \<Rightarrow> retry_settings \<Rightarrow> upstream_request \<Rightarrow> string \<Rightarrow> nat \<Rightarrow> nat \<Rightarrow> retry_state \<Rightarrow>
   (execution_error + upstream_response) option \<times> retry_state" where
  "retry_attempt env cfg req url limit n st =
     (case select_attempt_key env req n st of
        (Inl e, st1) \<Rightarrow> (Some (Inl e), st1)
      | (Inr (guard, secret), st1) \<Rightarrow>
          (let (outcome, sent) = send_attempt env cfg req url n secret;
               st2 = on_pool (rv_others env n)
                 (st1\<lparr>rt_sent := rt_sent st1 @ (case sent of Some r \<Rightarrow> [(guard, r)] | None \<Rightarrow> [])\<rparr>);
               (r, st3) = settle_attempt env n (n < limit) guard outcome st2
           in (r, drop_guard guard st3)))"

text \<open>\<open>left\<close> attempts remain, the next is the \<open>n\<close>-th; the pauses between attempts are part of the clock.\<close>

fun retry_loop ::
  "retry_env \<Rightarrow> retry_settings \<Rightarrow> upstream_request \<Rightarrow> string \<Rightarrow> nat \<Rightarrow> nat \<Rightarrow> nat \<Rightarrow> retry_state \<Rightarrow>
   (execution_error + upstream_response) \<times> retry_state" where
  "retry_loop env cfg req url limit 0 n st =
     (Inl (progress_fail (rt_progress st) (RetryExhausted (word_of_nat limit)) None), st)"
| "retry_loop env cfg req url limit (Suc left) n st =
     (case retry_attempt env cfg req url limit n st of
        (Some r, st1) \<Rightarrow> (r, st1)
      | (None, st1) \<Rightarrow>
          retry_loop env cfg req url limit left (Suc n)
            (st1\<lparr>rt_progress := (rt_progress st1)\<lparr>rp_retry_count := rp_retry_count (rt_progress st1) + 1\<rparr>\<rparr>))"

definition retry_start :: "resource_key_pool option \<Rightarrow> retry_state" where
  "retry_start pool =
     \<lparr>rt_pool = pool, rt_progress = \<lparr>rp_retry_count = 0, rp_upstream_key_ref = ''<none>''\<rparr>, rt_sent = []\<rparr>"

definition execute_with_retry ::
  "retry_env \<Rightarrow> retry_settings \<Rightarrow> upstream_request \<Rightarrow> resource_key_pool option \<Rightarrow>
   (execution_error + upstream_response) \<times> retry_state" where
  "execute_with_retry env cfg req pool =
     (let url = build_url (rv_ser env) (uq_base_url req) (uq_upstream_path req) (uq_args req) (uq_param_locations req);
          limit = unat (retry_attempt_limit (uq_http_method req) (rs_max_attempts cfg))
      in retry_loop env cfg req url limit limit 1 (retry_start pool))"

section \<open>Reasoning about the loop\<close>

definition next_retry :: "retry_state \<Rightarrow> retry_state" where
  "next_retry st = st\<lparr>rt_progress := (rt_progress st)\<lparr>rp_retry_count := rp_retry_count (rt_progress st) + 1\<rparr>\<rparr>"

lemma next_retry_simps [simp]:
  "rt_pool (next_retry st) = rt_pool st" "rt_sent (next_retry st) = rt_sent st"
  "rp_retry_count (rt_progress (next_retry st)) = rp_retry_count (rt_progress st) + 1"
  by (simp_all add: next_retry_def)

lemma pool_ops_sent [simp]:
  "rt_sent (on_pool f st) = rt_sent st" "rt_sent (cool_key g d t st) = rt_sent st" "rt_sent (drop_guard g st) = rt_sent st"
  "rt_progress (on_pool f st) = rt_progress st" "rt_progress (cool_key g d t st) = rt_progress st"
  "rt_progress (drop_guard g st) = rt_progress st"
  by (simp_all add: on_pool_def cool_key_def drop_guard_def split: option.splits)

lemma settle_frame:
  "settle_attempt env n b g outc st = (r, st') \<Longrightarrow> rt_sent st' = rt_sent st \<and> rt_progress st' = rt_progress st"
  by (auto simp: settle_attempt_def Let_def split: attempt_outcome.splits if_splits option.splits)

lemma last_attempt_returns: "fst (retry_attempt env cfg req url limit n st) = None \<Longrightarrow> n < limit"
  by (auto simp: retry_attempt_def settle_attempt_def Let_def
      split: prod.splits sum.splits attempt_outcome.splits if_splits)

text \<open>
  The rule the properties of the loop are proved with. The attempts are numbered to the limit, and the last
  one always ends the call, so the code after the loop is never reached.
\<close>

lemma retry_loop_rule:
  assumes "n + left = Suc limit" and "0 < left" and "I n st"
    and step: "\<And>n st st'. I n st \<Longrightarrow> n < limit \<Longrightarrow> retry_attempt env cfg req url limit n st = (None, st') \<Longrightarrow>
      I (Suc n) (next_retry st')"
    and finish: "\<And>n st r st'. I n st \<Longrightarrow> n \<le> limit \<Longrightarrow> retry_attempt env cfg req url limit n st = (Some r, st') \<Longrightarrow> Q r st'"
  shows "case retry_loop env cfg req url limit left n st of (r, st') \<Rightarrow> Q r st'"
  using assms(1-3)
proof (induction left arbitrary: n st)
  case (Suc left)
  obtain r st1 where a: "retry_attempt env cfg req url limit n st = (r, st1)" by force
  show ?case
  proof (cases r)
    case None
    with a have "n < limit" using last_attempt_returns [of env cfg req url limit n st] by simp
    with Suc.prems have "0 < left" by simp
    with Suc.IH [of "Suc n" "next_retry st1"] step [OF Suc.prems(3) \<open>n < limit\<close>] a None Suc.prems(1)
    show ?thesis by (simp flip: next_retry_def)
  next
    case (Some x)
    with finish [OF Suc.prems(3) _ a [unfolded Some]] Suc.prems(1) a show ?thesis by simp
  qed
qed simp

lemma retry_limit_pos: "0 < unat (retry_attempt_limit m c)"
proof -
  have "retry_attempt_limit m c \<noteq> 0" by (auto simp: retry_attempt_limit_def max_def)
  then show ?thesis by (simp add: unat_gt_0)
qed

lemma execute_rule:
  assumes "I 1 (retry_start pool)"
    and "\<And>n st st'. I n st \<Longrightarrow> n < limit \<Longrightarrow> retry_attempt env cfg req url limit n st = (None, st') \<Longrightarrow>
      I (Suc n) (next_retry st')"
    and "\<And>n st r st'. I n st \<Longrightarrow> n \<le> limit \<Longrightarrow> retry_attempt env cfg req url limit n st = (Some r, st') \<Longrightarrow> Q r st'"
    and "limit = unat (retry_attempt_limit (uq_http_method req) (rs_max_attempts cfg))"
    and "url = build_url (rv_ser env) (uq_base_url req) (uq_upstream_path req) (uq_args req) (uq_param_locations req)"
    and "execute_with_retry env cfg req pool = (r, st)"
  shows "Q r st"
proof -
  have "case retry_loop env cfg req url limit limit 1 (retry_start pool) of (r, st) \<Rightarrow> Q r st"
    by (rule retry_loop_rule [where I = I]) (use assms(1-3) in \<open>auto simp: assms(4) retry_limit_pos\<close>)
  with assms(4-6) show ?thesis by (simp add: execute_with_retry_def Let_def)
qed

section \<open>What is sent\<close>

text \<open>The credential of a sent request: the one secret of the resource, or that of the key drawn from the pool.\<close>

definition credential_of :: "retry_env \<Rightarrow> upstream_request \<Rightarrow> resource_key_pool option \<Rightarrow> key_id option \<Rightarrow> string option \<Rightarrow> bool" where
  "credential_of env req pool g secret \<longleftrightarrow>
     (case (pool, g) of
        (None, None) \<Rightarrow> secret = uq_secret req
      | (Some rkp, Some k) \<Rightarrow>
          (\<exists>ref sr n s. secret_ref_for rkp k = Some ref \<and> secret_ref_from_str ref = Inr sr \<and>
             rv_resolve env n sr = Inr s \<and> secret = Some s)
      | _ \<Rightarrow> False)"

definition sent_ok :: "retry_env \<Rightarrow> retry_settings \<Rightarrow> upstream_request \<Rightarrow> resource_key_pool option \<Rightarrow> string \<Rightarrow> retry_state \<Rightarrow> bool" where
  "sent_ok env cfg req pool url st \<longleftrightarrow>
     map_option rkp_refs (rt_pool st) = map_option rkp_refs pool \<and>
     (\<forall>(g, r) \<in> set (rt_sent st). egress_block (rv_parse env) cfg url = None \<and>
        (\<exists>secret. credential_of env req pool g secret \<and> build_request env req url secret = Some r))"

lemma sent_ok_next: "sent_ok env cfg req pool url (next_retry st) = sent_ok env cfg req pool url st"
  by (simp add: sent_ok_def)

lemma sent_ok_start: "sent_ok env cfg req pool url (retry_start pool) \<and> rt_sent (retry_start pool) = []"
  by (simp add: sent_ok_def retry_start_def)

lemma secret_ref_for_cong: "rkp_refs a = rkp_refs b \<Longrightarrow> secret_ref_for a k = secret_ref_for b k"
  by (simp add: secret_ref_for_def)

lemma map_pool_refs [simp]: "rkp_refs (map_pool f r) = rkp_refs r"
  by (simp add: map_pool_def)

lemma acquire_pool_key_refs: "acquire_pool_key env n rkp = (r, rkp') \<Longrightarrow> rkp_refs rkp' = rkp_refs rkp"
  by (auto simp: acquire_pool_key_def Let_def split: prod.splits sum.splits)

lemma acquire_pool_key_Inr:
  "acquire_pool_key env n rkp = (Inr (k, s), rkp') \<Longrightarrow>
   (\<exists>ref sr. secret_ref_for rkp k = Some ref \<and> secret_ref_from_str ref = Inr sr \<and> rv_resolve env n sr = Inr s) \<and>
   acquire (rv_random env n) (rkp_strategy rkp) (rv_acquire_at env n) (rkp_pool rkp) = (Inr k, rkp_pool rkp')"
  by (auto simp: acquire_pool_key_def Let_def and_then_Inr_iff ok_or_Inr_iff map_err_Inr_iff split: prod.splits sum.splits)

lemma pool_ops_refs [simp]:
  "map_option rkp_refs (rt_pool (on_pool f st)) = map_option rkp_refs (rt_pool st)"
  "map_option rkp_refs (rt_pool (cool_key g d t st)) = map_option rkp_refs (rt_pool st)"
  "map_option rkp_refs (rt_pool (drop_guard g st)) = map_option rkp_refs (rt_pool st)"
  by (simp_all add: on_pool_def cool_key_def drop_guard_def option.map_comp comp_def split: option.splits)

lemma settle_refs:
  "settle_attempt env n b g outc st = (r, st') \<Longrightarrow> map_option rkp_refs (rt_pool st') = map_option rkp_refs (rt_pool st)"
  by (auto simp: settle_attempt_def Let_def split: attempt_outcome.splits if_splits option.splits)

lemma select_attempt_key_ok:
  assumes "select_attempt_key env req n st = (r, st')"
    and "map_option rkp_refs (rt_pool st) = map_option rkp_refs pool"
  shows "map_option rkp_refs (rt_pool st') = map_option rkp_refs pool \<and> rt_sent st' = rt_sent st \<and>
     (\<forall>g s. r = Inr (g, s) \<longrightarrow> credential_of env req pool g s)"
proof (cases "rt_pool st")
  case None
  with assms show ?thesis by (auto simp: select_attempt_key_def credential_of_def)
next
  case (Some rkp)
  with assms(2) obtain rkp0 where p: "pool = Some rkp0" "rkp_refs rkp0 = rkp_refs rkp" by (cases pool) auto
  obtain q rkp1 where a: "acquire_pool_key env n rkp = (q, rkp1)" by force
  note refs = acquire_pool_key_refs [OF a]
  show ?thesis
  proof (cases q)
    case (Inl e)
    with assms(1) Some a p refs show ?thesis by (auto simp: select_attempt_key_def Let_def)
  next
    case (Inr ks)
    obtain k s where ks: "ks = (k, s)" by force
    have "credential_of env req pool (Some k) (Some s)"
      using acquire_pool_key_Inr [OF a [unfolded Inr ks]] p secret_ref_for_cong [OF p(2), of k]
      by (auto simp: credential_of_def)
    with assms(1) Some a p refs Inr ks show ?thesis by (auto simp: select_attempt_key_def Let_def)
  qed
qed

lemma send_attempt_sent:
  "send_attempt env cfg req url n secret = (outc, Some r) \<Longrightarrow>
   egress_block (rv_parse env) cfg url = None \<and> build_request env req url secret = Some r"
  by (auto simp: send_attempt_def Let_def split: option.splits)

lemma retry_attempt_cases:
  assumes "retry_attempt env cfg req url limit n st = (r, st')"
  obtains (no_key) e where "select_attempt_key env req n st = (Inl e, st')" "r = Some (Inl e)"
  | (tried) g s st1 outc snt st3 where "select_attempt_key env req n st = (Inr (g, s), st1)"
      "send_attempt env cfg req url n s = (outc, snt)"
      "settle_attempt env n (n < limit) g outc
         (on_pool (rv_others env n) (st1\<lparr>rt_sent := rt_sent st1 @ (case snt of Some q \<Rightarrow> [(g, q)] | None \<Rightarrow> [])\<rparr>)) = (r, st3)"
      "st' = drop_guard g st3"
  using assms by (auto simp: retry_attempt_def Let_def split: prod.splits sum.splits)

lemma retry_attempt_sent:
  assumes "retry_attempt env cfg req url limit n st = (r, st')" and "sent_ok env cfg req pool url st"
  shows "sent_ok env cfg req pool url st' \<and> length (rt_sent st') \<le> Suc (length (rt_sent st))"
  using assms(1)
proof (cases rule: retry_attempt_cases)
  case (no_key e)
  with assms(2) select_attempt_key_ok [OF no_key(1)] show ?thesis by (auto simp: sent_ok_def)
next
  case (tried g s st1 outc snt st3)
  have sel: "map_option rkp_refs (rt_pool st1) = map_option rkp_refs pool" "rt_sent st1 = rt_sent st"
    "credential_of env req pool g s"
    using select_attempt_key_ok [OF tried(1), of pool] assms(2) by (auto simp: sent_ok_def)
  note fr = settle_frame [OF tried(3)] settle_refs [OF tried(3)]
  have "map_option rkp_refs (rt_pool st') = map_option rkp_refs pool"
    using fr(2) sel(1) by (simp add: tried(4))
  moreover have sent: "rt_sent st' = rt_sent st @ (case snt of Some q \<Rightarrow> [(g, q)] | None \<Rightarrow> [])"
    using fr(1) sel(2) by (simp add: tried(4))
  ultimately show ?thesis
    using assms(2) sel(3) send_attempt_sent [of env cfg req url n s outc] tried(2)
    by (auto simp: sent_ok_def split: option.splits)
qed

section \<open>Failover\<close>

text \<open>What the other users of the pool may do: they leave a key that is cooling down at least as long there.\<close>

definition keeps_cooling :: "(pool_state \<Rightarrow> pool_state) \<Rightarrow> bool" where
  "keeps_cooling f \<longleftrightarrow>
     (\<forall>p. pool_wf p \<longrightarrow> pool_wf (f p) \<and>
        (\<forall>k e t. entry p k = Some e \<and> ke_state e = CoolingUntil t \<longrightarrow>
           (\<exists>e' t'. entry (f p) k = Some e' \<and> ke_state e' = CoolingUntil t' \<and> t \<le> t')) \<and>
        (\<forall>k. entry p k \<noteq> None \<longrightarrow> entry (f p) k \<noteq> None))"

text \<open>A key that is cooling down past every attempt of the call.\<close>

definition cooled :: "retry_env \<Rightarrow> pool_state \<Rightarrow> key_id \<Rightarrow> bool" where
  "cooled env p k \<longleftrightarrow> (\<exists>e t. entry p k = Some e \<and> ke_state e = CoolingUntil t \<and> (\<forall>m. rv_acquire_at env m < t))"

definition sent_keys :: "retry_state \<Rightarrow> key_id list" where
  "sent_keys st = List.map_filter fst (rt_sent st)"

lemma sent_keys_next: "sent_keys (next_retry st) = sent_keys st"
  by (simp add: sent_keys_def)

definition failover_inv :: "retry_env \<Rightarrow> retry_state \<Rightarrow> bool" where
  "failover_inv env st \<longleftrightarrow>
     distinct (sent_keys st) \<and>
     (case rt_pool st of
        None \<Rightarrow> sent_keys st = []
      | Some rkp \<Rightarrow> pool_wf (rkp_pool rkp) \<and> (\<forall>k \<in> set (sent_keys st). cooled env (rkp_pool rkp) k))"

lemma cooled_others: "keeps_cooling f \<Longrightarrow> pool_wf p \<Longrightarrow> cooled env p k \<Longrightarrow> cooled env (f p) k"
  unfolding keeps_cooling_def cooled_def by (meson order_less_le_trans)

lemma cooled_acquire:
  assumes "pool_wf p" and "acquire rnd strat (rv_acquire_at env n) p = (Inr k, p')"
  shows "\<not> cooled env p k" and "cooled env p j \<Longrightarrow> cooled env p' j"
proof -
  note a = acquire_Inr [OF assms]
  from a(1) show k: "\<not> cooled env p k" by (auto simp: cooled_def cooling_at_def)
  assume j: "cooled env p j"
  with k have "j \<noteq> k" by auto
  moreover obtain e t where e: "entry p j = Some e" "ke_state e = CoolingUntil t" "\<And>m. rv_acquire_at env m < t"
    using j by (auto simp: cooled_def)
  moreover have "expire_entry (rv_acquire_at env n) e = e" using e(2) e(3) [of n] by (simp add: expire_entry_def)
  ultimately show "cooled env p' j" using a(2) [of j] by (auto simp: cooled_def)
qed

lemma cooled_release: "cooled env p j \<Longrightarrow> cooled env (release k p) j"
  by (auto simp: cooled_def release_def release_state_def)

lemma cooled_mark_self:
  "entry p k \<noteq> None \<Longrightarrow> (\<And>m. rv_acquire_at env m < t + (case d of None \<Rightarrow> DEFAULT_COOLDOWN | Some x \<Rightarrow> x)) \<Longrightarrow>
   cooled env (mark_cooling k d t p) k"
  by (auto simp: cooled_def mark_cooling_def Let_def)

lemma cooled_mark_other: "cooled env p j \<Longrightarrow> j \<noteq> k \<Longrightarrow> cooled env (mark_cooling k d t p) j"
  by (auto simp: cooled_def mark_cooling_def Let_def)

text \<open>Every attempt of the call falls within \<open>gap\<close> of the end of every other.\<close>

definition within_cooldown :: "retry_env \<Rightarrow> duration \<Rightarrow> bool" where
  "within_cooldown env gap \<longleftrightarrow>
     gap \<le> DEFAULT_COOLDOWN \<and> (\<forall>m n. rv_acquire_at env m < rv_done_at env n + gap) \<and>
     (\<forall>n r resp d. rv_send env n r = SendOk resp \<and> parse_retry_after (hs_retry_after resp) = Some d \<longrightarrow> gap \<le> d)"

lemma send_attempt_retry_after:
  assumes "within_cooldown env gap" and "send_attempt env cfg req url n s = (Status c d l, snt)"
  shows "rv_acquire_at env m < rv_done_at env n + (case d of None \<Rightarrow> DEFAULT_COOLDOWN | Some x \<Rightarrow> x)"
proof -
  from assms(2) obtain r resp where "rv_send env n r = SendOk resp" "d = parse_retry_after (hs_retry_after resp)"
    by (auto simp: send_attempt_def read_response_def Let_def split: option.splits send_outcome.splits if_splits)
  with assms(1) have "gap \<le> (case d of None \<Rightarrow> DEFAULT_COOLDOWN | Some x \<Rightarrow> x)"
    by (auto simp: within_cooldown_def split: option.splits)
  with assms(1) show ?thesis by (meson within_cooldown_def add_left_mono order_less_le_trans)
qed

text \<open>One attempt that goes on: the key it drew is new, and cools down past the call.\<close>

lemma settle_continue:
  assumes "within_cooldown env gap" and "send_attempt env cfg req url n s = (outc, snt)"
    and "settle_attempt env n b (Some k) outc st = (None, st')" and "rt_pool st = Some rkp"
    and "entry (rkp_pool rkp) k \<noteq> None"
  shows "\<exists>d. rt_pool st' = Some (map_pool (mark_cooling k d (rv_done_at env n)) rkp) \<and>
     (\<forall>m. rv_acquire_at env m < rv_done_at env n + (case d of None \<Rightarrow> DEFAULT_COOLDOWN | Some x \<Rightarrow> x))"
proof (cases outc)
  case (Status c d l)
  with assms(3,4) send_attempt_retry_after [OF assms(1)] assms(2) show ?thesis
    by (auto simp: settle_attempt_def Let_def cool_key_def on_pool_def split: if_splits)
next
  case (Transport e)
  have "rv_acquire_at env m < rv_done_at env n + DEFAULT_COOLDOWN" for m
    using assms(1) by (meson within_cooldown_def add_left_mono order_less_le_trans)
  with Transport assms(3,4) show ?thesis
    by (auto simp: settle_attempt_def Let_def cool_key_def on_pool_def split: if_splits)
qed (use assms(3) in \<open>simp add: settle_attempt_def Let_def\<close>)

lemma select_key_state:
  assumes "select_attempt_key env req n st = (Inr (g, s), st1)"
  shows "rt_sent st1 = rt_sent st \<and>
     (case rt_pool st of
        None \<Rightarrow> g = None \<and> st1 = st
      | Some rkp \<Rightarrow> (\<exists>k rkp1. g = Some k \<and> rt_pool st1 = Some rkp1 \<and>
          acquire (rv_random env n) (rkp_strategy rkp) (rv_acquire_at env n) (rkp_pool rkp) = (Inr k, rkp_pool rkp1)))"
proof (cases "rt_pool st")
  case None
  with assms show ?thesis by (simp add: select_attempt_key_def)
next
  case (Some rkp)
  obtain q rkp1 where a: "acquire_pool_key env n rkp = (q, rkp1)" by force
  with assms Some obtain k t where q: "q = Inr (k, t)"
    by (cases q) (auto simp: select_attempt_key_def Let_def)
  from assms Some a acquire_pool_key_Inr [OF a [unfolded q]] show ?thesis
    by (auto simp: select_attempt_key_def Let_def q)
qed

lemma failover_attempt:
  assumes inv: "failover_inv env st" and others: "keeps_cooling (rv_others env n)"
    and gap: "within_cooldown env gap"
    and att: "retry_attempt env cfg req url limit n st = (r, st')"
  shows "distinct (sent_keys st') \<and> (r = None \<longrightarrow> failover_inv env st')"
  using att
proof (cases rule: retry_attempt_cases)
  case (no_key e)
  then have "rt_sent st' = rt_sent st"
    by (auto simp: select_attempt_key_def Let_def split: option.splits prod.splits sum.splits)
  with inv no_key show ?thesis by (simp add: failover_inv_def sent_keys_def)
next
  case (tried g s st1 outc snt st3)
  let ?st2 = "on_pool (rv_others env n) (st1\<lparr>rt_sent := rt_sent st1 @ (case snt of Some q \<Rightarrow> [(g, q)] | None \<Rightarrow> [])\<rparr>)"
  note sel = select_key_state [OF tried(1)] and fr = settle_frame [OF tried(3)]
  have sent: "rt_sent st' = rt_sent st @ (case snt of Some q \<Rightarrow> [(g, q)] | None \<Rightarrow> [])"
    using fr sel by (simp add: tried(4))
  show ?thesis
  proof (cases "rt_pool st")
    case None
    with sel have st1: "g = None" "st1 = st" by auto
    have "rt_pool st3 = None"
      using tried(3) st1 None by (auto simp: settle_attempt_def Let_def cool_key_def on_pool_def split: attempt_outcome.splits if_splits)
    with None inv st1 sent show ?thesis
      by (auto simp: failover_inv_def sent_keys_def map_filter_def tried(4) drop_guard_def split: option.splits)
  next
    case (Some rkp)
    with sel obtain k rkp1 where g: "g = Some k" and st1: "rt_pool st1 = Some rkp1"
      and acq: "acquire (rv_random env n) (rkp_strategy rkp) (rv_acquire_at env n) (rkp_pool rkp) = (Inr k, rkp_pool rkp1)"
      by auto
    have old: "pool_wf (rkp_pool rkp)" "\<And>j. j \<in> set (sent_keys st) \<Longrightarrow> cooled env (rkp_pool rkp) j" "distinct (sent_keys st)"
      using inv Some by (auto simp: failover_inv_def)
    note c = cooled_acquire [OF old(1) acq] and a = acquire_Inr [OF old(1) acq]
    have new: "k \<notin> set (sent_keys st)" using old(2) c(1) by blast
    have keys: "sent_keys st' = sent_keys st \<or> sent_keys st' = sent_keys st @ [k]"
      using sent g by (auto simp: sent_keys_def map_filter_def split: option.splits)
    have d: "distinct (sent_keys st')" using keys new old(3) by auto
    let ?p2 = "rv_others env n (rkp_pool rkp1)"
    have st2: "rt_pool ?st2 = Some (map_pool (rv_others env n) rkp1)" using st1 by (simp add: on_pool_def)
    have p2: "pool_wf ?p2" "entry ?p2 k \<noteq> None"
      using others a(1,3) by (auto simp: keeps_cooling_def)
    have "failover_inv env st'" if "r = None"
    proof -
      have "settle_attempt env n (n < limit) (Some k) outc ?st2 = (None, st3)" using tried(3) that g by simp
      from settle_continue [OF gap tried(2) this st2] p2(2)
      obtain x where x: "rt_pool st3 = Some (map_pool (mark_cooling k x (rv_done_at env n)) (map_pool (rv_others env n) rkp1))"
        "\<And>m. rv_acquire_at env m < rv_done_at env n + (case x of None \<Rightarrow> DEFAULT_COOLDOWN | Some x \<Rightarrow> x)"
        by (auto simp: map_pool_def)
      let ?p3 = "release k (mark_cooling k x (rv_done_at env n) ?p2)"
      have st': "rt_pool st' = Some (map_pool (release k) (map_pool (mark_cooling k x (rv_done_at env n)) (map_pool (rv_others env n) rkp1)))"
        using x(1) g by (simp add: tried(4) drop_guard_def on_pool_def)
      have "cooled env ?p3 k" using cooled_mark_self [OF p2(2) x(2)] by (rule cooled_release)
      moreover have "cooled env ?p3 j" if "j \<in> set (sent_keys st)" for j
        using that new old(2) c(2) cooled_others [OF others a(3)]
        by (intro cooled_release cooled_mark_other) auto
      moreover have "pool_wf ?p3" using p2(1) by (simp add: release_def mark_cooling_def Let_def)
      ultimately show ?thesis using d keys st' by (auto simp: failover_inv_def map_pool_def)
    qed
    with d show ?thesis by blast
  qed
qed

section \<open>How a call ends\<close>

abbreviation attempts_of :: "upstream_request \<Rightarrow> retry_settings \<Rightarrow> nat" where
  "attempts_of req cfg \<equiv> (if uq_http_method req = Get then max 1 (unat (rs_max_attempts cfg)) else 1)"

lemma attempts_of_limit: "unat (retry_attempt_limit (uq_http_method req) (rs_max_attempts cfg)) = attempts_of req cfg"
proof -
  have "unat (max x 1) = max 1 (unat x)" for x :: u32
    by (simp add: max_def word_le_nat_alt)
  then show ?thesis by (simp add: retry_attempt_limit_def is_idempotent_method_def)
qed

text \<open>The ways a call of \<open>limit\<close> attempts may end.\<close>

definition outcome_ok :: "nat \<Rightarrow> bool \<Rightarrow> execution_error + upstream_response \<Rightarrow> bool" where
  "outcome_ok limit pooled r \<longleftrightarrow>
     (case r of
        Inr resp \<Rightarrow> 200 \<le> us_status resp \<and> us_status resp < 300 \<and> unat (us_retry_count resp) < limit
      | Inl x \<Rightarrow> unat (xe_retry_count x) < limit \<and>
          (case xe_proxy_error x of
             RetryExhausted a \<Rightarrow> unat a = limit \<and> 1 < limit
           | UpstreamError c \<Rightarrow> \<not> (200 \<le> c \<and> c < 300) \<and> (is_retryable_status c \<longrightarrow> limit = 1)
           | UpstreamTimeout _ \<Rightarrow> unat (xe_retry_count x) = limit - 1
           | ConnectionFailed \<Rightarrow> unat (xe_retry_count x) = limit - 1
           | EgressBlockedError \<Rightarrow> True
           | ProxyKeyPool _ \<Rightarrow> pooled
           | ProxySecret _ \<Rightarrow> pooled
           | _ \<Rightarrow> False))"

lemma acquire_pool_key_Inl:
  "acquire_pool_key env n rkp = (Inl e, rkp') \<Longrightarrow> (\<exists>x. e = ProxyKeyPool x) \<or> (\<exists>x. e = ProxySecret x)"
  by (auto simp: acquire_pool_key_def Let_def and_then_def ok_or_def map_err_def split: prod.splits sum.splits option.splits)

lemma send_attempt_outcome:
  assumes "send_attempt env cfg req url n s = (outc, snt)"
  shows "case outc of
      Success resp _ \<Rightarrow> 200 \<le> us_status resp \<and> us_status resp < 300
    | Status c _ _ \<Rightarrow> \<not> (200 \<le> c \<and> c < 300)
    | Transport e \<Rightarrow> e \<in> {EgressBlockedError, ConnectionFailed} \<or> (\<exists>ms. e = UpstreamTimeout ms)"
  using assms
  by (auto simp: send_attempt_def read_response_def egress_block_def Let_def
      split: option.splits send_outcome.splits if_splits sum.splits)

lemma settle_ends:
  assumes "settle_attempt env n (n < limit) g outc st = (Some r, st')" and "1 \<le> n" and "n \<le> limit" and "limit \<le> 256"
    and "unat (rp_retry_count (rt_progress st)) = n - 1" and "send_attempt env cfg req url n s = (outc, snt)"
  shows "outcome_ok limit pooled r"
proof -
  have nl: "unat (word_of_nat limit :: u32) = limit" using assms(4) by (simp add: unat_of_nat)
  have rc: "0 < rp_retry_count (rt_progress st) \<longleftrightarrow> 1 < n"
    using assms(2,5) by (simp add: word_less_nat_alt)
  show ?thesis
    using assms(1-3,5) send_attempt_outcome [OF assms(6)]
    by (auto simp: settle_attempt_def outcome_ok_def progress_fail_def final_status_error_def Let_def nl rc
        split: attempt_outcome.splits if_splits)
qed

lemma outcome_step:
  assumes "retry_attempt env cfg req url limit n st = (r, st')" and "1 \<le> n" and "n \<le> limit" and "limit \<le> 256"
    and "unat (rp_retry_count (rt_progress st)) = n - 1" and "rt_pool st \<noteq> None \<longleftrightarrow> pooled"
  shows "(case r of Some x \<Rightarrow> outcome_ok limit pooled x | None \<Rightarrow> True) \<and>
     rp_retry_count (rt_progress st') = rp_retry_count (rt_progress st) \<and> (rt_pool st' \<noteq> None \<longleftrightarrow> pooled)"
  using assms(1)
proof (cases rule: retry_attempt_cases)
  case (no_key e)
  then obtain rkp q rkp1 where "rt_pool st = Some rkp" "acquire_pool_key env n rkp = (Inl q, rkp1)"
    "e = progress_fail (rt_progress st) q None" "st' = st\<lparr>rt_pool := Some rkp1\<rparr>"
    by (auto simp: select_attempt_key_def Let_def split: option.splits prod.splits sum.splits)
  with acquire_pool_key_Inl [of env n rkp q] no_key(2) assms(2,3,5,6) show ?thesis
    by (auto simp: outcome_ok_def progress_fail_def)
next
  case (tried g s st1 outc snt st3)
  let ?st2 = "on_pool (rv_others env n) (st1\<lparr>rt_sent := rt_sent st1 @ (case snt of Some q \<Rightarrow> [(g, q)] | None \<Rightarrow> [])\<rparr>)"
  have st1: "rp_retry_count (rt_progress st1) = rp_retry_count (rt_progress st)" "rt_pool st1 \<noteq> None \<longleftrightarrow> pooled"
    using tried(1) assms(6)
    by (auto simp: select_attempt_key_def Let_def split: option.splits prod.splits sum.splits)
  have "rt_pool st' \<noteq> None \<longleftrightarrow> pooled"
    using settle_refs [OF tried(3)] st1(2)
    by (cases "rt_pool st1"; cases "rt_pool st3") (auto simp: tried(4) on_pool_def drop_guard_def split: option.splits)
  moreover have "outcome_ok limit pooled x" if "r = Some x" for x
    using settle_ends [OF tried(3) [unfolded that] assms(2-4) _ tried(2)] assms(5) st1(1) by simp
  ultimately show ?thesis using settle_frame [OF tried(3)] st1(1) by (auto simp: tried(4) split: option.split)
qed

section \<open>Properties\<close>

text \<open>C13: whatever the upstream, the clock and the other callers do, a call sends at most the configured
  number of requests (at least one) for a GET and at most one for every other method; every request
  passed the egress check and is the one the tool's arguments define, with the resource's own credential or, with a
  key pool, with the secret that the drawn key's reference resolves to.\<close>

theorem requests_bounded:
  assumes "execute_with_retry env cfg req pool = (r, st)"
    and "url = build_url (rv_ser env) (uq_base_url req) (uq_upstream_path req) (uq_args req) (uq_param_locations req)"
  shows "length (rt_sent st) \<le> (if uq_http_method req = Get then max 1 (unat (rs_max_attempts cfg)) else 1) \<and>
    (\<forall>(g, q) \<in> set (rt_sent st). egress_block (rv_parse env) cfg url = None \<and>
       (\<exists>secret. credential_of env req pool g secret \<and> build_request env req url secret = Some q))"
proof -
  let ?l = "unat (retry_attempt_limit (uq_http_method req) (rs_max_attempts cfg))"
  have "sent_ok env cfg req pool url st \<and> length (rt_sent st) \<le> ?l"
    by (rule execute_rule [where I = "\<lambda>n st. sent_ok env cfg req pool url st \<and> length (rt_sent st) < n"
          and Q = "\<lambda>_ st. sent_ok env cfg req pool url st \<and> length (rt_sent st) \<le> ?l", OF _ _ _ refl assms(2,1)])
      (auto simp: sent_ok_start sent_ok_next dest!: retry_attempt_sent)
  then show ?thesis unfolding attempts_of_limit sent_ok_def by blast
qed

text \<open>C14: a call with at most 256 attempts ends in one of these ways, and its retry count is below the
  number of attempts. A success has a 2xx status. Exhausted retries are reported after the last of
  several attempts, with their number; an upstream status is reported when it is not 2xx, and a retryable
  one only when there is a single attempt; a time-out or a failed connection only after the last
  attempt. Pool and secret errors come from the key pool only.\<close>

theorem retry_outcome:
  assumes "execute_with_retry env cfg req pool = (r, st)"
    and "(if uq_http_method req = Get then max 1 (unat (rs_max_attempts cfg)) else 1) \<le> 256"
  shows "outcome_ok (if uq_http_method req = Get then max 1 (unat (rs_max_attempts cfg)) else 1) (pool \<noteq> None) r"
proof -
  let ?l = "unat (retry_attempt_limit (uq_http_method req) (rs_max_attempts cfg))"
  let ?I = "\<lambda>n st. 1 \<le> n \<and> unat (rp_retry_count (rt_progress st)) = n - 1 \<and> (rt_pool st \<noteq> None \<longleftrightarrow> pool \<noteq> None)"
  have l: "?l \<le> 256" using assms(2) by (simp only: attempts_of_limit)
  have up: "unat (x + 1) = Suc (unat x)" if "Suc (unat x) < 256" for x :: u8
    using that by (simp add: unat_word_ariths)
  have "outcome_ok ?l (pool \<noteq> None) r"
  proof (rule execute_rule [where I = ?I and Q = "\<lambda>r _. outcome_ok ?l (pool \<noteq> None) r", OF _ _ _ refl refl assms(1)])
    fix n st st' assume I: "?I n st" and "n < ?l"
      and a: "retry_attempt env cfg req (build_url (rv_ser env) (uq_base_url req) (uq_upstream_path req) (uq_args req)
        (uq_param_locations req)) ?l n st = (None, st')"
    with outcome_step [OF a _ _ l, of "pool \<noteq> None"] l up [of "rp_retry_count (rt_progress st)"]
    show "?I (Suc n) (next_retry st')" by auto
  next
    fix n st r st' assume I: "?I n st" and "n \<le> ?l"
      and a: "retry_attempt env cfg req (build_url (rv_ser env) (uq_base_url req) (uq_upstream_path req) (uq_args req)
        (uq_param_locations req)) ?l n st = (Some r, st')"
    with outcome_step [OF a _ _ l, of "pool \<noteq> None"] show "outcome_ok ?l (pool \<noteq> None) r" by auto
  qed (simp add: retry_start_def)
  then show ?thesis by (simp only: attempts_of_limit)
qed

section \<open>Credential headers\<close>

lemma header_param_step:
  "\<exists>r1. header_param codec args (Some r) fh = Some r1 \<and>
     (r1 = r \<or> (\<exists>n v. fst codec (snd fh) = Some n \<and> hr_headers r1 = hr_headers r @ [(n, v)]))"
  by (auto simp: header_param_def builder_header_def split: option.splits json.splits)

lemma apply_params_failed: "apply_params codec args l is_get None = None"
proof -
  have "foldl (header_param codec args) None fhs = None" for fhs
    by (induction fhs) (auto simp: header_param_def builder_header_def split: option.splits json.splits)
  then show ?thesis by (auto simp: apply_params_def builder_json_def Let_def split: option.splits)
qed

lemma header_params_added:
  assumes "foldl (header_param codec args) (Some r) fhs = Some q"
  shows "\<exists>hs. hr_headers q = hr_headers r @ hs \<and> (\<forall>nv \<in> set hs. \<exists>fh \<in> set fhs. fst codec (snd fh) = Some (fst nv))"
  using assms
proof (induction fhs arbitrary: r)
  case (Cons fh fhs)
  obtain r1 where r1: "header_param codec args (Some r) fh = Some r1"
    "r1 = r \<or> (\<exists>n v. fst codec (snd fh) = Some n \<and> hr_headers r1 = hr_headers r @ [(n, v)])"
    using header_param_step [of codec args r fh] by blast
  then have "foldl (header_param codec args) (Some r1) fhs = Some q" using Cons.prems by simp
  from Cons.IH [OF this] r1(2) show ?case by auto
qed simp

lemma apply_params_headers:
  assumes "apply_params codec args locations is_get (Some r) = Some q"
  shows "\<exists>hs. hr_headers q = hr_headers r @ hs \<and>
    (\<forall>nv \<in> set hs. \<exists>l fh. locations = Some l \<and> fh \<in> set (pl_header_params l) \<and> fst codec (snd fh) = Some (fst nv))"
proof (cases locations)
  case (Some l)
  show ?thesis
  proof (cases "as_object args")
    case (Some m)
    from assms obtain b where b: "foldl (header_param codec args) (Some r) (pl_header_params l) = Some b"
      "hr_headers q = hr_headers b"
      by (auto simp: apply_params_def \<open>locations = Some l\<close> Some builder_json_def Let_def
          split: if_splits option.splits)
    then show ?thesis using header_params_added [OF b(1)] unfolding \<open>locations = Some l\<close> by (metis (no_types))
  qed (use assms in \<open>simp add: apply_params_def Some\<close>)
qed (use assms in \<open>auto simp: apply_params_def builder_json_def split: if_splits\<close>)

lemma apply_auth_headers:
  assumes "apply_auth codec auth secret (Some r) = Some q" "hr_headers r = []" "(n, v) \<in> set (hr_headers q)"
  shows "\<exists>s. secret = Some s \<and> (v = s \<or> v = ''Bearer '' @ s)"
  using assms by (auto simp: apply_auth_def builder_header_def split: upstream_auth.splits option.splits if_splits)

lemma sent_requests:
  assumes "execute_with_retry env cfg req pool = (r, st)" "(g, q) \<in> set (rt_sent st)"
  shows "\<exists>url secret. credential_of env req pool g secret \<and> build_request env req url secret = Some q"
proof -
  let ?url = "build_url (rv_ser env) (uq_base_url req) (uq_upstream_path req) (uq_args req) (uq_param_locations req)"
  have "sent_ok env cfg req pool ?url st"
    by (rule execute_rule [where I = "\<lambda>n st. sent_ok env cfg req pool ?url st"
          and Q = "\<lambda>_ st. sent_ok env cfg req pool ?url st", OF _ _ _ refl refl assms(1)])
      (auto simp: sent_ok_start sent_ok_next dest!: retry_attempt_sent)
  with assms(2) show ?thesis unfolding sent_ok_def by blast
qed

text \<open>C2: whatever a caller passes as arguments, and whatever the OpenAPI document behind a tool declares, each value
  that a request for the tool carries under a credential header (\<open>authorization\<close>, \<open>x-api-key\<close>, \<open>x-auth-token\<close>,
  \<open>proxy-authorization\<close>) is the gateway's own credential for that attempt. The hypothesis on header names is what
  the crate \<open>http\<close> documents: an accepted name is stored in lower case.\<close>

theorem credential_headers_guarded:
  assumes "catalog_from_config oenv config = Inr c" "t \<in> set (cat_tools c)"
    and "uq_param_locations req = wt_param_locations t"
    and "execute_with_retry env cfg req pool = (r, st)" "(g, q) \<in> set (rt_sent st)"
    and "\<forall>n h. fst (rv_codec env) n = Some h \<longrightarrow> h = ol_lower (oe_lib oenv) n"
    and "(name, v) \<in> set (hr_headers q)" "name \<in> set AUTH_HEADERS"
  shows "\<exists>secret. credential_of env req pool g (Some secret) \<and> (v = secret \<or> v = ''Bearer '' @ secret)"
proof -
  obtain url secret where cred: "credential_of env req pool g secret" and b: "build_request env req url secret = Some q"
    using sent_requests [OF assms(4,5)] by blast
  let ?r0 = "\<lparr>hr_method = uq_http_method req, hr_url = url, hr_headers = [], hr_body = None\<rparr>"
  from b apply_params_failed obtain r1 where r1: "apply_auth (rv_codec env) (uq_auth req) secret (Some ?r0) = Some r1"
    "apply_params (rv_codec env) (uq_args req) (uq_param_locations req) (uq_http_method req = Get) (Some r1) = Some q"
    unfolding build_request_def by (metis option.exhaust)
  from apply_params_headers [OF r1(2)] obtain hs where hs: "hr_headers q = hr_headers r1 @ hs"
    "\<forall>nv \<in> set hs. \<exists>l fh. uq_param_locations req = Some l \<and> fh \<in> set (pl_header_params l) \<and>
       fst (rv_codec env) (snd fh) = Some (fst nv)" by blast
  have "fst nv \<notin> set AUTH_HEADERS" if "nv \<in> set hs" for nv
    using hs(2) that catalog_headers [OF assms(1,2)] assms(3,6) unfolding headers_ok_def by metis
  with hs(1) assms(7,8) have "(name, v) \<in> set (hr_headers r1)" by fastforce
  from apply_auth_headers [OF r1(1) _ this] cred show ?thesis by auto
qed

text \<open>When the attempts of a call fall within the cooldown of the keys they use up and the other callers
  do not shorten a cooldown, no two requests of the call use the same key of the pool.\<close>

lemma failover_distinct_keys:
  assumes "execute_with_retry env cfg req pool = (r, st)"
    and "\<forall>n. keeps_cooling (rv_others env n)" and "within_cooldown env gap"
    and "\<forall>rkp. pool = Some rkp \<longrightarrow> pool_wf (rkp_pool rkp)"
  shows "distinct (sent_keys st)"
proof -
  have "failover_inv env (retry_start pool)"
    using assms(4) by (auto simp: failover_inv_def retry_start_def sent_keys_def map_filter_simps split: option.splits)
  moreover have "failover_inv env st \<Longrightarrow> failover_inv env (next_retry st)" for st
    by (auto simp: failover_inv_def sent_keys_next split: option.splits)
  ultimately show ?thesis
    using failover_attempt [OF _ spec [OF assms(2)] assms(3)]
    by (intro execute_rule [where I = "\<lambda>_. failover_inv env" and Q = "\<lambda>_ st. distinct (sent_keys st)",
          OF _ _ _ refl refl assms(1)]) blast+
qed

text \<open>A GET over a pool of two keys: the first request meets a 503, the second succeeds.\<close>

definition example_response :: "u16 \<Rightarrow> upstream_http_response" where
  "example_response status =
     \<lparr>hs_status = status, hs_content_type = None, hs_retry_after = None, hs_body = Some ''ok'', hs_elapsed = 0\<rparr>"

definition example_retry_env :: retry_env where
  "example_retry_env =
     \<lparr>rv_resolve = (\<lambda>_ r. Inr (secret_ref_to_string r)), rv_random = (\<lambda>_. example_random), rv_acquire_at = (\<lambda>n. min n 3),
      rv_done_at = (\<lambda>n. n), rv_others = (\<lambda>_ p. p),
      rv_send = (\<lambda>n _. if n = 1 then SendOk (example_response 503) else SendOk (example_response 200)),
      rv_ser = (\<lambda>_. []), rv_codec = (Some, \<lambda>_. True), rv_parse = (\<lambda>_. None)\<rparr>"

definition example_retry_pool :: resource_key_pool where
  "example_retry_pool = resource_key_pool_new RoundRobin [(''secret://env/A'', 1), (''secret://env/B'', 1)]"

definition example_upstream_request :: upstream_request where
  "example_upstream_request =
     \<lparr>uq_http_method = Get, uq_upstream_path = ''/v1'', uq_base_url = ''https://api'', uq_auth = AuthBearer [],
      uq_args = JObject [], uq_secret = None, uq_param_locations = None\<rparr>"

definition example_settings :: retry_settings where
  "example_settings =
     \<lparr>rs_max_attempts = 3, rs_request_timeout = 1, rs_block_private = False, rs_egress_dns_pinned = False\<rparr>"

text \<open>
  A tool discovered in a document that declares \<open>Authorization\<close> as a parameter, called with a value for it:
  the request has the gateway's token there and the declared trace header beside it.
\<close>

definition example_pets :: api_resource where
  "example_pets =
     \<lparr>ar_id = ''pets'', ar_domain = ''zoo'', ar_provider = [], ar_base_url = ''https://api'', ar_description = [],
      ar_auth = AuthBearer [], ar_key_pool = None, ar_endpoints = [],
      ar_discovery = Some \<lparr>os_source = SpecFile, os_path = Some ''pets.yaml'', os_url = None, os_include_tags = [],
        os_exclude_operations = [], os_default_method_exposure = []\<rparr>,
      ar_security = default_security_config, ar_limits = None\<rparr>"

definition example_openapi_env :: openapi_env where
  "example_openapi_env = \<lparr>oe_read = (\<lambda>_. Inr []), oe_lib = example_openapi_lib\<rparr>"

definition example_pets_config :: gateway_config where
  "example_pets_config = example_auth_config\<lparr>gc_api_resources := [example_pets]\<rparr>"

definition example_pet_locations :: param_locations where
  "example_pet_locations =
     \<lparr>pl_path_params = [''id''], pl_query_params = [], pl_header_params = [(''_X-Trace'', ''X-Trace'')],
      pl_has_body = False\<rparr>"

definition example_pet_request :: upstream_request where
  "example_pet_request =
     \<lparr>uq_http_method = Get, uq_upstream_path = ''/pets/{id}'', uq_base_url = ''https://api'', uq_auth = AuthBearer [],
      uq_args = JObject [(''_Authorization'', JString ''mine''), (''_X-Trace'', JString ''t''), (''id'', JString ''7'')],
      uq_secret = Some ''token'', uq_param_locations = Some example_pet_locations\<rparr>"

definition example_pet_env :: retry_env where
  "example_pet_env =
     example_retry_env\<lparr>rv_codec := (\<lambda>n. Some (map ascii_lower n), \<lambda>_. True),
       rv_send := (\<lambda>_ _. SendOk (example_response 200))\<rparr>"

lemma example_pet_catalog:
  "\<exists>c t. catalog_from_config example_openapi_env example_pets_config = Inr c \<and> cat_tools c = [t] \<and>
     wt_param_locations t = Some example_pet_locations"
proof -
  obtain ep where ep: "discover_endpoints example_openapi_lib [] example_discovery = Inr [ep]"
    "de_tool_segment ep = ''get_pet''" "de_param_locations ep = example_pet_locations"
    using example_endpoints by (auto simp: map_eq_Cons_conv example_pet_locations_def split: sum.splits)
  let ?name = "\<lparr>tn_domain = ''zoo'', tn_provider = ''pets'', tn_tool = ''get_pet''\<rparr>"
  have "wf_tool_name ?name" by code_simp
  then have "tool_name_new ''zoo'' ''pets'' ''get_pet'' = Inr ?name" using tool_name_new_id [of ?name] by simp
  then obtain t where t: "openapi_tool example_pets ep = Inr t" "wt_param_locations t = Some example_pet_locations"
    by (auto simp: openapi_tool_def ep example_pets_def provider_or_id_def)
  have "tools_from_openapi example_openapi_env example_pets (the (ar_discovery example_pets)) = Inr [t]"
    using ep(1) t(1)
    by (simp add: tools_from_openapi_def discovery_config_def example_openapi_env_def example_discovery_def)
      (simp add: example_pets_def)
  then show ?thesis
    using t(2) by (simp add: catalog_from_config_def example_pets_config_def tools_for_resource_def example_pets_def)
qed

lemma example_pet_sent:
  "map (\<lambda>gq. (fst gq, hr_headers (snd gq)))
     (rt_sent (snd (execute_with_retry example_pet_env example_settings example_pet_request None))) =
   [(None, [(''authorization'', ''Bearer token''), (''x-trace'', ''t'')])]"
proof -
  have low: "map ascii_lower ''authorization'' = ''authorization''" "map ascii_lower ''X-Trace'' = ''x-trace''"
    by code_simp+
  have limit: "unat (retry_attempt_limit Get 3) = Suc 2"
    by (simp add: retry_attempt_limit_def is_idempotent_method_def max_def word_le_nat_alt)
  have build: "\<exists>q. build_request example_pet_env example_pet_request url (Some ''token'') = Some q \<and>
      hr_headers q = [(''authorization'', ''Bearer token''), (''x-trace'', ''t'')]" for url
    using low
    by (simp add: build_request_def apply_auth_def apply_params_def header_param_def builder_header_def as_object_def
        example_pet_env_def example_pet_request_def example_pet_locations_def del: list.map)
  let ?url = "build_url (rv_ser example_pet_env) (uq_base_url example_pet_request)
    (uq_upstream_path example_pet_request) (uq_args example_pet_request) (uq_param_locations example_pet_request)"
  obtain q where q: "build_request example_pet_env example_pet_request ?url (Some ''token'') = Some q"
    "hr_headers q = [(''authorization'', ''Bearer token''), (''x-trace'', ''t'')]" using build by blast
  have "\<exists>x l. send_attempt example_pet_env example_settings example_pet_request ?url (Suc 0) (Some ''token'') =
      (Success x l, Some q)"
    by (simp add: send_attempt_def q(1) egress_block_def Let_def)
      (simp add: example_settings_def example_pet_env_def read_response_def example_response_def Let_def)
  then obtain x l where sent: "send_attempt example_pet_env example_settings example_pet_request ?url (Suc 0)
      (Some ''token'') = (Success x l, Some q)" by blast
  have "uq_secret example_pet_request = Some ''token''" "uq_http_method example_pet_request = Get"
    "rs_max_attempts example_settings = 3"
    by (simp_all add: example_pet_request_def example_settings_def)
  then show ?thesis
    using sent q(2)
    by (simp add: execute_with_retry_def Let_def limit retry_attempt_def select_attempt_key_def retry_start_def
        settle_attempt_def on_pool_def drop_guard_def numeral_3_eq_3)
qed

theorem credential_headers_guarded_witness:
  "\<exists>secret. credential_of example_pet_env example_pet_request None None (Some secret) \<and>
     (''Bearer token'' = secret \<or> ''Bearer token'' = ''Bearer '' @ secret)"
proof -
  obtain c t where c: "catalog_from_config example_openapi_env example_pets_config = Inr c" "t \<in> set (cat_tools c)"
    "uq_param_locations example_pet_request = wt_param_locations t"
    using example_pet_catalog by (auto simp: example_pet_request_def)
  obtain q where q: "(None, q) \<in> set (rt_sent (snd (execute_with_retry example_pet_env example_settings example_pet_request None)))"
    "hr_headers q = [(''authorization'', ''Bearer token''), (''x-trace'', ''t'')]"
    using example_pet_sent by (auto simp: map_eq_Cons_conv)
  show ?thesis
    by (rule credential_headers_guarded [OF c prod.collapse [symmetric] q(1), where name = "''authorization''"])
      (auto simp: q(2) example_pet_env_def example_openapi_env_def example_openapi_lib_def AUTH_HEADERS_def)
qed

theorem requests_bounded_witness:
  "length (rt_sent (snd (execute_with_retry example_retry_env example_settings
     (example_upstream_request\<lparr>uq_http_method := Post\<rparr>) (Some example_retry_pool)))) \<le> 1"
  using requests_bounded [OF prod.collapse [symmetric] refl, where env = example_retry_env and cfg = example_settings
      and req = "example_upstream_request\<lparr>uq_http_method := Post\<rparr>" and pool = "Some example_retry_pool"]
  by simp

theorem retry_outcome_witness:
  "outcome_ok 3 True
     (fst (execute_with_retry example_retry_env example_settings example_upstream_request (Some example_retry_pool)))"
  using retry_outcome [OF prod.collapse [symmetric], where req = example_upstream_request and cfg = example_settings
      and env = example_retry_env and pool = "Some example_retry_pool"]
  by (simp add: example_upstream_request_def example_settings_def)

lemma failover_distinct_keys_witness:
  "distinct (sent_keys (snd (execute_with_retry example_retry_env example_settings example_upstream_request
     (Some example_retry_pool))))"
proof (rule failover_distinct_keys [OF prod.collapse [symmetric], where gap = 10])
  show "\<forall>n. keeps_cooling (rv_others example_retry_env n)"
    by (auto simp: keeps_cooling_def example_retry_env_def)
  show "within_cooldown example_retry_env 10"
    by (auto simp: within_cooldown_def example_retry_env_def DEFAULT_COOLDOWN_def example_response_def
        parse_retry_after_def split: if_splits)
  show "\<forall>rkp. Some example_retry_pool = Some rkp \<longrightarrow> pool_wf (rkp_pool rkp)"
    using resource_key_pool_new_wf [of "[(''secret://env/A'', 1), (''secret://env/B'', 1)]" RoundRobin]
    by (simp add: example_retry_pool_def rkp_wf_def)
qed

end
