(* ===== verification/Limits.thy ===== *)
theory Limits
  imports Errors Machine "HOL-Library.Multiset"
begin

text \<open>
  The limit engine (\<open>src/limits/\<close>): per-entity rate limiters, the concurrency queue, and the
  total and daily call quotas with their refund. The GCRA limiter is the \<open>governor\<close> crate: a
  type \<open>'g\<close> of limiter states with a record of its operations; the outcome of waiting on the
  tokio semaphore is an argument. A UTC day is the number of whole days since the epoch.
\<close>

section \<open>Dimensions (key.rs)\<close>

datatype limiter_key = Endpoint string | Principal string

definition dimension :: "limiter_key \<Rightarrow> string" where
  "dimension k = (case k of Endpoint _ \<Rightarrow> ''endpoint'' | Principal _ \<Rightarrow> ''principal'')"

definition limiter_key_str :: "limiter_key \<Rightarrow> string" where
  "limiter_key_str k =
     (case k of Endpoint api \<Rightarrow> ''endpoint[api='' @ api @ '']''
      | Principal p \<Rightarrow> ''principal[id='' @ p @ '']'')"

section \<open>The queue (queue.rs)\<close>

datatype priority = Normal | MasterKey | Retry

fun priority_rank :: "priority \<Rightarrow> nat" where
  "priority_rank Normal = 0" | "priority_rank MasterKey = 1" | "priority_rank Retry = 2"

record request_queue =
  rq_available :: nat
  rq_timeout :: duration

text \<open>How \<open>timeout(acquire_owned())\<close> ends: with a permit, with a closed semaphore, or too late.\<close>

datatype wait_outcome = Acquired | Closed | Elapsed

definition request_queue_new :: "nat \<Rightarrow> duration \<Rightarrow> request_queue" where
  "request_queue_new n t = \<lparr>rq_available = n, rq_timeout = t\<rparr>"

definition take_permit :: "request_queue \<Rightarrow> request_queue" where
  "take_permit q = q\<lparr>rq_available := rq_available q - 1\<rparr>"

definition return_permit :: "request_queue \<Rightarrow> request_queue" where
  "return_permit q = q\<lparr>rq_available := rq_available q + 1\<rparr>"

definition queue_admit :: "priority \<Rightarrow> wait_outcome \<Rightarrow> request_queue \<Rightarrow> (limit_error + unit) \<times> request_queue" where
  "queue_admit p out q =
     (if priority_rank p > priority_rank Normal \<and> rq_available q > 0 then (Inr (), take_permit q)
      else case out of
             Acquired \<Rightarrow> (Inr (), take_permit q)
           | Closed \<Rightarrow> (Inl QueueFull, q)
           | Elapsed \<Rightarrow> (Inl QueueTimeout, q))"

section \<open>The registry (registry.rs)\<close>

record 'g governor =
  gov_per_second :: "u32 \<Rightarrow> 'g"
  gov_per_minute :: "u32 \<Rightarrow> 'g"
  gov_check :: "instant \<Rightarrow> 'g \<Rightarrow> duration option \<times> 'g"

record 'g upstream_entry =
  ue_rps :: "'g option"
  ue_rpm :: "'g option"
  ue_queue :: "request_queue option"

record 'g limit_entry =
  le_rps :: "'g option"
  le_rpm :: "'g option"
  le_max_calls :: "u64 option"
  le_max_calls_per_day :: "u64 option"

record key_counters =
  ct_total :: u64
  ct_day :: int
  ct_today :: u64

record 'g limit_registry =
  lr_upstreams :: "string \<rightharpoonup> 'g upstream_entry"
  lr_keys :: "string \<rightharpoonup> 'g limit_entry"
  lr_usage :: "string \<rightharpoonup> key_counters"

record key_usage_view =
  ku_calls_total :: u64
  ku_calls_today :: u64
  ku_max_calls :: "u64 option"
  ku_max_calls_per_day :: "u64 option"

definition DAY_NS :: int where
  "DAY_NS = 86400 * 10 ^ 9"

definition date_naive :: "datetime \<Rightarrow> int" where
  "date_naive now = now div DAY_NS"

definition key_counters_new :: "int \<Rightarrow> key_counters" where
  "key_counters_new day = \<lparr>ct_total = 0, ct_day = day, ct_today = 0\<rparr>"

definition roll_to :: "int \<Rightarrow> key_counters \<Rightarrow> key_counters" where
  "roll_to today c = (if ct_day c \<noteq> today then c\<lparr>ct_day := today, ct_today := 0\<rparr> else c)"

definition today_on :: "int \<Rightarrow> key_counters \<Rightarrow> u64" where
  "today_on today c = (if ct_day c = today then ct_today c else 0)"

definition sat_inc :: "u64 \<Rightarrow> u64" where
  "sat_inc x = (if x = - 1 then x else x + 1)"

definition sat_dec :: "u64 \<Rightarrow> u64" where
  "sat_dec x = (if x = 0 then 0 else x - 1)"

definition until_next_utc_midnight :: "datetime \<Rightarrow> duration" where
  "until_next_utc_midnight now = nat ((date_naive now + 1) * DAY_NS - now)"

definition invalid_limit :: "string \<Rightarrow> string \<Rightarrow> asterlane_error" where
  "invalid_limit field entity =
     internal ConfigInvalidYaml (''limits.'' @ field @ '' must be > 0 for '' @ [CHR 0x27] @ entity @ [CHR 0x27])"

definition direct_limiter :: "(u32 \<Rightarrow> 'g) \<Rightarrow> string \<Rightarrow> string \<Rightarrow> u32 option \<Rightarrow> asterlane_error + 'g option" where
  "direct_limiter per field entity value =
     (case value of
        None \<Rightarrow> Inr None
      | Some v \<Rightarrow> if v = 0 then Inl (invalid_limit field entity) else Inr (Some (per v)))"

definition upstream_entry_of :: "'g governor \<Rightarrow> upstream_limits \<Rightarrow> string \<Rightarrow> asterlane_error + 'g upstream_entry" where
  "upstream_entry_of gov limits entity =
     and_then
       (case ul_max_concurrent limits of
          None \<Rightarrow> Inr None
        | Some n \<Rightarrow>
            if n = 0 then Inl (invalid_limit ''max_concurrent'' entity)
            else Inr (Some (request_queue_new (unat n) (unat (ul_queue_timeout_secs limits) * 10 ^ 9))))
       (\<lambda>queue.
     and_then (direct_limiter (gov_per_second gov) ''rps'' entity (ul_rps limits)) (\<lambda>rps.
     and_then (direct_limiter (gov_per_minute gov) ''rpm'' entity (ul_rpm limits)) (\<lambda>rpm.
       Inr \<lparr>ue_rps = rps, ue_rpm = rpm, ue_queue = queue\<rparr>)))"

definition limit_entry_of :: "'g governor \<Rightarrow> key_limits \<Rightarrow> string \<Rightarrow> asterlane_error + 'g limit_entry" where
  "limit_entry_of gov limits entity =
     (if kl_max_calls limits = Some 0 then Inl (invalid_limit ''max_calls'' entity)
      else if kl_max_calls_per_day limits = Some 0 then Inl (invalid_limit ''max_calls_per_day'' entity)
      else
        and_then (direct_limiter (gov_per_second gov) ''rps'' entity (kl_rps limits)) (\<lambda>rps.
        and_then (direct_limiter (gov_per_minute gov) ''rpm'' entity (kl_rpm limits)) (\<lambda>rpm.
          Inr \<lparr>le_rps = rps, le_rpm = rpm, le_max_calls = kl_max_calls limits,
               le_max_calls_per_day = kl_max_calls_per_day limits\<rparr>)))"

fun collect_entries ::
  "('l \<Rightarrow> string \<Rightarrow> asterlane_error + 'e) \<Rightarrow> (string \<times> 'l option) list \<Rightarrow> (string \<rightharpoonup> 'e) \<Rightarrow>
   asterlane_error + (string \<rightharpoonup> 'e)" where
  "collect_entries build [] m = Inr m"
| "collect_entries build ((i, None) # xs) m = collect_entries build xs m"
| "collect_entries build ((i, Some l) # xs) m =
     and_then (build l i) (\<lambda>e. collect_entries build xs (m(i \<mapsto> e)))"

definition limits_from_config :: "'g governor \<Rightarrow> gateway_config \<Rightarrow> asterlane_error + 'g limit_registry" where
  "limits_from_config gov config =
     and_then (collect_entries (upstream_entry_of gov)
       (map (\<lambda>r. (ar_id r, ar_limits r)) (gc_api_resources config)) Map.empty) (\<lambda>ups1.
     and_then (collect_entries (upstream_entry_of gov)
       (map (\<lambda>s. (ms_id s, ms_limits s)) (gc_mcp_servers config)) ups1) (\<lambda>ups.
     and_then (collect_entries (limit_entry_of gov)
       (map (\<lambda>k. (pk_id k, pk_limits k)) (gc_proxy_keys config)) Map.empty) (\<lambda>keys.
       Inr \<lparr>lr_upstreams = ups, lr_keys = keys, lr_usage = Map.empty\<rparr>)))"

definition check_direct ::
  "'g governor \<Rightarrow> instant \<Rightarrow> limiter_key \<Rightarrow> 'g option \<Rightarrow> (limit_error + unit) \<times> 'g option" where
  "check_direct gov t dim limiter =
     (case limiter of
        None \<Rightarrow> (Inr (), None)
      | Some g \<Rightarrow>
          (case gov_check gov t g of
             (None, g') \<Rightarrow> (Inr (), Some g')
           | (Some wait, g') \<Rightarrow> (Inl (QuotaExceeded (dimension dim) (Some wait)), Some g')))"

definition check_key ::
  "'g governor \<Rightarrow> instant \<Rightarrow> string \<Rightarrow> 'g limit_registry \<Rightarrow> (limit_error + unit) \<times> 'g limit_registry" where
  "check_key gov t key_id reg =
     (case lr_keys reg key_id of
        None \<Rightarrow> (Inr (), reg)
      | Some e \<Rightarrow>
          (let (r1, rps) = check_direct gov t (Principal key_id) (le_rps e);
               e1 = e\<lparr>le_rps := rps\<rparr>
           in case r1 of
                Inl err \<Rightarrow> (Inl err, reg\<lparr>lr_keys := (lr_keys reg)(key_id \<mapsto> e1)\<rparr>)
              | Inr _ \<Rightarrow>
                  (let (r2, rpm) = check_direct gov t (Principal key_id) (le_rpm e1)
                   in (r2, reg\<lparr>lr_keys := (lr_keys reg)(key_id \<mapsto> e1\<lparr>le_rpm := rpm\<rparr>)\<rparr>))))"

definition check_call_quotas :: "string \<Rightarrow> datetime \<Rightarrow> 'g limit_registry \<Rightarrow> limit_error + unit" where
  "check_call_quotas key_id now reg =
     (case lr_keys reg key_id of
        None \<Rightarrow> Inr ()
      | Some e \<Rightarrow>
          if le_max_calls e = None \<and> le_max_calls_per_day e = None then Inr ()
          else
            (let today = date_naive now;
                 (total, today_used) =
                   (case lr_usage reg key_id of None \<Rightarrow> (0, 0) | Some c \<Rightarrow> (ct_total c, today_on today c))
             in if (case le_max_calls e of Some l \<Rightarrow> l \<le> total | None \<Rightarrow> False) then Inl CallsExhausted
                else if (case le_max_calls_per_day e of Some l \<Rightarrow> l \<le> today_used | None \<Rightarrow> False)
                then Inl (DailyCallsExhausted (until_next_utc_midnight now))
                else Inr ()))"

definition admit_upstream ::
  "'g governor \<Rightarrow> instant \<Rightarrow> wait_outcome \<Rightarrow> string \<Rightarrow> 'g limit_registry \<Rightarrow> (limit_error + bool) \<times> 'g limit_registry" where
  "admit_upstream gov t out up reg =
     (case lr_upstreams reg up of
        None \<Rightarrow> (Inr False, reg)
      | Some e \<Rightarrow>
          (let (r1, rps) = check_direct gov t (Endpoint up) (ue_rps e); e1 = e\<lparr>ue_rps := rps\<rparr>
           in case r1 of
                Inl err \<Rightarrow> (Inl err, reg\<lparr>lr_upstreams := (lr_upstreams reg)(up \<mapsto> e1)\<rparr>)
              | Inr _ \<Rightarrow>
                  (let (r2, rpm) = check_direct gov t (Endpoint up) (ue_rpm e1); e2 = e1\<lparr>ue_rpm := rpm\<rparr>
                   in case r2 of
                        Inl err \<Rightarrow> (Inl err, reg\<lparr>lr_upstreams := (lr_upstreams reg)(up \<mapsto> e2)\<rparr>)
                      | Inr _ \<Rightarrow>
                          (case ue_queue e2 of
                             None \<Rightarrow> (Inr False, reg\<lparr>lr_upstreams := (lr_upstreams reg)(up \<mapsto> e2)\<rparr>)
                           | Some q \<Rightarrow>
                               (let (r3, q') = queue_admit Normal out q
                                in (map_sum id (\<lambda>_. True) r3,
                                    reg\<lparr>lr_upstreams := (lr_upstreams reg)(up \<mapsto> e2\<lparr>ue_queue := Some q'\<rparr>)\<rparr>))))))"

definition record_call :: "string \<Rightarrow> datetime \<Rightarrow> 'g limit_registry \<Rightarrow> 'g limit_registry" where
  "record_call key_id now reg =
     (let today = date_naive now;
          c = roll_to today (case lr_usage reg key_id of None \<Rightarrow> key_counters_new today | Some c \<Rightarrow> c)
      in reg\<lparr>lr_usage := (lr_usage reg)(key_id \<mapsto> c\<lparr>ct_total := sat_inc (ct_total c), ct_today := sat_inc (ct_today c)\<rparr>)\<rparr>)"

text \<open>\<open>Ok(Some(permit))\<close> is \<open>Inr True\<close>, \<open>Ok(None)\<close> is \<open>Inr False\<close>.\<close>

definition admit_at ::
  "'g governor \<Rightarrow> instant \<Rightarrow> wait_outcome \<Rightarrow> string \<Rightarrow> string \<Rightarrow> datetime \<Rightarrow> 'g limit_registry \<Rightarrow>
   (limit_error + bool) \<times> 'g limit_registry" where
  "admit_at gov t out key_id up now reg =
     (case check_key gov t key_id reg of
        (Inl e, reg1) \<Rightarrow> (Inl e, reg1)
      | (Inr _, reg1) \<Rightarrow>
          (case check_call_quotas key_id now reg1 of
             Inl e \<Rightarrow> (Inl e, reg1)
           | Inr _ \<Rightarrow>
               (case admit_upstream gov t out up reg1 of
                  (Inl e, reg2) \<Rightarrow> (Inl e, reg2)
                | (Inr permit, reg2) \<Rightarrow> (Inr permit, record_call key_id now reg2))))"

definition refund_call_at :: "string \<Rightarrow> datetime \<Rightarrow> 'g limit_registry \<Rightarrow> 'g limit_registry" where
  "refund_call_at key_id now reg =
     (case lr_usage reg key_id of
        None \<Rightarrow> reg
      | Some c \<Rightarrow>
          (let c1 = c\<lparr>ct_total := sat_dec (ct_total c)\<rparr>;
               c2 = (if ct_day c1 = date_naive now then c1\<lparr>ct_today := sat_dec (ct_today c1)\<rparr> else c1)
           in reg\<lparr>lr_usage := (lr_usage reg)(key_id \<mapsto> c2)\<rparr>))"

definition quota_guard_drop :: "bool \<Rightarrow> string \<Rightarrow> datetime \<Rightarrow> 'g limit_registry \<Rightarrow> 'g limit_registry" where
  "quota_guard_drop committed key_id now reg = (if committed then reg else refund_call_at key_id now reg)"

definition usage_entry :: "string \<Rightarrow> datetime \<Rightarrow> 'g limit_registry \<Rightarrow> key_counters" where
  "usage_entry key_id now reg =
     (case lr_usage reg key_id of None \<Rightarrow> key_counters_new (date_naive now) | Some c \<Rightarrow> c)"

definition seed_call_count :: "string \<Rightarrow> u64 \<Rightarrow> datetime \<Rightarrow> 'g limit_registry \<Rightarrow> 'g limit_registry" where
  "seed_call_count key_id n now reg =
     reg\<lparr>lr_usage := (lr_usage reg)(key_id \<mapsto> (usage_entry key_id now reg)\<lparr>ct_total := n\<rparr>)\<rparr>"

definition seed_daily_count_at :: "string \<Rightarrow> u64 \<Rightarrow> datetime \<Rightarrow> 'g limit_registry \<Rightarrow> 'g limit_registry" where
  "seed_daily_count_at key_id n now reg =
     reg\<lparr>lr_usage := (lr_usage reg)(key_id \<mapsto>
       (usage_entry key_id now reg)\<lparr>ct_day := date_naive now, ct_today := n\<rparr>)\<rparr>"

definition carry_counts_from :: "'g limit_registry \<Rightarrow> 'g limit_registry \<Rightarrow> 'g limit_registry" where
  "carry_counts_from old reg = reg\<lparr>lr_usage := lr_usage old\<rparr>"

definition key_usage_at :: "string \<Rightarrow> datetime \<Rightarrow> 'g limit_registry \<Rightarrow> key_usage_view option" where
  "key_usage_at key_id now reg =
     (if lr_keys reg key_id = None \<and> lr_usage reg key_id = None then None
      else
        (let (total, today) =
               (case lr_usage reg key_id of None \<Rightarrow> (0, 0)
                | Some c \<Rightarrow> (ct_total c, today_on (date_naive now) c))
         in Some \<lparr>ku_calls_total = total, ku_calls_today = today,
                  ku_max_calls = Option.bind (lr_keys reg key_id) le_max_calls,
                  ku_max_calls_per_day = Option.bind (lr_keys reg key_id) le_max_calls_per_day\<rparr>))"

section \<open>Seeding from the store (seed.rs)\<close>

record usage_summary =
  us_dimension_value :: string
  us_request_count :: int
  us_error_count :: int

definition success_count :: "usage_summary \<Rightarrow> u64" where
  "success_count row = word_of_int (max 0 (us_request_count row - us_error_count row))"

text \<open>The two queries are arguments, \<^const>\<open>None\<close> when one fails.\<close>

definition seed_from_store ::
  "usage_summary list option \<Rightarrow> usage_summary list option \<Rightarrow> datetime \<Rightarrow> 'g limit_registry \<Rightarrow> 'g limit_registry" where
  "seed_from_store totals todays now reg =
     (let reg1 = (case totals of None \<Rightarrow> reg | Some rows \<Rightarrow>
            fold (\<lambda>row. seed_call_count (us_dimension_value row) (success_count row) now) rows reg)
      in case todays of None \<Rightarrow> reg1 | Some rows \<Rightarrow>
            fold (\<lambda>row. seed_daily_count_at (us_dimension_value row) (success_count row) now) rows reg1)"

section \<open>Counters\<close>

definition calls_total :: "'g limit_registry \<Rightarrow> string \<Rightarrow> nat" where
  "calls_total reg k = (case lr_usage reg k of None \<Rightarrow> 0 | Some c \<Rightarrow> unat (ct_total c))"

definition calls_on :: "'g limit_registry \<Rightarrow> int \<Rightarrow> string \<Rightarrow> nat" where
  "calls_on reg day k = (case lr_usage reg k of None \<Rightarrow> 0 | Some c \<Rightarrow> unat (today_on day c))"

lemma unat_minus_1: "unat (- 1 :: u64) = 2 ^ 64 - 1"
  by (simp add: unsigned_minus_1_eq_mask mask_eq_exp_minus_1)

lemma unat_sat_inc: "unat (sat_inc x) = min (unat x + 1) (2 ^ 64 - 1)"
proof (cases "x = - 1")
  case True
  then show ?thesis by (simp add: sat_inc_def unat_minus_1)
next
  case False
  with unat_minus_1 have "unat x \<noteq> 2 ^ 64 - 1" by (metis word_unat_eq_iff)
  moreover have "unat x < 2 ^ 64" using unsigned_less [of x] by simp
  ultimately have "unat x + 1 < 2 ^ 64" by simp
  then have "unat (x + 1) = unat x + 1" by (subst unat_add_lem [THEN iffD1]) simp_all
  with False \<open>unat x + 1 < 2 ^ 64\<close> show ?thesis by (simp add: sat_inc_def)
qed

lemma unat_sat_dec: "unat (sat_dec x) = unat x - 1"
  by (simp add: sat_dec_def unat_minus_one)

lemma sat_dec_inc: "x \<noteq> - 1 \<Longrightarrow> sat_dec (sat_inc x) = x"
  by (simp add: sat_dec_def sat_inc_def) (metis add_diff_cancel diff_0)

lemma date_range: "date_naive now * DAY_NS \<le> now" "now < (date_naive now + 1) * DAY_NS"
proof -
  have "0 < DAY_NS" by (simp add: DAY_NS_def)
  then have "0 \<le> now mod DAY_NS" "now mod DAY_NS < DAY_NS" by simp_all
  moreover have "now = date_naive now * DAY_NS + now mod DAY_NS" by (simp add: date_naive_def)
  ultimately show "date_naive now * DAY_NS \<le> now" "now < (date_naive now + 1) * DAY_NS"
    by (simp_all add: algebra_simps)
qed

lemma usage_frame [frame_simps]:
  "lr_usage (snd (check_key gov t k reg)) = lr_usage reg"
  "lr_usage (snd (admit_upstream gov t out up reg)) = lr_usage reg"
  "map_option le_max_calls (lr_keys (snd (check_key gov t k reg)) j) = map_option le_max_calls (lr_keys reg j)"
  "map_option le_max_calls_per_day (lr_keys (snd (check_key gov t k reg)) j) =
     map_option le_max_calls_per_day (lr_keys reg j)"
  by (auto simp: check_key_def admit_upstream_def Let_def split: option.splits sum.splits prod.splits)

lemma check_call_quotas_Inr:
  "check_call_quotas k now reg = Inr u \<Longrightarrow> lr_keys reg k = Some e \<Longrightarrow>
     (\<forall>l. le_max_calls e = Some l \<longrightarrow> calls_total reg k < unat l) \<and>
     (\<forall>l. le_max_calls_per_day e = Some l \<longrightarrow> calls_on reg (date_naive now) k < unat l)"
  by (auto simp: check_call_quotas_def calls_total_def calls_on_def word_le_nat_alt word_less_nat_alt Let_def
      split: if_splits option.splits)

lemma calls_record:
  "calls_total (record_call k now reg) j =
     (if j = k then min (calls_total reg k + 1) (2 ^ 64 - 1) else calls_total reg j)"
  "calls_on (record_call k now reg) (date_naive now) j =
     (if j = k then min (calls_on reg (date_naive now) k + 1) (2 ^ 64 - 1) else calls_on reg (date_naive now) j)"
  by (auto simp: record_call_def calls_total_def calls_on_def today_on_def roll_to_def key_counters_new_def
      unat_sat_inc Let_def split: option.splits)

lemma calls_refund:
  "calls_total (refund_call_at k now reg) j = (if j = k then calls_total reg k - 1 else calls_total reg j)"
  "calls_on (refund_call_at k now reg) (date_naive now) j =
     (if j = k then calls_on reg (date_naive now) k - 1 else calls_on reg (date_naive now) j)"
  by (auto simp: refund_call_at_def calls_total_def calls_on_def today_on_def unat_sat_dec Let_def
      split: option.splits)

lemma keys_record_refund [simp]:
  "lr_keys (record_call k now reg) = lr_keys reg" "lr_keys (refund_call_at k now reg) = lr_keys reg"
  by (simp_all add: record_call_def refund_call_at_def Let_def split: option.splits)

section \<open>Admission\<close>

text \<open>C24: an admission that is refused leaves every call count as it was; one that is granted found the
  key below its total and its daily quota and counts the call, once, on the total and on the UTC day of
  the request, and no other key.\<close>

theorem admit_at_accounting:
  "case admit_at gov t out k up now reg of
     (Inl e, reg') \<Rightarrow> \<forall>j day. calls_total reg' j = calls_total reg j \<and> calls_on reg' day j = calls_on reg day j
   | (Inr permit, reg') \<Rightarrow>
       (\<forall>e l. lr_keys reg k = Some e \<and> le_max_calls e = Some l \<longrightarrow> calls_total reg k < unat l) \<and>
       (\<forall>e l. lr_keys reg k = Some e \<and> le_max_calls_per_day e = Some l \<longrightarrow>
          calls_on reg (date_naive now) k < unat l) \<and>
       calls_total reg' k = min (calls_total reg k + 1) (2 ^ 64 - 1) \<and>
       calls_on reg' (date_naive now) k = min (calls_on reg (date_naive now) k + 1) (2 ^ 64 - 1) \<and>
       (\<forall>j. j \<noteq> k \<longrightarrow> lr_usage reg' j = lr_usage reg j)"
proof -
  obtain r1 reg1 where 1: "check_key gov t k reg = (r1, reg1)" by force
  obtain r2 reg2 where 2: "admit_upstream gov t out up reg1 = (r2, reg2)" by force
  have u: "lr_usage reg1 = lr_usage reg" "lr_usage reg2 = lr_usage reg"
    using usage_frame(1) [of gov t k reg] usage_frame(2) [of gov t out up reg1] 1 2 by simp_all
  have mc: "map_option le_max_calls (lr_keys reg1 k) = map_option le_max_calls (lr_keys reg k)"
    "map_option le_max_calls_per_day (lr_keys reg1 k) = map_option le_max_calls_per_day (lr_keys reg k)"
    using usage_frame(3,4) [of gov t k reg k] 1 by simp_all
  have c: "calls_total regx j = calls_total reg j" "calls_on regx d j = calls_on reg d j"
    if "lr_usage regx = lr_usage reg" for regx :: "'a limit_registry" and j d
    using that by (simp_all add: calls_total_def calls_on_def)
  show ?thesis
  proof (cases r1)
    case (Inl e)
    then show ?thesis by (simp add: admit_at_def 1 c [OF u(1)])
  next
    case r1: (Inr x)
    show ?thesis
    proof (cases "check_call_quotas k now reg1")
      case (Inl e)
      with r1 show ?thesis by (simp add: admit_at_def 1 c [OF u(1)])
    next
      case q: (Inr y)
      have lim: "calls_total reg k < unat l" if "lr_keys reg k = Some e" "le_max_calls e = Some l" for e l
        using check_call_quotas_Inr [OF q] that mc(1) by (auto simp: c [OF u(1)])
      have day: "calls_on reg (date_naive now) k < unat l"
        if "lr_keys reg k = Some e" "le_max_calls_per_day e = Some l" for e l
        using check_call_quotas_Inr [OF q] that mc(2) by (auto simp: c [OF u(1)])
      show ?thesis
      proof (cases r2)
        case (Inl e)
        with r1 q show ?thesis by (simp add: admit_at_def 1 2 c [OF u(2)])
      next
        case (Inr permit)
        have "lr_usage (record_call k now reg2) j = lr_usage reg j" if "j \<noteq> k" for j
          using that u(2) by (simp add: record_call_def Let_def)
        with r1 q Inr lim day show ?thesis
          by (simp add: admit_at_def 1 2 calls_record c [OF u(2)])
      qed
    qed
  qed
qed

text \<open>Refunding a call on the day it was recorded undoes the recording for that key: the total, the
  count of every day and the counts of other keys are what they were, unless a counter was at the top
  of its range.\<close>

lemma refund_undoes_record:
  assumes "calls_total reg k < 2 ^ 64 - 1" and "calls_on reg (date_naive now) k < 2 ^ 64 - 1"
    and "date_naive later = date_naive now"
  shows "calls_total (refund_call_at k later (record_call k now reg)) = calls_total reg \<and>
     calls_on (refund_call_at k later (record_call k now reg)) (date_naive now) = calls_on reg (date_naive now) \<and>
     lr_keys (refund_call_at k later (record_call k now reg)) = lr_keys reg"
  using calls_refund(2) [of k later "record_call k now reg"] assms
  by (auto simp: fun_eq_iff calls_refund(1) calls_record)

text \<open>The advertised wait until the daily quota resets is positive, at most one day, and ends exactly at
  the first instant of the next UTC day.\<close>

lemma until_next_utc_midnight_correct:
  "0 < until_next_utc_midnight now \<and> int (until_next_utc_midnight now) \<le> DAY_NS \<and>
   (now + int (until_next_utc_midnight now)) mod DAY_NS = 0 \<and>
   date_naive (now + int (until_next_utc_midnight now)) = date_naive now + 1"
proof -
  have pos: "0 < DAY_NS" by (simp add: DAY_NS_def)
  from date_range [of now] have i: "int (until_next_utc_midnight now) = (date_naive now + 1) * DAY_NS - now"
    by (simp add: until_next_utc_midnight_def)
  then have e: "now + int (until_next_utc_midnight now) = (date_naive now + 1) * DAY_NS" by simp
  have "date_naive ((date_naive now + 1) * DAY_NS) = date_naive now + 1"
    using pos by (simp add: date_naive_def)
  moreover from i date_range [of now] have "0 < until_next_utc_midnight now" by linarith
  moreover from i date_range [of now] have "int (until_next_utc_midnight now) \<le> DAY_NS"
    by (simp add: algebra_simps)
  ultimately show ?thesis by (simp add: e)
qed

text \<open>A call that was admitted before midnight and is recorded after calls of the new day wipes the
  new day's count: the key is then admitted again although its calls of the day had used up the quota.\<close>

lemma late_record_reopens_daily_quota:
  assumes "date_naive late < date_naive now"
    and "lr_keys reg k = Some e" and "le_max_calls e = None"
    and "le_max_calls_per_day e = Some l" and "0 < l" and "unat l \<le> calls_on reg (date_naive now) k"
  shows "check_call_quotas k now reg = Inl (DailyCallsExhausted (until_next_utc_midnight now)) \<and>
     check_call_quotas k now (record_call k late reg) = Inr () \<and>
     calls_on (record_call k late reg) (date_naive now) k = 0"
proof -
  have "calls_on (record_call k late reg) (date_naive now) k = 0"
    using assms(1) by (auto simp: calls_on_def record_call_def roll_to_def today_on_def Let_def split: option.splits)
  moreover have "check_call_quotas k now (record_call k late reg) = Inr ()"
    using assms by (auto simp: check_call_quotas_def record_call_def roll_to_def today_on_def Let_def split: option.splits)
  moreover have "0 < unat l" using assms(5) by (simp add: word_less_nat_alt)
  then have "check_call_quotas k now reg = Inl (DailyCallsExhausted (until_next_utc_midnight now))"
    using assms by (auto simp: check_call_quotas_def calls_on_def word_le_nat_alt split: option.splits)
  ultimately show ?thesis by simp
qed

section \<open>Concurrent admissions\<close>

text \<open>
  The quota is checked before the wait for the upstream and charged after it, without a lock in
  between. The machine keeps the requests that passed the check and have not been charged yet; at
  most \<open>N\<close> requests are in that window at once. The locale states what the bound needs of a counter.
\<close>

datatype 'k quota_label = QCheck 'k | QCharge 'k | QAbandon 'k | QOther

inductive quota_step ::
  "nat \<Rightarrow> ('s \<Rightarrow> 'k \<Rightarrow> bool) \<Rightarrow> ('s \<Rightarrow> 'k \<Rightarrow> 's \<Rightarrow> bool) \<Rightarrow> ('s \<Rightarrow> 's \<Rightarrow> bool) \<Rightarrow>
   's \<times> 'k multiset \<Rightarrow> 'k quota_label \<Rightarrow> 's \<times> 'k multiset \<Rightarrow> bool"
  for N :: nat and passes :: "'s \<Rightarrow> 'k \<Rightarrow> bool" and charge :: "'s \<Rightarrow> 'k \<Rightarrow> 's \<Rightarrow> bool"
    and other :: "'s \<Rightarrow> 's \<Rightarrow> bool" where
  quota_check: "passes s k \<Longrightarrow> size P < N \<Longrightarrow>
     quota_step N passes charge other (s, P) (QCheck k) (s, add_mset k P)"
| quota_charge: "k \<in># P \<Longrightarrow> charge s k s' \<Longrightarrow>
     quota_step N passes charge other (s, P) (QCharge k) (s', P - {#k#})"
| quota_abandon: "k \<in># P \<Longrightarrow> quota_step N passes charge other (s, P) (QAbandon k) (s, P - {#k#})"
| quota_other: "other s s' \<Longrightarrow> quota_step N passes charge other (s, P) QOther (s', P)"

inductive_cases quota_stepE: "quota_step N passes charge other x l y"

locale quota_counter =
  fixes used :: "'s \<Rightarrow> 'k \<Rightarrow> nat"
    and limit :: "'s \<Rightarrow> 'k \<Rightarrow> nat option"
    and passes :: "'s \<Rightarrow> 'k \<Rightarrow> bool"
    and charge :: "'s \<Rightarrow> 'k \<Rightarrow> 's \<Rightarrow> bool"
    and other :: "'s \<Rightarrow> 's \<Rightarrow> bool"
  assumes passes_below: "passes s k \<Longrightarrow> limit s k = Some l \<Longrightarrow> used s k < l"
    and charge_used: "charge s k s' \<Longrightarrow> used s' j \<le> used s j + (if j = k then 1 else 0)"
    and charge_limit: "charge s k s' \<Longrightarrow> limit s' = limit s"
    and other_used: "other s s' \<Longrightarrow> used s' j \<le> used s j"
    and other_limit: "other s s' \<Longrightarrow> limit s' = limit s"
begin

definition overshoot_inv :: "nat \<Rightarrow> 's \<times> 'k multiset \<Rightarrow> bool" where
  "overshoot_inv N x =
     (size (snd x) \<le> N \<and>
      (\<forall>k l. limit (fst x) k = Some l \<longrightarrow> used (fst x) k + count (snd x) k \<le> l - 1 + N))"

lemma overshoot_init: "(\<And>k. used s k = 0) \<Longrightarrow> overshoot_inv N (s, {#})"
  by (simp add: overshoot_inv_def)

lemma overshoot_step:
  "overshoot_inv N x \<Longrightarrow> quota_step N passes charge other x y z \<Longrightarrow> overshoot_inv N z"
proof (erule quota_stepE, goal_cases)
  case (1 s k P)
  have "used s j + count (add_mset k P) j \<le> l - 1 + N" if l: "limit s j = Some l" for j l
  proof (cases "j = k")
    case True
    with 1 l have "used s j < l" by (auto dest: passes_below)
    moreover have "count (add_mset k P) j \<le> N"
      using 1 count_le_size [of "add_mset k P" j] by simp
    ultimately show ?thesis by linarith
  qed (use 1 l in \<open>auto simp: overshoot_inv_def\<close>)
  with 1 show ?case by (simp add: overshoot_inv_def)
next
  case (2 k P s s')
  have "used s' j + count (P - {#k#}) j \<le> l - 1 + N" if l: "limit s' j = Some l" for j l
  proof -
    from 2 l have "used s j + count P j \<le> l - 1 + N" by (auto simp: overshoot_inv_def charge_limit)
    moreover have "0 < count P k" using 2 by simp
    ultimately show ?thesis using charge_used [of s k s' j] 2 by (cases "j = k") auto
  qed
  with 2 show ?case by (auto simp: overshoot_inv_def size_Diff_singleton)
next
  case (3 k P s)
  then show ?case
    by (auto simp: overshoot_inv_def size_Diff_singleton) (metis diff_le_self add_le_mono le_refl order_trans)
next
  case (4 s s' P)
  then show ?case
    by (auto simp: overshoot_inv_def other_limit) (metis add_le_mono1 other_used order_trans)
qed

end

definition calls_limit :: "'g limit_registry \<Rightarrow> string \<Rightarrow> nat option" where
  "calls_limit reg k = map_option unat (Option.bind (lr_keys reg k) le_max_calls)"

definition quota_passes :: "'g limit_registry \<Rightarrow> string \<Rightarrow> bool" where
  "quota_passes reg k = (\<exists>now. check_call_quotas k now reg = Inr ())"

definition quota_charges :: "'g limit_registry \<Rightarrow> string \<Rightarrow> 'g limit_registry \<Rightarrow> bool" where
  "quota_charges reg k reg' = (\<exists>now. reg' = record_call k now reg)"

definition quota_neutral :: "'g limit_registry \<Rightarrow> 'g limit_registry \<Rightarrow> bool" where
  "quota_neutral reg reg' =
     (\<exists>gov t k up out now. reg' = snd (check_key gov t k reg) \<or> reg' = snd (admit_upstream gov t out up reg) \<or>
        reg' = refund_call_at k now reg)"

lemma calls_limit_frame:
  "calls_limit (snd (check_key gov t k reg)) = calls_limit reg"
  "calls_limit (snd (admit_upstream gov t out up reg)) = calls_limit reg"
  by (auto simp: fun_eq_iff calls_limit_def check_key_def admit_upstream_def Let_def
      split: option.splits sum.splits prod.splits)

interpretation max_calls: quota_counter calls_total calls_limit quota_passes quota_charges quota_neutral
proof
  show "quota_passes reg k \<Longrightarrow> calls_limit reg k = Some l \<Longrightarrow> calls_total reg k < l"
    for reg :: "'a limit_registry" and k l
    by (auto simp: quota_passes_def calls_limit_def bind_eq_Some_conv dest!: check_call_quotas_Inr)
  show "quota_charges reg k reg' \<Longrightarrow> calls_total reg' j \<le> calls_total reg j + (if j = k then 1 else 0)"
    for reg reg' :: "'a limit_registry" and k j
    by (auto simp: quota_charges_def calls_record)
  show "quota_charges reg k reg' \<Longrightarrow> calls_limit reg' = calls_limit reg" for reg reg' :: "'a limit_registry" and k
    by (auto simp: quota_charges_def calls_limit_def fun_eq_iff)
  show "quota_neutral reg reg' \<Longrightarrow> calls_total reg' j \<le> calls_total reg j" for reg reg' :: "'a limit_registry" and j
    by (auto simp: quota_neutral_def calls_refund) (auto simp: calls_total_def frame_simps)
  show "quota_neutral reg reg' \<Longrightarrow> calls_limit reg' = calls_limit reg" for reg reg' :: "'a limit_registry"
    by (auto simp: quota_neutral_def calls_limit_frame) (simp add: calls_limit_def fun_eq_iff)
qed

text \<open>With at most \<open>N\<close> requests between their quota check and their recording at any moment, a key
  never has more than its \<open>max_calls\<close> plus \<open>N - 1\<close> calls counted, in any interleaving of
  checks, recordings, rejections and refunds; one request at a time never exceeds the quota at all.\<close>

lemma max_calls_overshoot:
  assumes "reach (\<lambda>x. lr_usage (fst x) = Map.empty \<and> snd x = {#})
       (quota_step N quota_passes quota_charges quota_neutral) (reg, pending)"
    and "lr_keys reg k = Some e" and "le_max_calls e = Some l" and "0 < l" and "0 < N"
  shows "calls_total reg k \<le> unat l + (N - 1)"
proof -
  have "max_calls.overshoot_inv N (reg, pending)"
    using assms(1)
  proof (induction "(reg, pending)" arbitrary: reg pending rule: reach.induct)
    case (reach_init reg pending)
    then have "pending = {#}" "\<And>k. calls_total reg k = 0" by (simp_all add: calls_total_def)
    then show ?case by (simp add: max_calls.overshoot_init)
  next
    case (reach_step s l reg pending)
    then show ?case by (cases s) (blast intro: max_calls.overshoot_step)
  qed
  moreover have "calls_limit reg k = Some (unat l)" using assms(2,3) by (simp add: calls_limit_def)
  ultimately have "calls_total reg k \<le> unat l - 1 + N" unfolding max_calls.overshoot_inv_def by fastforce
  moreover have "0 < unat l" using assms(4) by (simp add: word_less_nat_alt)
  ultimately show ?thesis using assms(5) by linarith
qed

section \<open>Configured limits\<close>

definition upstream_limits_ok :: "upstream_limits \<Rightarrow> bool" where
  "upstream_limits_ok l = (ul_max_concurrent l \<noteq> Some 0 \<and> ul_rps l \<noteq> Some 0 \<and> ul_rpm l \<noteq> Some 0)"

definition key_limits_ok :: "key_limits \<Rightarrow> bool" where
  "key_limits_ok l =
     (kl_max_calls l \<noteq> Some 0 \<and> kl_max_calls_per_day l \<noteq> Some 0 \<and> kl_rps l \<noteq> Some 0 \<and> kl_rpm l \<noteq> Some 0)"

lemma direct_limiter_ok: "(\<exists>g. direct_limiter per f e v = Inr g) \<longleftrightarrow> v \<noteq> Some 0"
  by (auto simp: direct_limiter_def split: option.splits)

lemma upstream_entry_ok: "(\<exists>x. upstream_entry_of gov l e = Inr x) \<longleftrightarrow> upstream_limits_ok l"
  using direct_limiter_ok [of "gov_per_second gov" "''rps''" e "ul_rps l"]
    direct_limiter_ok [of "gov_per_minute gov" "''rpm''" e "ul_rpm l"]
  by (auto simp: upstream_entry_of_def and_then_Inr_iff upstream_limits_ok_def split: option.splits if_splits)

lemma limit_entry_ok: "(\<exists>x. limit_entry_of gov l e = Inr x) \<longleftrightarrow> key_limits_ok l"
  using direct_limiter_ok [of "gov_per_second gov" "''rps''" e "kl_rps l"]
    direct_limiter_ok [of "gov_per_minute gov" "''rpm''" e "kl_rpm l"]
  by (auto simp: limit_entry_of_def and_then_Inr_iff key_limits_ok_def split: if_splits)

lemma collect_entries_ok:
  assumes "\<And>l i. (\<exists>x. build l i = Inr x) \<longleftrightarrow> ok l"
  shows "(\<exists>m'. collect_entries build xs m = Inr m') \<longleftrightarrow> (\<forall>(i, l) \<in> set xs. \<forall>x. l = Some x \<longrightarrow> ok x)"
proof (induction xs arbitrary: m)
  case (Cons x xs)
  obtain i o1 where x: "x = (i, o1)" by force
  show ?case
  proof (cases o1)
    case None
    with Cons.IH show ?thesis by (simp add: x)
  next
    case (Some l)
    show ?thesis
    proof (cases "build l i")
      case (Inl e)
      then have "\<not> ok l" using assms [of l i] by simp
      with Inl Some show ?thesis by (auto simp: x)
    next
      case (Inr e)
      then have "ok l" using assms [of l i] by blast
      with Inr Some Cons.IH show ?thesis by (simp add: x)
    qed
  qed
qed simp

text \<open>A configuration is accepted by the limit engine exactly when no configured limit of an upstream
  or of a gateway key is zero.\<close>

theorem limits_from_config_accepts:
  "(\<exists>reg. limits_from_config gov config = Inr reg) \<longleftrightarrow>
     (\<forall>r \<in> set (gc_api_resources config). \<forall>l. ar_limits r = Some l \<longrightarrow> upstream_limits_ok l) \<and>
     (\<forall>s \<in> set (gc_mcp_servers config). \<forall>l. ms_limits s = Some l \<longrightarrow> upstream_limits_ok l) \<and>
     (\<forall>k \<in> set (gc_proxy_keys config). \<forall>l. pk_limits k = Some l \<longrightarrow> key_limits_ok l)"
proof -
  note up = collect_entries_ok [of "upstream_entry_of gov", OF upstream_entry_ok]
  note ke = collect_entries_ok [of "limit_entry_of gov", OF limit_entry_ok]
  let ?A = "map (\<lambda>r. (ar_id r, ar_limits r)) (gc_api_resources config)"
  let ?B = "map (\<lambda>s. (ms_id s, ms_limits s)) (gc_mcp_servers config)"
  let ?C = "map (\<lambda>k. (pk_id k, pk_limits k)) (gc_proxy_keys config)"
  have "(\<exists>reg. limits_from_config gov config = Inr reg) \<longleftrightarrow>
      (\<exists>m1. collect_entries (upstream_entry_of gov) ?A Map.empty = Inr m1 \<and>
        (\<exists>m2. collect_entries (upstream_entry_of gov) ?B m1 = Inr m2 \<and>
          (\<exists>m3. collect_entries (limit_entry_of gov) ?C Map.empty = Inr m3)))"
    unfolding limits_from_config_def and_then_Inr_iff by blast
  also have "\<dots> \<longleftrightarrow> (\<forall>(i, l) \<in> set ?A. \<forall>x. l = Some x \<longrightarrow> upstream_limits_ok x) \<and>
      (\<forall>(i, l) \<in> set ?B. \<forall>x. l = Some x \<longrightarrow> upstream_limits_ok x) \<and>
      (\<forall>(i, l) \<in> set ?C. \<forall>x. l = Some x \<longrightarrow> key_limits_ok x)"
    by (metis (no_types, lifting) up ke)
  finally show ?thesis by simp
qed

section \<open>Runs\<close>

definition example_entry :: "nat limit_entry" where
  "example_entry = \<lparr>le_rps = Some 2, le_rpm = None, le_max_calls = None, le_max_calls_per_day = Some 3\<rparr>"

definition example_registry :: "nat limit_registry" where
  "example_registry =
     \<lparr>lr_upstreams = Map.empty, lr_keys = [''dev'' \<mapsto> example_entry, ''cli'' \<mapsto> example_entry\<lparr>le_max_calls := Some 1\<rparr>],
      lr_usage = [''dev'' \<mapsto> \<lparr>ct_total = 9, ct_day = 1, ct_today = 3\<rparr>]\<rparr>"

text \<open>A rate limiter that lets three calls through.\<close>

definition example_governor :: "nat governor" where
  "example_governor =
     \<lparr>gov_per_second = (\<lambda>_. 0), gov_per_minute = (\<lambda>_. 0),
      gov_check = (\<lambda>_ n. if n < 3 then (None, n + 1) else (Some 1, n))\<rparr>"

theorem admit_at_accounting_witness:
  "\<exists>permit reg'. admit_at example_governor 0 Acquired ''cli'' ''exa'' 0 example_registry = (Inr permit, reg') \<and>
     calls_total reg' ''cli'' = 1 \<and> calls_on reg' 0 ''cli'' = 1 \<and> calls_total reg' ''dev'' = 9"
proof -
  obtain reg' where a: "admit_at example_governor 0 Acquired ''cli'' ''exa'' 0 example_registry = (Inr False, reg')"
    by (simp add: admit_at_def example_governor_def example_registry_def example_entry_def check_key_def check_direct_def
        check_call_quotas_def admit_upstream_def Let_def date_naive_def DAY_NS_def)
  have d: "date_naive 0 = 0" by (simp add: date_naive_def)
  have "calls_total reg' ''cli'' = 1 \<and> calls_on reg' 0 ''cli'' = 1 \<and> lr_usage reg' ''dev'' = lr_usage example_registry ''dev''"
    using admit_at_accounting [where gov = example_governor and t = 0 and out = Acquired and k = "''cli''" and up = "''exa''"
        and now = 0 and reg = example_registry] a
    by (simp add: d calls_total_def calls_on_def example_registry_def)
  then show ?thesis using a by (auto simp: calls_total_def example_registry_def)
qed

lemma refund_undoes_record_witness:
  "calls_total (refund_call_at ''dev'' (DAY_NS + 5) (record_call ''dev'' DAY_NS example_registry)) = calls_total example_registry"
proof -
  have d: "date_naive DAY_NS = 1" "date_naive (DAY_NS + 5) = 1" by (simp_all add: date_naive_def DAY_NS_def)
  show ?thesis
    using refund_undoes_record [of example_registry "''dev''" DAY_NS "DAY_NS + 5"]
    by (simp add: d example_registry_def calls_total_def calls_on_def today_on_def)
qed

lemma late_record_reopens_daily_quota_witness:
  "check_call_quotas ''dev'' DAY_NS example_registry = Inl (DailyCallsExhausted (until_next_utc_midnight DAY_NS)) \<and>
   check_call_quotas ''dev'' DAY_NS (record_call ''dev'' 0 example_registry) = Inr ()"
proof -
  have d: "date_naive DAY_NS = 1" "date_naive 0 = 0" by (simp_all add: date_naive_def DAY_NS_def)
  have "unat (3 :: u64) \<le> calls_on example_registry (date_naive DAY_NS) ''dev''"
    by (simp add: d calls_on_def example_registry_def today_on_def)
  from late_record_reopens_daily_quota [of 0 DAY_NS example_registry "''dev''" example_entry 3, OF _ _ _ _ _ this]
  show ?thesis by (simp add: d example_registry_def example_entry_def)
qed

lemma max_calls_overshoot_witness:
  "calls_total (record_call ''cli'' 0 (example_registry\<lparr>lr_usage := Map.empty\<rparr>)) ''cli'' \<le> unat (1 :: u64) + (1 - 1)"
proof (rule max_calls_overshoot [where pending = "{#}" and e = "example_entry\<lparr>le_max_calls := Some 1\<rparr>"])
  let ?R = "example_registry\<lparr>lr_usage := Map.empty\<rparr>"
  let ?step = "quota_step 1 quota_passes quota_charges quota_neutral"
  let ?init = "\<lambda>x :: nat limit_registry \<times> string multiset. lr_usage (fst x) = Map.empty \<and> snd x = {#}"
  have "reach ?init ?step (?R, {#})" by (rule reach_init) simp
  moreover have "quota_passes ?R ''cli''"
    by (auto simp: quota_passes_def check_call_quotas_def example_registry_def example_entry_def Let_def)
  then have "?step (?R, {#}) (QCheck ''cli'') (?R, {#''cli''#})"
    using quota_check [of quota_passes ?R "''cli''" "{#}" 1] by simp
  ultimately have "reach ?init ?step (?R, {#''cli''#})" by (rule reach_step)
  moreover have "?step (?R, {#''cli''#}) (QCharge ''cli'') (record_call ''cli'' 0 ?R, {#})"
    using quota_charge [of "''cli''" "{#''cli''#}" quota_charges ?R "record_call ''cli'' 0 ?R" 1 quota_passes quota_neutral]
    by (auto simp: quota_charges_def)
  ultimately show "reach ?init ?step (record_call ''cli'' 0 ?R, {#})" by (rule reach_step)
qed (simp_all add: example_registry_def)

end
