(* ===== verification/Invoke.thy ===== *)
theory Invoke
  imports Observe Render Retry McpRegistry Limits CatalogQuery
begin

text \<open>
  The invocation pipeline (\<open>src/proxy/executor.rs\<close>, \<open>src/proxy/invoke/mod.rs\<close>,
  \<open>src/proxy/invoke/admission.rs\<close>, \<open>src/proxy/post.rs\<close>): resolving and authorising a call, admission
  with its quota guard and permit, the upstream call over MCP or HTTP, the recorded event, and the
  scanning, rendering and shaping of the result. The executor's settings are one record, what a call changes
  another; the outside world is a third, with a hook for what other calls do to the limits while
  this one is under way.
\<close>

section \<open>The executor\<close>

record observability_config =
  oc_capture_payloads :: bool
  oc_capture_max_bytes :: nat

record 'p executor =
  ex_config :: gateway_config
  ex_catalog :: tool_catalog
  ex_observability :: observability_config
  ex_retry :: retry_settings
  ex_registry :: "'p mcp_entry list option"
  ex_quarantined :: "quarantine option"
  ex_response_format :: response_format

text \<open>The state calls share. \<open>px_recorded\<close> are the events handed to the metrics, \<open>px_upstream\<close> the upstream calls.\<close>

datatype 'p upstream_call =
    McpCall 'p string json
  | McpPrompt 'p string json
  | McpRead 'p string
  | HttpCall "key_id option" http_request

record ('g, 'p) pipeline =
  px_limits :: "'g limit_registry option"
  px_pools :: "key_pool_registry option"
  px_cache :: "result_cache option"
  px_counter :: u64
  px_recorded :: "request_event list"
  px_repo :: "event_repo option"
  px_upstream :: "'p upstream_call list"

record ('g, 'p) invoke_env =
  iv_regex :: regex_engine
  iv_governor :: "'g governor"
  iv_instant :: instant
  iv_admit_now :: datetime
  iv_wait :: wait_outcome
  iv_others :: "'g limit_registry \<Rightarrow> 'g limit_registry"
  iv_refund_now :: datetime
  iv_event_now :: datetime
  iv_elapsed :: duration
  iv_cache_now :: instant
  iv_db_fails :: "bool \<times> bool"
  iv_security_db_fails :: bool
  iv_resolve :: secret_resolver
  iv_retry :: retry_env
  iv_mcp_call :: "'p \<Rightarrow> string \<Rightarrow> json \<Rightarrow> mcp_error + call_outcome"
  iv_ser :: "json \<Rightarrow> string"
  iv_ser_result :: "tool_call_result \<Rightarrow> string"
  iv_parse_json :: "string \<Rightarrow> json option"
  iv_yaml :: "json \<Rightarrow> string option"
  iv_lossy :: "string \<Rightarrow> string"
  iv_utf8 :: "string \<Rightarrow> bool"
  iv_lower :: "string \<Rightarrow> string"
  iv_redact :: regex_cut

record invoke_result =
  ir_request_id :: string
  ir_status :: u16
  ir_body :: string
  ir_content_type :: "string option"
  ir_content_defense_flag :: bool
  ir_shaped :: bool
  ir_rendered_format :: "response_format option"

section \<open>Recording (post.rs)\<close>

definition capture_args :: "('g, 'p) invoke_env \<Rightarrow> 'p executor \<Rightarrow> json \<Rightarrow> string option" where
  "capture_args env ex args =
     (if oc_capture_payloads (ex_observability ex)
      then Some (capture_text (iv_redact env) (iv_ser env args) (oc_capture_max_bytes (ex_observability ex))) else None)"

definition capture_body_preview :: "('g, 'p) invoke_env \<Rightarrow> 'p executor \<Rightarrow> string \<Rightarrow> string option" where
  "capture_body_preview env ex body =
     (if oc_capture_payloads (ex_observability ex)
      then Some (capture_bytes (iv_utf8 env) (iv_redact env) body (oc_capture_max_bytes (ex_observability ex))) else None)"

definition capture_tool_result :: "('g, 'p) invoke_env \<Rightarrow> 'p executor \<Rightarrow> tool_call_result \<Rightarrow> string option" where
  "capture_tool_result env ex result = capture_body_preview env ex (iv_ser_result env result)"

record event_draft =
  ed_request_id :: string
  ed_proxy_key_id :: string
  ed_resource_id :: string
  ed_tool_name :: string
  ed_upstream_key_ref :: string
  ed_status :: request_status
  ed_latency_ms :: u32
  ed_retry_count :: u8
  ed_request_args :: "string option"
  ed_response_preview :: "string option"
  ed_upstream_latency_ms :: "u32 option"

definition put_event :: "('g, 'p) invoke_env \<Rightarrow> request_event \<Rightarrow> ('g, 'p) pipeline \<Rightarrow> ('g, 'p) pipeline" where
  "put_event env e s =
     s\<lparr>px_recorded := px_recorded s @ [e],
       px_repo := map_option (persist_request_event (iv_db_fails env) e) (px_repo s)\<rparr>"

definition record_event :: "('g, 'p) invoke_env \<Rightarrow> event_draft \<Rightarrow> ('g, 'p) pipeline \<Rightarrow> ('g, 'p) pipeline" where
  "record_event env d s =
     put_event env
       \<lparr>re_timestamp = iv_event_now env, re_request_id = ed_request_id d, re_proxy_key_id = ed_proxy_key_id d,
        re_resource_id = ed_resource_id d, re_request_kind = KindTool, re_tool_name = ed_tool_name d,
        re_upstream_key_ref = ed_upstream_key_ref d, re_status = ed_status d, re_latency_ms = ed_latency_ms d,
        re_request_units = 1, re_retry_count = ed_retry_count d, re_rate_limited = False, re_queued_ms = 0,
        re_request_args = ed_request_args d, re_response_preview = ed_response_preview d,
        re_upstream_latency_ms = ed_upstream_latency_ms d\<rparr> s"

definition request_status_from_proxy_error :: "proxy_error \<Rightarrow> request_status" where
  "request_status_from_proxy_error e =
     (case e of
        UpstreamTimeout _ \<Rightarrow> StTimeout
      | ConnectionFailed \<Rightarrow> StConnectionFailed
      | EgressBlockedError \<Rightarrow> StConnectionFailed
      | UpstreamError s \<Rightarrow> StUpstreamError s
      | RetryExhausted _ \<Rightarrow> StUpstreamError 0
      | ProxyMcp _ \<Rightarrow> StUpstreamError 0
      | ProxyLimit _ \<Rightarrow> StLimited
      | _ \<Rightarrow> StConnectionFailed)"

section \<open>Post-processing (post.rs)\<close>

definition joined_text :: "tool_call_result \<Rightarrow> string" where
  "joined_text r = join_with nl (tc_content r)"

definition scan_defense ::
  "('g, 'p) invoke_env \<Rightarrow> string \<Rightarrow> string \<Rightarrow> string \<Rightarrow> security_config \<Rightarrow> ('g, 'p) pipeline \<Rightarrow> bool \<times> ('g, 'p) pipeline" where
  "scan_defense env text resource_id wire_name security s =
     (if \<not> sc_defense_enabled security then (False, s)
      else
        (let d = scan_content (iv_lower env) text
         in if \<not> df_flagged d then (False, s)
            else
              (True,
               s\<lparr>px_repo :=
                   map_option (\<lambda>r.
                     if iv_security_db_fails env then r
                     else r\<lparr>er_security := er_security r @
                       [\<lparr>se_timestamp = iv_event_now env, se_resource_id = resource_id, se_tool_name = Some wire_name,
                         se_kind = ContentDefenseFlag, se_severity = SevWarn,
                         se_details = JObject [(''matched_rules'', JArray (map JString (df_matched_rules d)))]\<rparr>]\<rparr>)
                     (px_repo s)\<rparr>)))"

definition render_text :: "('g, 'p) invoke_env \<Rightarrow> 'p executor \<Rightarrow> string \<Rightarrow> string option" where
  "render_text env ex text =
     Option.bind (iv_parse_json env text) (\<lambda>v. render (iv_ser env) (iv_yaml env) v (ex_response_format ex))"

definition render_tool_content ::
  "('g, 'p) invoke_env \<Rightarrow> 'p executor \<Rightarrow> tool_call_result \<Rightarrow> response_format option \<times> tool_call_result" where
  "render_tool_content env ex r =
     (if ex_response_format ex = FmtJson \<or> tc_is_error r then (None, r)
      else
        (if list_ex (\<lambda>t. render_text env ex t \<noteq> None) (tc_content r) then Some (ex_response_format ex) else None,
         r\<lparr>tc_content := map (\<lambda>t. case render_text env ex t of Some x \<Rightarrow> x | None \<Rightarrow> t) (tc_content r)\<rparr>))"

definition truncation_hint :: "string \<Rightarrow> string \<Rightarrow> nat \<Rightarrow> string" where
  "truncation_hint head cursor len =
     head @ nl @ nl @ ''[Result truncated. Total '' @ dec len @ '' bytes. Use asl__fetch with cursor '' @
     [CHR 0x22] @ cursor @ [CHR 0x22] @ '' to get more.]''"

definition shape_text ::
  "('g, 'p) invoke_env \<Rightarrow> string \<Rightarrow> security_config \<Rightarrow> string \<Rightarrow> ('g, 'p) pipeline \<Rightarrow> string option \<times> ('g, 'p) pipeline" where
  "shape_text env text security proxy_key_id s =
     (case px_cache s of
        None \<Rightarrow> (None, s)
      | Some cache \<Rightarrow>
          (case shape_result (iv_cache_now env) text (budget_for (sc_result_budget_bytes security)) proxy_key_id cache of
             (Unchanged, cache') \<Rightarrow> (None, s\<lparr>px_cache := Some cache'\<rparr>)
           | (Shaped head cursor len, cache') \<Rightarrow>
               (Some (truncation_hint head cursor len), s\<lparr>px_cache := Some cache'\<rparr>)))"

definition shape_remote_mcp_result ::
  "('g, 'p) invoke_env \<Rightarrow> 'p executor \<Rightarrow> tool_call_result \<Rightarrow> string \<Rightarrow> string \<Rightarrow> string \<Rightarrow> security_config \<Rightarrow>
   ('g, 'p) pipeline \<Rightarrow> invoke_result \<times> ('g, 'p) pipeline" where
  "shape_remote_mcp_result env ex r resource_id wire_name proxy_key_id security s =
     (let (flag, s1) = scan_defense env (joined_text r) resource_id wire_name security s;
          (fmt, r1) = render_tool_content env ex r;
          (shaped_text, s2) = shape_text env (joined_text r1) security proxy_key_id s1;
          r2 = (case shaped_text of Some t \<Rightarrow> r1\<lparr>tc_content := [t]\<rparr> | None \<Rightarrow> r1)
      in (\<lparr>ir_request_id = [], ir_status = 200, ir_body = iv_ser_result env r2,
           ir_content_type = Some ''application/json'', ir_content_defense_flag = flag,
           ir_shaped = (shaped_text \<noteq> None), ir_rendered_format = fmt\<rparr>, s2))"

definition render_body :: "('g, 'p) invoke_env \<Rightarrow> 'p executor \<Rightarrow> string \<Rightarrow> invoke_result \<Rightarrow> string \<times> invoke_result" where
  "render_body env ex body result =
     (case if ex_response_format ex \<noteq> FmtJson then render_text env ex body else None of
        None \<Rightarrow> (body, result)
      | Some rendered \<Rightarrow>
          (rendered,
           result\<lparr>ir_body := rendered, ir_content_type := Some (content_type (ex_response_format ex)),
                  ir_rendered_format := Some (ex_response_format ex)\<rparr>))"

definition apply_defense_and_shaping ::
  "('g, 'p) invoke_env \<Rightarrow> 'p executor \<Rightarrow> invoke_result \<Rightarrow> string \<Rightarrow> string \<Rightarrow> string \<Rightarrow> security_config \<Rightarrow>
   ('g, 'p) pipeline \<Rightarrow> invoke_result \<times> ('g, 'p) pipeline" where
  "apply_defense_and_shaping env ex result resource_id wire_name proxy_key_id security s =
     (if ir_status result < 200 \<or> 300 \<le> ir_status result then (result, s)
      else
        (let body = iv_lossy env (ir_body result);
             (flag, s1) = scan_defense env body resource_id wire_name security s;
             result1 = (if flag then result\<lparr>ir_content_defense_flag := True\<rparr> else result);
             (body1, result2) = render_body env ex body result1;
             (shaped, s2) = shape_text env body1 security proxy_key_id s1
         in (case shaped of
               Some t \<Rightarrow>
                 result2\<lparr>ir_body := t, ir_content_type := Some ''text/plain; charset=utf-8'', ir_shaped := True\<rparr>
             | None \<Rightarrow> result2, s2)))"

section \<open>Resolving and authorising (invoke/mod.rs)\<close>

definition MCP_KEY_REF :: string where "MCP_KEY_REF = ''<mcp>''"

definition MCP_INPUT_REQUIRED_CONTENT_TYPE :: string where
  "MCP_INPUT_REQUIRED_CONTENT_TYPE = ''application/vnd.mcp.input-required+json''"

record resolved_call =
  rc_wire_name :: string
  rc_proxy_key :: proxy_key
  rc_tool :: wrapped_tool
  rc_canonical :: string
  rc_captured_args :: "string option"

definition ensure_allowed :: "('g, 'p) invoke_env \<Rightarrow> resolved_call \<Rightarrow> proxy_error + unit" where
  "ensure_allowed env call =
     and_then (map_err ProxyPolicy
       (key_can_use_tool (iv_regex env) (rc_proxy_key call) (wt_name (rc_tool call)) (wt_resource_id (rc_tool call))))
       (\<lambda>ok. if ok then Inr () else Inl (ForbiddenTool (rc_wire_name call)))"

definition resolve_tool :: "('g, 'p) invoke_env \<Rightarrow> 'p executor \<Rightarrow> string \<Rightarrow> proxy_key \<Rightarrow> proxy_error + wrapped_tool" where
  "resolve_tool env ex wire_name key =
     (case resolve_for_key (iv_regex env) (ex_catalog ex) wire_name \<lparr>tq_domain = None, tq_provider = None\<rparr> key of
        Inr (Some tool) \<Rightarrow> Inr tool
      | Inr None \<Rightarrow> Inl (UnknownTool wire_name)
      | Inl (CatPolicy err) \<Rightarrow> Inl (ProxyPolicy err)
      | Inl err \<Rightarrow> Inl (InvalidToolCall (catalog_error_msg err)))"

definition check_quarantine :: "'p executor \<Rightarrow> string \<Rightarrow> string \<Rightarrow> proxy_error + unit" where
  "check_quarantine ex wire_name canonical =
     (case ex_quarantined ex of
        None \<Rightarrow> Inr ()
      | Some q \<Rightarrow>
          (case q canonical of
             None \<Rightarrow> Inr ()
           | Some policy \<Rightarrow>
               Inl (InvalidToolCall
                 (case policy of
                    Quarantine \<Rightarrow> ''tool quarantined due to integrity drift: '' @ wire_name
                  | Block \<Rightarrow> ''tool blocked due to integrity drift: '' @ wire_name
                  | Warn \<Rightarrow> ''unexpected warn policy in quarantine set for: '' @ wire_name))))"

definition resolve_call ::
  "('g, 'p) invoke_env \<Rightarrow> 'p executor \<Rightarrow> string \<Rightarrow> json \<Rightarrow> proxy_key \<Rightarrow> proxy_error + resolved_call" where
  "resolve_call env ex wire_name args key =
     and_then (resolve_tool env ex wire_name key) (\<lambda>tool.
     and_then (check_quarantine ex wire_name (wire tool)) (\<lambda>_.
       Inr \<lparr>rc_wire_name = wire_name, rc_proxy_key = key, rc_tool = tool, rc_canonical = wire tool,
            rc_captured_args = capture_args env ex args\<rparr>))"

section \<open>Admission (invoke/admission.rs)\<close>

text \<open>The quota guard exists when there is a limit registry; the permit when the upstream has a queue.\<close>

record admission =
  ad_quota :: bool
  ad_permit :: bool

definition record_limited :: "('g, 'p) invoke_env \<Rightarrow> resolved_call \<Rightarrow> ('g, 'p) pipeline \<Rightarrow> ('g, 'p) pipeline" where
  "record_limited env call s =
     (let (request_id, counter) = next_request_id (px_counter s)
      in put_event env
           \<lparr>re_timestamp = iv_event_now env, re_request_id = request_id, re_proxy_key_id = pk_id (rc_proxy_key call),
            re_resource_id = wt_resource_id (rc_tool call), re_request_kind = KindTool, re_tool_name = rc_canonical call,
            re_upstream_key_ref = ''<limited>'', re_status = StLimited, re_latency_ms = 0, re_request_units = 1,
            re_retry_count = 0, re_rate_limited = True, re_queued_ms = 0, re_request_args = rc_captured_args call,
            re_response_preview = None, re_upstream_latency_ms = None\<rparr> (s\<lparr>px_counter := counter\<rparr>))"

definition admit ::
  "('g, 'p) invoke_env \<Rightarrow> resolved_call \<Rightarrow> ('g, 'p) pipeline \<Rightarrow> (proxy_error + admission) \<times> ('g, 'p) pipeline" where
  "admit env call s =
     (case px_limits s of
        None \<Rightarrow> (Inr \<lparr>ad_quota = False, ad_permit = False\<rparr>, s)
      | Some limits \<Rightarrow>
          (case admit_at (iv_governor env) (iv_instant env) (iv_wait env) (pk_id (rc_proxy_key call))
                  (wt_resource_id (rc_tool call)) (iv_admit_now env) limits of
             (Inr permit, limits') \<Rightarrow>
               (Inr \<lparr>ad_quota = True, ad_permit = permit\<rparr>, s\<lparr>px_limits := Some limits'\<rparr>)
           | (Inl err, limits') \<Rightarrow>
               (Inl (ProxyLimit err), record_limited env call (s\<lparr>px_limits := Some limits'\<rparr>))))"

definition admission_commit :: "admission \<Rightarrow> admission" where
  "admission_commit a = a\<lparr>ad_quota := False\<rparr>"

definition permit_drop :: "string \<Rightarrow> 'g limit_registry \<Rightarrow> 'g limit_registry" where
  "permit_drop up reg =
     (case lr_upstreams reg up of
        Some e \<Rightarrow>
          reg\<lparr>lr_upstreams := (lr_upstreams reg)(up \<mapsto> e\<lparr>ue_queue := map_option return_permit (ue_queue e)\<rparr>)\<rparr>
      | None \<Rightarrow> reg)"

text \<open>Dropping the admission: first the quota guard, then the permit.\<close>

definition admission_drop :: "('g, 'p) invoke_env \<Rightarrow> resolved_call \<Rightarrow> admission \<Rightarrow> ('g, 'p) pipeline \<Rightarrow> ('g, 'p) pipeline" where
  "admission_drop env call a s =
     s\<lparr>px_limits := map_option (\<lambda>reg.
         (if ad_permit a then permit_drop (wt_resource_id (rc_tool call)) else id)
           (if ad_quota a then quota_guard_drop False (pk_id (rc_proxy_key call)) (iv_refund_now env) reg else reg))
         (px_limits s)\<rparr>"

section \<open>The upstream call and its ends (invoke/mod.rs)\<close>

record call_run =
  cr_call :: resolved_call
  cr_admission :: admission
  cr_request_id :: string

text \<open>What the others do to the limits between the admission and the end of the call.\<close>

definition meanwhile :: "('g, 'p) invoke_env \<Rightarrow> ('g, 'p) pipeline \<Rightarrow> ('g, 'p) pipeline" where
  "meanwhile env s = s\<lparr>px_limits := map_option (iv_others env) (px_limits s)\<rparr>"

definition call_start ::
  "('g, 'p) invoke_env \<Rightarrow> resolved_call \<Rightarrow> admission \<Rightarrow> ('g, 'p) pipeline \<Rightarrow> call_run \<times> ('g, 'p) pipeline" where
  "call_start env call a s =
     (let (request_id, counter) = next_request_id (px_counter s)
      in (\<lparr>cr_call = call, cr_admission = a, cr_request_id = request_id\<rparr>,
          s\<lparr>px_counter := counter\<rparr>))"

definition run_latency_ms :: "('g, 'p) invoke_env \<Rightarrow> u32" where
  "run_latency_ms env = duration_ms (iv_elapsed env)"

definition run_draft :: "call_run \<Rightarrow> u32 \<Rightarrow> string \<Rightarrow> request_status \<Rightarrow> event_draft" where
  "run_draft rn latency key_ref status =
     \<lparr>ed_request_id = cr_request_id rn, ed_proxy_key_id = pk_id (rc_proxy_key (cr_call rn)),
      ed_resource_id = wt_resource_id (rc_tool (cr_call rn)), ed_tool_name = rc_canonical (cr_call rn),
      ed_upstream_key_ref = key_ref, ed_status = status, ed_latency_ms = latency, ed_retry_count = 0,
      ed_request_args = rc_captured_args (cr_call rn), ed_response_preview = None, ed_upstream_latency_ms = None\<rparr>"

definition finish_run ::
  "('g, 'p) invoke_env \<Rightarrow> call_run \<Rightarrow> bool \<Rightarrow> ('g, 'p) pipeline \<Rightarrow> ('g, 'p) pipeline" where
  "finish_run env rn committed s =
     admission_drop env (cr_call rn) (if committed then admission_commit (cr_admission rn) else cr_admission rn) s"

definition finish_remote_input_required ::
  "('g, 'p) invoke_env \<Rightarrow> call_run \<Rightarrow> json \<Rightarrow> ('g, 'p) pipeline \<Rightarrow> (proxy_error + invoke_result) \<times> ('g, 'p) pipeline" where
  "finish_remote_input_required env rn payload s =
     (let latency = run_latency_ms env;
          s1 = record_event env ((run_draft rn latency MCP_KEY_REF StSuccess)
                 \<lparr>ed_response_preview := Some ''input_required'', ed_upstream_latency_ms := Some latency\<rparr>) s
      in (Inr \<lparr>ir_request_id = cr_request_id rn, ir_status = 200, ir_body = iv_ser env payload,
               ir_content_type = Some MCP_INPUT_REQUIRED_CONTENT_TYPE, ir_content_defense_flag = False, ir_shaped = False,
               ir_rendered_format = None\<rparr>, finish_run env rn True s1))"

definition finish_remote_complete ::
  "('g, 'p) invoke_env \<Rightarrow> 'p executor \<Rightarrow> call_run \<Rightarrow> tool_call_result \<Rightarrow> ('g, 'p) pipeline \<Rightarrow>
   (proxy_error + invoke_result) \<times> ('g, 'p) pipeline" where
  "finish_remote_complete env ex rn r s =
     (let latency = run_latency_ms env; rid = wt_resource_id (rc_tool (cr_call rn));
          s1 = record_event env ((run_draft rn latency MCP_KEY_REF StSuccess)
                 \<lparr>ed_response_preview := capture_tool_result env ex r, ed_upstream_latency_ms := Some latency\<rparr>) s;
          security = (case mcp_server_of (ex_config ex) rid of Some m \<Rightarrow> ms_security m | None \<Rightarrow> default_security_config);
          (result, s2) = shape_remote_mcp_result env ex r rid (rc_canonical (cr_call rn))
            (pk_id (rc_proxy_key (cr_call rn))) security s1
      in (Inr (result\<lparr>ir_request_id := cr_request_id rn\<rparr>), finish_run env rn True s2))"

definition finish_remote_error ::
  "('g, 'p) invoke_env \<Rightarrow> call_run \<Rightarrow> proxy_error \<Rightarrow> ('g, 'p) pipeline \<Rightarrow> (proxy_error + invoke_result) \<times> ('g, 'p) pipeline" where
  "finish_remote_error env rn err s =
     (Inl err,
      finish_run env rn False
        (record_event env (run_draft rn (run_latency_ms env) MCP_KEY_REF (request_status_from_proxy_error err)) s))"

definition invoke_remote_mcp ::
  "('g, 'p) invoke_env \<Rightarrow> 'p executor \<Rightarrow> 'p mcp_entry list \<Rightarrow> resolved_call \<Rightarrow> json \<Rightarrow> ('g, 'p) pipeline \<Rightarrow>
   (proxy_error + invoke_result) \<times> ('g, 'p) pipeline" where
  "invoke_remote_mcp env ex es call args s =
     (case ensure_allowed env call of
        Inl e \<Rightarrow> (Inl e, s)
      | Inr _ \<Rightarrow>
          (case admit env call s of
             (Inl e, s1) \<Rightarrow> (Inl e, s1)
           | (Inr a, s1) \<Rightarrow>
               (let (rn, s2) = call_start env call a (meanwhile env s1);
                    s3 = s2\<lparr>px_upstream := px_upstream s2 @
                      (case find_tool es (rc_canonical call) of Some (p, up) \<Rightarrow> [McpCall p up args] | None \<Rightarrow> [])\<rparr>
                in case call_tool_ex (\<lambda>p up ar _. iv_mcp_call env p up ar) es (rc_canonical call) args () of
                     Inr (InputRequired payload) \<Rightarrow> finish_remote_input_required env rn payload s3
                   | Inr (Complete r) \<Rightarrow> finish_remote_complete env ex rn r s3
                   | Inl e \<Rightarrow> finish_remote_error env rn (ProxyMcp e) s3)))"

definition resolve_upstream_secret ::
  "('g, 'p) invoke_env \<Rightarrow> api_resource \<Rightarrow> ('g, 'p) pipeline \<Rightarrow> proxy_error + resource_key_pool option \<times> string option" where
  "resolve_upstream_secret env r s =
     (case Option.bind (px_pools s) (\<lambda>pools. map_of pools (ar_id r)) of
        Some pool \<Rightarrow> Inr (Some pool, None)
      | None \<Rightarrow> and_then (resolve_auth_secret (iv_resolve env) (ar_auth r)) (\<lambda>secret. Inr (None, secret)))"

definition finish_http_success ::
  "('g, 'p) invoke_env \<Rightarrow> 'p executor \<Rightarrow> call_run \<Rightarrow> security_config \<Rightarrow> upstream_response \<Rightarrow> ('g, 'p) pipeline \<Rightarrow>
   (proxy_error + invoke_result) \<times> ('g, 'p) pipeline" where
  "finish_http_success env ex rn security u s =
     (let s1 = record_event env ((run_draft rn (run_latency_ms env) (us_upstream_key_ref u) StSuccess)
                 \<lparr>ed_retry_count := us_retry_count u, ed_response_preview := capture_body_preview env ex (us_body u),
                  ed_upstream_latency_ms := Some (us_upstream_latency_ms u)\<rparr>) s;
          (result, s2) = apply_defense_and_shaping env ex
            \<lparr>ir_request_id = [], ir_status = us_status u, ir_body = us_body u, ir_content_type = us_content_type u,
             ir_content_defense_flag = False, ir_shaped = False, ir_rendered_format = None\<rparr>
            (wt_resource_id (rc_tool (cr_call rn))) (rc_canonical (cr_call rn)) (pk_id (rc_proxy_key (cr_call rn)))
            security s1
      in (Inr (result\<lparr>ir_request_id := cr_request_id rn\<rparr>), finish_run env rn True s2))"

definition finish_http_failure ::
  "('g, 'p) invoke_env \<Rightarrow> call_run \<Rightarrow> execution_error \<Rightarrow> ('g, 'p) pipeline \<Rightarrow> (proxy_error + invoke_result) \<times> ('g, 'p) pipeline" where
  "finish_http_failure env rn x s =
     (Inl (xe_proxy_error x),
      finish_run env rn False
        (record_event env ((run_draft rn (run_latency_ms env) (xe_upstream_key_ref x)
           (request_status_from_proxy_error (xe_proxy_error x)))
           \<lparr>ed_retry_count := xe_retry_count x, ed_upstream_latency_ms := xe_upstream_latency_ms x\<rparr>) s))"

definition call_http ::
  "('g, 'p) invoke_env \<Rightarrow> 'p executor \<Rightarrow> api_resource \<Rightarrow> wrapped_tool \<Rightarrow> json \<Rightarrow> resource_key_pool option \<Rightarrow> string option \<Rightarrow>
   ('g, 'p) pipeline \<Rightarrow> (execution_error + upstream_response) \<times> ('g, 'p) pipeline" where
  "call_http env ex r tool args pool secret s =
     (let (out, st) = execute_with_retry (iv_retry env) (ex_retry ex)
            \<lparr>uq_http_method = wt_http_method tool, uq_upstream_path = wt_upstream_path tool, uq_base_url = ar_base_url r,
             uq_auth = ar_auth r, uq_args = args, uq_secret = secret, uq_param_locations = wt_param_locations tool\<rparr> pool
      in (out,
          s\<lparr>px_pools :=
              (case rt_pool st of Some p \<Rightarrow> map_option (AList.update (ar_id r) p) (px_pools s) | None \<Rightarrow> px_pools s),
            px_upstream := px_upstream s @ map (\<lambda>(g, q). HttpCall g q) (rt_sent st)\<rparr>))"

definition invoke_http ::
  "('g, 'p) invoke_env \<Rightarrow> 'p executor \<Rightarrow> resolved_call \<Rightarrow> json \<Rightarrow> ('g, 'p) pipeline \<Rightarrow>
   (proxy_error + invoke_result) \<times> ('g, 'p) pipeline" where
  "invoke_http env ex call args s =
     (case resource_of (ex_config ex) (wt_resource_id (rc_tool call)) of
        None \<Rightarrow> (Inl (UnknownResource (wt_resource_id (rc_tool call))), s)
      | Some r \<Rightarrow>
          (case ensure_allowed env call of
             Inl e \<Rightarrow> (Inl e, s)
           | Inr _ \<Rightarrow>
               (case admit env call s of
                  (Inl e, s1) \<Rightarrow> (Inl e, s1)
                | (Inr a, s1) \<Rightarrow>
                    (case resolve_upstream_secret env r s1 of
                       Inl e \<Rightarrow> (Inl e, admission_drop env call a (meanwhile env s1))
                     | Inr (pool, secret) \<Rightarrow>
                         (let (rn, s2) = call_start env call a (meanwhile env s1);
                              (out, s3) = call_http env ex r (rc_tool call) args pool secret s2
                          in case out of
                               Inr u \<Rightarrow> finish_http_success env ex rn (ar_security r) u s3
                             | Inl x \<Rightarrow> finish_http_failure env rn x s3)))))"

definition invoke_call ::
  "('g, 'p) invoke_env \<Rightarrow> 'p executor \<Rightarrow> string \<Rightarrow> json \<Rightarrow> proxy_key \<Rightarrow> ('g, 'p) pipeline \<Rightarrow>
   (proxy_error + invoke_result) \<times> ('g, 'p) pipeline" where
  "invoke_call env ex wire_name args key s =
     (case resolve_call env ex wire_name args key of
        Inl e \<Rightarrow> (Inl e, s)
      | Inr call \<Rightarrow>
          (case ex_registry ex of
             Some es \<Rightarrow>
               if contains_tool es (rc_canonical call) then invoke_remote_mcp env ex es call args s
               else invoke_http env ex call args s
           | None \<Rightarrow> invoke_http env ex call args s))"

section \<open>What each stage leaves alone\<close>

text \<open>The parts of the state that the accounting is about, as one tuple.\<close>

abbreviation books :: "('g, 'p) pipeline \<Rightarrow> 'g limit_registry option \<times> request_event list \<times> 'p upstream_call list" where
  "books s \<equiv> (px_limits s, px_recorded s, px_upstream s)"

lemma scan_defense_books: "scan_defense env t r w sec s = (b, s') \<Longrightarrow> books s' = books s"
  by (auto simp: scan_defense_def Let_def split: if_splits)

lemma shape_text_books: "shape_text env t sec k s = (x, s') \<Longrightarrow> books s' = books s"
  by (auto simp: shape_text_def split: option.splits prod.splits shaping_outcome.splits)

lemma shape_remote_books: "shape_remote_mcp_result env ex r rid w k sec s = (x, s') \<Longrightarrow> books s' = books s"
  by (auto simp: shape_remote_mcp_result_def Let_def dest!: scan_defense_books shape_text_books split: prod.splits)

lemma apply_defense_books: "apply_defense_and_shaping env ex res rid w k sec s = (x, s') \<Longrightarrow> books s' = books s"
  by (auto simp: apply_defense_and_shaping_def Let_def dest!: scan_defense_books shape_text_books split: prod.splits if_splits)

lemma record_event_books:
  "px_limits (record_event env d s) = px_limits s" "px_upstream (record_event env d s) = px_upstream s"
  "\<exists>e. px_recorded (record_event env d s) = px_recorded s @ [e] \<and> re_status e = ed_status d \<and>
     re_proxy_key_id e = ed_proxy_key_id d \<and> re_tool_name e = ed_tool_name d \<and> \<not> re_rate_limited e"
  by (simp_all add: record_event_def put_event_def)

lemma call_http_books:
  "call_http env ex r tool args pool secret s = (out, s') \<Longrightarrow>
   px_limits s' = px_limits s \<and> px_recorded s' = px_recorded s"
  by (auto simp: call_http_def Let_def split: prod.splits)

lemma status_not_success: "request_status_from_proxy_error e \<noteq> StSuccess"
  by (simp add: request_status_from_proxy_error_def split: proxy_error.splits)

section \<open>How a call ends\<close>

text \<open>
  The books after an admitted call: with the call's outcome, the limits are those the others left, with the
  quota refunded if the call failed, and the permit returned.
\<close>

definition settled :: "('g, 'p) invoke_env \<Rightarrow> resolved_call \<Rightarrow> bool \<Rightarrow> bool \<Rightarrow> 'g limit_registry \<Rightarrow> 'g limit_registry" where
  "settled env call failed permit reg =
     (if permit then permit_drop (wt_resource_id (rc_tool call)) else id)
       (if failed then refund_call_at (pk_id (rc_proxy_key call)) (iv_refund_now env) (iv_others env reg)
        else iv_others env reg)"

lemma finish_run_limits:
  "cr_admission rn = \<lparr>ad_quota = True, ad_permit = permit\<rparr> \<Longrightarrow>
   px_limits (finish_run env rn ok s) =
     map_option (\<lambda>reg. (if permit then permit_drop (wt_resource_id (rc_tool (cr_call rn))) else id)
       (if ok then reg else refund_call_at (pk_id (rc_proxy_key (cr_call rn))) (iv_refund_now env) reg)) (px_limits s)"
  by (cases "px_limits s") (simp_all add: finish_run_def admission_drop_def admission_commit_def quota_guard_drop_def)

lemma finish_run_books:
  "px_recorded (finish_run env rn ok s) = px_recorded s" "px_upstream (finish_run env rn ok s) = px_upstream s"
  by (simp_all add: finish_run_def admission_drop_def)

text \<open>The event of a run.\<close>

definition event_of :: "resolved_call \<Rightarrow> bool \<Rightarrow> request_event \<Rightarrow> bool" where
  "event_of call ok e \<longleftrightarrow>
     (re_status e = StSuccess \<longleftrightarrow> ok) \<and> re_proxy_key_id e = pk_id (rc_proxy_key call) \<and> re_tool_name e = rc_canonical call \<and>
     \<not> re_rate_limited e"

definition run_ends :: "('g, 'p) invoke_env \<Rightarrow> call_run \<Rightarrow> (proxy_error + invoke_result) \<times> ('g, 'p) pipeline \<Rightarrow> ('g, 'p) pipeline \<Rightarrow> bool" where
  "run_ends env rn res s \<longleftrightarrow>
     (\<exists>e. px_recorded (snd res) = px_recorded s @ [e] \<and> event_of (cr_call rn) (\<not> isl (fst res)) e) \<and>
     px_upstream (snd res) = px_upstream s \<and>
     px_limits (snd res) = px_limits (finish_run env rn (\<not> isl (fst res)) s)"

lemma finish_run_cong: "px_limits s = px_limits s' \<Longrightarrow> px_limits (finish_run env rn ok s) = px_limits (finish_run env rn ok s')"
  by (simp add: finish_run_def admission_drop_def)

lemma run_ends_recorded:
  assumes "books s1 = books (record_event env d s)"
    and "ed_proxy_key_id d = pk_id (rc_proxy_key (cr_call rn))" and "ed_tool_name d = rc_canonical (cr_call rn)"
    and "ed_status d = StSuccess \<longleftrightarrow> \<not> isl r"
  shows "run_ends env rn (r, finish_run env rn (\<not> isl r) s1) s"
proof -
  have "\<exists>e. px_recorded s1 = px_recorded s @ [e] \<and> event_of (cr_call rn) (\<not> isl r) e"
    using record_event_books(3) [of env d s] assms by (auto simp: event_of_def)
  moreover have "px_limits s1 = px_limits s" "px_upstream s1 = px_upstream s"
    using assms(1) by (simp_all add: record_event_books)
  ultimately show ?thesis
    using finish_run_cong [of s1 s] by (simp add: run_ends_def finish_run_books)
qed

lemma run_draft_simps:
  "ed_proxy_key_id (run_draft rn l k st) = pk_id (rc_proxy_key (cr_call rn))"
  "ed_tool_name (run_draft rn l k st) = rc_canonical (cr_call rn)" "ed_status (run_draft rn l k st) = st"
  by (simp_all add: run_draft_def)

lemma finish_input_required_ends: "run_ends env rn (finish_remote_input_required env rn payload s) s"
  unfolding finish_remote_input_required_def Let_def
  by (rule run_ends_recorded [OF refl, where r = "Inr _", simplified]) (simp_all add: run_draft_simps)

lemma finish_complete_ends: "run_ends env rn (finish_remote_complete env ex rn r s) s"
proof -
  let ?sec = "case mcp_server_of (ex_config ex) (wt_resource_id (rc_tool (cr_call rn))) of
    Some m \<Rightarrow> ms_security m | None \<Rightarrow> default_security_config"
  let ?d = "(run_draft rn (run_latency_ms env) MCP_KEY_REF StSuccess)
    \<lparr>ed_response_preview := capture_tool_result env ex r, ed_upstream_latency_ms := Some (run_latency_ms env)\<rparr>"
  obtain x s2 where x: "shape_remote_mcp_result env ex r (wt_resource_id (rc_tool (cr_call rn))) (rc_canonical (cr_call rn))
      (pk_id (rc_proxy_key (cr_call rn))) ?sec (record_event env ?d s) = (x, s2)" by force
  show ?thesis
    using run_ends_recorded [OF shape_remote_books [OF x], where rn = rn and r = "Inr (x\<lparr>ir_request_id := cr_request_id rn\<rparr>)"]
    by (simp add: finish_remote_complete_def Let_def x run_draft_simps)
qed

lemma finish_error_ends: "run_ends env rn (finish_remote_error env rn e s) s"
  unfolding finish_remote_error_def
  by (rule run_ends_recorded [OF refl, where r = "Inl _", simplified]) (simp_all add: run_draft_simps status_not_success)

lemma finish_success_ends: "run_ends env rn (finish_http_success env ex rn sec u s) s"
proof -
  let ?d = "(run_draft rn (run_latency_ms env) (us_upstream_key_ref u) StSuccess)
    \<lparr>ed_retry_count := us_retry_count u, ed_response_preview := capture_body_preview env ex (us_body u),
     ed_upstream_latency_ms := Some (us_upstream_latency_ms u)\<rparr>"
  let ?r = "\<lparr>ir_request_id = [], ir_status = us_status u, ir_body = us_body u, ir_content_type = us_content_type u,
    ir_content_defense_flag = False, ir_shaped = False, ir_rendered_format = None\<rparr>"
  obtain x s2 where x: "apply_defense_and_shaping env ex ?r (wt_resource_id (rc_tool (cr_call rn))) (rc_canonical (cr_call rn))
      (pk_id (rc_proxy_key (cr_call rn))) sec (record_event env ?d s) = (x, s2)" by force
  show ?thesis
    using run_ends_recorded [OF apply_defense_books [OF x], where rn = rn and r = "Inr (x\<lparr>ir_request_id := cr_request_id rn\<rparr>)"]
    by (simp add: finish_http_success_def Let_def x run_draft_simps)
qed

lemma finish_failure_ends: "run_ends env rn (finish_http_failure env rn x s) s"
  unfolding finish_http_failure_def
  by (rule run_ends_recorded [OF refl, where r = "Inl _", simplified]) (simp_all add: run_draft_simps status_not_success)

lemmas run_ends_rules = finish_input_required_ends finish_complete_ends finish_error_ends finish_success_ends finish_failure_ends

section \<open>The stages of a call\<close>

text \<open>
  Every call ends in one of four ways: turned away with nothing changed; refused by the limits; admitted, but
  without a usable credential; or run upstream.
\<close>

datatype stage = Turned_away | Refused | No_credential | Ran

definition admission_of ::
  "('g, 'p) invoke_env \<Rightarrow> resolved_call \<Rightarrow> 'g limit_registry \<Rightarrow> (limit_error + bool) \<times> 'g limit_registry" where
  "admission_of env call reg =
     admit_at (iv_governor env) (iv_instant env) (iv_wait env) (pk_id (rc_proxy_key call)) (wt_resource_id (rc_tool call))
       (iv_admit_now env) reg"

definition call_ends ::
  "('g, 'p) invoke_env \<Rightarrow> 'p executor \<Rightarrow> resolved_call \<Rightarrow> 'g limit_registry \<Rightarrow> ('g, 'p) pipeline \<Rightarrow> stage \<Rightarrow>
   (proxy_error + invoke_result) \<times> ('g, 'p) pipeline \<Rightarrow> bool" where
  "call_ends env ex call reg s st res \<longleftrightarrow>
     (case st of
        Turned_away \<Rightarrow> isl (fst res) \<and> snd res = s
      | Refused \<Rightarrow>
          (\<exists>e reg' ev. admission_of env call reg = (Inl e, reg') \<and> fst res = Inl (ProxyLimit e) \<and>
             books (snd res) = (Some reg', px_recorded s @ [ev], px_upstream s) \<and>
             re_status ev = StLimited \<and> re_rate_limited ev \<and> re_proxy_key_id ev = pk_id (rc_proxy_key call))
      | No_credential \<Rightarrow>
          (\<exists>permit reg'. admission_of env call reg = (Inr permit, reg') \<and> isl (fst res) \<and>
             books (snd res) = (Some (settled env call True permit reg'), px_recorded s, px_upstream s))
      | Ran \<Rightarrow>
          (\<exists>permit reg' ev ups. admission_of env call reg = (Inr permit, reg') \<and>
             books (snd res) =
               (Some (settled env call (isl (fst res)) permit reg'), px_recorded s @ [ev], px_upstream s @ ups) \<and>
             event_of call (\<not> isl (fst res)) ev))"

lemma admit_Inr:
  assumes "admit env call s = (Inr a, s1)" and "px_limits s = Some reg"
  shows "\<exists>permit reg'. admission_of env call reg = (Inr permit, reg') \<and> a = \<lparr>ad_quota = True, ad_permit = permit\<rparr> \<and>
     s1 = s\<lparr>px_limits := Some reg'\<rparr>"
  using assms by (auto simp: admit_def admission_of_def split: prod.splits sum.splits)

lemma admit_Inl:
  assumes "admit env call s = (Inl e, s1)" and "px_limits s = Some reg"
  shows "call_ends env ex call reg s Refused (Inl e, s1)"
  using assms
  by (auto simp: admit_def admission_of_def call_ends_def record_limited_def put_event_def next_request_id_def Let_def
      split: prod.splits sum.splits)

lemma ran_ends:
  assumes adm: "admit env call s = (Inr a, s1)" "px_limits s = Some reg"
    and rn: "cr_call rn = call" "cr_admission rn = a"
    and s3: "px_limits s3 = px_limits (meanwhile env s1)" "px_recorded s3 = px_recorded s" "px_upstream s3 = px_upstream s @ ups"
    and ends: "run_ends env rn res s3"
  shows "call_ends env ex call reg s Ran res"
proof -
  obtain permit reg' where a: "admission_of env call reg = (Inr permit, reg')" "a = \<lparr>ad_quota = True, ad_permit = permit\<rparr>"
    "s1 = s\<lparr>px_limits := Some reg'\<rparr>"
    using admit_Inr [OF adm] by blast
  have l: "px_limits s3 = Some (iv_others env reg')" using s3(1) a(3) by (simp add: meanwhile_def)
  obtain ev where ev: "px_recorded (snd res) = px_recorded s @ [ev]" "event_of call (\<not> isl (fst res)) ev"
    and u: "px_upstream (snd res) = px_upstream s @ ups"
    and lim: "px_limits (snd res) = px_limits (finish_run env rn (\<not> isl (fst res)) s3)"
    using ends s3 rn by (auto simp: run_ends_def)
  have "px_limits (snd res) = Some (settled env call (isl (fst res)) permit reg')"
    using lim finish_run_limits [of rn permit env] rn a(2) l by (auto simp: settled_def)
  with a(1) ev u show ?thesis by (auto simp: call_ends_def)
qed

lemma no_credential_ends:
  assumes "admit env call s = (Inr a, s1)" and "px_limits s = Some reg"
  shows "call_ends env ex call reg s No_credential (Inl e, admission_drop env call a (meanwhile env s1))"
proof -
  obtain permit reg' where a: "admission_of env call reg = (Inr permit, reg')" "a = \<lparr>ad_quota = True, ad_permit = permit\<rparr>"
    "s1 = s\<lparr>px_limits := Some reg'\<rparr>"
    using admit_Inr [OF assms] by blast
  then show ?thesis
    by (auto simp: call_ends_def admission_drop_def meanwhile_def settled_def quota_guard_drop_def)
qed

definition authorised :: "('g, 'p) invoke_env \<Rightarrow> resolved_call \<Rightarrow> stage \<Rightarrow> bool" where
  "authorised env call st \<longleftrightarrow> (st \<noteq> Turned_away \<longrightarrow> ensure_allowed env call = Inr ())"

lemma call_start_eq:
  "call_start env call a s =
     (\<lparr>cr_call = call, cr_admission = a, cr_request_id = fst (next_request_id (px_counter s))\<rparr>,
      s\<lparr>px_counter := snd (next_request_id (px_counter s))\<rparr>)"
  by (simp add: call_start_def case_prod_beta' Let_def)

lemma invoke_remote_stage:
  assumes "px_limits s = Some reg"
  shows "\<exists>st. call_ends env ex call reg s st (invoke_remote_mcp env ex es call args s) \<and> authorised env call st"
proof (cases "ensure_allowed env call")
  case (Inl e)
  then show ?thesis
    by (intro exI [of _ Turned_away]) (simp add: invoke_remote_mcp_def call_ends_def authorised_def)
next
  case ok: (Inr u)
  obtain q s1 where q: "admit env call s = (q, s1)" by force
  show ?thesis
  proof (cases q)
    case (Inl e)
    with admit_Inl [OF q [unfolded Inl] assms] ok q show ?thesis
      by (intro exI [of _ Refused]) (simp add: invoke_remote_mcp_def authorised_def)
  next
    case (Inr a)
    let ?rn = "fst (call_start env call a (meanwhile env s1))" and ?s2 = "snd (call_start env call a (meanwhile env s1))"
    let ?ups = "case find_tool es (rc_canonical call) of Some (p, up) \<Rightarrow> [McpCall p up args] | None \<Rightarrow> []"
    let ?s3 = "?s2\<lparr>px_upstream := px_upstream ?s2 @ ?ups\<rparr>"
    have s1: "px_recorded s1 = px_recorded s" "px_upstream s1 = px_upstream s"
      using admit_Inr [OF q [unfolded Inr] assms] by auto
    have "run_ends env ?rn (invoke_remote_mcp env ex es call args s) ?s3"
      using ok q Inr
      by (auto simp: invoke_remote_mcp_def Let_def case_prod_beta' intro: run_ends_rules split: sum.splits call_outcome.splits)
    from ran_ends [OF q [unfolded Inr] assms _ _ _ _ _ this, where ups = ?ups and ex = ex] s1 ok show ?thesis
      by (intro exI [of _ Ran]) (simp add: call_start_eq meanwhile_def authorised_def)
  qed
qed

text \<open>An admitted call of a listed tool is one call of the peer the registry routes the canonical name to.\<close>

lemma invoke_remote_upstream:
  assumes "ensure_allowed env call = Inr u" and "admit env call s = (Inr a, s1)"
    and "find_tool es (rc_canonical call) = Some (p, up)"
  shows "px_upstream (snd (invoke_remote_mcp env ex es call args s)) = px_upstream s1 @ [McpCall p up args]"
proof -
  let ?rn = "fst (call_start env call a (meanwhile env s1))" and ?s2 = "snd (call_start env call a (meanwhile env s1))"
  let ?s3 = "?s2\<lparr>px_upstream := px_upstream ?s2 @ [McpCall p up args]\<rparr>"
  have "run_ends env ?rn (invoke_remote_mcp env ex es call args s) ?s3"
    using assms
    by (auto simp: invoke_remote_mcp_def Let_def case_prod_beta' intro: run_ends_rules split: sum.splits call_outcome.splits)
  then show ?thesis by (simp add: run_ends_def call_start_eq meanwhile_def)
qed

lemma invoke_http_stage:
  assumes "px_limits s = Some reg"
  shows "\<exists>st. call_ends env ex call reg s st (invoke_http env ex call args s) \<and> authorised env call st"
proof (cases "resource_of (ex_config ex) (wt_resource_id (rc_tool call))")
  case None
  then show ?thesis
    by (intro exI [of _ Turned_away]) (simp add: invoke_http_def call_ends_def authorised_def)
next
  case res: (Some r)
  show ?thesis
  proof (cases "ensure_allowed env call")
    case (Inl e)
    with res show ?thesis
      by (intro exI [of _ Turned_away]) (simp add: invoke_http_def call_ends_def authorised_def)
  next
    case ok: (Inr u)
    obtain q s1 where q: "admit env call s = (q, s1)" by force
    show ?thesis
    proof (cases q)
      case (Inl e)
      with admit_Inl [OF q [unfolded Inl] assms] res ok q show ?thesis
        by (intro exI [of _ Refused]) (simp add: invoke_http_def authorised_def)
    next
      case (Inr a)
      note adm = q [unfolded Inr]
      show ?thesis
      proof (cases "resolve_upstream_secret env r s1")
        case (Inl e)
        with no_credential_ends [OF adm assms] res ok adm show ?thesis
          by (intro exI [of _ No_credential]) (simp add: invoke_http_def authorised_def)
      next
        case sec: (Inr ps)
        obtain pool secret where ps: "ps = (pool, secret)" by force
        let ?rn = "fst (call_start env call a (meanwhile env s1))" and ?s2 = "snd (call_start env call a (meanwhile env s1))"
        obtain out s3 where c: "call_http env ex r (rc_tool call) args pool secret ?s2 = (out, s3)" by force
        have s1: "px_recorded s1 = px_recorded s" "px_upstream s1 = px_upstream s"
          using admit_Inr [OF adm assms] by auto
        obtain ups where u: "px_upstream s3 = px_upstream ?s2 @ ups"
          using c by (auto simp: call_http_def Let_def split: prod.splits)
        have "run_ends env ?rn (invoke_http env ex call args s) s3"
          using res ok adm sec ps c
          by (auto simp: invoke_http_def Let_def case_prod_beta' intro: run_ends_rules split: sum.splits)
        from ran_ends [OF adm assms _ _ _ _ _ this, where ups = ups and ex = ex] s1 ok u call_http_books [OF c] show ?thesis
          by (intro exI [of _ Ran]) (simp add: call_start_eq meanwhile_def authorised_def)
      qed
    qed
  qed
qed

lemma invoke_stage:
  assumes "px_limits s = Some reg"
  shows "(\<exists>e. resolve_call env ex w args key = Inl e \<and> invoke_call env ex w args key s = (Inl e, s)) \<or>
     (\<exists>call st. resolve_call env ex w args key = Inr call \<and>
        call_ends env ex call reg s st (invoke_call env ex w args key s) \<and> authorised env call st)"
proof (cases "resolve_call env ex w args key")
  case (Inr call)
  then show ?thesis
    using invoke_remote_stage [OF assms, of env ex call] invoke_http_stage [OF assms, of env ex call]
    by (auto simp: invoke_call_def split: option.splits)
qed (simp add: invoke_call_def)

section \<open>Charging\<close>

lemma admit_at_usage:
  "admit_at gov t out k up now reg = (r, reg') \<Longrightarrow>
   (case r of Inl _ \<Rightarrow> lr_usage reg' = lr_usage reg
    | Inr _ \<Rightarrow> (\<exists>reg2. lr_usage reg2 = lr_usage reg \<and> reg' = record_call k now reg2))"
proof -
  obtain r1 reg1 where 1: "check_key gov t k reg = (r1, reg1)" by force
  obtain r2 reg2 where 2: "admit_upstream gov t out up reg1 = (r2, reg2)" by force
  have "lr_usage reg1 = lr_usage reg" "lr_usage reg2 = lr_usage reg"
    using usage_frame(1) [of gov t k reg] usage_frame(2) [of gov t out up reg1] 1 2 by simp_all
  then show "admit_at gov t out k up now reg = (r, reg') \<Longrightarrow> ?thesis"
    by (auto simp: admit_at_def 1 2 split: sum.splits)
qed

lemma calls_total_cong: "lr_usage a = lr_usage b \<Longrightarrow> calls_total a k = calls_total b k"
  by (simp add: calls_total_def)

lemma permit_drop_usage [simp]: "lr_usage (permit_drop up reg) = lr_usage reg"
  by (simp add: permit_drop_def split: option.splits)

lemma settled_total:
  assumes "iv_others env = id"
  shows "calls_total (settled env call failed permit reg) k =
    (if failed \<and> k = pk_id (rc_proxy_key call) then calls_total reg k - 1 else calls_total reg k)"
proof -
  let ?reg = "if failed then refund_call_at (pk_id (rc_proxy_key call)) (iv_refund_now env) reg else reg"
  have "calls_total (settled env call failed permit reg) k = calls_total ?reg k"
    using assms by (simp add: settled_def calls_total_def)
  then show ?thesis by (simp add: calls_refund)
qed

lemma resolve_call_Inr:
  "resolve_call env ex w args key = Inr call \<Longrightarrow>
   rc_proxy_key call = key \<and> rc_wire_name call = w \<and> rc_canonical call = wire (rc_tool call) \<and>
   resolve_tool env ex w key = Inr (rc_tool call) \<and> check_quarantine ex w (wire (rc_tool call)) = Inr ()"
  by (auto simp: resolve_call_def and_then_Inr_iff)

text \<open>What one call adds to the books.\<close>

definition charged ::
  "proxy_key \<Rightarrow> 'g limit_registry \<Rightarrow> ('g, 'p) pipeline \<Rightarrow> ('e + 'r) \<times> ('g, 'p) pipeline \<Rightarrow> bool" where
  "charged key reg s res \<longleftrightarrow>
     (\<exists>reg' evs. px_limits (snd res) = Some reg' \<and> px_recorded (snd res) = px_recorded s @ evs \<and> length evs \<le> 1 \<and>
        (\<forall>e \<in> set evs. re_proxy_key_id e = pk_id key \<and> (re_status e = StSuccess \<longleftrightarrow> \<not> isl (fst res))) \<and>
        (\<not> isl (fst res) \<longrightarrow> evs \<noteq> []) \<and>
        (\<forall>k. calls_total reg' k = calls_total reg k + (if \<not> isl (fst res) \<and> k = pk_id key then 1 else 0)))"

lemma chargedI:
  assumes "px_limits (snd res) = Some reg'" and "px_recorded (snd res) = px_recorded s @ evs" and "length evs \<le> 1"
    and "\<And>e. e \<in> set evs \<Longrightarrow> re_proxy_key_id e = pk_id key \<and> (re_status e = StSuccess \<longleftrightarrow> \<not> isl (fst res))"
    and "\<not> isl (fst res) \<Longrightarrow> evs \<noteq> []"
    and "\<And>k. calls_total reg' k = calls_total reg k + (if \<not> isl (fst res) \<and> k = pk_id key then 1 else 0)"
  shows "charged key reg s res"
  using assms unfolding charged_def by blast

lemma admission_total:
  assumes "admission_of env call reg = (Inr permit, reg')" and "calls_total reg (pk_id (rc_proxy_key call)) < 2 ^ 64 - 1"
  shows "calls_total reg' k = calls_total reg k + (if k = pk_id (rc_proxy_key call) then 1 else 0)"
proof -
  from admit_at_usage [OF assms(1) [unfolded admission_of_def]] obtain reg2 where
    r: "lr_usage reg2 = lr_usage reg" "reg' = record_call (pk_id (rc_proxy_key call)) (iv_admit_now env) reg2" by auto
  have "calls_total reg2 j = calls_total reg j" for j by (rule calls_total_cong [OF r(1)])
  with assms(2) show ?thesis unfolding r(2) calls_record by auto
qed

lemma refused_charged:
  assumes "call_ends env ex call reg s Refused res"
  shows "charged (rc_proxy_key call) reg s res"
proof -
  from assms obtain e reg' ev where r: "admission_of env call reg = (Inl e, reg')" "fst res = Inl (ProxyLimit e)"
    and bk: "books (snd res) = (Some reg', px_recorded s @ [ev], px_upstream s)"
    and ev: "re_status ev = StLimited" "re_proxy_key_id ev = pk_id (rc_proxy_key call)"
    unfolding call_ends_def stage.case by blast
  have "calls_total reg' k = calls_total reg k" for k
    using admit_at_usage [OF r(1) [unfolded admission_of_def]] by (intro calls_total_cong) simp
  with r(2) bk ev show ?thesis by (intro chargedI [where evs = "[ev]" and reg' = reg']) simp_all
qed

lemma no_credential_charged:
  assumes "call_ends env ex call reg s No_credential res" and "iv_others env = id"
    and "calls_total reg (pk_id (rc_proxy_key call)) < 2 ^ 64 - 1"
  shows "charged (rc_proxy_key call) reg s res"
proof -
  from assms(1) obtain permit reg' where r: "admission_of env call reg = (Inr permit, reg')" "isl (fst res)"
    and bk: "books (snd res) = (Some (settled env call True permit reg'), px_recorded s, px_upstream s)"
    unfolding call_ends_def stage.case by blast
  have "calls_total (settled env call True permit reg') k = calls_total reg k" for k
    by (simp add: settled_total [OF assms(2)] admission_total [OF r(1) assms(3)])
  with r(2) bk show ?thesis by (intro chargedI [where evs = "[]" and reg' = "settled env call True permit reg'"]) simp_all
qed

lemma ran_charged:
  assumes "call_ends env ex call reg s Ran res" and "iv_others env = id"
    and "calls_total reg (pk_id (rc_proxy_key call)) < 2 ^ 64 - 1"
  shows "charged (rc_proxy_key call) reg s res"
proof -
  from assms(1) obtain permit reg' ev ups where r: "admission_of env call reg = (Inr permit, reg')"
    and bk: "books (snd res) = (Some (settled env call (isl (fst res)) permit reg'), px_recorded s @ [ev], px_upstream s @ ups)"
    and ev: "event_of call (\<not> isl (fst res)) ev"
    unfolding call_ends_def stage.case by blast
  have "calls_total (settled env call (isl (fst res)) permit reg') k =
      calls_total reg k + (if \<not> isl (fst res) \<and> k = pk_id (rc_proxy_key call) then 1 else 0)" for k
    by (simp add: settled_total [OF assms(2)] admission_total [OF r assms(3)])
  with bk ev show ?thesis
    by (intro chargedI [where evs = "[ev]" and reg' = "settled env call (isl (fst res)) permit reg'"]) (simp_all add: event_of_def)
qed

lemma call_ends_charged:
  assumes "call_ends env ex call reg s st res" and "px_limits s = Some reg" and "iv_others env = id"
    and "calls_total reg (pk_id (rc_proxy_key call)) < 2 ^ 64 - 1"
  shows "charged (rc_proxy_key call) reg s res"
proof (cases st)
  case Turned_away
  with assms(1) have "isl (fst res)" "snd res = s" by (simp_all add: call_ends_def)
  then show ?thesis using assms(2) by (intro chargedI [where evs = "[]"]) simp_all
qed (use assms refused_charged no_credential_charged ran_charged in blast)+

lemma invoke_charged:
  assumes "px_limits s = Some reg" and "iv_others env = id" and "calls_total reg (pk_id key) < 2 ^ 64 - 1"
  shows "charged key reg s (invoke_call env ex w args key s)"
proof -
  from invoke_stage [OF assms(1), of env ex w args key] show ?thesis
  proof (elim disjE exE conjE)
    fix e assume "invoke_call env ex w args key s = (Inl e, s)"
    with assms(1) show ?thesis by (intro chargedI [where evs = "[]"]) simp_all
  next
    fix call st assume c: "resolve_call env ex w args key = Inr call"
      "call_ends env ex call reg s st (invoke_call env ex w args key s)"
    with call_ends_charged [OF c(2) assms(1,2)] resolve_call_Inr [OF c(1)] assms(3) show ?thesis by simp
  qed
qed

section \<open>Many calls\<close>

type_synonym ('g, 'p) invocation = "('g, 'p) invoke_env \<times> 'p executor \<times> string \<times> json \<times> proxy_key"

fun invoke_all :: "('g, 'p) invocation list \<Rightarrow> ('g, 'p) pipeline \<Rightarrow> ('g, 'p) pipeline" where
  "invoke_all [] s = s"
| "invoke_all ((env, ex, w, args, key) # cs) s = invoke_all cs (snd (invoke_call env ex w args key s))"

definition successes :: "request_event list \<Rightarrow> string \<Rightarrow> nat" where
  "successes evs k = length (filter (\<lambda>e. re_status e = StSuccess \<and> re_proxy_key_id e = k) evs)"

lemma successes_le: "successes evs k \<le> length evs"
  by (simp add: successes_def)

lemma successes_append: "successes (xs @ ys) k = successes xs k + successes ys k"
  by (simp add: successes_def)

lemma charged_successes:
  assumes "charged key reg s res" and "\<forall>k. calls_total reg k = successes (px_recorded s) k"
  shows "\<exists>reg'. px_limits (snd res) = Some reg' \<and> (\<forall>k. calls_total reg' k = successes (px_recorded (snd res)) k) \<and>
     length (px_recorded (snd res)) \<le> Suc (length (px_recorded s))"
proof -
  obtain reg' evs where c: "px_limits (snd res) = Some reg'" "px_recorded (snd res) = px_recorded s @ evs" "length evs \<le> 1"
    "\<forall>e \<in> set evs. re_proxy_key_id e = pk_id key \<and> (re_status e = StSuccess \<longleftrightarrow> \<not> isl (fst res))"
    "\<not> isl (fst res) \<longrightarrow> evs \<noteq> []"
    "\<And>k. calls_total reg' k = calls_total reg k + (if \<not> isl (fst res) \<and> k = pk_id key then 1 else 0)"
    using assms(1) by (auto simp: charged_def)
  have "successes evs k = (if \<not> isl (fst res) \<and> k = pk_id key then 1 else 0)" for k
    using c(3-5) by (cases evs) (auto simp: successes_def)
  with c assms(2) show ?thesis by (simp add: successes_append)
qed

section \<open>What a resolved call may touch\<close>

lemma resolve_tier_in:
  assumes "resolve_tier re c name q k P = Inr (Some t)"
  shows "t \<in> set (cat_tools c)"
proof -
  from assms obtain ts where ts: "try_filter (\<lambda>tool. if \<not> P tool \<or> \<not> qualifiers_match q (wt_name tool) then Inr False
      else case k of Some k \<Rightarrow> tool_check re k tool | None \<Rightarrow> Inr True) (cat_tools c) = Inr ts"
    and one: "(case ts of [] \<Rightarrow> Inr None | [t] \<Rightarrow> Inr (Some t)
      | _ \<Rightarrow> Inl (AmbiguousToolName name (take AMBIGUITY_CANDIDATE_LIMIT (sort (map wire ts))))) = Inr (Some t)"
    unfolding resolve_tier_def and_then_Inr_iff by blast
  from one have "t \<in> set ts" by (cases ts; cases "tl ts") auto
  with ts show ?thesis unfolding try_filter_Inr_iff by auto
qed

lemma resolve_for_key_in: "resolve_for_key re c name q key = Inr (Some t) \<Longrightarrow> t \<in> set (cat_tools c)"
  by (auto simp: resolve_for_key_def and_then_Inr_iff intro: resolve_tier_in split: option.splits)

lemma resolve_tool_in: "resolve_tool env ex w key = Inr t \<Longrightarrow> t \<in> set (cat_tools (ex_catalog ex))"
  by (auto simp: resolve_tool_def intro: resolve_for_key_in split: sum.splits option.splits catalog_error.splits)

lemma ensure_allowed_scope:
  "ensure_allowed env call = Inr () \<Longrightarrow>
   scope_spec (iv_regex env) (rc_proxy_key call) (to_wire_name (wt_name (rc_tool call))) (wt_resource_id (rc_tool call))"
  by (auto simp: ensure_allowed_def key_can_use_tool_def and_then_Inr_iff map_err_Inr_iff dest: key_can_use_name_spec split: if_splits)

lemma check_quarantine_free:
  "check_quarantine ex w c = Inr u \<Longrightarrow> ex_quarantined ex = Some q \<Longrightarrow> q c = None"
  by (auto simp: check_quarantine_def split: option.splits)

lemma shape_text_Some:
  assumes "shape_text env b sec k s = (Some t, s2)"
  shows "\<exists>cache cursor cache' head. px_cache s = Some cache \<and> store (iv_cache_now env) b k cache = (cursor, cache') \<and>
     px_cache s2 = Some cache' \<and> t = truncation_hint head cursor (length b)"
proof (cases "px_cache s")
  case (Some cache)
  obtain cursor cache' where st: "store (iv_cache_now env) b k cache = (cursor, cache')" by force
  from assms Some show ?thesis by (auto simp: shape_text_def shape_result_def st split: if_splits)
qed (use assms in \<open>simp add: shape_text_def\<close>)

section \<open>Properties\<close>

text \<open>C9: an upstream is contacted only for a tool of the catalogue that the key's scope covers, that is not
  quarantined under its canonical name, and that the limits admitted. Such a call records one event,
  under the canonical name, a success exactly when the caller gets a result; and whatever other callers did to the
  limits meanwhile, the call's quota is given back exactly when it failed, and its permit is returned.\<close>

theorem invoke_guarded:
  assumes "invoke_call env ex w args key s = (r, s')" and "px_limits s = Some reg" and "px_upstream s' \<noteq> px_upstream s"
  shows "\<exists>tool permit reg' ev. tool \<in> set (cat_tools (ex_catalog ex)) \<and>
     scope_spec (iv_regex env) key (to_wire_name (wt_name tool)) (wt_resource_id tool) \<and>
     (\<forall>q. ex_quarantined ex = Some q \<longrightarrow> q (wire tool) = None) \<and>
     admit_at (iv_governor env) (iv_instant env) (iv_wait env) (pk_id key) (wt_resource_id tool) (iv_admit_now env) reg =
       (Inr permit, reg') \<and>
     px_recorded s' = px_recorded s @ [ev] \<and> re_tool_name ev = wire tool \<and> (re_status ev = StSuccess \<longleftrightarrow> \<not> isl r) \<and>
     px_limits s' = Some ((if permit then permit_drop (wt_resource_id tool) else id)
       (if isl r then refund_call_at (pk_id key) (iv_refund_now env) (iv_others env reg') else iv_others env reg'))"
proof -
  from invoke_stage [OF assms(2), of env ex w args key] assms(1,3) obtain call st
    where c: "resolve_call env ex w args key = Inr call" "call_ends env ex call reg s st (r, s')" "authorised env call st"
    by auto
  with assms(3) have st: "st = Ran" by (cases st) (auto simp: call_ends_def)
  note call = resolve_call_Inr [OF c(1)]
  from c(2) st obtain permit reg' ev ups where e: "admission_of env call reg = (Inr permit, reg')"
    "books s' = (Some (settled env call (isl r) permit reg'), px_recorded s @ [ev], px_upstream s @ ups)"
    "event_of call (\<not> isl r) ev"
    unfolding call_ends_def by auto
  have "ensure_allowed env call = Inr ()" using c(3) st by (simp add: authorised_def)
  from ensure_allowed_scope [OF this] resolve_tool_in [of env ex w key "rc_tool call"] call check_quarantine_free [of ex w]
  show ?thesis
    using e by (intro exI [of _ "rc_tool call"] exI [of _ permit] exI [of _ reg'] exI [of _ ev])
      (auto simp: admission_of_def settled_def event_of_def)
qed

text \<open>When calls do not overlap, the total that the limits count for a key is at every moment the
  number of successful events recorded for it, after any sequence of calls by any keys that starts
  with matching books and is shorter than the range of the counters; a failed, refused or turned away call
  leaves no trace in the total.\<close>

lemma usage_matches_events:
  assumes "px_limits s = Some reg" and "\<forall>k. calls_total reg k = successes (px_recorded s) k"
    and "\<forall>c \<in> set cs. iv_others (fst c) = id" and "length (px_recorded s) + length cs < 2 ^ 64"
  shows "\<exists>reg'. px_limits (invoke_all cs s) = Some reg' \<and>
     (\<forall>k. calls_total reg' k = successes (px_recorded (invoke_all cs s)) k) \<and>
     length (px_recorded (invoke_all cs s)) \<le> length (px_recorded s) + length cs"
  using assms
proof (induction cs arbitrary: s reg)
  case (Cons c cs)
  obtain env ex w args key where c: "c = (env, ex, w, args, key)" by (metis prod_cases5)
  have "calls_total reg (pk_id key) < 2 ^ 64 - 1"
    using Cons.prems(2,4) successes_le [of "px_recorded s" "pk_id key"] by (auto simp del: of_nat_diff)
  then have ch: "charged key reg s (invoke_call env ex w args key s)"
    using Cons.prems(3) by (intro invoke_charged [OF Cons.prems(1)]) (simp_all add: c id_def)
  from charged_successes [OF this Cons.prems(2)] obtain reg1 where
    "px_limits (snd (invoke_call env ex w args key s)) = Some reg1"
    "\<forall>k. calls_total reg1 k = successes (px_recorded (snd (invoke_call env ex w args key s))) k"
    "length (px_recorded (snd (invoke_call env ex w args key s))) \<le> Suc (length (px_recorded s))"
    by blast
  with Cons.IH [of "snd (invoke_call env ex w args key s)" reg1] Cons.prems(3,4) show ?case by (auto simp: c)
qed auto


text \<open>A gateway with the two example servers and a key that may use the first.\<close>

definition example_invoke_env :: "(nat, string) invoke_env" where
  "example_invoke_env =
     \<lparr>iv_regex = \<lparr>re_new = (\<lambda>_. Inr (\<lambda>_. False)), re_set_new = (\<lambda>_. Inr (\<lambda>_. False))\<rparr>,
      iv_governor = example_governor, iv_instant = 0, iv_admit_now = 0, iv_wait = Acquired, iv_others = id,
      iv_refund_now = 0, iv_event_now = 0, iv_elapsed = 0, iv_cache_now = 0, iv_db_fails = (False, False),
      iv_security_db_fails = False, iv_resolve = example_resolve, iv_retry = example_retry_env,
      iv_mcp_call = (\<lambda>_ _ _. Inr (Complete \<lparr>tc_content = [''found''], tc_is_error = False\<rparr>)),
      iv_ser = (\<lambda>_. []), iv_ser_result = (\<lambda>r. concat (tc_content r)), iv_parse_json = (\<lambda>_. None), iv_yaml = (\<lambda>_. None),
      iv_lossy = id, iv_utf8 = (\<lambda>_. True), iv_lower = map ascii_lower, iv_redact = (\<lambda>_ t. [(False, t)])\<rparr>"

definition example_executor :: "string executor" where
  "example_executor =
     \<lparr>ex_config = \<lparr>gc_default_response_format = None, gc_failure_mode = FailOpen, gc_oauth = None, gc_api_resources = [], gc_builtin_mcp = [], gc_mcp_servers = [], gc_proxy_keys = []\<rparr>,
      ex_catalog = \<lparr>cat_tools = [example_search ''a''], cat_overrides = Map.empty, cat_originals = Map.empty\<rparr>,
      ex_observability = \<lparr>oc_capture_payloads = False, oc_capture_max_bytes = 0\<rparr>, ex_retry = example_settings,
      ex_registry = Some example_servers, ex_quarantined = Some Map.empty, ex_response_format = FmtJson\<rparr>"

definition example_limits :: "nat limit_registry" where
  "example_limits = \<lparr>lr_upstreams = Map.empty, lr_keys = Map.empty, lr_usage = Map.empty\<rparr>"

definition example_pipeline :: "(nat, string) pipeline" where
  "example_pipeline =
     \<lparr>px_limits = Some example_limits, px_pools = None, px_cache = None, px_counter = 0, px_recorded = [],
      px_repo = None, px_upstream = []\<rparr>"

definition example_caller :: proxy_key where
  "example_caller = (plain_key ''cli'')\<lparr>pk_allowed_servers := [''a'']\<rparr>"

lemma example_find_tool: "find_tool example_servers ''docs__p__search'' = Some (''u'', ''search'')"
  by (simp add: example_servers_eq example_entry_of_def example_names) (simp add: example_search_def)

lemma example_resolved:
  "resolve_call example_invoke_env example_executor ''docs__p__search'' JNull example_caller =
     Inr \<lparr>rc_wire_name = ''docs__p__search'', rc_proxy_key = example_caller, rc_tool = example_search ''a'',
          rc_canonical = ''docs__p__search'', rc_captured_args = None\<rparr>"
  by (simp add: resolve_call_def resolve_tool_def resolve_for_key_def resolve_tier_def qualifiers_match_def is_none_or_def
      example_executor_def example_names check_quarantine_def capture_args_def)

lemma example_allowed:
  "ensure_allowed example_invoke_env \<lparr>rc_wire_name = ''docs__p__search'', rc_proxy_key = example_caller,
     rc_tool = example_search ''a'', rc_canonical = ''docs__p__search'', rc_captured_args = None\<rparr> = Inr ()"
  by (simp add: ensure_allowed_def key_can_use_tool_def key_can_use_name_def example_caller_def plain_key_def
      example_search_def example_invoke_env_def)

lemma example_admitted:
  "\<exists>a s1. admit example_invoke_env \<lparr>rc_wire_name = ''docs__p__search'', rc_proxy_key = example_caller,
     rc_tool = example_search ''a'', rc_canonical = ''docs__p__search'', rc_captured_args = None\<rparr> example_pipeline = (Inr a, s1) \<and>
     px_upstream s1 = []"
  by (simp add: admit_def example_pipeline_def admit_at_def check_key_def check_call_quotas_def admit_upstream_def
      example_limits_def)

lemma example_invoked:
  "px_upstream (snd (invoke_call example_invoke_env example_executor ''docs__p__search'' JNull example_caller example_pipeline)) =
     [McpCall ''u'' ''search'' JNull]"
proof -
  let ?call = "\<lparr>rc_wire_name = ''docs__p__search'', rc_proxy_key = example_caller, rc_tool = example_search ''a'',
    rc_canonical = ''docs__p__search'', rc_captured_args = None\<rparr>"
  obtain a s1 where a: "admit example_invoke_env ?call example_pipeline = (Inr a, s1)" "px_upstream s1 = []"
    using example_admitted by blast
  have r: "ex_registry example_executor = Some example_servers" by (simp add: example_executor_def)
  have "find_tool example_servers (rc_canonical ?call) = Some (''u'', ''search'')" by (simp add: example_find_tool)
  from invoke_remote_upstream [OF example_allowed a(1) this, of example_executor JNull] a(2) show ?thesis
    by (simp add: invoke_call_def example_resolved r contains_tool_def example_find_tool)
qed

theorem invoke_guarded_witness:
  "\<exists>tool \<in> set (cat_tools (ex_catalog example_executor)).
     scope_spec (iv_regex example_invoke_env) example_caller (to_wire_name (wt_name tool)) (wt_resource_id tool)"
proof -
  obtain r s' where i: "invoke_call example_invoke_env example_executor ''docs__p__search'' JNull example_caller example_pipeline = (r, s')"
    by force
  have "px_limits example_pipeline = Some example_limits" by (simp add: example_pipeline_def)
  moreover have "px_upstream s' \<noteq> px_upstream example_pipeline" using example_invoked
    unfolding i by (simp add: example_pipeline_def)
  ultimately show ?thesis using invoke_guarded [OF i] by blast
qed

lemma usage_matches_events_witness:
  "\<exists>reg'. px_limits (invoke_all [(example_invoke_env, example_executor, ''docs__p__search'', JNull, example_caller)] example_pipeline) =
       Some reg' \<and>
     calls_total reg' ''cli'' = successes (px_recorded (invoke_all
       [(example_invoke_env, example_executor, ''docs__p__search'', JNull, example_caller)] example_pipeline)) ''cli''"
proof -
  let ?c = "(example_invoke_env, example_executor, ''docs__p__search'', JNull, example_caller)"
  have "\<exists>reg'. px_limits (invoke_all [?c] example_pipeline) = Some reg' \<and>
      (\<forall>k. calls_total reg' k = successes (px_recorded (invoke_all [?c] example_pipeline)) k) \<and>
      length (px_recorded (invoke_all [?c] example_pipeline)) \<le> length (px_recorded example_pipeline) + length [?c]"
  proof (rule usage_matches_events)
    show "px_limits example_pipeline = Some example_limits" by (simp add: example_pipeline_def)
    show "\<forall>k. calls_total example_limits k = successes (px_recorded example_pipeline) k"
      by (simp add: example_limits_def example_pipeline_def calls_total_def successes_def)
    show "\<forall>c \<in> set [?c]. iv_others (fst c) = id" by (simp add: example_invoke_env_def id_def)
    show "length (px_recorded example_pipeline) + length [?c] < 2 ^ 64" by (simp add: example_pipeline_def)
  qed
  then show ?thesis by blast
qed


end
