(* ===== verification/ConfigStore.thy ===== *)
theory ConfigStore
  imports GatewayAuth Integrity "HOL-Library.Sublist" "HOL-Library.Countable"
begin

text \<open>
  The configuration tables of the store (\<open>src/store/sqlite_crud.rs\<close>, \<open>mcp_servers.rs\<close>,
  \<open>tool_metadata.rs\<close>, \<open>tool_defaults.rs\<close>), the rows that the admin handlers write, and the merge of the rows
  into the configuration at start-up (\<open>src/store/config_merge.rs\<close>).

  A table is a map from its primary key. The SQL statements are the database's; what is modelled is the effect
  that the schema gives them: an \<open>INSERT\<close> fails on an existing key, \<open>UPDATE\<close> and \<open>DELETE\<close> touch the row
  with the key and report whether there was one, and lists come in the order of the key. Every
  statement may also fail for reasons of its own, its argument \<open>fault\<close>. The columns \<open>created_at\<close> and
  \<open>updated_at\<close>, which no modelled code reads, are left out. \<open>serde_json\<close> is a record of functions.
\<close>

section \<open>Errors (error.rs)\<close>

datatype store_error = StoreMigration string | StoreQuery string | StoreNotFound string

definition store_error_msg :: "store_error \<Rightarrow> string" where
  "store_error_msg e =
     (case e of
        StoreMigration m \<Rightarrow> ''database migration failed: '' @ m
      | StoreQuery m \<Rightarrow> ''database query failed: '' @ m
      | StoreNotFound m \<Rightarrow> ''entity not found: '' @ m)"

definition from_store_error :: "store_error \<Rightarrow> asterlane_error" where
  "from_store_error e =
     internal (case e of StoreMigration _ \<Rightarrow> StoreMigrationFailed | _ \<Rightarrow> StoreUnavailable) (store_error_msg e)"

section \<open>Rows and tables\<close>

record resource_row =
  rr_id :: string
  rr_domain :: string
  rr_provider :: string
  rr_base_url :: string
  rr_description :: "string option"
  rr_config_json :: string

record mcp_server_row =
  mr_id :: string
  mr_domain :: string
  mr_provider :: string
  mr_url :: string
  mr_description :: "string option"
  mr_config_json :: string

record proxy_key_row =
  kr_id :: string
  kr_display_name :: string
  kr_default_tool_page_size :: int
  kr_scope_json :: string

record upstream_key_row =
  ur_id :: string
  ur_resource_id :: string
  ur_secret_ref :: string
  ur_weight :: int
  ur_health_state :: string
  ur_cooldown_until :: "string option"

record tool_metadata_entry =
  tm_tool_name :: string
  tm_description :: string
  tm_updated_by :: "string option"

record tool_default_record =
  td_tool_name :: string
  td_args_json :: string
  td_source :: string
  td_updated_by :: "string option"

record config_db =
  db_resources :: "(string, resource_row) hashmap"
  db_mcp_servers :: "(string, mcp_server_row) hashmap"
  db_proxy_keys :: "(string, proxy_key_row) hashmap"
  db_upstream_keys :: "(string, upstream_key_row) hashmap"
  db_tool_metadata :: "(string, tool_metadata_entry) hashmap"
  db_tool_defaults :: "(string, tool_default_record) hashmap"
  db_security_events :: "security_event list"

text \<open>A statement either fails and changes nothing, or returns a value and the new table.\<close>

type_synonym ('a, 't) stmt = "(store_error + 'a) \<times> 't"

definition unique_violation :: store_error where
  "unique_violation = StoreQuery ''UNIQUE constraint failed''"

definition sql_insert :: "store_error option \<Rightarrow> string \<Rightarrow> 'r \<Rightarrow> (string, 'r) hashmap \<Rightarrow> (unit, (string, 'r) hashmap) stmt" where
  "sql_insert fault k r t =
     (case fault of
        Some e \<Rightarrow> (Inl e, t)
      | None \<Rightarrow> if map_of t k \<noteq> None then (Inl unique_violation, t) else (Inr (), AList.update k r t))"

definition sql_upsert :: "store_error option \<Rightarrow> string \<Rightarrow> 'r \<Rightarrow> (string, 'r) hashmap \<Rightarrow> (unit, (string, 'r) hashmap) stmt" where
  "sql_upsert fault k r t = (case fault of Some e \<Rightarrow> (Inl e, t) | None \<Rightarrow> (Inr (), AList.update k r t))"

definition sql_update :: "store_error option \<Rightarrow> string \<Rightarrow> ('r \<Rightarrow> 'r) \<Rightarrow> (string, 'r) hashmap \<Rightarrow> (bool, (string, 'r) hashmap) stmt" where
  "sql_update fault k f t =
     (case fault of Some e \<Rightarrow> (Inl e, t) | None \<Rightarrow> (Inr (map_of t k \<noteq> None), hm_modify k f t))"

definition sql_delete :: "store_error option \<Rightarrow> string \<Rightarrow> (string, 'r) hashmap \<Rightarrow> (bool, (string, 'r) hashmap) stmt" where
  "sql_delete fault k t =
     (case fault of Some e \<Rightarrow> (Inl e, t) | None \<Rightarrow> (Inr (map_of t k \<noteq> None), AList.delete k t))"

definition sql_list :: "store_error option \<Rightarrow> (string, 'r) hashmap \<Rightarrow> store_error + 'r list" where
  "sql_list fault t = (case fault of Some e \<Rightarrow> Inl e | None \<Rightarrow> Inr (map snd (sort_key fst t)))"

definition sql_get :: "store_error option \<Rightarrow> string \<Rightarrow> (string, 'r) hashmap \<Rightarrow> store_error + 'r option" where
  "sql_get fault k t = (case fault of Some e \<Rightarrow> Inl e | None \<Rightarrow> Inr (map_of t k))"

subsection \<open>Resources, gateway keys and MCP servers\<close>

definition insert_resource :: "store_error option \<Rightarrow> resource_row \<Rightarrow> config_db \<Rightarrow> (unit, config_db) stmt" where
  "insert_resource fault r db =
     (let (x, t) = sql_insert fault (rr_id r) r (db_resources db) in (x, db\<lparr>db_resources := t\<rparr>))"

definition get_resource :: "store_error option \<Rightarrow> string \<Rightarrow> config_db \<Rightarrow> store_error + resource_row" where
  "get_resource fault i db =
     and_then (sql_get fault i (db_resources db)) (ok_or (StoreNotFound (''resource '' @ i)))"

definition list_resources :: "store_error option \<Rightarrow> config_db \<Rightarrow> store_error + resource_row list" where
  "list_resources fault db = sql_list fault (db_resources db)"

definition update_resource_row :: "store_error option \<Rightarrow> resource_row \<Rightarrow> config_db \<Rightarrow> (bool, config_db) stmt" where
  "update_resource_row fault r db =
     (let (x, t) = sql_update fault (rr_id r) (\<lambda>_. r) (db_resources db) in (x, db\<lparr>db_resources := t\<rparr>))"

definition delete_resource_row :: "store_error option \<Rightarrow> string \<Rightarrow> config_db \<Rightarrow> (bool, config_db) stmt" where
  "delete_resource_row fault i db =
     (let (x, t) = sql_delete fault i (db_resources db) in (x, db\<lparr>db_resources := t\<rparr>))"

definition insert_proxy_key :: "store_error option \<Rightarrow> proxy_key_row \<Rightarrow> config_db \<Rightarrow> (unit, config_db) stmt" where
  "insert_proxy_key fault r db =
     (let (x, t) = sql_insert fault (kr_id r) r (db_proxy_keys db) in (x, db\<lparr>db_proxy_keys := t\<rparr>))"

definition get_proxy_key :: "store_error option \<Rightarrow> string \<Rightarrow> config_db \<Rightarrow> store_error + proxy_key_row" where
  "get_proxy_key fault i db =
     and_then (sql_get fault i (db_proxy_keys db)) (ok_or (StoreNotFound (''proxy_key '' @ i)))"

definition list_proxy_keys :: "store_error option \<Rightarrow> config_db \<Rightarrow> store_error + proxy_key_row list" where
  "list_proxy_keys fault db = sql_list fault (db_proxy_keys db)"

definition update_proxy_key_row :: "store_error option \<Rightarrow> proxy_key_row \<Rightarrow> config_db \<Rightarrow> (bool, config_db) stmt" where
  "update_proxy_key_row fault r db =
     (let (x, t) = sql_update fault (kr_id r) (\<lambda>_. r) (db_proxy_keys db) in (x, db\<lparr>db_proxy_keys := t\<rparr>))"

definition delete_proxy_key_row :: "store_error option \<Rightarrow> string \<Rightarrow> config_db \<Rightarrow> (bool, config_db) stmt" where
  "delete_proxy_key_row fault i db =
     (let (x, t) = sql_delete fault i (db_proxy_keys db) in (x, db\<lparr>db_proxy_keys := t\<rparr>))"

definition insert_mcp_server :: "store_error option \<Rightarrow> mcp_server_row \<Rightarrow> config_db \<Rightarrow> (unit, config_db) stmt" where
  "insert_mcp_server fault r db =
     (let (x, t) = sql_insert fault (mr_id r) r (db_mcp_servers db) in (x, db\<lparr>db_mcp_servers := t\<rparr>))"

definition update_mcp_server :: "store_error option \<Rightarrow> mcp_server_row \<Rightarrow> config_db \<Rightarrow> (bool, config_db) stmt" where
  "update_mcp_server fault r db =
     (let (x, t) = sql_update fault (mr_id r) (\<lambda>_. r) (db_mcp_servers db) in (x, db\<lparr>db_mcp_servers := t\<rparr>))"

definition delete_mcp_server :: "store_error option \<Rightarrow> string \<Rightarrow> config_db \<Rightarrow> (bool, config_db) stmt" where
  "delete_mcp_server fault i db =
     (let (x, t) = sql_delete fault i (db_mcp_servers db) in (x, db\<lparr>db_mcp_servers := t\<rparr>))"

definition list_mcp_servers :: "store_error option \<Rightarrow> config_db \<Rightarrow> store_error + mcp_server_row list" where
  "list_mcp_servers fault db = sql_list fault (db_mcp_servers db)"

subsection \<open>Upstream keys\<close>

definition insert_upstream_key :: "store_error option \<Rightarrow> upstream_key_row \<Rightarrow> config_db \<Rightarrow> (unit, config_db) stmt" where
  "insert_upstream_key fault r db =
     (let (x, t) = sql_insert fault (ur_id r) r (db_upstream_keys db) in (x, db\<lparr>db_upstream_keys := t\<rparr>))"

definition get_upstream_key :: "store_error option \<Rightarrow> string \<Rightarrow> config_db \<Rightarrow> store_error + upstream_key_row" where
  "get_upstream_key fault i db =
     and_then (sql_get fault i (db_upstream_keys db)) (ok_or (StoreNotFound (''upstream_key '' @ i)))"

definition list_upstream_keys_for_resource ::
  "store_error option \<Rightarrow> string \<Rightarrow> config_db \<Rightarrow> store_error + upstream_key_row list" where
  "list_upstream_keys_for_resource fault rid db =
     sql_list fault (filter (\<lambda>(_, r). ur_resource_id r = rid) (db_upstream_keys db))"

definition update_upstream_key_health ::
  "store_error option \<Rightarrow> string \<Rightarrow> string \<Rightarrow> string option \<Rightarrow> config_db \<Rightarrow> (bool, config_db) stmt" where
  "update_upstream_key_health fault i health cooldown db =
     (let (x, t) = sql_update fault i (\<lambda>r. r\<lparr>ur_health_state := health, ur_cooldown_until := cooldown\<rparr>)
        (db_upstream_keys db) in (x, db\<lparr>db_upstream_keys := t\<rparr>))"

definition delete_upstream_key :: "store_error option \<Rightarrow> string \<Rightarrow> config_db \<Rightarrow> (bool, config_db) stmt" where
  "delete_upstream_key fault i db =
     (let (x, t) = sql_delete fault i (db_upstream_keys db) in (x, db\<lparr>db_upstream_keys := t\<rparr>))"

definition delete_upstream_keys_for_resource ::
  "store_error option \<Rightarrow> string \<Rightarrow> config_db \<Rightarrow> (nat, config_db) stmt" where
  "delete_upstream_keys_for_resource fault rid db =
     (case fault of
        Some e \<Rightarrow> (Inl e, db)
      | None \<Rightarrow>
          (let kept = filter (\<lambda>(_, r). ur_resource_id r \<noteq> rid) (db_upstream_keys db)
           in (Inr (length (db_upstream_keys db) - length kept), db\<lparr>db_upstream_keys := kept\<rparr>)))"

fun insert_upstream_keys ::
  "(nat \<Rightarrow> store_error option) \<Rightarrow> nat \<Rightarrow> upstream_key_row list \<Rightarrow> config_db \<Rightarrow> (unit, config_db) stmt" where
  "insert_upstream_keys faults n [] db = (Inr (), db)"
| "insert_upstream_keys faults n (r # rs) db =
     (case insert_upstream_key (faults n) r db of
        (Inl e, db1) \<Rightarrow> (Inl e, db1)
      | (Inr _, db1) \<Rightarrow> insert_upstream_keys faults (Suc n) rs db1)"

definition replace_upstream_keys_for_resource ::
  "(nat \<Rightarrow> store_error option) \<Rightarrow> string \<Rightarrow> upstream_key_row list \<Rightarrow> config_db \<Rightarrow> (unit, config_db) stmt" where
  "replace_upstream_keys_for_resource faults rid keys db =
     (case delete_upstream_keys_for_resource (faults 0) rid db of
        (Inl e, db1) \<Rightarrow> (Inl e, db1)
      | (Inr _, db1) \<Rightarrow> insert_upstream_keys faults 1 keys db1)"

subsection \<open>Tool descriptions and default arguments\<close>

definition get_tool_metadata ::
  "store_error option \<Rightarrow> string \<Rightarrow> config_db \<Rightarrow> store_error + tool_metadata_entry option" where
  "get_tool_metadata fault n db = sql_get fault n (db_tool_metadata db)"

definition set_tool_metadata ::
  "store_error option \<Rightarrow> string \<Rightarrow> string \<Rightarrow> string option \<Rightarrow> config_db \<Rightarrow> (unit, config_db) stmt" where
  "set_tool_metadata fault n description updated_by db =
     (let (x, t) = sql_upsert fault n \<lparr>tm_tool_name = n, tm_description = description, tm_updated_by = updated_by\<rparr>
        (db_tool_metadata db) in (x, db\<lparr>db_tool_metadata := t\<rparr>))"

definition delete_tool_metadata :: "store_error option \<Rightarrow> string \<Rightarrow> config_db \<Rightarrow> (bool, config_db) stmt" where
  "delete_tool_metadata fault n db =
     (let (x, t) = sql_delete fault n (db_tool_metadata db) in (x, db\<lparr>db_tool_metadata := t\<rparr>))"

definition list_tool_metadata :: "store_error option \<Rightarrow> config_db \<Rightarrow> store_error + tool_metadata_entry list" where
  "list_tool_metadata fault db = sql_list fault (db_tool_metadata db)"

definition get_tool_default ::
  "store_error option \<Rightarrow> string \<Rightarrow> config_db \<Rightarrow> store_error + tool_default_record option" where
  "get_tool_default fault n db = sql_get fault n (db_tool_defaults db)"

definition set_tool_default :: "store_error option \<Rightarrow> tool_default_record \<Rightarrow> config_db \<Rightarrow> (unit, config_db) stmt" where
  "set_tool_default fault r db =
     (let (x, t) = sql_upsert fault (td_tool_name r) r (db_tool_defaults db) in (x, db\<lparr>db_tool_defaults := t\<rparr>))"

definition delete_tool_default :: "store_error option \<Rightarrow> string \<Rightarrow> config_db \<Rightarrow> (bool, config_db) stmt" where
  "delete_tool_default fault n db =
     (let (x, t) = sql_delete fault n (db_tool_defaults db) in (x, db\<lparr>db_tool_defaults := t\<rparr>))"

definition list_tool_defaults :: "store_error option \<Rightarrow> config_db \<Rightarrow> store_error + tool_default_record list" where
  "list_tool_defaults fault db = sql_list fault (db_tool_defaults db)"

section \<open>Payloads\<close>

record resource_config_json =
  rj_limits :: "upstream_limits option"
  rj_auth :: upstream_auth
  rj_key_pool :: "key_pool_config option"

record mcp_server_config_json =
  mj_auth :: upstream_auth
  mj_security :: security_config
  mj_limits :: "upstream_limits option"
  mj_health_check_enabled :: bool

record proxy_key_scope_json =
  sj_allowed_tools :: "string list"
  sj_denied_tools :: "string list"
  sj_allowed_servers :: "string list"
  sj_allowed_tool_names :: "string list"
  sj_limits :: "key_limits option"
  sj_token_ref :: "string option"
  sj_token_digest :: "string option"
  sj_expires_at :: "datetime option"
  sj_discovery_mode :: "string option"
  sj_response_format :: "response_format option"

text \<open>
  \<open>json!({...}).to_string()\<close> of the fields, and \<open>serde_json::from_str\<close> into the struct. That reading
  inverts writing is what serde's derived implementations document.
\<close>

record row_codec =
  to_resource_json :: "resource_config_json \<Rightarrow> string"
  of_resource_json :: "string \<Rightarrow> string + resource_config_json"
  to_server_json :: "mcp_server_config_json \<Rightarrow> string"
  of_server_json :: "string \<Rightarrow> string + mcp_server_config_json"
  to_scope_json :: "proxy_key_scope_json \<Rightarrow> string"
  of_scope_json :: "string \<Rightarrow> string + proxy_key_scope_json"

definition codec_inverse :: "row_codec \<Rightarrow> bool" where
  "codec_inverse c \<longleftrightarrow>
     (\<forall>p. of_resource_json c (to_resource_json c p) = Inr p) \<and> (\<forall>p. of_server_json c (to_server_json c p) = Inr p) \<and>
     (\<forall>p. of_scope_json c (to_scope_json c p) = Inr p)"

section \<open>Rows from the configuration (admin/crud.rs, admin/mcp.rs, admin/resource_keys.rs)\<close>

definition to_db_resource :: "row_codec \<Rightarrow> api_resource \<Rightarrow> resource_row" where
  "to_db_resource c r =
     \<lparr>rr_id = ar_id r, rr_domain = ar_domain r, rr_provider = ar_provider r, rr_base_url = ar_base_url r,
      rr_description = Some (ar_description r),
      rr_config_json =
        to_resource_json c \<lparr>rj_limits = ar_limits r, rj_auth = ar_auth r, rj_key_pool = ar_key_pool r\<rparr>\<rparr>"

definition to_db_server :: "row_codec \<Rightarrow> mcp_server_config \<Rightarrow> mcp_server_row" where
  "to_db_server c s =
     \<lparr>mr_id = ms_id s, mr_domain = ms_domain s, mr_provider = ms_provider s, mr_url = ms_url s,
      mr_description = Some (ms_description s),
      mr_config_json =
        to_server_json c \<lparr>mj_auth = ms_auth s, mj_security = ms_security s, mj_limits = ms_limits s,
                          mj_health_check_enabled = ms_health_check_enabled s\<rparr>\<rparr>"

text \<open>\<open>as i64\<close> of a \<open>usize\<close>, and \<open>usize::try_from\<close> of an \<open>i64\<close>.\<close>

definition as_i64 :: "nat \<Rightarrow> int" where
  "as_i64 n = (if n < 2 ^ 63 then int n else int n - 2 ^ 64)"

definition to_db_proxy_key :: "row_codec \<Rightarrow> proxy_key \<Rightarrow> proxy_key_row" where
  "to_db_proxy_key c k =
     \<lparr>kr_id = pk_id k, kr_display_name = pk_display_name k,
      kr_default_tool_page_size = as_i64 (pk_default_tool_page_size k),
      kr_scope_json =
        to_scope_json c
          \<lparr>sj_allowed_tools = pk_allowed_tools k, sj_denied_tools = pk_denied_tools k,
           sj_allowed_servers = pk_allowed_servers k, sj_allowed_tool_names = pk_allowed_tool_names k,
           sj_limits = pk_limits k, sj_token_ref = pk_token_ref k, sj_token_digest = pk_token_digest k,
           sj_expires_at = pk_expires_at k, sj_discovery_mode = pk_discovery_mode k,
           sj_response_format = pk_response_format k\<rparr>\<rparr>"

definition upstream_key_records :: "api_resource \<Rightarrow> upstream_key_row list" where
  "upstream_key_records r =
     (case ar_key_pool r of
        None \<Rightarrow> []
      | Some pool \<Rightarrow>
          map (\<lambda>(i, k). \<lparr>ur_id = ar_id r @ '':'' @ dec (i + 1), ur_resource_id = ar_id r,
                         ur_secret_ref = pkc_secret_ref k, ur_weight = uint (pkc_weight k),
                         ur_health_state = ''available'', ur_cooldown_until = None\<rparr>)
            (enumerate 0 (kpc_keys pool)))"

section \<open>The configuration from rows (config_merge.rs)\<close>

definition unwrap_or_default :: "string option \<Rightarrow> string" where
  "unwrap_or_default d = (case d of Some s \<Rightarrow> s | None \<Rightarrow> [])"

definition resource_from_record :: "row_codec \<Rightarrow> resource_row \<Rightarrow> string + api_resource" where
  "resource_from_record c row =
     and_then (of_resource_json c (rr_config_json row)) (\<lambda>extra.
       Inr \<lparr>ar_id = rr_id row, ar_domain = rr_domain row, ar_provider = rr_provider row,
            ar_base_url = rr_base_url row, ar_description = unwrap_or_default (rr_description row),
            ar_auth = rj_auth extra, ar_key_pool = rj_key_pool extra, ar_endpoints = [], ar_discovery = None,
            ar_security = default_security_config, ar_limits = rj_limits extra\<rparr>)"

definition mcp_server_from_record :: "row_codec \<Rightarrow> mcp_server_row \<Rightarrow> string + mcp_server_config" where
  "mcp_server_from_record c row =
     and_then (of_server_json c (mr_config_json row)) (\<lambda>extra.
       Inr \<lparr>ms_id = mr_id row, ms_domain = mr_domain row, ms_provider = mr_provider row, ms_url = mr_url row,
            ms_description = unwrap_or_default (mr_description row), ms_auth = mj_auth extra,
            ms_security = mj_security extra, ms_health_check_enabled = mj_health_check_enabled extra,
            ms_limits = mj_limits extra\<rparr>)"

definition proxy_key_from_record :: "row_codec \<Rightarrow> proxy_key_row \<Rightarrow> string + proxy_key" where
  "proxy_key_from_record c row =
     and_then (of_scope_json c (kr_scope_json row)) (\<lambda>scope.
       Inr \<lparr>pk_id = kr_id row, pk_display_name = kr_display_name row, pk_allowed_tools = sj_allowed_tools scope,
            pk_denied_tools = sj_denied_tools scope, pk_allowed_servers = sj_allowed_servers scope,
            pk_allowed_tool_names = sj_allowed_tool_names scope, pk_limits = sj_limits scope,
            pk_token_ref = sj_token_ref scope, pk_token_digest = sj_token_digest scope,
            pk_expires_at = sj_expires_at scope,
            pk_default_tool_page_size =
              (if 0 \<le> kr_default_tool_page_size row then nat (kr_default_tool_page_size row) else 20),
            pk_discovery_mode = sj_discovery_mode scope, pk_response_format = sj_response_format scope\<rparr>)"

record merge_report =
  mrp_added_resources :: "string list"
  mrp_added_mcp_servers :: "string list"
  mrp_added_proxy_keys :: "string list"
  mrp_shadowed :: "string list"
  mrp_skipped_invalid :: "string list"

text \<open>The loop that the code writes three times: \<open>(entries, added, shadowed, skipped)\<close>.\<close>

fun merge_rows ::
  "string \<Rightarrow> ('r \<Rightarrow> string) \<Rightarrow> ('r \<Rightarrow> 'e + 'c) \<Rightarrow> ('c \<Rightarrow> string) \<Rightarrow> 'r list \<Rightarrow>
   'c list \<times> string list \<times> string list \<times> string list \<Rightarrow> 'c list \<times> string list \<times> string list \<times> string list" where
  "merge_rows entity rid dec_row cid [] acc = acc"
| "merge_rows entity rid dec_row cid (row # rows) (cs, added, shadowed, skipped) =
     merge_rows entity rid dec_row cid rows
       (if list_ex (\<lambda>c. cid c = rid row) cs then (cs, added, shadowed @ [entity @ '':'' @ rid row], skipped)
        else (case dec_row row of
                Inr c \<Rightarrow> (cs @ [c], added @ [rid row], shadowed, skipped)
              | Inl _ \<Rightarrow> (cs, added, shadowed, skipped @ [entity @ '':'' @ rid row])))"

definition merge_db_into_config ::
  "row_codec \<Rightarrow> gateway_config \<Rightarrow> resource_row list \<Rightarrow> mcp_server_row list \<Rightarrow> proxy_key_row list \<Rightarrow>
   gateway_config \<times> merge_report" where
  "merge_db_into_config c config resources servers keys =
     (let (rs, added_r, sh1, sk1) =
            merge_rows ''resource'' rr_id (resource_from_record c) ar_id (sort_key rr_id resources)
              (gc_api_resources config, [], [], []);
          (ss, added_s, sh2, sk2) =
            merge_rows ''mcp_server'' mr_id (mcp_server_from_record c) ms_id (sort_key mr_id servers)
              (gc_mcp_servers config, [], sh1, sk1);
          (ks, added_k, sh3, sk3) =
            merge_rows ''proxy_key'' kr_id (proxy_key_from_record c) pk_id (sort_key kr_id keys)
              (gc_proxy_keys config, [], sh2, sk2)
      in (config\<lparr>gc_api_resources := rs, gc_mcp_servers := ss, gc_proxy_keys := ks\<rparr>,
          \<lparr>mrp_added_resources = added_r, mrp_added_mcp_servers = added_s, mrp_added_proxy_keys = added_k,
           mrp_shadowed = sh3, mrp_skipped_invalid = sk3\<rparr>))"

text \<open>The three reads, with the outcome of each statement.\<close>

definition load_db_entries ::
  "store_error option \<times> store_error option \<times> store_error option \<Rightarrow> config_db \<Rightarrow>
   store_error + resource_row list \<times> mcp_server_row list \<times> proxy_key_row list" where
  "load_db_entries faults db =
     (let (f1, f2, f3) = faults
      in and_then (list_resources f1 db) (\<lambda>rs.
         and_then (list_mcp_servers f2 db) (\<lambda>ss.
         and_then (list_proxy_keys f3 db) (\<lambda>ks. Inr (rs, ss, ks)))))"

definition merge_db_config ::
  "row_codec \<Rightarrow> store_error option \<times> store_error option \<times> store_error option \<Rightarrow> config_db \<Rightarrow> gateway_config \<Rightarrow>
   store_error + gateway_config \<times> merge_report" where
  "merge_db_config c faults db config =
     and_then (load_db_entries faults db) (\<lambda>(rs, ss, ks).
       let (config1, report) = merge_db_into_config c config rs ss ks
       in Inr (config1\<lparr>gc_proxy_keys :=
                 filter (\<lambda>k. pk_id k \<notin> set (mrp_added_proxy_keys report) \<or>
                             validate_key_credentials (config1\<lparr>gc_proxy_keys := [k]\<rparr>) = Inr ())
                   (gc_proxy_keys config1)\<rparr>, report))"


section \<open>Round trips\<close>

text \<open>What a row keeps of a resource: endpoints, discovery and security settings only exist in the file.\<close>

definition stored_resource :: "api_resource \<Rightarrow> api_resource" where
  "stored_resource r = r\<lparr>ar_endpoints := [], ar_discovery := None, ar_security := default_security_config\<rparr>"

lemma resource_row_roundtrip:
  "codec_inverse c \<Longrightarrow> resource_from_record c (to_db_resource c r) = Inr (stored_resource r)"
  by (simp add: codec_inverse_def resource_from_record_def to_db_resource_def stored_resource_def unwrap_or_default_def)

lemma server_row_roundtrip: "codec_inverse c \<Longrightarrow> mcp_server_from_record c (to_db_server c s) = Inr s"
  by (simp add: codec_inverse_def mcp_server_from_record_def to_db_server_def unwrap_or_default_def)

lemma key_row_roundtrip:
  "codec_inverse c \<Longrightarrow> proxy_key_from_record c (to_db_proxy_key c k) =
     Inr (k\<lparr>pk_default_tool_page_size :=
              (if pk_default_tool_page_size k < 2 ^ 63 then pk_default_tool_page_size k
               else if pk_default_tool_page_size k < 2 ^ 64 then 20
               else pk_default_tool_page_size k - 2 ^ 64)\<rparr>)"
  by (auto simp: codec_inverse_def proxy_key_from_record_def to_db_proxy_key_def as_i64_def nat_diff_distrib)

lemma to_db_ids [simp]:
  "rr_id (to_db_resource c r) = ar_id r" "mr_id (to_db_server c s) = ms_id s" "kr_id (to_db_proxy_key c k) = pk_id k"
  by (simp_all add: to_db_resource_def to_db_server_def to_db_proxy_key_def)

lemma from_record_ids:
  "resource_from_record c row = Inr r \<Longrightarrow> ar_id r = rr_id row"
  "mcp_server_from_record c srow = Inr s \<Longrightarrow> ms_id s = mr_id srow"
  "proxy_key_from_record c krow = Inr k \<Longrightarrow> pk_id k = kr_id krow"
  by (auto simp: resource_from_record_def mcp_server_from_record_def proxy_key_from_record_def and_then_Inr_iff)

section \<open>Tables\<close>

text \<open>Every row is stored under its own id, once.\<close>

definition table_ok :: "('r \<Rightarrow> string) \<Rightarrow> (string, 'r) hashmap \<Rightarrow> bool" where
  "table_ok rid t \<longleftrightarrow> hm_wf t \<and> (\<forall>k r. map_of t k = Some r \<longrightarrow> rid r = k)"

lemma table_ok_rows: "table_ok rid t \<Longrightarrow> x \<in> set t \<Longrightarrow> rid (snd x) = fst x"
  by (cases x) (auto simp: table_ok_def hm_wf_get [symmetric])

lemma table_ok_sorted:
  assumes "table_ok rid t"
  shows "distinct (map rid (map snd (sort_key fst t)))" "sorted (map rid (map snd (sort_key fst t)))"
    "find (\<lambda>r. rid r = i) (map snd (sort_key fst t)) = map_of t i"
proof -
  let ?s = "sort_key fst t"
  have r: "rid (snd x) = fst x" if "x \<in> set ?s" for x using table_ok_rows [OF assms] that by simp
  then have e: "map rid (map snd ?s) = map fst ?s" by auto
  have "distinct (map fst t)" using assms by (simp add: table_ok_def hm_wf_def)
  then have d: "distinct (map fst ?s)" by (simp add: distinct_map)
  show "distinct (map rid (map snd ?s))" "sorted (map rid (map snd ?s))" unfolding e using d by simp_all
  have "map_of ?s = map_of t"
    using d \<open>distinct (map fst t)\<close> by (intro ext) (metis (no_types) map_of_eq_None_iff map_of_eq_Some_iff option.exhaust set_sort)
  moreover have "find (\<lambda>r. rid r = i) (map snd xs) = map_of xs i" if "\<And>x. x \<in> set xs \<Longrightarrow> rid (snd x) = fst x" for xs
    using that by (induction xs) auto
  ultimately show "find (\<lambda>r. rid r = i) (map snd ?s) = map_of t i" using r by metis
qed

lemma sql_insert_ok [wf_intros]: "table_ok rid t \<Longrightarrow> rid r = k \<Longrightarrow> table_ok rid (snd (sql_insert fault k r t))"
  by (auto simp: table_ok_def sql_insert_def split: option.splits)

lemma sql_update_ok [wf_intros]:
  "table_ok rid t \<Longrightarrow> (\<And>x. rid x = k \<Longrightarrow> rid (f x) = k) \<Longrightarrow> table_ok rid (snd (sql_update fault k f t))"
  by (auto simp: table_ok_def sql_update_def split: option.splits)

lemma sql_delete_ok [wf_intros]: "table_ok rid t \<Longrightarrow> table_ok rid (snd (sql_delete fault k t))"
  by (auto simp: table_ok_def sql_delete_def split: option.splits)

section \<open>The merge\<close>

definition decoded :: "('r \<Rightarrow> 'e + 'c) \<Rightarrow> 'r \<Rightarrow> 'c option" where
  "decoded dec_row r = (case dec_row r of Inr c \<Rightarrow> Some c | Inl _ \<Rightarrow> None)"

lemma merge_rows_spec:
  assumes "distinct (map rid rows)" and "\<And>r c. dec_row r = Inr c \<Longrightarrow> cid c = rid r"
  shows "merge_rows entity rid dec_row cid rows (cs, added, shadowed, skipped) =
    (let fresh = filter (\<lambda>r. rid r \<notin> cid ` set cs) rows
     in (cs @ List.map_filter (decoded dec_row) fresh,
         added @ map rid (filter (\<lambda>r. decoded dec_row r \<noteq> None) fresh),
         shadowed @ map (\<lambda>r. entity @ '':'' @ rid r) (filter (\<lambda>r. rid r \<in> cid ` set cs) rows),
         skipped @ map (\<lambda>r. entity @ '':'' @ rid r) (filter (\<lambda>r. decoded dec_row r = None) fresh)))"
  using assms(1)
proof (induction rows arbitrary: cs added shadowed skipped)
  case (Cons row rows)
  have n: "rid r \<noteq> rid row" if "r \<in> set rows" for r using Cons.prems that by (auto simp: image_iff)
  have ex: "list_ex (\<lambda>c. cid c = i) cs \<longleftrightarrow> i \<in> cid ` set cs" for i by (auto simp: list_ex_iff)
  have same: "filter (\<lambda>r. rid r \<in> insert (rid row) (cid ` set cs)) rows = filter (\<lambda>r. rid r \<in> cid ` set cs) rows"
    "filter (\<lambda>r. rid r \<notin> insert (rid row) (cid ` set cs)) rows = filter (\<lambda>r. rid r \<notin> cid ` set cs) rows"
    by (auto intro!: filter_cong [OF refl] dest: n)
  show ?case
  proof (cases "dec_row row")
    case (Inr c)
    with assms(2) have "cid c = rid row" by simp
    with Inr Cons same show ?thesis by (simp add: ex Let_def decoded_def map_filter_simps del: filter_filter)
  qed (use Cons in \<open>simp add: ex Let_def decoded_def map_filter_simps\<close>)
qed (simp add: map_filter_simps)


lemma find_append: "find P (xs @ ys) = (case find P xs of Some x \<Rightarrow> Some x | None \<Rightarrow> find P ys)"
  by (induction xs) auto

lemma find_map_filter:
  assumes "distinct (map rid rows)" and "\<And>r c. f r = Some c \<Longrightarrow> cid c = rid r"
  shows "find (\<lambda>c. cid c = i) (List.map_filter f rows) = Option.bind (find (\<lambda>r. rid r = i) rows) f"
  using assms(1)
proof (induction rows)
  case (Cons r rows)
  have "find (\<lambda>c. cid c = rid r) (List.map_filter f rows) = None"
    using Cons.prems assms(2) by (fastforce simp: find_None_iff map_filter_def image_iff)
  with Cons assms(2) show ?case by (auto simp: map_filter_simps split: option.splits)
qed (simp add: map_filter_simps)

lemma find_filter_fresh:
  "i \<notin> A \<Longrightarrow> find (\<lambda>r. rid r = i) (filter (\<lambda>r. rid r \<notin> A) rows) = find (\<lambda>r. rid r = i) rows"
  by (induction rows) auto

text \<open>What a merge of one table leaves: the entries of the file, then the readable rows of new ids in order.\<close>

definition merged :: "('r \<Rightarrow> 'e + 'c) \<Rightarrow> ('r \<Rightarrow> string) \<Rightarrow> ('c \<Rightarrow> string) \<Rightarrow> 'r list \<Rightarrow> 'c list \<Rightarrow> 'c list" where
  "merged dec_row rid cid rows cs = cs @ List.map_filter (decoded dec_row) (filter (\<lambda>r. rid r \<notin> cid ` set cs) rows)"

lemma merged_find:
  assumes "distinct (map rid rows)" and "\<And>r c. dec_row r = Inr c \<Longrightarrow> cid c = rid r"
  shows "find (\<lambda>c. cid c = i) (merged dec_row rid cid rows cs) =
     (case find (\<lambda>c. cid c = i) cs of
        Some c \<Rightarrow> Some c
      | None \<Rightarrow> Option.bind (find (\<lambda>r. rid r = i) rows) (decoded dec_row))"
proof -
  have d: "decoded dec_row r = Some c \<Longrightarrow> cid c = rid r" for r c
    using assms(2) by (auto simp: decoded_def split: sum.splits)
  show ?thesis
  proof (cases "find (\<lambda>c. cid c = i) cs")
    case None
    then have "i \<notin> cid ` set cs" by (auto simp: find_None_iff)
    with None show ?thesis
      using find_map_filter [of rid "filter (\<lambda>r. rid r \<notin> cid ` set cs) rows" "decoded dec_row" cid i] d assms(1)
      by (simp add: merged_def find_append find_filter_fresh distinct_map_filter)
  qed (simp add: merged_def find_append)
qed

lemma merged_ids:
  assumes "distinct (map rid rows)" and "\<And>r c. dec_row r = Inr c \<Longrightarrow> cid c = rid r"
  shows "map cid (List.map_filter (decoded dec_row) rows) = map rid (filter (\<lambda>r. decoded dec_row r \<noteq> None) rows)"
  using assms(2) by (induction rows) (auto simp: map_filter_simps decoded_def split: sum.splits)

lemma merged_distinct:
  assumes "distinct (map rid rows)" and "\<And>r c. dec_row r = Inr c \<Longrightarrow> cid c = rid r" and "distinct (map cid cs)"
  shows "distinct (map cid (merged dec_row rid cid rows cs))"
proof -
  have "map cid (List.map_filter (decoded dec_row) (filter (\<lambda>r. rid r \<notin> cid ` set cs) rows)) =
      map rid (filter (\<lambda>r. decoded dec_row r \<noteq> None) (filter (\<lambda>r. rid r \<notin> cid ` set cs) rows))"
    using assms(1,2) by (intro merged_ids) (auto simp: distinct_map_filter)
  then show ?thesis using assms(1,3)
    unfolding merged_def map_append distinct_append by (auto simp: distinct_map_filter) (metis image_eqI)
qed

lemma sorted_merge_rows:
  assumes "table_ok rid t" and "\<And>r c. dec_row r = Inr c \<Longrightarrow> cid c = rid r"
  shows "merge_rows entity rid dec_row cid (sort_key rid (map snd (sort_key fst t))) (cs, [], sh, sk) =
    (let rows = map snd (sort_key fst t); fresh = filter (\<lambda>r. rid r \<notin> cid ` set cs) rows
     in (merged dec_row rid cid rows cs, map rid (filter (\<lambda>r. decoded dec_row r \<noteq> None) fresh),
         sh @ map (\<lambda>r. entity @ '':'' @ rid r) (filter (\<lambda>r. rid r \<in> cid ` set cs) rows),
         sk @ map (\<lambda>r. entity @ '':'' @ rid r) (filter (\<lambda>r. decoded dec_row r = None) fresh)))"
  using table_ok_sorted [OF assms(1)] assms(2)
  by (simp add: sort_key_id_if_sorted merge_rows_spec Let_def merged_def)


definition db_ok :: "config_db \<Rightarrow> bool" where
  "db_ok db \<longleftrightarrow> table_ok rr_id (db_resources db) \<and> table_ok mr_id (db_mcp_servers db) \<and> table_ok kr_id (db_proxy_keys db)"

abbreviation rows_of :: "(string, 'r) hashmap \<Rightarrow> 'r list" where
  "rows_of t \<equiv> map snd (sort_key fst t)"

lemma merged_lookup:
  assumes "table_ok rid t" and "\<And>r c. dec_row r = Inr c \<Longrightarrow> cid c = rid r"
  shows "find (\<lambda>c. cid c = i) (merged dec_row rid cid (rows_of t) cs) =
     (case find (\<lambda>c. cid c = i) cs of Some c \<Rightarrow> Some c | None \<Rightarrow> Option.bind (map_of t i) (decoded dec_row))"
  using merged_find [OF table_ok_sorted(1) [OF assms(1)], of dec_row cid i cs] assms(2)
  by (simp add: table_ok_sorted(3) [OF assms(1)] split: option.split)

definition valid_key :: "proxy_key \<Rightarrow> bool" where
  "valid_key k \<longleftrightarrow> check_key_credentials k = Inr ()"

lemma validate_single: "validate_key_credentials (config\<lparr>gc_proxy_keys := [k]\<rparr>) = Inr () \<longleftrightarrow> valid_key k"
  by (cases "check_key_credentials k") (simp_all add: validate_key_credentials_def valid_key_def)

lemma merged_config:
  assumes "db_ok db" and "merge_db_config c faults db config = Inr (config', report)"
  shows "config' = config\<lparr>
      gc_api_resources := merged (resource_from_record c) rr_id ar_id (rows_of (db_resources db)) (gc_api_resources config),
      gc_mcp_servers := merged (mcp_server_from_record c) mr_id ms_id (rows_of (db_mcp_servers db)) (gc_mcp_servers config),
      gc_proxy_keys := gc_proxy_keys config @ filter valid_key (List.map_filter (decoded (proxy_key_from_record c))
         (filter (\<lambda>r. kr_id r \<notin> pk_id ` set (gc_proxy_keys config)) (rows_of (db_proxy_keys db))))\<rparr>"
proof -
  have t: "table_ok rr_id (db_resources db)" "table_ok mr_id (db_mcp_servers db)" "table_ok kr_id (db_proxy_keys db)"
    using assms(1) by (simp_all add: db_ok_def)
  note rows = sorted_merge_rows [OF t(1) from_record_ids(1) [of c]] sorted_merge_rows [OF t(2) from_record_ids(2) [of c]]
    sorted_merge_rows [OF t(3) from_record_ids(3) [of c]]
  let ?rows = "rows_of (db_proxy_keys db)" and ?yaml = "gc_proxy_keys config"
  let ?fresh = "filter (\<lambda>r. kr_id r \<notin> pk_id ` set ?yaml) ?rows"
  let ?db = "List.map_filter (decoded (proxy_key_from_record c)) ?fresh"
  let ?added = "map kr_id (filter (\<lambda>r. decoded (proxy_key_from_record c) r \<noteq> None) ?fresh)"
  have l: "load_db_entries faults db = Inr (rows_of (db_resources db), rows_of (db_mcp_servers db), ?rows)"
    using assms(2)
    by (auto simp: merge_db_config_def load_db_entries_def list_resources_def list_mcp_servers_def list_proxy_keys_def
        sql_list_def and_then_Inr_iff split: option.splits prod.splits)
  have ids: "map pk_id ?db = ?added"
    using table_ok_sorted(1) [OF t(3)] by (intro merged_ids) (auto simp: distinct_map_filter from_record_ids)
  have "filter (\<lambda>k. pk_id k \<notin> set ?added \<or> valid_key k) ?yaml = ?yaml"
    by (rule filter_True) (auto, metis image_eqI)
  moreover have "filter (\<lambda>k. pk_id k \<notin> set ?added \<or> valid_key k) ?db = filter valid_key ?db"
    unfolding ids [symmetric] by (auto intro!: filter_cong [OF refl])
  ultimately have f: "filter (\<lambda>k. pk_id k \<notin> set ?added \<or> valid_key k) (merged (proxy_key_from_record c) kr_id pk_id ?rows ?yaml) =
      ?yaml @ filter valid_key ?db"
    unfolding merged_def filter_append by simp
  show ?thesis
    using assms(2) f unfolding merge_db_config_def l and_then_simps
    by (simp add: merge_db_into_config_def rows Let_def validate_single split_def)
qed


lemma find_filter_valid:
  "distinct (map f xs) \<Longrightarrow>
   find (\<lambda>x. f x = i) (filter P xs) = Option.bind (find (\<lambda>x. f x = i) xs) (\<lambda>x. if P x then Some x else None)"
proof (induction xs)
  case (Cons x xs)
  have "f x \<notin> f ` set xs" using Cons.prems by simp
  then have "find (\<lambda>y. f y = f x) (filter P xs) = None" by (auto simp: find_None_iff image_iff)
  with Cons show ?case by auto
qed simp

lemma merged_keys:
  assumes "db_ok db" and "merge_db_config c faults db config = Inr (config', report)"
  shows "proxy_key_of config' i =
       (case proxy_key_of config i of
          Some k \<Rightarrow> Some k
        | None \<Rightarrow> Option.bind (Option.bind (map_of (db_proxy_keys db) i) (decoded (proxy_key_from_record c)))
             (\<lambda>k. if check_key_credentials k = Inr () then Some k else None))"
    and "distinct (map pk_id (gc_proxy_keys config)) \<Longrightarrow> distinct (map pk_id (gc_proxy_keys config'))"
proof -
  have t: "table_ok kr_id (db_proxy_keys db)" using assms(1) by (simp add: db_ok_def)
  note c' = merged_config [OF assms]
  let ?rows = "rows_of (db_proxy_keys db)" and ?yaml = "gc_proxy_keys config"
  let ?dec = "proxy_key_from_record c"
  let ?db = "List.map_filter (decoded ?dec) (filter (\<lambda>r. kr_id r \<notin> pk_id ` set ?yaml) ?rows)"
  have m: "merged ?dec kr_id pk_id ?rows ?yaml = ?yaml @ ?db" by (simp add: merged_def)
  have d: "distinct (map pk_id ?db)"
    using table_ok_sorted(1) [OF t]
    by (subst merged_ids [where rid = kr_id]) (auto simp: distinct_map_filter from_record_ids)
  have k: "proxy_key_of config' i = (case proxy_key_of config i of Some k \<Rightarrow> Some k
      | None \<Rightarrow> Option.bind (find (\<lambda>k. pk_id k = i) ?db) (\<lambda>k. if valid_key k then Some k else None))"
    using find_filter_valid [OF d, of i valid_key] by (simp add: proxy_key_of_def c' find_append split: option.split)
  have "find (\<lambda>k. pk_id k = i) ?db = Option.bind (map_of (db_proxy_keys db) i) (decoded ?dec)"
    if "proxy_key_of config i = None"
    using that merged_lookup [OF t, of ?dec pk_id i ?yaml, OF from_record_ids(3)]
    unfolding m by (simp add: find_append proxy_key_of_def)
  with k show "proxy_key_of config' i = (case proxy_key_of config i of Some k \<Rightarrow> Some k
      | None \<Rightarrow> Option.bind (Option.bind (map_of (db_proxy_keys db) i) (decoded ?dec))
           (\<lambda>k. if check_key_credentials k = Inr () then Some k else None))"
    by (simp add: valid_key_def split: option.splits)
  show "distinct (map pk_id (gc_proxy_keys config'))" if "distinct (map pk_id ?yaml)"
    using merged_distinct [OF table_ok_sorted(1) [OF t], of ?dec pk_id ?yaml] that
    unfolding m c' by (auto simp: from_record_ids distinct_map_filter)
qed


section \<open>Runs\<close>

text \<open>
  A codec: the values have countably many forms, so a text of the right length stands for each.
\<close>

instance response_format :: countable
  by countable_datatype

instance oauth_grant :: countable
  by countable_datatype

instance upstream_auth :: countable
  by countable_datatype

instance load_balance_strategy :: countable
  by countable_datatype

instance integrity_policy :: countable
  by countable_datatype

definition coded :: "'a::countable \<Rightarrow> string" where
  "coded x = replicate (to_nat x) CHR ''x''"

definition uncoded :: "string \<Rightarrow> 'a::countable" where
  "uncoded s = from_nat (length s)"

lemma uncoded_coded [simp]: "uncoded (coded x) = x"
  by (simp add: coded_def uncoded_def)

definition limits_tuple :: "upstream_limits \<Rightarrow> u32 option \<times> u32 option \<times> u32 option \<times> u64" where
  "limits_tuple l = (ul_rps l, ul_rpm l, ul_max_concurrent l, ul_queue_timeout_secs l)"

definition limits_untuple :: "u32 option \<times> u32 option \<times> u32 option \<times> u64 \<Rightarrow> upstream_limits" where
  "limits_untuple = (\<lambda>(a, b, c, d). \<lparr>ul_rps = a, ul_rpm = b, ul_max_concurrent = c, ul_queue_timeout_secs = d\<rparr>)"

definition key_limits_tuple :: "key_limits \<Rightarrow> u32 option \<times> u32 option \<times> u64 option \<times> u64 option" where
  "key_limits_tuple l = (kl_rps l, kl_rpm l, kl_max_calls l, kl_max_calls_per_day l)"

definition key_limits_untuple :: "u32 option \<times> u32 option \<times> u64 option \<times> u64 option \<Rightarrow> key_limits" where
  "key_limits_untuple = (\<lambda>(a, b, c, d). \<lparr>kl_rps = a, kl_rpm = b, kl_max_calls = c, kl_max_calls_per_day = d\<rparr>)"

definition pool_tuple :: "key_pool_config \<Rightarrow> load_balance_strategy \<times> (string \<times> u32) list" where
  "pool_tuple p = (kpc_strategy p, map (\<lambda>k. (pkc_secret_ref k, pkc_weight k)) (kpc_keys p))"

definition pool_untuple :: "load_balance_strategy \<times> (string \<times> u32) list \<Rightarrow> key_pool_config" where
  "pool_untuple =
     (\<lambda>(s, ks). \<lparr>kpc_strategy = s, kpc_keys = map (\<lambda>(r, w). \<lparr>pkc_secret_ref = r, pkc_weight = w\<rparr>) ks\<rparr>)"

lemma untuples [simp]:
  "limits_untuple (limits_tuple l) = l" "key_limits_untuple (key_limits_tuple kl) = kl" "pool_untuple (pool_tuple p) = p"
  by (simp_all add: limits_untuple_def limits_tuple_def key_limits_untuple_def key_limits_tuple_def pool_untuple_def
      pool_tuple_def comp_def map_idI)

definition example_codec :: row_codec where
  "example_codec =
     \<lparr>to_resource_json = \<lambda>p. coded (map_option limits_tuple (rj_limits p), rj_auth p, map_option pool_tuple (rj_key_pool p)),
      of_resource_json = \<lambda>s. Inr (case uncoded s of (l, a, k) \<Rightarrow>
        \<lparr>rj_limits = map_option limits_untuple l, rj_auth = a, rj_key_pool = map_option pool_untuple k\<rparr>),
      to_server_json = \<lambda>p. coded (mj_auth p, (sc_integrity_policy (mj_security p), sc_defense_enabled (mj_security p),
        sc_result_budget_bytes (mj_security p)), map_option limits_tuple (mj_limits p), mj_health_check_enabled p),
      of_server_json = \<lambda>s. Inr (case uncoded s of (a, (i, d, b), l, h) \<Rightarrow>
        \<lparr>mj_auth = a, mj_security = \<lparr>sc_integrity_policy = i, sc_defense_enabled = d, sc_result_budget_bytes = b\<rparr>,
         mj_limits = map_option limits_untuple l, mj_health_check_enabled = h\<rparr>),
      to_scope_json = \<lambda>p. coded (sj_allowed_tools p, sj_denied_tools p, sj_allowed_servers p, sj_allowed_tool_names p,
        map_option key_limits_tuple (sj_limits p), sj_token_ref p, sj_token_digest p, sj_expires_at p,
        sj_discovery_mode p, sj_response_format p),
      of_scope_json = \<lambda>s. Inr (case uncoded s of (a, d, sv, n, l, r, g, e, m, f) \<Rightarrow>
        \<lparr>sj_allowed_tools = a, sj_denied_tools = d, sj_allowed_servers = sv, sj_allowed_tool_names = n,
         sj_limits = map_option key_limits_untuple l, sj_token_ref = r, sj_token_digest = g, sj_expires_at = e,
         sj_discovery_mode = m, sj_response_format = f\<rparr>)\<rparr>"

lemma example_codec_inverse: "codec_inverse example_codec"
  by (simp add: codec_inverse_def example_codec_def option.map_comp comp_def option.map_ident)

text \<open>A file with the key \<open>dev\<close>, and a store with an older \<open>dev\<close>, a good \<open>ops\<close> and a broken \<open>bad\<close>.\<close>

definition example_db :: config_db where
  "example_db =
     \<lparr>db_resources = [], db_mcp_servers = [],
      db_proxy_keys = map (\<lambda>k. (pk_id k, to_db_proxy_key example_codec k))
        [(plain_key ''dev'')\<lparr>pk_allowed_servers := [''x'']\<rparr>, plain_key ''ops'',
         (plain_key ''bad'')\<lparr>pk_token_digest := Some ''short''\<rparr>],
      db_upstream_keys = [], db_tool_metadata = [], db_tool_defaults = [], db_security_events = []\<rparr>"

definition example_file :: gateway_config where
  "example_file = example_auth_config\<lparr>gc_proxy_keys := [plain_key ''dev'']\<rparr>"

lemma example_db_ok: "db_ok example_db"
  by (simp add: db_ok_def example_db_def table_ok_def hm_wf_def plain_key_def to_db_proxy_key_def)


end
