(* ===== verification/PostLoad.thy ===== *)
theory PostLoad
  imports GatewayAuth Egress
begin

text \<open>
  What happens to a configuration after it was read (\<open>src/config/post_load.rs\<close>,
  \<open>src/config/oauth.rs\<close>, \<open>src/presets.rs\<close>): the OAuth checks and the expansion of the built-in
  presets; the credential checks of the gateway keys are in \<open>GatewayAuth\<close>. The URL parser
  (\<open>reqwest::Url\<close>) is a parameter, as in \<open>Egress\<close>, here with the query and the fragment.
\<close>

section \<open>Built-in presets (presets.rs)\<close>

datatype preset_auth = PresetNone | PresetBearer | PresetHeader string

record mcp_preset =
  mp_id :: string
  mp_domain :: string
  mp_provider :: string
  mp_url :: string
  mp_description :: string
  mp_auth :: preset_auth
  mp_apply_url :: "string option"

definition requires_key :: "mcp_preset \<Rightarrow> bool" where
  "requires_key p = (mp_auth p \<noteq> PresetNone)"

definition builtin_presets :: "mcp_preset list" where
  "builtin_presets =
     [\<lparr>mp_id = ''exa'', mp_domain = ''search'', mp_provider = ''exa'', mp_url = ''https://mcp.exa.ai/mcp'',
       mp_description = ''Exa hosted MCP server (web search).'', mp_auth = PresetNone, mp_apply_url = None\<rparr>,
      \<lparr>mp_id = ''deepwiki'', mp_domain = ''docs'', mp_provider = ''deepwiki'', mp_url = ''https://mcp.deepwiki.com/mcp'',
       mp_description = ''DeepWiki hosted MCP server (GitHub repository docs).'', mp_auth = PresetNone,
       mp_apply_url = None\<rparr>,
      \<lparr>mp_id = ''context7'', mp_domain = ''docs'', mp_provider = ''context7'', mp_url = ''https://mcp.context7.com/mcp'',
       mp_description = ''Context7 hosted MCP server (library documentation).'', mp_auth = PresetNone,
       mp_apply_url = None\<rparr>,
      \<lparr>mp_id = ''rollinggo-hotel'', mp_domain = ''hotel'', mp_provider = ''rollinggo'',
       mp_url = ''https://mcp.rollinggo.cn/mcp'',
       mp_description = ''RollingGo hosted MCP server (hotel booking, Bearer key).'', mp_auth = PresetBearer,
       mp_apply_url = Some ''https://rollinggo.store/apply''\<rparr>,
      \<lparr>mp_id = ''rollinggo-flight'', mp_domain = ''flight'', mp_provider = ''rollinggo'',
       mp_url = ''https://mcp.rollinggo.cn/mcp/flight'',
       mp_description = ''RollingGo hosted MCP server (flight booking, Bearer key).'', mp_auth = PresetBearer,
       mp_apply_url = Some ''https://rollinggo.store/apply''\<rparr>]"

definition quoted :: "string \<Rightarrow> string" where
  "quoted s = [CHR 0x27] @ s @ [CHR 0x27]"

definition preset_server :: "mcp_preset \<Rightarrow> mcp_server_config" where
  "preset_server p =
     \<lparr>ms_id = mp_id p, ms_domain = mp_domain p, ms_provider = mp_provider p, ms_url = mp_url p,
      ms_description = mp_description p, ms_auth = AuthNone, ms_security = default_security_config,
      ms_health_check_enabled = True, ms_limits = None\<rparr>"

text \<open>The message has one ellipsis character, given by its bytes.\<close>

definition preset_of :: "string \<Rightarrow> asterlane_error + mcp_preset" where
  "preset_of i =
     (case find (\<lambda>p. mp_id p = i) builtin_presets of
        None \<Rightarrow>
          Inl (internal ConfigUnknownResource
            (''unknown builtin_mcp preset: '' @ i @ '' (available: '' @
             join_with '', '' (map mp_id builtin_presets) @ '')''))
      | Some p \<Rightarrow>
          if requires_key p
          then Inl (internal ConfigInvalidYaml
            (''builtin_mcp preset '' @ quoted i @ '' requires a key: configure it under mcp_servers with `auth: bearer` '' @
             ''and a `secret://'' @ map char_of [226, 128, 166 :: nat] @ ''` ref instead of listing it in builtin_mcp''))
          else Inr p)"

fun expand_presets :: "string list \<Rightarrow> mcp_server_config list \<Rightarrow> asterlane_error + mcp_server_config list" where
  "expand_presets [] servers = Inr servers"
| "expand_presets (i # is) servers =
     and_then (preset_of i) (\<lambda>p.
       expand_presets is
         (if list_ex (\<lambda>s. ms_id s = mp_id p) servers then servers else servers @ [preset_server p]))"

definition expand_builtin_mcp :: "gateway_config \<Rightarrow> asterlane_error + gateway_config" where
  "expand_builtin_mcp config =
     and_then (expand_presets (gc_builtin_mcp config) (gc_mcp_servers config)) (\<lambda>servers.
       Inr (config\<lparr>gc_mcp_servers := servers\<rparr>))"

section \<open>OAuth settings (oauth.rs)\<close>

record full_url = parsed_url +
  fu_query :: "string option"
  fu_fragment :: "string option"

type_synonym full_url_parser = "string \<Rightarrow> full_url option"

definition SECRET_REF_PREFIX :: string where
  "SECRET_REF_PREFIX = ''secret://''"

definition ensure_secret_ref :: "string \<Rightarrow> string \<Rightarrow> string + unit" where
  "ensure_secret_ref v field =
     (if starts_with v SECRET_REF_PREFIX \<and> length SECRET_REF_PREFIX < length v then Inr ()
      else Inl (field @ '' must be a secret:// reference''))"

definition parse_http_url :: "full_url_parser \<Rightarrow> string \<Rightarrow> string \<Rightarrow> string + full_url" where
  "parse_http_url parse v field =
     and_then (ok_or (field @ '' must be a valid URL'') (parse v)) (\<lambda>url.
       if pu_scheme url \<notin> {''http'', ''https''} \<or> pu_host_str url = None
       then Inl (field @ '' must be an http(s) URL'') else Inr url)"

definition ensure_https_or_loopback :: "full_url \<Rightarrow> string \<Rightarrow> string + unit" where
  "ensure_https_or_loopback url field =
     (if pu_scheme url = ''https'' \<or> pu_host_str url \<in> Some ` {''localhost'', ''127.0.0.1'', ''[::1]''} then Inr ()
      else Inl (field @ '' must use https (http only for localhost)''))"

definition oauth_config_validate :: "full_url_parser \<Rightarrow> oauth_config \<Rightarrow> string + unit" where
  "oauth_config_validate parse o_cfg =
     and_then
       (case oa_redirect_base_url o_cfg of
          None \<Rightarrow> Inr ()
        | Some base \<Rightarrow>
            and_then (parse_http_url parse base ''oauth.redirect_base_url'') (\<lambda>url.
            and_then (ensure_https_or_loopback url ''oauth.redirect_base_url'') (\<lambda>_.
              if fu_query url \<noteq> None \<or> fu_fragment url \<noteq> None
              then Inl ''oauth.redirect_base_url must not contain a query or fragment'' else Inr ())))
       (\<lambda>_. case oa_token_encryption_key_ref o_cfg of
              None \<Rightarrow> Inr ()
            | Some r \<Rightarrow> ensure_secret_ref r ''oauth.token_encryption_key_ref'')"

text \<open>\<open>any(char::is_whitespace)\<close> on the UTF-8 bytes.\<close>

definition has_whitespace :: "string \<Rightarrow> bool" where
  "has_whitespace s = list_ex (contains_str s) white_space"

definition check_grant ::
  "oauth_grant \<Rightarrow> string option \<Rightarrow> string option \<Rightarrow> oauth_config option \<Rightarrow> string + unit" where
  "check_grant grant client_id client_secret_ref oauth =
     (case grant of
        ClientCredentials \<Rightarrow>
          if client_id = None then Inl ''auth.client_id is required for client_credentials''
          else if client_secret_ref = None then Inl ''auth.client_secret_ref is required for client_credentials''
          else Inr ()
      | AuthorizationCode \<Rightarrow>
          if client_secret_ref \<noteq> None \<and> client_id = None then Inl ''auth.client_secret_ref requires auth.client_id''
          else if Option.bind oauth oa_redirect_base_url = None \<or> Option.bind oauth oa_token_encryption_key_ref = None
          then Inl ''authorization_code requires oauth.redirect_base_url and oauth.token_encryption_key_ref''
          else Inr ())"

definition validate_mcp_oauth ::
  "full_url_parser \<Rightarrow> upstream_auth \<Rightarrow> string \<Rightarrow> oauth_config option \<Rightarrow> string + unit" where
  "validate_mcp_oauth parse auth server_url oauth =
     (case auth of
        AuthOAuth grant client_id client_secret_ref scopes \<Rightarrow>
          and_then (parse_http_url parse server_url ''url'') (\<lambda>url.
          and_then (ensure_https_or_loopback url ''url (required for oauth auth)'') (\<lambda>_.
            if (case client_id of Some i \<Rightarrow> trim i = [] | None \<Rightarrow> False) then Inl ''auth.client_id must not be empty''
            else
              and_then (case client_secret_ref of
                          Some r \<Rightarrow> ensure_secret_ref r ''auth.client_secret_ref'' | None \<Rightarrow> Inr ()) (\<lambda>_.
                if list_ex (\<lambda>s. s = [] \<or> has_whitespace s) scopes
                then Inl ''auth.scopes entries must be non-empty and contain no whitespace''
                else check_grant grant client_id client_secret_ref oauth)))
      | _ \<Rightarrow> Inr ())"

section \<open>The checks of a loaded configuration (post_load.rs)\<close>

definition validate_http :: "nat \<Rightarrow> asterlane_error + unit" where
  "validate_http max_body_bytes =
     (if max_body_bytes = 0 then Inl (internal ConfigInvalidYaml ''http.max_body_bytes must be greater than 0'')
      else Inr ())"

definition is_oauth :: "upstream_auth \<Rightarrow> bool" where
  "is_oauth a = (case a of AuthOAuth _ _ _ _ \<Rightarrow> True | _ \<Rightarrow> False)"

definition validate_oauth :: "full_url_parser \<Rightarrow> gateway_config \<Rightarrow> asterlane_error + unit" where
  "validate_oauth parse config =
     (case find (\<lambda>r. is_oauth (ar_auth r)) (gc_api_resources config) of
        Some r \<Rightarrow>
          Inl (internal ConfigInvalidYaml
            (''api_resources['' @ ar_id r @ '']: auth type oauth is only supported for mcp_servers''))
      | None \<Rightarrow>
          and_then (case gc_oauth config of
                      Some c \<Rightarrow> map_err (internal ConfigInvalidYaml) (oauth_config_validate parse c)
                    | None \<Rightarrow> Inr ()) (\<lambda>_.
          and_then (try_map (\<lambda>s. map_err (\<lambda>m. internal ConfigInvalidYaml (''mcp_servers['' @ ms_id s @ '']: '' @ m))
              (validate_mcp_oauth parse (ms_auth s) (ms_url s) (gc_oauth config))) (gc_mcp_servers config)) (\<lambda>_.
            Inr ())))"

section \<open>Presets\<close>

lemma builtin_presets_ok:
  "distinct (map mp_id builtin_presets)" "list_all (\<lambda>p. mp_apply_url p = None \<longleftrightarrow> \<not> requires_key p) builtin_presets"
  by (simp_all add: builtin_presets_def requires_key_def)

lemma preset_of_Inr: "preset_of i = Inr p \<longleftrightarrow> p \<in> set builtin_presets \<and> mp_id p = i \<and> \<not> requires_key p"
proof -
  have "find (\<lambda>q. mp_id q = i) builtin_presets = Some p \<longleftrightarrow> p \<in> set builtin_presets \<and> mp_id p = i"
    using find_distinct [OF builtin_presets_ok(1), of p] by (auto simp: find_Some_iff)
  then show ?thesis by (auto simp: preset_of_def split: option.splits)
qed

text \<open>
  The expansion adds each listed preset that no server has the id of, and nothing else; explicit servers stay
  as they are, and distinct ids stay distinct.
\<close>

lemma expand_presets_spec:
  assumes "expand_presets is servers = Inr servers'" and "distinct (map ms_id servers)"
  shows "\<exists>added. servers' = servers @ added \<and> distinct (map ms_id servers') \<and>
     set (map ms_id servers') = set (map ms_id servers) \<union> set is \<and>
     (\<forall>s \<in> set added. \<exists>p \<in> set builtin_presets. s = preset_server p \<and> \<not> requires_key p \<and> ms_id s \<in> set is)"
  using assms
proof (induction "is" arbitrary: servers)
  case (Cons i "is")
  from Cons.prems(1) obtain p where p: "preset_of i = Inr p"
    and r: "expand_presets is (if list_ex (\<lambda>s. ms_id s = mp_id p) servers then servers else servers @ [preset_server p]) =
      Inr servers'"
    by (auto simp: and_then_Inr_iff)
  have i: "mp_id p = i" "p \<in> set builtin_presets" "\<not> requires_key p" using p by (auto simp: preset_of_Inr)
  have m: "ms_id (preset_server p) = i" by (simp add: preset_server_def i)
  show ?case
  proof (cases "list_ex (\<lambda>s. ms_id s = i) servers")
    case True
    then have "i \<in> set (map ms_id servers)" by (auto simp: list_ex_iff)
    then have m: "set (map ms_id servers) \<union> set (i # is) = set (map ms_id servers) \<union> set is" by auto
    have r': "expand_presets is servers = Inr servers'" using r True i by simp
    show ?thesis unfolding m using Cons.IH [OF r' Cons.prems(2)] by (metis list.set_intros(2))
  next
    case False
    then have n: "i \<notin> set (map ms_id servers)" by (auto simp: list_ex_iff)
    with False r i have r': "expand_presets is (servers @ [preset_server p]) = Inr servers'" by simp
    have "distinct (map ms_id (servers @ [preset_server p]))" using Cons.prems(2) n m by simp
    from Cons.IH [OF r' this] obtain added where a:
      "servers' = (servers @ [preset_server p]) @ added" "distinct (map ms_id servers')"
      "set (map ms_id servers') = set (map ms_id (servers @ [preset_server p])) \<union> set is"
      "\<forall>s \<in> set added. \<exists>q \<in> set builtin_presets. s = preset_server q \<and> \<not> requires_key q \<and> ms_id s \<in> set is" by blast
    have "servers' = servers @ preset_server p # added" using a(1) by simp
    moreover have "set (map ms_id servers') = set (map ms_id servers) \<union> set (i # is)" using a(3) m by auto
    moreover have "\<forall>s \<in> set (preset_server p # added).
        \<exists>q \<in> set builtin_presets. s = preset_server q \<and> \<not> requires_key q \<and> ms_id s \<in> set (i # is)"
      using a(4) i m by auto
    ultimately show ?thesis using a(2) by blast
  qed
qed simp

text \<open>
  An accepted OAuth server is reached over https or on the local host, and its secrets are references.
\<close>

lemma validate_mcp_oauth_Inr:
  assumes "validate_mcp_oauth parse (AuthOAuth grant client_id secret scopes) url oauth = Inr ()"
  shows "\<exists>u. parse url = Some u \<and> pu_scheme u \<in> {''http'', ''https''} \<and>
     (pu_scheme u = ''https'' \<or> pu_host_str u \<in> Some ` {''localhost'', ''127.0.0.1'', ''[::1]''}) \<and>
     (\<forall>r. secret = Some r \<longrightarrow> starts_with r SECRET_REF_PREFIX \<and> client_id \<noteq> None) \<and>
     (grant = ClientCredentials \<longrightarrow> client_id \<noteq> None \<and> secret \<noteq> None) \<and>
     (grant = AuthorizationCode \<longrightarrow>
        (\<exists>c. oauth = Some c \<and> oa_redirect_base_url c \<noteq> None \<and> oa_token_encryption_key_ref c \<noteq> None))"
  using assms
  by (cases grant; cases oauth)
    (auto simp: validate_mcp_oauth_def and_then_Inr_iff parse_http_url_def ensure_https_or_loopback_def
      ensure_secret_ref_def check_grant_def split: if_splits option.splits)

lemma validate_oauth_Inr:
  assumes "validate_oauth parse config = Inr ()"
  shows "\<forall>r \<in> set (gc_api_resources config). \<not> is_oauth (ar_auth r)"
    and "\<forall>s \<in> set (gc_mcp_servers config). validate_mcp_oauth parse (ms_auth s) (ms_url s) (gc_oauth config) = Inr ()"
proof -
  have f: "find (\<lambda>r. is_oauth (ar_auth r)) (gc_api_resources config) = None"
    using assms by (auto simp: validate_oauth_def split: option.splits)
  then show "\<forall>r \<in> set (gc_api_resources config). \<not> is_oauth (ar_auth r)" by (auto simp: find_None_iff)
  obtain us where "list_all2 (\<lambda>s u. validate_mcp_oauth parse (ms_auth s) (ms_url s) (gc_oauth config) = Inr u)
      (gc_mcp_servers config) us"
    using assms f by (auto simp: validate_oauth_def and_then_Inr_iff try_map_Inr_iff)
  then show "\<forall>s \<in> set (gc_mcp_servers config).
      validate_mcp_oauth parse (ms_auth s) (ms_url s) (gc_oauth config) = Inr ()"
    by (auto simp: list_all2_conv_all_nth in_set_conv_nth)
qed

end
