(* ===== verification/UpstreamOAuth.thy ===== *)
theory UpstreamOAuth
  imports ConfigStore PostLoad Egress Expiring Machine Naming
begin

text \<open>
  OAuth towards the MCP upstreams: sealed credentials (\<open>src/secrets/seal.rs\<close>, \<open>store/oauth_credentials.rs\<close>,
  \<open>mcp/oauth/credential_store.rs\<close>), authorizations that wait for the browser (\<open>pending.rs\<close>), the
  authorization-code flow (\<open>authorize.rs\<close>, \<open>authorization_code.rs\<close>) and the service object (\<open>mcp/oauth/mod.rs\<close>).

  The OAuth protocol itself is the library rmcp's: what its managers and sessions answer are fields of
  \<open>oauth_env\<close>. The memory credential store of rmcp is a shared cell, so the cells have addresses: a
  session keeps the address it was created with, whatever happens to the table of the servers.
\<close>

section \<open>Sealing (seal.rs)\<close>

type_synonym bytes = "u8 list"

text \<open>ChaCha20-Poly1305 of ring (key, nonce, associated data, text) and base64.\<close>

record aead =
  cr_seal :: "bytes \<Rightarrow> bytes \<Rightarrow> bytes \<Rightarrow> bytes \<Rightarrow> bytes option"
  cr_open :: "bytes \<Rightarrow> bytes \<Rightarrow> bytes \<Rightarrow> bytes \<Rightarrow> bytes option"
  cr_key_ok :: "bytes \<Rightarrow> bool"
  cr_encode :: "bytes \<Rightarrow> string"
  cr_decode :: "string \<Rightarrow> bytes option"

datatype seal_error = SealInvalidKey | SealEncrypt | SealDecrypt

definition seal_error_msg :: "seal_error \<Rightarrow> string" where
  "seal_error_msg e =
     (case e of
        SealInvalidKey \<Rightarrow> ''token encryption key must be base64 encoded 32 bytes''
      | SealEncrypt \<Rightarrow> ''failed to encrypt credentials''
      | SealDecrypt \<Rightarrow> ''failed to decrypt credentials'')"

definition KEY_LEN :: nat where "KEY_LEN = 32"

definition TAG_LEN :: nat where "TAG_LEN = 16"

definition NONCE_LEN :: nat where "NONCE_LEN = 12"

definition bytes_of :: "string \<Rightarrow> bytes" where
  "bytes_of s = map (\<lambda>c. word_of_nat (of_char c)) s"

definition from_base64 :: "aead \<Rightarrow> string \<Rightarrow> seal_error + bytes" where
  "from_base64 cr encoded =
     and_then (ok_or SealInvalidKey (cr_decode cr (trim encoded))) (\<lambda>bs.
       if length bs \<noteq> KEY_LEN then Inl SealInvalidKey
       else if \<not> cr_key_ok cr bs then Inl SealInvalidKey else Inr bs)"

text \<open>The random bytes are an argument; \<^const>\<open>None\<close> when the system has none.\<close>

definition encrypt :: "aead \<Rightarrow> bytes \<Rightarrow> bytes option \<Rightarrow> string \<Rightarrow> bytes \<Rightarrow> seal_error + string" where
  "encrypt cr key random aad plaintext =
     and_then (ok_or SealEncrypt random) (\<lambda>nonce.
     and_then (ok_or SealEncrypt (cr_seal cr key nonce (bytes_of aad) plaintext)) (\<lambda>in_out.
       Inr (cr_encode cr (nonce @ in_out))))"

definition decrypt :: "aead \<Rightarrow> bytes \<Rightarrow> string \<Rightarrow> string \<Rightarrow> seal_error + bytes" where
  "decrypt cr key aad sealed =
     and_then (ok_or SealDecrypt (cr_decode cr (trim sealed))) (\<lambda>raw.
       if length raw < NONCE_LEN + TAG_LEN then Inl SealDecrypt
       else ok_or SealDecrypt (cr_open cr key (take NONCE_LEN raw) (bytes_of aad) (drop NONCE_LEN raw)))"

section \<open>Authorizations in progress (pending.rs)\<close>

datatype take_error = TakeUnknown | TakeExpired

record 't pending_entry =
  pe_server_id :: string
  pe_value :: 't
  pe_expires_at :: instant

record 't pending_store =
  pd_ttl :: duration
  pd_entries :: "(string, 't pending_entry) hashmap"

definition pending_new :: "duration \<Rightarrow> 't pending_store" where
  "pending_new ttl = \<lparr>pd_ttl = ttl, pd_entries = []\<rparr>"

text \<open>\<open>Instant::checked_add\<close>: the seconds of an \<open>Instant\<close> are an \<open>i64\<close>.\<close>

definition INSTANT_MAX :: instant where
  "INSTANT_MAX = (2 ^ 63 - 1) * 10 ^ 9 + 999999999"

definition instant_checked_add :: "instant \<Rightarrow> duration \<Rightarrow> instant option" where
  "instant_checked_add t d = (if t + d \<le> INSTANT_MAX then Some (t + d) else None)"

definition retain_live :: "instant \<Rightarrow> (string, 't pending_entry) hashmap \<Rightarrow> (string, 't pending_entry) hashmap" where
  "retain_live now = hm_retain (\<lambda>_ e. now < pe_expires_at e)"

definition pending_insert :: "string \<Rightarrow> string \<Rightarrow> 't \<Rightarrow> instant \<Rightarrow> 't pending_store \<Rightarrow> 't pending_store" where
  "pending_insert state server_id v now s =
     s\<lparr>pd_entries := AList.update state
       \<lparr>pe_server_id = server_id, pe_value = v,
        pe_expires_at = (case instant_checked_add now (pd_ttl s) of Some t \<Rightarrow> t | None \<Rightarrow> now)\<rparr>
       (retain_live now (pd_entries s))\<rparr>"

definition pending_take :: "string \<Rightarrow> instant \<Rightarrow> 't pending_store \<Rightarrow> (take_error + string \<times> 't) \<times> 't pending_store" where
  "pending_take state now s =
     (let found = map_of (pd_entries s) state;
          s1 = s\<lparr>pd_entries := retain_live now (AList.delete state (pd_entries s))\<rparr>
      in (case found of
            None \<Rightarrow> (Inl TakeUnknown, s1)
          | Some e \<Rightarrow>
              if pe_expires_at e \<le> now then (Inl TakeExpired, s1)
              else (Inr (pe_server_id e, pe_value e), s1)))"

definition discard_server :: "string \<Rightarrow> 't pending_store \<Rightarrow> 't pending_store" where
  "discard_server server_id s = s\<lparr>pd_entries := hm_retain (\<lambda>_ e. pe_server_id e \<noteq> server_id) (pd_entries s)\<rparr>"

section \<open>The service object and its stores (mod.rs, credential_store.rs, oauth_credentials.rs)\<close>

text \<open>The parts of rmcp's \<open>StoredCredentials\<close> the gateway reads.\<close>

record token_response =
  tk_access_token :: string
  tk_expires_in :: "duration option"

record stored_credentials =
  cd_client_id :: string
  cd_token_response :: "token_response option"
  cd_token_received_at :: "u64 option"

datatype credential_handle = Memory nat | Sealed string

record auth_session =
  as_handle :: credential_handle
  as_rmcp :: nat

record upstream_oauth =
  uo_key :: "bytes option"
  uo_rows :: "(string, string) hashmap option"
  uo_memory :: "string \<rightharpoonup> nat"
  uo_cells :: "nat \<Rightarrow> stored_credentials option"
  uo_next :: nat
  uo_redirect_base_url :: "string option"
  uo_block_private :: bool
  uo_pending :: "auth_session pending_store"

definition AUTHORIZATION_TTL :: duration where
  "AUTHORIZATION_TTL = 10 * 60 * 10 ^ 9"

definition upstream_oauth_new ::
  "bytes option \<Rightarrow> (string, string) hashmap option \<Rightarrow> string option \<Rightarrow> bool \<Rightarrow> upstream_oauth" where
  "upstream_oauth_new key rows redirect_base_url block_private =
     \<lparr>uo_key = key, uo_rows = rows, uo_memory = Map.empty, uo_cells = (\<lambda>_. None), uo_next = 0,
      uo_redirect_base_url = redirect_base_url, uo_block_private = block_private,
      uo_pending = pending_new AUTHORIZATION_TTL\<rparr>"

text \<open>What rmcp asks of the credential store while it works: the calls it makes, in order.\<close>

datatype store_call = CallSave stored_credentials | CallClear

record oauth_metadata =
  om_authorization_endpoint :: string
  om_token_endpoint :: string
  om_registration_endpoint :: "string option"

record auth_request =
  aq_redirect_uri :: string
  aq_scopes :: "string list"
  aq_client_name :: string
  aq_application_type :: string
  aq_client :: "(string \<times> string option) option"

datatype init_outcome = InitLoaded | InitNone | InitAuthRequired | InitFailed

record oauth_env =
  ov_crypto :: aead
  ov_random :: "bytes option"
  ov_to_json :: "stored_credentials \<Rightarrow> bytes option"
  ov_of_json :: "bytes \<Rightarrow> stored_credentials option"
  ov_fault :: "string \<Rightarrow> store_error option"
  ov_url :: url_parser
  ov_query_pairs :: "string \<Rightarrow> (string \<times> string) list option"
  ov_now :: instant
  ov_manager :: "string \<Rightarrow> bool"
  ov_metadata :: "string \<Rightarrow> (oauth_metadata \<times> bool) option"
  ov_session :: "auth_request \<Rightarrow> (string \<times> nat) option"
  ov_exchange :: "nat \<Rightarrow> string \<Rightarrow> string \<Rightarrow> string option \<Rightarrow> stored_credentials option"
  ov_initialize :: "stored_credentials \<Rightarrow> init_outcome \<times> store_call list"
  ov_client_secret :: "string \<Rightarrow> bool"
  ov_access_token :: "init_outcome \<times> store_call list"
  ov_datetime_ok :: "int \<Rightarrow> bool"

subsection \<open>The table of sealed credentials\<close>

definition get_sealed_credentials :: "store_error option \<Rightarrow> string \<Rightarrow> (string, string) hashmap \<Rightarrow> store_error + string option" where
  "get_sealed_credentials fault server_id rows = sql_get fault server_id rows"

definition put_sealed_credentials ::
  "store_error option \<Rightarrow> string \<Rightarrow> string \<Rightarrow> (string, string) hashmap \<Rightarrow> (unit, (string, string) hashmap) stmt" where
  "put_sealed_credentials fault server_id sealed rows = sql_upsert fault server_id sealed rows"

definition delete_sealed_credentials ::
  "store_error option \<Rightarrow> string \<Rightarrow> (string, string) hashmap \<Rightarrow> (bool, (string, string) hashmap) stmt" where
  "delete_sealed_credentials fault server_id rows = sql_delete fault server_id rows"

datatype load_failure = Unreadable | Backend

definition load_checked ::
  "oauth_env \<Rightarrow> bytes \<Rightarrow> string \<Rightarrow> (string, string) hashmap \<Rightarrow> load_failure + stored_credentials option" where
  "load_checked env key server_id rows =
     and_then (map_err (\<lambda>_. Backend) (get_sealed_credentials (ov_fault env ''get_sealed'') server_id rows)) (\<lambda>found.
       case found of
         None \<Rightarrow> Inr None
       | Some sealed \<Rightarrow>
           and_then (map_err (\<lambda>_. Unreadable) (decrypt (ov_crypto env) key server_id sealed)) (\<lambda>plain.
             map_err (\<lambda>_. Unreadable) (ok_or () (map_option Some (ov_of_json env plain)))))"

definition sealed_save ::
  "oauth_env \<Rightarrow> bytes \<Rightarrow> string \<Rightarrow> stored_credentials \<Rightarrow> (string, string) hashmap \<Rightarrow> bool \<times> (string, string) hashmap" where
  "sealed_save env key server_id c rows =
     (case ov_to_json env c of
        None \<Rightarrow> (False, rows)
      | Some plain \<Rightarrow>
          (case encrypt (ov_crypto env) key (ov_random env) server_id plain of
             Inl _ \<Rightarrow> (False, rows)
           | Inr sealed \<Rightarrow>
               (let (r, rows') = put_sealed_credentials (ov_fault env ''put_sealed'') server_id sealed rows
                in (r = Inr (), rows'))))"

definition sealed_clear :: "oauth_env \<Rightarrow> string \<Rightarrow> (string, string) hashmap \<Rightarrow> bool \<times> (string, string) hashmap" where
  "sealed_clear env server_id rows =
     (let (r, rows') = delete_sealed_credentials (ov_fault env ''delete_sealed'') server_id rows
      in (case r of Inl _ \<Rightarrow> False | Inr _ \<Rightarrow> True, rows'))"

subsection \<open>The credential store of one server\<close>

definition credential_store :: "string \<Rightarrow> upstream_oauth \<Rightarrow> (mcp_error + credential_handle) \<times> upstream_oauth" where
  "credential_store server_id uo =
     (case (uo_rows uo, uo_key uo) of
        (Some _, Some _) \<Rightarrow> (Inr (Sealed server_id), uo)
      | (Some _, None) \<Rightarrow>
          (Inl (McpUpstreamFailure ''OAuth credential storage requires oauth.token_encryption_key_ref''), uo)
      | (None, _) \<Rightarrow>
          (case uo_memory uo server_id of
             Some a \<Rightarrow> (Inr (Memory a), uo)
           | None \<Rightarrow>
               (Inr (Memory (uo_next uo)),
                uo\<lparr>uo_memory := (uo_memory uo)(server_id \<mapsto> uo_next uo),
                   uo_cells := (uo_cells uo)(uo_next uo := None), uo_next := Suc (uo_next uo)\<rparr>)))"

text \<open>The calls of rmcp on the store of a handle. A sealed handle is only made when there are rows and a key.\<close>

definition handle_load :: "oauth_env \<Rightarrow> credential_handle \<Rightarrow> upstream_oauth \<Rightarrow> load_failure + stored_credentials option" where
  "handle_load env h uo =
     (case h of
        Memory a \<Rightarrow> Inr (uo_cells uo a)
      | Sealed server_id \<Rightarrow>
          (case (uo_rows uo, uo_key uo) of
             (Some rows, Some key) \<Rightarrow> load_checked env key server_id rows
           | _ \<Rightarrow> Inl Backend))"

definition handle_save ::
  "oauth_env \<Rightarrow> credential_handle \<Rightarrow> stored_credentials \<Rightarrow> upstream_oauth \<Rightarrow> bool \<times> upstream_oauth" where
  "handle_save env h c uo =
     (case h of
        Memory a \<Rightarrow> (True, uo\<lparr>uo_cells := (uo_cells uo)(a := Some c)\<rparr>)
      | Sealed server_id \<Rightarrow>
          (case (uo_rows uo, uo_key uo) of
             (Some rows, Some key) \<Rightarrow>
               (let (r, rows') = sealed_save env key server_id c rows in (r, uo\<lparr>uo_rows := Some rows'\<rparr>))
           | _ \<Rightarrow> (False, uo)))"

definition handle_clear :: "oauth_env \<Rightarrow> credential_handle \<Rightarrow> upstream_oauth \<Rightarrow> bool \<times> upstream_oauth" where
  "handle_clear env h uo =
     (case h of
        Memory a \<Rightarrow> (True, uo\<lparr>uo_cells := (uo_cells uo)(a := None)\<rparr>)
      | Sealed server_id \<Rightarrow>
          (case uo_rows uo of
             Some rows \<Rightarrow> (let (r, rows') = sealed_clear env server_id rows in (r, uo\<lparr>uo_rows := Some rows'\<rparr>))
           | None \<Rightarrow> (False, uo)))"

fun store_calls :: "oauth_env \<Rightarrow> credential_handle \<Rightarrow> store_call list \<Rightarrow> upstream_oauth \<Rightarrow> upstream_oauth" where
  "store_calls env h [] uo = uo"
| "store_calls env h (CallSave c # cs) uo = store_calls env h cs (snd (handle_save env h c uo))"
| "store_calls env h (CallClear # cs) uo = store_calls env h cs (snd (handle_clear env h uo))"

definition clear_credentials :: "oauth_env \<Rightarrow> string \<Rightarrow> upstream_oauth \<Rightarrow> (mcp_error + unit) \<times> upstream_oauth" where
  "clear_credentials env server_id uo =
     (let uo1 = uo\<lparr>uo_pending := discard_server server_id (uo_pending uo), uo_memory := (uo_memory uo)(server_id := None)\<rparr>
      in case uo_rows uo1 of
           None \<Rightarrow> (Inr (), uo1)
         | Some rows \<Rightarrow>
             (let (r, rows') = delete_sealed_credentials (ov_fault env ''delete_sealed'') server_id rows;
                  uo2 = uo1\<lparr>uo_rows := Some rows'\<rparr>
              in (case r of
                    Inl _ \<Rightarrow> (Inl (McpUpstreamFailure ''failed to clear OAuth credentials''), uo2)
                  | Inr _ \<Rightarrow> (Inr (), uo2))))"

subsection \<open>Assembly (mod.rs)\<close>

text \<open>\<open>client_error\<close> is what building the HTTP clients failed with.\<close>

definition upstream_oauth_from_config ::
  "aead \<Rightarrow> string option \<Rightarrow> secret_resolver \<Rightarrow> oauth_config option \<Rightarrow> (string, string) hashmap option \<Rightarrow> bool \<Rightarrow>
   asterlane_error + upstream_oauth" where
  "upstream_oauth_from_config cr client_error resolve oauth rows block_private =
     and_then
       (case Option.bind oauth oa_token_encryption_key_ref of
          Some r \<Rightarrow>
            and_then (map_err from_secret_error (secret_ref_from_str r)) (\<lambda>sr.
            and_then (map_err from_secret_error (resolve sr)) (\<lambda>secret.
            and_then (map_err (\<lambda>e. internal ConfigInvalidYaml (''oauth.token_encryption_key_ref: '' @ seal_error_msg e))
                (from_base64 cr secret)) (\<lambda>key. Inr (Some key))))
        | None \<Rightarrow> Inr None)
       (\<lambda>key.
          case client_error of
            None \<Rightarrow> Inr (upstream_oauth_new key rows (Option.bind oauth oa_redirect_base_url) block_private)
          | Some e \<Rightarrow>
              Inl (from_mcp_error (McpUpstreamFailure
                (''failed to build OAuth HTTP client'' @ (if block_private then [] else '': '' @ e)))))"

definition setup_failure :: "string \<Rightarrow> mcp_error" where
  "setup_failure step = McpUpstreamFailure (''OAuth '' @ step @ '' failed'')"

definition ensure_outbound_allowed :: "oauth_env \<Rightarrow> string \<Rightarrow> upstream_oauth \<Rightarrow> mcp_error + unit" where
  "ensure_outbound_allowed env url uo =
     (if \<not> uo_block_private uo then Inr ()
      else case check_url (ov_url env) url True of Inr _ \<Rightarrow> Inr () | Inl _ \<Rightarrow> Inl McpEgressBlocked)"

definition authorization_manager :: "oauth_env \<Rightarrow> string \<Rightarrow> upstream_oauth \<Rightarrow> mcp_error + unit" where
  "authorization_manager env server_url uo =
     and_then (ensure_outbound_allowed env server_url uo) (\<lambda>_.
       if ov_manager env server_url then Inr () else Inl (setup_failure ''client setup''))"

definition redirect_uri :: "upstream_oauth \<Rightarrow> string" where
  "redirect_uri uo =
     trim_end_char CHR ''/'' (case uo_redirect_base_url uo of Some b \<Rightarrow> b | None \<Rightarrow> ''http://localhost'') @ ''/oauth/callback''"

definition is_loopback :: "string option \<Rightarrow> bool" where
  "is_loopback h = (h \<in> Some ` {''localhost'', ''127.0.0.1'', ''[::1]''})"

definition secure_endpoint :: "oauth_env \<Rightarrow> string \<Rightarrow> string + unit" where
  "secure_endpoint env endpoint =
     and_then (ok_or ''invalid endpoint URL'' (ov_url env endpoint)) (\<lambda>url.
       if pu_scheme url = ''https'' \<or> pu_scheme url = ''http'' \<and> is_loopback (pu_host_str url) then Inr ()
       else Inl ''endpoint must use https'')"

section \<open>Starting and completing an authorization (authorize.rs)\<close>

datatype authorize_error =
    NotAuthorizationCode
  | NotConfigured
  | RegistrationUnsupported
  | AuthorizeSecret secret_error
  | AuthorizeFailed mcp_error

definition authorize_error_msg :: "authorize_error \<Rightarrow> string" where
  "authorize_error_msg e =
     (case e of
        NotAuthorizationCode \<Rightarrow> ''server does not use authorization_code oauth''
      | NotConfigured \<Rightarrow> ''oauth.redirect_base_url is not configured''
      | RegistrationUnsupported \<Rightarrow>
          ''authorization server does not support dynamic client registration; set auth.client_id''
      | AuthorizeSecret s \<Rightarrow> secret_error_msg s
      | AuthorizeFailed m \<Rightarrow> mcp_error_msg m)"

definition from_authorize_error :: "authorize_error \<Rightarrow> asterlane_error" where
  "from_authorize_error e =
     (case e of
        NotAuthorizationCode \<Rightarrow> internal AdminInvalidQuery (authorize_error_msg e)
      | NotConfigured \<Rightarrow> internal AdminConflict (authorize_error_msg e)
      | RegistrationUnsupported \<Rightarrow> internal AdminConflict (authorize_error_msg e)
      | AuthorizeSecret s \<Rightarrow> from_secret_error s
      | AuthorizeFailed m \<Rightarrow> from_mcp_error m)"

record callback_params =
  cp_state :: "string option"
  cp_code :: "string option"
  cp_error :: "string option"
  cp_error_description :: "string option"
  cp_issuer :: "string option"

datatype callback_error = CbInvalidState | CbExpired | CbNotGranted | CbMissingCode | CbExchangeFailed

definition callback_error_msg :: "callback_error \<Rightarrow> string" where
  "callback_error_msg e =
     (case e of
        CbInvalidState \<Rightarrow> ''the authorization request is invalid or has already been used''
      | CbExpired \<Rightarrow> ''the authorization request has expired''
      | CbNotGranted \<Rightarrow> ''the authorization server did not grant access''
      | CbMissingCode \<Rightarrow> ''the authorization response is incomplete''
      | CbExchangeFailed \<Rightarrow> ''the authorization server rejected the token exchange'')"

definition configured_redirect_uri :: "upstream_oauth \<Rightarrow> string option" where
  "configured_redirect_uri uo = map_option (\<lambda>_. redirect_uri uo) (uo_redirect_base_url uo)"

definition application_type :: "oauth_env \<Rightarrow> string \<Rightarrow> string" where
  "application_type env uri =
     (if (case ov_url env uri of Some u \<Rightarrow> is_loopback (pu_host_str u) | None \<Rightarrow> False) then ''native'' else ''web'')"

definition state_param :: "oauth_env \<Rightarrow> string \<Rightarrow> string option" where
  "state_param env authorization_url =
     Option.bind (ov_query_pairs env authorization_url) (\<lambda>qs.
     Option.bind (find (\<lambda>(k, _). k = ''state'') qs) (\<lambda>(_, v). if v = [] then None else Some v))"

text \<open>The endpoints of the upstream's metadata, checked one after the other.\<close>

fun check_endpoints :: "oauth_env \<Rightarrow> string option list \<Rightarrow> string + unit" where
  "check_endpoints env [] = Inr ()"
| "check_endpoints env (None # es) = check_endpoints env es"
| "check_endpoints env (Some e # es) = and_then (secure_endpoint env e) (\<lambda>_. check_endpoints env es)"

definition discovered_manager ::
  "oauth_env \<Rightarrow> mcp_server_config \<Rightarrow> bool \<Rightarrow> upstream_oauth \<Rightarrow> (authorize_error + credential_handle) \<times> upstream_oauth" where
  "discovered_manager env server needs_registration uo =
     (case authorization_manager env (ms_url server) uo of
        Inl e \<Rightarrow> (Inl (AuthorizeFailed e), uo)
      | Inr _ \<Rightarrow>
          (case credential_store (ms_id server) uo of
             (Inl e, uo1) \<Rightarrow> (Inl (AuthorizeFailed e), uo1)
           | (Inr h, uo1) \<Rightarrow>
               (case ov_metadata env (ms_url server) of
                  None \<Rightarrow> (Inl (AuthorizeFailed (setup_failure ''metadata discovery'')), uo1)
                | Some (metadata, discovered) \<Rightarrow>
                    (let registration = (if needs_registration then om_registration_endpoint metadata else None)
                     in if \<not> discovered then (Inl (AuthorizeFailed (setup_failure ''metadata discovery'')), uo1)
                        else if needs_registration \<and> registration = None then (Inl RegistrationUnsupported, uo1)
                        else
                          (case check_endpoints env
                               [Some (om_authorization_endpoint metadata), Some (om_token_endpoint metadata), registration] of
                             Inl _ \<Rightarrow> (Inl (AuthorizeFailed (setup_failure ''metadata validation'')), uo1)
                           | Inr _ \<Rightarrow> (Inr h, uo1))))))"

definition CLIENT_NAME :: string where
  "CLIENT_NAME = ''Asterlane''"

text \<open>The step after the checks: the session is created and waits for its callback.\<close>

definition open_session ::
  "oauth_env \<Rightarrow> mcp_server_config \<Rightarrow> string option \<Rightarrow> auth_request \<Rightarrow> credential_handle \<Rightarrow> upstream_oauth \<Rightarrow>
   (authorize_error + string \<times> duration) \<times> upstream_oauth" where
  "open_session env server client_id request h uo =
     (case ov_session env request of
        None \<Rightarrow>
          (Inl (AuthorizeFailed (setup_failure (if client_id \<noteq> None then ''authorization request'' else ''client registration''))),
           uo)
      | Some (authorization_url, session) \<Rightarrow>
          (case state_param env authorization_url of
             None \<Rightarrow> (Inl (AuthorizeFailed (setup_failure ''authorization request'')), uo)
           | Some state \<Rightarrow>
               (Inr (authorization_url, pd_ttl (uo_pending uo)),
                uo\<lparr>uo_pending := pending_insert state (ms_id server) \<lparr>as_handle = h, as_rmcp = session\<rparr> (ov_now env)
                  (uo_pending uo)\<rparr>)))"

definition start_authorization ::
  "oauth_env \<Rightarrow> secret_resolver \<Rightarrow> mcp_server_config \<Rightarrow> upstream_oauth \<Rightarrow>
   (authorize_error + string \<times> duration) \<times> upstream_oauth" where
  "start_authorization env resolve server uo =
     (case ms_auth server of
        AuthOAuth AuthorizationCode client_id client_secret_ref scopes \<Rightarrow>
          (case and_then (ok_or NotConfigured (configured_redirect_uri uo)) (\<lambda>uri.
              case client_secret_ref of
                None \<Rightarrow> Inr (uri, None)
              | Some raw \<Rightarrow>
                  and_then (map_err AuthorizeSecret (secret_ref_from_str raw)) (\<lambda>r.
                  and_then (map_err AuthorizeSecret (resolve r)) (\<lambda>s. Inr (uri, Some s)))) of
             Inl e \<Rightarrow> (Inl e, uo)
           | Inr (uri, client_secret) \<Rightarrow>
               (case discovered_manager env server (client_id = None) uo of
                  (Inl e, uo1) \<Rightarrow> (Inl e, uo1)
                | (Inr h, uo1) \<Rightarrow>
                    open_session env server client_id
                      \<lparr>aq_redirect_uri = uri, aq_scopes = scopes, aq_client_name = CLIENT_NAME,
                       aq_application_type = application_type env uri,
                       aq_client = map_option (\<lambda>i. (i, client_secret)) client_id\<rparr> h uo1))
      | _ \<Rightarrow> (Inl NotAuthorizationCode, uo))"

definition non_empty :: "string option \<Rightarrow> string option" where
  "non_empty v = (case v of Some s \<Rightarrow> if s = [] then None else Some s | None \<Rightarrow> None)"

text \<open>
  Completing an authorization, up to the exchange and from it on. In between the code waits for the
  authorization server, and other operations run.
\<close>

definition complete_begin ::
  "oauth_env \<Rightarrow> callback_params \<Rightarrow> upstream_oauth \<Rightarrow>
   (callback_error + string \<times> auth_session \<times> string \<times> string) \<times> upstream_oauth" where
  "complete_begin env params uo =
     (case non_empty (cp_state params) of
        None \<Rightarrow> (Inl CbInvalidState, uo)
      | Some state \<Rightarrow>
          (let (r, pending) = pending_take state (ov_now env) (uo_pending uo); uo1 = uo\<lparr>uo_pending := pending\<rparr>
           in case r of
                Inl TakeUnknown \<Rightarrow> (Inl CbInvalidState, uo1)
              | Inl TakeExpired \<Rightarrow> (Inl CbExpired, uo1)
              | Inr (server_id, session) \<Rightarrow>
                  if cp_error params \<noteq> None then (Inl CbNotGranted, uo1)
                  else
                    (case non_empty (cp_code params) of
                       None \<Rightarrow> (Inl CbMissingCode, uo1)
                     | Some code \<Rightarrow> (Inr (server_id, session, code, state), uo1))))"

definition complete_exchange ::
  "oauth_env \<Rightarrow> string option \<Rightarrow> string \<times> auth_session \<times> string \<times> string \<Rightarrow> upstream_oauth \<Rightarrow>
   (callback_error + string) \<times> upstream_oauth" where
  "complete_exchange env issuer x uo =
     (let (server_id, session, code, state) = x
      in case ov_exchange env (as_rmcp session) code state issuer of
           None \<Rightarrow> (Inl CbExchangeFailed, uo)
         | Some c \<Rightarrow>
             (let (saved, uo1) = handle_save env (as_handle session) c uo
              in (if saved then Inr server_id else Inl CbExchangeFailed, uo1)))"

definition complete_authorization ::
  "oauth_env \<Rightarrow> callback_params \<Rightarrow> upstream_oauth \<Rightarrow> (callback_error + string) \<times> upstream_oauth" where
  "complete_authorization env params uo =
     (case complete_begin env params uo of
        (Inl e, uo1) \<Rightarrow> (Inl e, uo1)
      | (Inr x, uo1) \<Rightarrow> complete_exchange env (cp_issuer params) x uo1)"

section \<open>Connecting with stored credentials (authorization_code.rs)\<close>

definition credential_summary :: "oauth_env \<Rightarrow> string \<Rightarrow> upstream_oauth \<Rightarrow> datetime option option \<times> upstream_oauth" where
  "credential_summary env server_id uo =
     (case credential_store server_id uo of
        (Inl _, uo1) \<Rightarrow> (None, uo1)
      | (Inr h, uo1) \<Rightarrow>
          (case handle_load env h uo1 of
             Inr (Some c) \<Rightarrow>
               (map_option (\<lambda>token.
                  Option.bind (cd_token_received_at c) (\<lambda>received_at.
                  Option.bind (tk_expires_in token) (\<lambda>lifetime.
                    if 2 ^ 63 \<le> unat received_at \<or> \<not> ov_datetime_ok env (int (unat received_at) * 10 ^ 9) then None
                    else if ov_datetime_ok env (int (unat received_at) * 10 ^ 9 + int lifetime)
                    then Some (int (unat received_at) * 10 ^ 9 + int lifetime) else None)))
                (cd_token_response c), uo1)
           | _ \<Rightarrow> (None, uo1)))"

definition preflight :: "oauth_env \<Rightarrow> credential_handle \<Rightarrow> upstream_oauth \<Rightarrow> mcp_error + stored_credentials" where
  "preflight env h uo =
     (case handle_load env h uo of
        Inr (Some c) \<Rightarrow> if cd_token_response c \<noteq> None then Inr c else Inl McpAuthRequired
      | Inr None \<Rightarrow> Inl McpAuthRequired
      | Inl Unreadable \<Rightarrow> Inl McpAuthRequired
      | Inl Backend \<Rightarrow> Inl (McpUpstreamFailure ''OAuth credential store unavailable''))"

definition authorization_code_connect ::
  "oauth_env \<Rightarrow> mcp_server_config \<Rightarrow> string option \<Rightarrow> upstream_oauth \<Rightarrow> (mcp_error + credential_handle) \<times> upstream_oauth" where
  "authorization_code_connect env server client_secret uo =
     (case credential_store (ms_id server) uo of
        (Inl e, uo1) \<Rightarrow> (Inl e, uo1)
      | (Inr h, uo1) \<Rightarrow>
          (case and_then (preflight env h uo1) (\<lambda>c. and_then (authorization_manager env (ms_url server) uo1) (\<lambda>_. Inr c)) of
             Inl e \<Rightarrow> (Inl e, uo1)
           | Inr c \<Rightarrow>
               (let (loaded, calls) = ov_initialize env c; uo2 = store_calls env h calls uo1
                in case loaded of
                     InitNone \<Rightarrow> (Inl McpAuthRequired, uo2)
                   | InitAuthRequired \<Rightarrow> (Inl McpAuthRequired, uo2)
                   | InitFailed \<Rightarrow> (Inl (setup_failure ''credential load''), uo2)
                   | InitLoaded \<Rightarrow>
                       if (case client_secret of Some s \<Rightarrow> \<not> ov_client_secret env s | None \<Rightarrow> False)
                       then (Inl (setup_failure ''client setup''), uo2)
                       else
                         (let (token, calls') = ov_access_token env; uo3 = store_calls env h calls' uo2
                          in case token of
                               InitLoaded \<Rightarrow> (Inr h, uo3)
                             | InitAuthRequired \<Rightarrow> (Inl McpAuthRequired, uo3)
                             | _ \<Rightarrow> (Inl (setup_failure ''token refresh''), uo3)))))"

section \<open>Sealed credentials belong to their server\<close>

text \<open>
  What ring and base64 promise: a sealed text opens under the same associated data, and, for the server ids that
  occur, not under that of another server.
\<close>

definition aead_ok :: "aead \<Rightarrow> string set \<Rightarrow> bool" where
  "aead_ok cr ids \<longleftrightarrow>
     (\<forall>b. cr_decode cr (trim (cr_encode cr b)) = Some b) \<and>
     (\<forall>k n a p c. cr_seal cr k n a p = Some c \<longrightarrow> length c = length p + TAG_LEN \<and> cr_open cr k n a c = Some p) \<and>
     (\<forall>k n p c. \<forall>i \<in> ids. \<forall>j \<in> ids. i \<noteq> j \<longrightarrow> cr_seal cr k n (bytes_of i) p = Some c \<longrightarrow>
        cr_open cr k n (bytes_of j) c = None)"

lemma bytes_of_eq [simp]: "bytes_of s = bytes_of t \<longleftrightarrow> s = t"
proof -
  have "unat (word_of_nat (of_char c) :: u8) = of_char c" for c
    by (simp add: unat_of_nat of_char_mod_256 [where 'a = nat, simplified])
  then have "inj (\<lambda>c. word_of_nat (of_char c) :: u8)" by (metis injI of_char_eq_iff)
  then show ?thesis by (auto simp: bytes_of_def dest: map_injective)
qed

lemma decrypt_encrypt:
  assumes "aead_ok cr ids" and "aad \<in> ids" and "aad' \<in> ids" and "length nonce = NONCE_LEN" and "encrypt cr key (Some nonce) aad plain = Inr sealed"
  shows "decrypt cr key aad' sealed = (if aad' = aad then Inr plain else Inl SealDecrypt)"
proof -
  obtain c where c: "cr_seal cr key nonce (bytes_of aad) plain = Some c" "sealed = cr_encode cr (nonce @ c)"
    using assms(5) by (auto simp: encrypt_def and_then_Inr_iff ok_or_def split: option.splits)
  moreover have "length c = length plain + TAG_LEN" "cr_open cr key nonce (bytes_of aad) c = Some plain"
    "aad' \<noteq> aad \<Longrightarrow> cr_open cr key nonce (bytes_of aad') c = None"
    using assms(1-3) c(1) by (auto simp: aead_ok_def)
  ultimately show ?thesis using assms(1,4) by (auto simp: decrypt_def aead_ok_def ok_or_def)
qed

lemma sealed_row_loads:
  assumes "aead_ok (ov_crypto env) ids" and "a \<in> ids" and "b \<in> ids" and "\<And>n. ov_random env = Some n \<Longrightarrow> length n = NONCE_LEN"
    and "\<And>p. ov_to_json env c = Some p \<Longrightarrow> ov_of_json env p = Some c"
    and "ov_fault env ''get_sealed'' = None" and "sealed_save env key a c rows = (True, rows')"
    and "map_of moved b = map_of rows' a"
  shows "load_checked env key b moved = (if b = a then Inr (Some c) else Inl Unreadable)"
proof -
  obtain plain nonce sealed where p: "ov_to_json env c = Some plain" "ov_random env = Some nonce"
    "encrypt (ov_crypto env) key (Some nonce) a plain = Inr sealed" "map_of rows' a = Some sealed"
    using assms(7)
    by (auto simp: sealed_save_def encrypt_def put_sealed_credentials_def sql_upsert_def update_conv
        and_then_Inr_iff ok_or_def split: option.splits sum.splits)
  have "decrypt (ov_crypto env) key b sealed = (if b = a then Inr plain else Inl SealDecrypt)"
    using decrypt_encrypt [OF assms(1-3) assms(4) [OF p(2)] p(3)] .
  then show ?thesis
    using assms(5) [OF p(1)] assms(6,8) p(4)
    by (simp add: load_checked_def get_sealed_credentials_def sql_get_def)
qed

text \<open>C38: credentials saved for a server are read back unchanged under its id. Under the id of another server, to
  which the row was moved, they cannot be read: the result is \<open>Unreadable\<close>, which asks for a new
  authorization. (The nonce has 12 bytes, ring and base64 keep their promises, and serde reads what it wrote.)\<close>

theorem sealed_credentials_bound:
  assumes "aead_ok (ov_crypto env) ids" and "a \<in> ids" and "b \<in> ids" and "\<And>n. ov_random env = Some n \<Longrightarrow> length n = NONCE_LEN"
    and "\<And>p. ov_to_json env c = Some p \<Longrightarrow> ov_of_json env p = Some c"
    and "ov_fault env ''get_sealed'' = None" and "sealed_save env key a c rows = (True, rows')"
    and "map_of moved b = map_of rows' a"
  shows "load_checked env key b moved = (if b = a then Inr (Some c) else Inl Unreadable)"
  using sealed_row_loads [OF assms] .

section \<open>States expire and are used once\<close>

definition pending_alive :: "'t pending_store \<Rightarrow> instant \<Rightarrow> string \<Rightarrow> (string \<times> 't) option" where
  "pending_alive s t k =
     Option.bind (map_of (pd_entries s) k) (\<lambda>e. if t < pe_expires_at e then Some (pe_server_id e, pe_value e) else None)"

definition pending_put :: "'t pending_store \<Rightarrow> instant \<Rightarrow> string \<Rightarrow> string \<times> 't \<Rightarrow> 't pending_store" where
  "pending_put s now k v = pending_insert k (fst v) (snd v) now s"

definition pending_get :: "'t pending_store \<Rightarrow> instant \<Rightarrow> string \<Rightarrow> (string \<times> 't) option \<times> 't pending_store" where
  "pending_get s now k =
     (let (r, s') = pending_take k now s in (case r of Inr x \<Rightarrow> Some x | Inl _ \<Rightarrow> None, s'))"

definition pending_wf :: "'t pending_store \<Rightarrow> bool" where
  "pending_wf s \<longleftrightarrow> hm_wf (pd_entries s)"

interpretation pend: expiring_store pending_wf pd_ttl pending_alive pending_put pending_get
  by unfold_locales
    (auto simp: pending_alive_def pending_put_def pending_get_def pending_wf_def pending_insert_def pending_take_def
      instant_checked_add_def retain_live_def hm_get_retain Let_def
      split: option.splits if_splits bind_splits)


section \<open>Revocation\<close>

text \<open>
  The service as a state machine. Between a callback and the end of its exchange, and as long as a connection is
  open, rmcp may save or clear credentials through the handle it was given: these handles are the writers.
\<close>

record oauth_sys =
  sy_oauth :: upstream_oauth
  sy_writers :: "(string \<times> credential_handle) set"

datatype oauth_label = LStart string | LCallback | LWrite string | LConnect string | LLook string | LClear string | LDrop

inductive oauth_step :: "oauth_sys \<Rightarrow> oauth_label \<Rightarrow> oauth_sys \<Rightarrow> bool" where
  step_start: "start_authorization env resolve server uo = (r, uo') \<Longrightarrow>
     oauth_step \<lparr>sy_oauth = uo, sy_writers = ws\<rparr> (LStart (ms_id server)) \<lparr>sy_oauth = uo', sy_writers = ws\<rparr>"
| step_callback: "complete_begin env params uo = (Inr (server_id, session, code, state), uo') \<Longrightarrow>
     oauth_step \<lparr>sy_oauth = uo, sy_writers = ws\<rparr> LCallback
       \<lparr>sy_oauth = uo', sy_writers = insert (server_id, as_handle session) ws\<rparr>"
| step_refused: "complete_begin env params uo = (Inl e, uo') \<Longrightarrow>
     oauth_step \<lparr>sy_oauth = uo, sy_writers = ws\<rparr> LCallback \<lparr>sy_oauth = uo', sy_writers = ws\<rparr>"
| step_write: "(server_id, h) \<in> ws \<Longrightarrow>
     oauth_step \<lparr>sy_oauth = uo, sy_writers = ws\<rparr> (LWrite server_id)
       \<lparr>sy_oauth = store_calls env h calls uo, sy_writers = ws\<rparr>"
| step_connect: "authorization_code_connect env server secret uo = (Inr h, uo') \<Longrightarrow>
     oauth_step \<lparr>sy_oauth = uo, sy_writers = ws\<rparr> (LConnect (ms_id server))
       \<lparr>sy_oauth = uo', sy_writers = insert (ms_id server, h) ws\<rparr>"
| step_unconnected: "authorization_code_connect env server secret uo = (Inl e, uo') \<Longrightarrow>
     oauth_step \<lparr>sy_oauth = uo, sy_writers = ws\<rparr> (LConnect (ms_id server)) \<lparr>sy_oauth = uo', sy_writers = ws\<rparr>"
| step_look: "credential_summary env server_id uo = (r, uo') \<Longrightarrow>
     oauth_step \<lparr>sy_oauth = uo, sy_writers = ws\<rparr> (LLook server_id) \<lparr>sy_oauth = uo', sy_writers = ws\<rparr>"
| step_clear: "clear_credentials env server_id uo = (r, uo') \<Longrightarrow>
     oauth_step \<lparr>sy_oauth = uo, sy_writers = ws\<rparr> (LClear server_id) \<lparr>sy_oauth = uo', sy_writers = ws\<rparr>"
| step_drop: "oauth_step \<lparr>sy_oauth = uo, sy_writers = ws\<rparr> LDrop \<lparr>sy_oauth = uo, sy_writers = ws - gone\<rparr>"

definition oauth_init :: "oauth_sys \<Rightarrow> bool" where
  "oauth_init s \<longleftrightarrow> (\<exists>key rows base block. s = \<lparr>sy_oauth = upstream_oauth_new key rows base block, sy_writers = {}\<rparr>)"

text \<open>A handle writes only what belongs to its server, now and after any later change of the table.\<close>

definition mem_ok :: "upstream_oauth \<Rightarrow> bool" where
  "mem_ok uo \<longleftrightarrow>
     (\<forall>x a. uo_memory uo x = Some a \<longrightarrow> a < uo_next uo) \<and>
     (\<forall>x y a. uo_memory uo x = Some a \<longrightarrow> uo_memory uo y = Some a \<longrightarrow> x = y)"

definition handle_ok :: "upstream_oauth \<Rightarrow> string \<Rightarrow> credential_handle \<Rightarrow> bool" where
  "handle_ok uo server_id h \<longleftrightarrow>
     (case h of
        Sealed i \<Rightarrow> i = server_id
      | Memory a \<Rightarrow> a < uo_next uo \<and> (\<forall>x. uo_memory uo x = Some a \<longrightarrow> x = server_id))"

definition grows :: "upstream_oauth \<Rightarrow> upstream_oauth \<Rightarrow> bool" where
  "grows uo uo' \<longleftrightarrow>
     uo_next uo \<le> uo_next uo' \<and> (\<forall>x a. uo_memory uo' x = Some a \<longrightarrow> uo_memory uo x = Some a \<or> uo_next uo \<le> a)"

definition pending_handles :: "upstream_oauth \<Rightarrow> (string \<times> credential_handle) set" where
  "pending_handles uo = (\<lambda>(_, e). (pe_server_id e, as_handle (pe_value e))) ` set (pd_entries (uo_pending uo))"

definition oauth_inv :: "oauth_sys \<Rightarrow> bool" where
  "oauth_inv s \<longleftrightarrow> mem_ok (sy_oauth s) \<and>
     (\<forall>(i, h) \<in> pending_handles (sy_oauth s) \<union> sy_writers s. handle_ok (sy_oauth s) i h)"

definition no_credentials :: "string \<Rightarrow> upstream_oauth \<Rightarrow> bool" where
  "no_credentials i uo \<longleftrightarrow>
     (\<forall>rows. uo_rows uo = Some rows \<longrightarrow> map_of rows i = None) \<and>
     (\<forall>a. uo_memory uo i = Some a \<longrightarrow> uo_cells uo a = None)"

definition quiet :: "string \<Rightarrow> oauth_sys \<Rightarrow> bool" where
  "quiet i s \<longleftrightarrow> no_credentials i (sy_oauth s) \<and> i \<notin> fst ` (pending_handles (sy_oauth s) \<union> sy_writers s)"

lemma handle_ok_grows: "handle_ok uo i h \<Longrightarrow> grows uo uo' \<Longrightarrow> handle_ok uo' i h"
  by (fastforce simp: handle_ok_def grows_def split: credential_handle.splits)

lemma grows_refl [simp]: "grows uo uo" by (simp add: grows_def)

lemma grows_trans: "grows uo uo1 \<Longrightarrow> grows uo1 uo2 \<Longrightarrow> grows uo uo2"
  unfolding grows_def by (meson le_trans)

lemma credential_store_effect:
  assumes "credential_store i uo = (r, uo')" and "mem_ok uo"
  shows "mem_ok uo'" "grows uo uo'" "r = Inr h \<Longrightarrow> handle_ok uo' i h" "uo_pending uo' = uo_pending uo"
    "no_credentials j uo \<Longrightarrow> no_credentials j uo'" "uo_rows uo' = uo_rows uo" "uo_key uo' = uo_key uo"
proof -
  have f: "a < uo_next uo" if "uo_memory uo x = Some a" for x a using that assms(2) by (auto simp: mem_ok_def)
  then have "uo_memory uo x \<noteq> Some (uo_next uo)" "uo_memory uo x = Some a \<Longrightarrow> a < Suc (uo_next uo)" for x a
    by (blast, simp add: less_SucI)
  then show "mem_ok uo'" "grows uo uo'" "r = Inr h \<Longrightarrow> handle_ok uo' i h" "uo_pending uo' = uo_pending uo"
    "no_credentials j uo \<Longrightarrow> no_credentials j uo'" "uo_rows uo' = uo_rows uo" "uo_key uo' = uo_key uo"
    using assms
    by (auto simp: credential_store_def mem_ok_def grows_def handle_ok_def no_credentials_def
        split: option.splits if_splits credential_handle.splits)
qed

lemma credential_store_pending: "credential_store i uo = (r, uo') \<Longrightarrow> uo_pending uo' = uo_pending uo"
  by (auto simp: credential_store_def split: option.splits)

lemma handle_op_frame [frame_simps]:
  "uo_memory (snd (handle_save env h c uo)) = uo_memory uo" "uo_next (snd (handle_save env h c uo)) = uo_next uo"
  "uo_pending (snd (handle_save env h c uo)) = uo_pending uo"
  "uo_memory (snd (handle_clear env h uo)) = uo_memory uo" "uo_next (snd (handle_clear env h uo)) = uo_next uo"
  "uo_pending (snd (handle_clear env h uo)) = uo_pending uo"
  by (auto simp: handle_save_def handle_clear_def split: credential_handle.splits option.splits prod.splits)

lemma handle_op_creds:
  assumes "handle_ok uo i h" and "i \<noteq> j" and "no_credentials j uo"
  shows "no_credentials j (snd (handle_save env h c uo))" "no_credentials j (snd (handle_clear env h uo))"
  using assms
  by (auto simp: handle_save_def handle_clear_def handle_ok_def no_credentials_def sealed_save_def sealed_clear_def
      put_sealed_credentials_def delete_sealed_credentials_def sql_upsert_def sql_delete_def Let_def
      split: credential_handle.splits option.splits prod.splits sum.splits)

lemma store_calls_frame [frame_simps]:
  "uo_memory (store_calls env h cs uo) = uo_memory uo" "uo_next (store_calls env h cs uo) = uo_next uo"
  "uo_pending (store_calls env h cs uo) = uo_pending uo"
  by (induction env h cs uo rule: store_calls.induct) (simp_all add: frame_simps)

lemma handle_ok_cong: "uo_memory uo' = uo_memory uo \<Longrightarrow> uo_next uo' = uo_next uo \<Longrightarrow> handle_ok uo' i h = handle_ok uo i h"
  by (simp add: handle_ok_def split: credential_handle.split)

lemma handle_ok_ops [frame_simps]:
  "handle_ok (snd (handle_save env h c uo)) i h' = handle_ok uo i h'"
  "handle_ok (snd (handle_clear env h uo)) i h' = handle_ok uo i h'"
  by (rule handle_ok_cong; simp add: frame_simps)+

lemma store_calls_creds:
  "handle_ok uo i h \<Longrightarrow> i \<noteq> j \<Longrightarrow> no_credentials j uo \<Longrightarrow> no_credentials j (store_calls env h cs uo)"
  by (induction env h cs uo rule: store_calls.induct) (simp_all add: handle_op_creds frame_simps)

lemma store_calls_mem: "mem_ok (store_calls env h cs uo) = mem_ok uo" "grows uo (store_calls env h cs uo)"
  by (simp_all add: mem_ok_def grows_def frame_simps)

text \<open>What one operation for server \<open>i\<close> promises: the handles stay good, and others' absence is kept.\<close>

definition tame :: "upstream_oauth \<Rightarrow> upstream_oauth \<Rightarrow> bool" where
  "tame uo uo' \<longleftrightarrow> mem_ok uo' \<and> grows uo uo'"

lemma tame_refl: "mem_ok uo \<Longrightarrow> tame uo uo" by (simp add: tame_def)

lemma discovered_manager_effect:
  assumes "discovered_manager env server reg uo = (r, uo')" and "mem_ok uo"
  shows "tame uo uo'" "r = Inr h \<Longrightarrow> handle_ok uo' (ms_id server) h" "uo_pending uo' = uo_pending uo"
    "no_credentials j uo \<Longrightarrow> no_credentials j uo'"
proof -
  obtain c uo1 where c: "credential_store (ms_id server) uo = (c, uo1)" by fastforce
  note e = credential_store_effect [OF c assms(2)]
  have "uo' = uo \<and> (\<exists>x. r = Inl x) \<or> uo' = uo1 \<and> ((\<exists>x. r = Inl x) \<or> (\<exists>h. r = Inr h \<and> c = Inr h))"
    using assms(1) c by (auto simp: discovered_manager_def Let_def split: sum.splits option.splits prod.splits if_splits)
  then show "tame uo uo'" "r = Inr h \<Longrightarrow> handle_ok uo' (ms_id server) h" "uo_pending uo' = uo_pending uo"
    "no_credentials j uo \<Longrightarrow> no_credentials j uo'"
    using e assms(2) by (auto simp: tame_def)
qed

lemma discovered_manager_pending: "discovered_manager env server reg uo = (r, uo') \<Longrightarrow> uo_pending uo' = uo_pending uo"
  using credential_store_pending [of "ms_id server" uo]
  by (auto simp: discovered_manager_def Let_def split: sum.splits option.splits prod.splits if_splits)

lemma pending_handles_insert:
  "pending_handles (uo\<lparr>uo_pending := pending_insert st i v now (uo_pending uo)\<rparr>) \<subseteq> insert (i, as_handle v) (pending_handles uo)"
proof -
  have "set (AList.update k x m) \<subseteq> insert (k, x) (set m)" for k x and m :: "(string \<times> auth_session pending_entry) list"
    by (induction m) auto
  then show ?thesis
    by (fastforce simp: pending_handles_def pending_insert_def retain_live_def hm_retain_def)
qed

lemma start_cases:
  assumes "start_authorization env resolve server uo = (r, uo')"
  shows "uo' = uo \<or> (\<exists>reg r1 uo1. discovered_manager env server reg uo = (r1, uo1) \<and>
    (uo' = uo1 \<or> (\<exists>h st n. r1 = Inr h \<and> uo' = uo1\<lparr>uo_pending :=
       pending_insert st (ms_id server) \<lparr>as_handle = h, as_rmcp = n\<rparr> (ov_now env) (uo_pending uo1)\<rparr>)))"
proof -
  have "uo' = uo1 \<or> (\<exists>st n. uo' = uo1\<lparr>uo_pending :=
      pending_insert st (ms_id server) \<lparr>as_handle = h, as_rmcp = n\<rparr> (ov_now env) (uo_pending uo1)\<rparr>)"
    if "open_session env server ci rq h uo1 = (r, uo')" for ci rq h uo1
    using that by (auto simp: open_session_def split: option.splits prod.splits)
  then show ?thesis
    using assms
    by (fastforce simp: start_authorization_def split: upstream_auth.splits oauth_grant.splits sum.splits prod.splits)
qed

lemma no_credentials_pending: "no_credentials j (uo\<lparr>uo_pending := p\<rparr>) = no_credentials j uo"
  by (simp add: no_credentials_def)

lemma start_effect:
  assumes "start_authorization env resolve server uo = (r, uo')" and "mem_ok uo"
  shows "tame uo uo'" "no_credentials j uo \<Longrightarrow> no_credentials j uo'"
    "\<forall>(i, h) \<in> pending_handles uo' - pending_handles uo. i = ms_id server \<and> handle_ok uo' i h"
proof -
  have "tame uo uo' \<and> (no_credentials j uo \<longrightarrow> no_credentials j uo') \<and>
    (\<forall>(i, h) \<in> pending_handles uo' - pending_handles uo. i = ms_id server \<and> handle_ok uo' i h)"
    using start_cases [OF assms(1)]
  proof (elim disjE exE conjE)
    assume "uo' = uo"
    then show ?thesis using assms(2) by (auto simp: tame_def)
  next
    fix reg r1 uo1
    assume d: "discovered_manager env server reg uo = (r1, uo1)" and "uo' = uo1"
    then show ?thesis using discovered_manager_effect [OF d assms(2)] by (auto simp: pending_handles_def)
  next
    fix reg r1 uo1 h st n
    assume d: "discovered_manager env server reg uo = (r1, uo1)" and r: "r1 = Inr h" and
      u: "uo' = uo1\<lparr>uo_pending := pending_insert st (ms_id server) \<lparr>as_handle = h, as_rmcp = n\<rparr> (ov_now env) (uo_pending uo1)\<rparr>"
    note e = discovered_manager_effect [OF d assms(2)]
    have "pending_handles uo1 = pending_handles uo" using e(3) by (simp add: pending_handles_def)
    then have "pending_handles uo' \<subseteq> insert (ms_id server, h) (pending_handles uo)"
      using pending_handles_insert [where uo = uo1 and st = st and i = "ms_id server" and v = "\<lparr>as_handle = h, as_rmcp = n\<rparr>"
          and now = "ov_now env"] u by simp
    moreover have "handle_ok uo' (ms_id server) h" using e(2) [OF r] unfolding u by (simp add: handle_ok_def split: credential_handle.splits)
    moreover have "tame uo uo'" using e(1) unfolding u by (simp add: tame_def mem_ok_def grows_def)
    moreover have "no_credentials j uo \<longrightarrow> no_credentials j uo'" using e(4) unfolding u by (simp add: no_credentials_pending)
    ultimately show ?thesis by (intro conjI) auto
  qed
  then show "tame uo uo'" "no_credentials j uo \<Longrightarrow> no_credentials j uo'"
    "\<forall>(i, h) \<in> pending_handles uo' - pending_handles uo. i = ms_id server \<and> handle_ok uo' i h"
    by blast+
qed

lemma pending_take_effect:
  assumes "pending_take st now s = (r, s')"
  shows "set (pd_entries s') \<subseteq> set (pd_entries s)"
    "r = Inr (i, v) \<Longrightarrow> \<exists>k e. (k, e) \<in> set (pd_entries s) \<and> i = pe_server_id e \<and> v = pe_value e"
  using assms
  by (auto simp: pending_take_def retain_live_def hm_retain_def AList.delete_eq Let_def split: option.splits if_splits
      dest!: map_of_SomeD)

lemma complete_begin_cases:
  assumes "complete_begin env params uo = (r, uo')"
  shows "uo' = uo \<and> (\<exists>e. r = Inl e) \<or> (\<exists>p. uo' = uo\<lparr>uo_pending := p\<rparr> \<and>
      set (pd_entries p) \<subseteq> set (pd_entries (uo_pending uo)) \<and>
      (\<forall>i session code state. r = Inr (i, session, code, state) \<longrightarrow>
        (\<exists>k e. (k, e) \<in> set (pd_entries (uo_pending uo)) \<and> i = pe_server_id e \<and> session = pe_value e)))"
proof (cases "non_empty (cp_state params)")
  case None
  then show ?thesis using assms by (auto simp: complete_begin_def)
next
  case (Some st)
  obtain t p where t: "pending_take st (ov_now env) (uo_pending uo) = (t, p)" by fastforce
  note e = pending_take_effect [OF t]
  have "uo' = uo\<lparr>uo_pending := p\<rparr>" and r: "r = Inr (i, session, code, state) \<Longrightarrow> t = Inr (i, session)" for i session code state
    using assms Some t
    by (auto simp: complete_begin_def Let_def split: option.splits if_splits sum.splits prod.splits take_error.splits)
  then show ?thesis using e by blast
qed

lemma complete_begin_effect:
  assumes "complete_begin env params uo = (r, uo')"
  shows "mem_ok uo \<Longrightarrow> tame uo uo'" "no_credentials j uo \<Longrightarrow> no_credentials j uo'"
    "pending_handles uo' \<subseteq> pending_handles uo"
    "r = Inr (i, session, code, state) \<Longrightarrow> (i, as_handle session) \<in> pending_handles uo"
proof -
  show "mem_ok uo \<Longrightarrow> tame uo uo'" "no_credentials j uo \<Longrightarrow> no_credentials j uo'" "pending_handles uo' \<subseteq> pending_handles uo"
    using complete_begin_cases [OF assms] by (auto simp: tame_def mem_ok_def grows_def no_credentials_def pending_handles_def)
  assume "r = Inr (i, session, code, state)"
  then obtain k e where "(k, e) \<in> set (pd_entries (uo_pending uo))" "i = pe_server_id e" "session = pe_value e"
    using complete_begin_cases [OF assms] by auto
  then show "(i, as_handle session) \<in> pending_handles uo" by (auto simp: pending_handles_def intro: rev_image_eqI)
qed

lemma preflight_none:
  assumes "credential_store i uo = (Inr h, uo1)" and "mem_ok uo" and "no_credentials i uo"
  shows "\<exists>e. preflight env h uo1 = Inl e"
proof -
  note e = credential_store_effect [OF assms(1,2)]
  have "no_credentials i uo1" using e(5) assms(3) by blast
  moreover have "case h of Sealed j \<Rightarrow> j = i | Memory a \<Rightarrow> uo_memory uo1 i = Some a"
    using assms(1) by (auto simp: credential_store_def split: option.splits)
  ultimately show ?thesis
    by (auto simp: preflight_def handle_load_def no_credentials_def load_checked_def get_sealed_credentials_def sql_get_def
        split: credential_handle.splits option.splits sum.splits load_failure.splits)
qed

lemma connect_cases:
  assumes "authorization_code_connect env server secret uo = (r, uo')"
    and "credential_store (ms_id server) uo = (c, uo1)"
  shows "(\<exists>x. r = Inl x) \<and> uo' = uo1 \<or> (\<exists>h calls calls' p. c = Inr h \<and> preflight env h uo1 = Inr p \<and>
      uo' = store_calls env h calls' (store_calls env h calls uo1) \<and> (\<forall>h'. r = Inr h' \<longrightarrow> h' = h))"
proof (cases "\<exists>h p. c = Inr h \<and> and_then (preflight env h uo1)
    (\<lambda>c. and_then (authorization_manager env (ms_url server) uo1) (\<lambda>_. Inr c)) = Inr p")
  case False
  then show ?thesis
    using assms by (auto simp: authorization_code_connect_def split: sum.splits)
next
  case True
  then obtain h p where h: "c = Inr h" "and_then (preflight env h uo1)
      (\<lambda>c. and_then (authorization_manager env (ms_url server) uo1) (\<lambda>_. Inr c)) = Inr p" by blast
  obtain l cs where l: "ov_initialize env p = (l, cs)" by fastforce
  obtain t cs' where t: "ov_access_token env = (t, cs')" by fastforce
  have "preflight env h uo1 = Inr p" using h(2) by (auto simp: and_then_Inr_iff)
  moreover have "\<exists>cs''. uo' = store_calls env h cs'' (store_calls env h cs uo1) \<and> (\<forall>h'. r = Inr h' \<longrightarrow> h' = h)"
  proof -
    have "uo' = store_calls env h [] (store_calls env h cs uo1) \<and> (\<exists>x. r = Inl x) \<or>
        uo' = store_calls env h cs' (store_calls env h cs uo1) \<and> (\<forall>h'. r = Inr h' \<longrightarrow> h' = h)"
      using assms h l t
      by (auto simp: authorization_code_connect_def Let_def split: init_outcome.splits if_splits option.splits)
    then show ?thesis by blast
  qed
  ultimately show ?thesis using h(1) by blast
qed

lemma connect_pending: "authorization_code_connect env server secret uo = (r, uo') \<Longrightarrow> uo_pending uo' = uo_pending uo"
proof -
  assume a: "authorization_code_connect env server secret uo = (r, uo')"
  obtain c uo1 where c: "credential_store (ms_id server) uo = (c, uo1)" by fastforce
  show ?thesis using connect_cases [OF a c] credential_store_pending [OF c] by (auto simp: frame_simps)
qed

lemma connect_effect:
  assumes "authorization_code_connect env server secret uo = (r, uo')" and "mem_ok uo"
  shows "tame uo uo'" "no_credentials j uo \<Longrightarrow> no_credentials j uo'" "uo_pending uo' = uo_pending uo"
    "r = Inr h \<Longrightarrow> handle_ok uo' (ms_id server) h" "no_credentials (ms_id server) uo \<Longrightarrow> \<exists>e. r = Inl e"
proof -
  obtain c uo1 where c: "credential_store (ms_id server) uo = (c, uo1)" by fastforce
  note e = credential_store_effect [OF c assms(2)]
  consider "\<exists>x. r = Inl x" "uo' = uo1"
    | h' cs cs' p where "c = Inr h'" "preflight env h' uo1 = Inr p"
        "uo' = store_calls env h' cs' (store_calls env h' cs uo1)" "\<And>h''. r = Inr h'' \<Longrightarrow> h'' = h'"
    using connect_cases [OF assms(1) c] by blast
  then have "tame uo uo' \<and> (no_credentials j uo \<longrightarrow> no_credentials j uo') \<and> uo_pending uo' = uo_pending uo \<and>
      (r = Inr h \<longrightarrow> handle_ok uo' (ms_id server) h) \<and> (no_credentials (ms_id server) uo \<longrightarrow> (\<exists>e. r = Inl e))"
  proof cases
    case 1
    then show ?thesis using e by (auto simp: tame_def)
  next
    case 2
    have h: "handle_ok uo1 (ms_id server) h'" using e(3) 2(1) by blast
    have n: "\<not> no_credentials (ms_id server) uo" using preflight_none [of "ms_id server" uo h' uo1 env] 2(1,2) c assms(2) by auto
    have "handle_ok uo' i x = handle_ok uo1 i x" for i x unfolding 2(3) by (rule handle_ok_cong) (simp_all add: frame_simps)
    moreover have "no_credentials j uo \<longrightarrow> no_credentials j uo'"
      using n store_calls_creds h e(5) [of j] handle_ok_cong store_calls_frame(1,2) unfolding 2(3) by metis
    moreover have "tame uo uo'" using e(1,2) unfolding 2(3) by (simp add: tame_def mem_ok_def grows_def frame_simps)
    ultimately show ?thesis using 2(4) h n e(4) by (auto simp: 2(3) frame_simps)
  qed
  then show "tame uo uo'" "no_credentials j uo \<Longrightarrow> no_credentials j uo'" "uo_pending uo' = uo_pending uo"
    "r = Inr h \<Longrightarrow> handle_ok uo' (ms_id server) h" "no_credentials (ms_id server) uo \<Longrightarrow> \<exists>e. r = Inl e" by blast+
qed

lemma summary_effect:
  assumes "credential_summary env i uo = (r, uo')" and "mem_ok uo"
  shows "tame uo uo'" "no_credentials j uo \<Longrightarrow> no_credentials j uo'" "uo_pending uo' = uo_pending uo"
proof -
  obtain c uo1 where c: "credential_store i uo = (c, uo1)" by fastforce
  have "uo' = uo1" using assms(1) c by (auto simp: credential_summary_def split: sum.splits option.splits)
  then show "tame uo uo'" "no_credentials j uo \<Longrightarrow> no_credentials j uo'" "uo_pending uo' = uo_pending uo"
    using credential_store_effect [OF c assms(2)] by (auto simp: tame_def)
qed

lemma clear_effect:
  assumes "clear_credentials env i uo = (r, uo')" and "mem_ok uo"
  shows "tame uo uo'" "no_credentials j uo \<Longrightarrow> no_credentials j uo'" "r = Inr () \<Longrightarrow> no_credentials i uo'"
    "pending_handles uo' = {x \<in> pending_handles uo. fst x \<noteq> i}"
proof -
  show "tame uo uo'" "no_credentials j uo \<Longrightarrow> no_credentials j uo'" "r = Inr () \<Longrightarrow> no_credentials i uo'"
    using assms
    by (auto simp: clear_credentials_def tame_def mem_ok_def grows_def no_credentials_def delete_sealed_credentials_def
        sql_delete_def Let_def split: option.splits sum.splits if_splits prod.splits)
  have "uo_pending uo' = discard_server i (uo_pending uo)"
    using assms(1) by (auto simp: clear_credentials_def Let_def split: option.splits sum.splits prod.splits)
  then show "pending_handles uo' = {x \<in> pending_handles uo. fst x \<noteq> i}"
    by (force simp: pending_handles_def discard_server_def hm_retain_def)
qed

lemma oauth_inv_extend:
  assumes "oauth_inv \<lparr>sy_oauth = uo, sy_writers = ws\<rparr>" and "tame uo uo'"
    and "\<And>i h. (i, h) \<in> pending_handles uo' \<union> ws' \<Longrightarrow> (i, h) \<in> pending_handles uo \<union> ws \<or> handle_ok uo' i h"
  shows "oauth_inv \<lparr>sy_oauth = uo', sy_writers = ws'\<rparr>"
  using assms handle_ok_grows unfolding oauth_inv_def tame_def by fastforce

lemma oauth_inv_step: "oauth_step s l s' \<Longrightarrow> oauth_inv s \<Longrightarrow> oauth_inv s'"
proof (induction rule: oauth_step.induct)
  case (step_start env resolve server uo r uo' ws)
  then have m: "mem_ok uo" by (simp add: oauth_inv_def)
  note e = start_effect(1,3) [OF step_start(1) m]
  show ?case by (rule oauth_inv_extend [OF step_start(2) e(1)]) (use e(2) in blast)
next
  case (step_callback env params uo i session code state uo' ws)
  then have m: "mem_ok uo" by (simp add: oauth_inv_def)
  note e = complete_begin_effect [OF step_callback(1)]
  show ?case
    using e(1) [OF m] e(3) e(4) [OF refl] by (intro oauth_inv_extend [OF step_callback(2)]) auto
next
  case (step_refused env params uo x uo' ws)
  then have m: "mem_ok uo" by (simp add: oauth_inv_def)
  note e = complete_begin_effect [OF step_refused(1)]
  show ?case using e(1) [OF m] e(3) by (intro oauth_inv_extend [OF step_refused(2)]) auto
next
  case (step_write i h ws uo env calls)
  then have m: "mem_ok uo" by (simp add: oauth_inv_def)
  then show ?case
    by (intro oauth_inv_extend [OF step_write(2)]) (auto simp: tame_def store_calls_mem pending_handles_def frame_simps)
next
  case (step_connect env server secret uo h uo' ws)
  then have m: "mem_ok uo" by (simp add: oauth_inv_def)
  note e = connect_effect [OF step_connect(1) m]
  show ?case
    using e(1,3) e(4) [OF refl] by (intro oauth_inv_extend [OF step_connect(2)]) (auto simp: pending_handles_def)
next
  case (step_unconnected env server secret uo x uo' ws)
  then have m: "mem_ok uo" by (simp add: oauth_inv_def)
  show ?case
    using connect_effect(1,3) [OF step_unconnected(1) m]
    by (intro oauth_inv_extend [OF step_unconnected(2)]) (auto simp: pending_handles_def)
next
  case (step_look env i uo r uo' ws)
  then have m: "mem_ok uo" by (simp add: oauth_inv_def)
  show ?case
    using summary_effect(1,3) [OF step_look(1) m] by (intro oauth_inv_extend [OF step_look(2)]) (auto simp: pending_handles_def)
next
  case (step_clear env i uo r uo' ws)
  then have m: "mem_ok uo" by (simp add: oauth_inv_def)
  show ?case
    using clear_effect(1,4) [OF step_clear(1) m] by (intro oauth_inv_extend [OF step_clear(2)]) auto
qed (auto simp: oauth_inv_def)

lemma oauth_inv_init: "oauth_init s \<Longrightarrow> oauth_inv s"
  by (auto simp: oauth_init_def oauth_inv_def upstream_oauth_new_def mem_ok_def pending_handles_def pending_new_def)

interpretation oauth: invariant_of oauth_init oauth_step oauth_inv
  by unfold_locales (erule oauth_inv_init, rule oauth_inv_step)

lemma quiet_step: "oauth_step s l s' \<Longrightarrow> oauth_inv s \<Longrightarrow> quiet i s \<Longrightarrow> l \<noteq> LStart i \<Longrightarrow> quiet i s'"
proof (induction rule: oauth_step.induct)
  case (step_start env resolve server uo r uo' ws)
  then have m: "mem_ok uo" by (simp add: oauth_inv_def)
  note e = start_effect(2) [OF step_start(1) m, where j = i] start_effect(3) [OF step_start(1) m]
  have "i \<noteq> ms_id server" using step_start(4) by auto
  then have "i \<notin> fst ` (pending_handles uo' - pending_handles uo)" using e(2) by auto
  then show ?case using e(1) step_start(3) by (auto simp: quiet_def image_Un dest: image_eqI)
next
  case (step_callback env params uo j session code state uo' ws)
  note e = complete_begin_effect [OF step_callback(1)]
  show ?case using e(2) [where j = i] e(3) e(4) [OF refl] step_callback(3) by (force simp: quiet_def)
next
  case (step_refused env params uo x uo' ws)
  show ?case using complete_begin_effect(2) [OF step_refused(1), where j = i] complete_begin_effect(3) [OF step_refused(1)] step_refused(3) by (auto simp: quiet_def)
next
  case (step_write j h ws uo env calls)
  have "handle_ok uo j h" using step_write(1,2) by (auto simp: oauth_inv_def)
  moreover have "j \<noteq> i" using step_write(1,3) by (force simp: quiet_def)
  ultimately show ?case
    using step_write(3) store_calls_creds [of uo j h i] by (simp add: quiet_def pending_handles_def frame_simps)
next
  case (step_connect env server secret uo h uo' ws)
  then have m: "mem_ok uo" by (simp add: oauth_inv_def)
  note e = connect_effect [OF step_connect(1) m]
  have "ms_id server \<noteq> i" using e(5) step_connect(3) by (auto simp: quiet_def)
  then show ?case using e(2) [where j = i] e(3) step_connect(3) by (auto simp: quiet_def pending_handles_def)
next
  case (step_unconnected env server secret uo x uo' ws)
  then have m: "mem_ok uo" by (simp add: oauth_inv_def)
  show ?case
    using connect_effect(2) [OF step_unconnected(1) m, where j = i] connect_effect(3) [OF step_unconnected(1) m] step_unconnected(3) by (auto simp: quiet_def pending_handles_def)
next
  case (step_look env j uo r uo' ws)
  then have m: "mem_ok uo" by (simp add: oauth_inv_def)
  show ?case using summary_effect(2) [OF step_look(1) m, where j = i] summary_effect(3) [OF step_look(1) m] step_look(3) by (auto simp: quiet_def pending_handles_def)
next
  case (step_clear env j uo r uo' ws)
  then have m: "mem_ok uo" by (simp add: oauth_inv_def)
  show ?case using clear_effect(2) [OF step_clear(1) m, where j = i] clear_effect(4) [OF step_clear(1) m] step_clear(3) by (auto simp: quiet_def)
qed (auto simp: quiet_def)

lemma quiet_run:
  "run oauth_step s ls s' \<Longrightarrow> oauth_inv s \<Longrightarrow> quiet i s \<Longrightarrow> LStart i \<notin> set ls \<Longrightarrow> quiet i s' \<and> oauth_inv s'"
  by (induction rule: run.induct) (auto intro: quiet_step oauth_inv_step)


text \<open>
  The condition on exchanges under way is needed. A callback that is waiting for the authorization server when
  the credentials are cleared writes its credentials into the database afterwards.
\<close>

lemma exchange_undoes_revocation:
  assumes "complete_begin env params uo = (Inr (i, session, code, state), uo1)" and "as_handle session = Sealed i"
    and "clear_credentials env1 i uo1 = (Inr (), uo2)" and "complete_exchange env2 iss (i, session, code, state) uo2 = (Inr i, uo3)"
  shows "no_credentials i uo2 \<and> \<not> no_credentials i uo3"
proof
  show "no_credentials i uo2"
    using assms(3)
    by (auto simp: clear_credentials_def no_credentials_def delete_sealed_credentials_def sql_delete_def Let_def
        split: option.splits sum.splits prod.splits)
  show "\<not> no_credentials i uo3"
    using assms(2,4)
    by (auto simp: complete_exchange_def handle_save_def sealed_save_def put_sealed_credentials_def sql_upsert_def
        no_credentials_def Let_def split: option.splits sum.splits prod.splits if_splits)
qed

section \<open>A completed authorization is usable\<close>

text \<open>The handle of a waiting session is the one the server's store would be opened with now.\<close>

definition store_is :: "upstream_oauth \<Rightarrow> string \<Rightarrow> credential_handle \<Rightarrow> bool" where
  "store_is uo i h \<longleftrightarrow> credential_store i uo = (Inr h, uo)"

definition linked :: "oauth_sys \<Rightarrow> bool" where
  "linked s \<longleftrightarrow> (\<forall>(i, h) \<in> pending_handles (sy_oauth s). store_is (sy_oauth s) i h)"

lemma store_is_iff:
  "store_is uo i h \<longleftrightarrow>
     (case h of
        Sealed j \<Rightarrow> j = i \<and> uo_rows uo \<noteq> None \<and> uo_key uo \<noteq> None
      | Memory a \<Rightarrow> uo_rows uo = None \<and> uo_memory uo i = Some a)"
proof -
  have "x\<lparr>uo_memory := (uo_memory x)(i \<mapsto> a), uo_cells := c, uo_next := n\<rparr> \<noteq> x" if "uo_memory x i = None"
    for x :: upstream_oauth and a c n
  proof
    assume "x\<lparr>uo_memory := (uo_memory x)(i \<mapsto> a), uo_cells := c, uo_next := n\<rparr> = x"
    from arg_cong [OF this, of "\<lambda>y. uo_memory y i"] that show False by simp
  qed
  then show ?thesis
    by (auto simp: store_is_def credential_store_def split: option.splits credential_handle.splits)
qed

definition keeps :: "string \<Rightarrow> upstream_oauth \<Rightarrow> upstream_oauth \<Rightarrow> bool" where
  "keeps i uo uo' \<longleftrightarrow> uo_key uo' = uo_key uo \<and> (uo_rows uo' = None \<longleftrightarrow> uo_rows uo = None) \<and>
     (\<forall>a. uo_memory uo i = Some a \<longrightarrow> uo_memory uo' i = Some a)"

lemma store_is_keeps: "store_is uo i h \<Longrightarrow> keeps i uo uo' \<Longrightarrow> store_is uo' i h"
  by (auto simp: store_is_iff keeps_def split: credential_handle.splits)

lemma keeps_refl [simp]: "keeps i uo uo" by (simp add: keeps_def)

lemma keeps_trans: "keeps i uo uo1 \<Longrightarrow> keeps i uo1 uo2 \<Longrightarrow> keeps i uo uo2"
  by (auto simp: keeps_def)

lemma credential_store_keeps:
  assumes "credential_store j uo = (r, uo')"
  shows "keeps i uo uo'" "r = Inr h \<Longrightarrow> store_is uo' j h"
  using assms by (auto simp: credential_store_def keeps_def store_is_iff split: option.splits)

lemma handle_op_keeps: "keeps i uo (snd (handle_save env h c uo))" "keeps i uo (snd (handle_clear env h uo))"
  by (auto simp: keeps_def handle_save_def handle_clear_def split: credential_handle.splits option.splits prod.splits)

lemma store_calls_keeps: "keeps i uo (store_calls env h cs uo)"
  by (induction env h cs uo rule: store_calls.induct) (auto intro: keeps_trans handle_op_keeps)

lemma keeps_pending [simp]: "keeps i uo (uo1\<lparr>uo_pending := p\<rparr>) = keeps i uo uo1"
  by (simp add: keeps_def)

lemma discovered_manager_keeps:
  assumes "discovered_manager env server reg uo = (r, uo')"
  shows "keeps i uo uo'" "r = Inr h \<Longrightarrow> store_is uo' (ms_id server) h"
proof -
  obtain c uo1 where c: "credential_store (ms_id server) uo = (c, uo1)" by fastforce
  have "uo' = uo \<and> (\<exists>x. r = Inl x) \<or> uo' = uo1 \<and> ((\<exists>x. r = Inl x) \<or> (\<exists>h. r = Inr h \<and> c = Inr h))"
    using assms(1) c by (auto simp: discovered_manager_def Let_def split: sum.splits option.splits prod.splits if_splits)
  then show "keeps i uo uo'" "r = Inr h \<Longrightarrow> store_is uo' (ms_id server) h"
    using credential_store_keeps [OF c] by auto
qed

lemma linked_keeps:
  assumes "linked \<lparr>sy_oauth = uo, sy_writers = ws\<rparr>" and "\<And>i. keeps i uo uo'"
    and "\<And>i h. (i, h) \<in> pending_handles uo' \<Longrightarrow> (i, h) \<in> pending_handles uo \<or> store_is uo' i h"
  shows "linked \<lparr>sy_oauth = uo', sy_writers = ws'\<rparr>"
  using assms store_is_keeps unfolding linked_def by fastforce

lemma start_linked:
  assumes "start_authorization env resolve server uo = (r, uo')"
  shows "keeps i uo uo'" "(j, h) \<in> pending_handles uo' \<Longrightarrow> (j, h) \<in> pending_handles uo \<or> store_is uo' j h"
proof -
  have "(\<forall>i. keeps i uo uo') \<and> (\<forall>j h. (j, h) \<in> pending_handles uo' \<longrightarrow> (j, h) \<in> pending_handles uo \<or> store_is uo' j h)"
    using start_cases [OF assms]
  proof (elim disjE exE conjE)
    fix reg r1 uo1
    assume d: "discovered_manager env server reg uo = (r1, uo1)" and "uo' = uo1"
    then show ?thesis
      using discovered_manager_keeps [OF d] discovered_manager_pending [OF d] by (auto simp: pending_handles_def)
  next
    fix reg r1 uo1 h st n
    assume d: "discovered_manager env server reg uo = (r1, uo1)" and r: "r1 = Inr h" and
      u: "uo' = uo1\<lparr>uo_pending := pending_insert st (ms_id server) \<lparr>as_handle = h, as_rmcp = n\<rparr> (ov_now env) (uo_pending uo1)\<rparr>"
    note e = discovered_manager_keeps [OF d]
    have "pending_handles uo1 = pending_handles uo" using discovered_manager_pending [OF d] by (simp add: pending_handles_def)
    then have "pending_handles uo' \<subseteq> insert (ms_id server, h) (pending_handles uo)"
      using pending_handles_insert [where uo = uo1 and st = st and i = "ms_id server" and v = "\<lparr>as_handle = h, as_rmcp = n\<rparr>"
          and now = "ov_now env"] u by simp
    moreover have "store_is uo' (ms_id server) h" using store_is_keeps [OF e(2) [OF r], of uo'] unfolding u by simp
    ultimately show ?thesis using e(1) u by auto
  qed simp
  then show "keeps i uo uo'" "(j, h) \<in> pending_handles uo' \<Longrightarrow> (j, h) \<in> pending_handles uo \<or> store_is uo' j h" by blast+
qed

lemma connect_keeps:
  assumes "authorization_code_connect env server secret uo = (r, uo')"
  shows "keeps i uo uo'"
proof -
  obtain c uo1 where c: "credential_store (ms_id server) uo = (c, uo1)" by fastforce
  show ?thesis
    using connect_cases [OF assms c] credential_store_keeps(1) [OF c, of i]
    by (elim disjE exE conjE) (metis keeps_trans store_calls_keeps)+
qed

lemma complete_begin_keeps: "complete_begin env params uo = (r, uo') \<Longrightarrow> keeps i uo uo'"
  using complete_begin_cases [of env params uo r uo'] by auto

lemma clear_keeps:
  assumes "clear_credentials env j uo = (r, uo')" and "i \<noteq> j"
  shows "keeps i uo uo'"
  using assms by (auto simp: clear_credentials_def keeps_def Let_def split: option.splits sum.splits prod.splits)

lemma linked_step: "oauth_step s l s' \<Longrightarrow> linked s \<Longrightarrow> linked s'"
proof (induction rule: oauth_step.induct)
  case (step_start env resolve server uo r uo' ws)
  show ?case by (rule linked_keeps [OF step_start(2)]) (use start_linked [OF step_start(1)] in blast)+
next
  case (step_callback env params uo i session code state uo' ws)
  show ?case
    by (rule linked_keeps [OF step_callback(2)])
      (use complete_begin_keeps [OF step_callback(1)] complete_begin_effect(3) [OF step_callback(1)] in blast)+
next
  case (step_refused env params uo x uo' ws)
  show ?case
    by (rule linked_keeps [OF step_refused(2)])
      (use complete_begin_keeps [OF step_refused(1)] complete_begin_effect(3) [OF step_refused(1)] in blast)+
next
  case (step_write i h ws uo env calls)
  show ?case
    by (rule linked_keeps [OF step_write(2) store_calls_keeps]) (simp add: pending_handles_def frame_simps)
next
  case (step_connect env server secret uo h uo' ws)
  show ?case
    by (rule linked_keeps [OF step_connect(2) connect_keeps [OF step_connect(1)]])
      (simp add: pending_handles_def connect_pending [OF step_connect(1)])
next
  case (step_unconnected env server secret uo x uo' ws)
  show ?case
    by (rule linked_keeps [OF step_unconnected(2) connect_keeps [OF step_unconnected(1)]])
      (simp add: pending_handles_def connect_pending [OF step_unconnected(1)])
next
  case (step_look env i uo r uo' ws)
  obtain c uo1 where c: "credential_store i uo = (c, uo1)" by fastforce
  have "uo' = uo1" using step_look(1) c by (auto simp: credential_summary_def split: sum.splits option.splits)
  with c show ?case
    by (intro linked_keeps [OF step_look(2)])
      (auto simp: pending_handles_def credential_store_pending [OF c] credential_store_keeps(1) [OF c])
next
  case (step_clear env i uo r uo' ws)
  have "uo_pending uo' = discard_server i (uo_pending uo)"
    using step_clear(1) by (auto simp: clear_credentials_def Let_def split: option.splits sum.splits prod.splits)
  then have sub: "(j, h) \<in> pending_handles uo \<and> j \<noteq> i" if "(j, h) \<in> pending_handles uo'" for j h
    using that by (force simp: pending_handles_def discard_server_def hm_retain_def)
  have "store_is uo' j h" if "(j, h) \<in> pending_handles uo'" for j h
    using sub [OF that] step_clear(2) store_is_keeps [OF _ clear_keeps [OF step_clear(1)], of j h]
    by (auto simp: linked_def)
  then show ?case by (auto simp: linked_def)
next
  case (step_drop uo ws gone)
  then show ?case by (simp add: linked_def)
qed

lemma linked_init: "oauth_init s \<Longrightarrow> linked s"
  by (auto simp: oauth_init_def linked_def pending_handles_def upstream_oauth_new_def pending_new_def)

interpretation linked: invariant_of oauth_init oauth_step linked
  by unfold_locales (erule linked_init, rule linked_step)

lemma handle_save_load:
  assumes "handle_save env h c uo = (True, uo')" and "store_is uo i h"
    and "aead_ok (ov_crypto env) {i}" and "\<And>n. ov_random env = Some n \<Longrightarrow> length n = NONCE_LEN"
    and "\<And>p. ov_to_json env c = Some p \<Longrightarrow> ov_of_json env p = Some c" and "ov_fault env ''get_sealed'' = None"
  shows "handle_load env h uo' = Inr (Some c)"
proof (cases h)
  case (Memory a)
  then show ?thesis using assms(1) by (auto simp: handle_save_def handle_load_def)
next
  case (Sealed j)
  then obtain rows key where k: "j = i" "uo_rows uo = Some rows" "uo_key uo = Some key"
    using assms(2) by (auto simp: store_is_iff)
  then obtain rows' where "sealed_save env key i c rows = (True, rows')" "uo' = uo\<lparr>uo_rows := Some rows'\<rparr>"
    using assms(1) Sealed by (auto simp: handle_save_def Let_def split: prod.splits)
  with k Sealed show ?thesis
    using sealed_row_loads [OF assms(3) _ _ assms(4-6), of i i key rows rows'] by (simp add: handle_load_def)
qed


section \<open>Runs\<close>

definition first_byte :: "bytes \<Rightarrow> u8" where
  "first_byte a = (case a of [] \<Rightarrow> 0 | x # _ \<Rightarrow> x)"

text \<open>A stand-in for the cipher whose tag is the first byte of the associated data, and hex for base64.\<close>

definition example_aead :: aead where
  "example_aead =
     \<lparr>cr_seal = (\<lambda>k n a p. Some (p @ replicate 16 (first_byte a))),
      cr_open = (\<lambda>k n a c. if drop (length c - 16) c = replicate 16 (first_byte a) then Some (take (length c - 16) c) else None),
      cr_key_ok = (\<lambda>_. True), cr_encode = hex, cr_decode = decode_pairs\<rparr>"

definition example_credentials :: stored_credentials where
  "example_credentials =
     \<lparr>cd_client_id = ''c'', cd_token_response = Some \<lparr>tk_access_token = ''t'', tk_expires_in = None\<rparr>,
      cd_token_received_at = None\<rparr>"

definition example_oauth_env :: oauth_env where
  "example_oauth_env =
     \<lparr>ov_crypto = example_aead, ov_random = Some (replicate 12 0), ov_to_json = (\<lambda>_. Some [1]),
      ov_of_json = (\<lambda>_. Some example_credentials), ov_fault = (\<lambda>_. None), ov_url = (\<lambda>_. None), ov_query_pairs = (\<lambda>_. None),
      ov_now = 0, ov_manager = (\<lambda>_. True), ov_metadata = (\<lambda>_. None), ov_session = (\<lambda>_. None),
      ov_exchange = (\<lambda>_ _ _ _. None), ov_initialize = (\<lambda>_. (InitLoaded, [])), ov_client_secret = (\<lambda>_. True),
      ov_access_token = (InitLoaded, []), ov_datetime_ok = (\<lambda>_. True)\<rparr>"

lemma trim_hex: "trim (hex b) = hex b"
proof (rule trim_stored)
  have "stored_char c" if "lower_hex c" for c
    using that by (auto simp: lower_hex_def stored_char_def segment_char_def is_ascii_alphanumeric_def ascii_lower_def Let_def)
  then show "list_all stored_char (hex b)" using lower_hex_hex [of b] by (auto simp: list_all_iff)
qed

lemma example_aead_ok: "aead_ok example_aead {''a'', ''b''}"
  by (auto simp: aead_ok_def example_aead_def trim_hex decode_pairs_hex TAG_LEN_def bytes_of_def first_byte_def)

theorem sealed_credentials_bound_witness:
  "\<exists>rows'. sealed_save example_oauth_env [] ''a'' example_credentials [] = (True, rows') \<and>
     load_checked example_oauth_env [] ''a'' rows' = Inr (Some example_credentials) \<and>
     load_checked example_oauth_env [] ''b'' [(''b'', the (map_of rows' ''a''))] = Inl Unreadable"
proof -
  obtain rows' where s: "sealed_save example_oauth_env [] ''a'' example_credentials [] = (True, rows')"
    "map_of rows' ''a'' \<noteq> None"
    by (simp add: sealed_save_def example_oauth_env_def encrypt_def example_aead_def put_sealed_credentials_def sql_upsert_def)
  have "load_checked example_oauth_env [] b moved = (if b = ''a'' then Inr (Some example_credentials) else Inl Unreadable)"
    if "b \<in> {''a'', ''b''}" "map_of moved b = map_of rows' ''a''" for b moved
    using that example_aead_ok
    by (intro sealed_credentials_bound [where ids = "{''a'', ''b''}", OF _ _ _ _ _ _ s(1)])
      (auto simp: example_oauth_env_def NONCE_LEN_def)
  from this [of "''a''" rows'] this [of "''b''" "[(''b'', the (map_of rows' ''a''))]"] s show ?thesis by auto
qed


definition example_login_env :: oauth_env where
  "example_login_env =
     example_oauth_env\<lparr>ov_metadata := (\<lambda>_. Some (\<lparr>om_authorization_endpoint = ''u'', om_token_endpoint = ''u'',
         om_registration_endpoint = None\<rparr>, True)),
       ov_url := (\<lambda>_. Some \<lparr>pu_scheme = ''https'', pu_host_str = Some ''h''\<rparr>),
       ov_session := (\<lambda>_. Some (''u'', 0)), ov_query_pairs := (\<lambda>_. Some [(''state'', ''s'')]),
       ov_exchange := (\<lambda>_ _ _ _. Some example_credentials)\<rparr>"

definition example_oauth_server :: mcp_server_config where
  "example_oauth_server =
     \<lparr>ms_id = ''a'', ms_domain = ''d'', ms_provider = ''p'', ms_url = ''u'', ms_description = [],
      ms_auth = AuthOAuth AuthorizationCode (Some ''c'') None [], ms_security = default_security_config,
      ms_health_check_enabled = True, ms_limits = None\<rparr>"



end
