(* ===== verification/AdminWrite.thy ===== *)
theory AdminWrite
  imports UpstreamOAuth McpRegistry Limits KeyRegistry Catalog
begin

text \<open>
  The write paths of the admin API (\<open>src/admin/crud.rs\<close>, \<open>resource_keys.rs\<close>, \<open>tokens.rs\<close>, \<open>mcp.rs\<close>,
  \<open>metadata.rs\<close>) and the shared state they change (\<open>src/http/state.rs\<close>, \<open>src/http/lifecycle.rs\<close>).
  The handlers hold the admin write lock, so they are functions on the state. What runs beside them
  without the lock are tool calls: \<open>swap_config_and_catalog\<close> is split into the part that reads the old
  state and the part that installs the new one, so that a call can come in between.
\<close>

section \<open>The application state (http/state.rs)\<close>

record ('g, 'p) app_state =
  ap_config :: gateway_config
  ap_catalog :: tool_catalog
  ap_limits :: "'g limit_registry"
  ap_auth :: gateway_auth
  ap_pools :: "key_pool_registry option"
  ap_registry :: "'p mcp_entry list option"
  ap_pins :: baseline
  ap_quarantined :: quarantine
  ap_store :: "config_db option"
  ap_oauth :: "upstream_oauth option"

text \<open>
  The outside world of one request: the OpenAPI files, the rate limiter, SHA-256, the secrets, the clocks,
  the outcome of each SQL statement (by its name and, in a loop, its number), serde, the MCP upstream and
  the random bytes.
\<close>

record ('g, 'p) admin_env =
  ae_openapi :: openapi_env
  ae_governor :: "'g governor"
  ae_sha :: sha256
  ae_resolve :: secret_resolver
  ae_snap_at :: "string \<Rightarrow> instant"
  ae_restore_at :: "string \<Rightarrow> nat \<Rightarrow> instant"
  ae_now :: datetime
  ae_clock :: "nat \<Rightarrow> datetime"
  ae_fault :: "string \<Rightarrow> nat \<Rightarrow> store_error option"
  ae_codec :: row_codec
  ae_ser :: "json \<Rightarrow> string"
  ae_server :: "'p server_env"
  ae_servers :: "nat \<Rightarrow> 'p server_env"
  ae_url :: full_url_parser
  ae_random :: "u8 list"
  ae_issue_body :: "string \<Rightarrow> datetime option option"
  ae_json_body :: "string \<Rightarrow> json option"
  ae_oauth :: oauth_env

definition app_state_new :: "gateway_config \<Rightarrow> tool_catalog \<Rightarrow> ('g, 'p) app_state" where
  "app_state_new config catalog =
     \<lparr>ap_config = config, ap_catalog = catalog,
      ap_limits = \<lparr>lr_upstreams = Map.empty, lr_keys = Map.empty, lr_usage = Map.empty\<rparr>,
      ap_auth = from_config_unresolved config, ap_pools = None, ap_registry = None, ap_pins = [],
      ap_quarantined = Map.empty, ap_store = None, ap_oauth = None\<rparr>"

section \<open>Swapping the configuration (crud.rs, resource_keys.rs)\<close>

definition invalid_key_pool :: "key_pool_error \<Rightarrow> asterlane_error" where
  "invalid_key_pool e = internal AdminInvalidQuery (key_pool_error_msg e)"

definition key_pools_from_config :: "gateway_config \<Rightarrow> asterlane_error + key_pool_registry option" where
  "key_pools_from_config config =
     (if list_ex (\<lambda>r. is_oauth (ar_auth r)) (gc_api_resources config)
      then Inl (internal AdminInvalidQuery ''auth type oauth is only supported for mcp servers'')
      else map_err invalid_key_pool (registry_from_config config))"

definition install_key_pools ::
  "('g, 'p) admin_env \<Rightarrow> key_pool_registry option \<Rightarrow> key_pool_registry option \<Rightarrow> key_pool_registry option" where
  "install_key_pools env old new =
     (case (new, old) of
        (Some n, Some o') \<Rightarrow> Some (fst (carry_runtime_from (ae_snap_at env) (ae_restore_at env) n o'))
      | _ \<Rightarrow> new)"

text \<open>The tools of the MCP servers that stay, with their upstream descriptions.\<close>

definition kept_mcp_tools :: "gateway_config \<Rightarrow> tool_catalog \<Rightarrow> wrapped_tool list" where
  "kept_mcp_tools new_config old =
     map (\<lambda>t. case original_description old (wire t) of Some d \<Rightarrow> t\<lparr>wt_description := d\<rparr> | None \<Rightarrow> t)
       (filter (\<lambda>t. wt_resource_id t \<in> ms_id ` set (gc_mcp_servers new_config)) (cat_tools old))"

definition carry_catalog :: "gateway_config \<Rightarrow> tool_catalog \<Rightarrow> tool_catalog \<Rightarrow> tool_catalog" where
  "carry_catalog new_config old new =
     extend_with_mcp_tools (load_description_overrides new (cat_overrides old)) (kept_mcp_tools new_config old)"

record 'g swap_parts =
  sw_catalog :: tool_catalog
  sw_limits :: "'g limit_registry"
  sw_auth :: gateway_auth
  sw_pools :: "key_pool_registry option"

definition swap_prepare ::
  "('g, 'p) admin_env \<Rightarrow> ('g, 'p) app_state \<Rightarrow> gateway_config \<Rightarrow> asterlane_error + 'g swap_parts" where
  "swap_prepare env st new_config =
     and_then (map_err ErrCatalog (catalog_from_config (ae_openapi env) new_config)) (\<lambda>catalog.
     and_then (limits_from_config (ae_governor env) new_config) (\<lambda>limits.
     and_then (auth_from_config (ae_sha env) (ae_resolve env) new_config) (\<lambda>auth.
     and_then (key_pools_from_config new_config) (\<lambda>pools.
       Inr \<lparr>sw_catalog = carry_catalog new_config (ap_catalog st) catalog,
            sw_limits = carry_counts_from (ap_limits st) limits, sw_auth = auth, sw_pools = pools\<rparr>))))"

definition swap_install ::
  "('g, 'p) admin_env \<Rightarrow> gateway_config \<Rightarrow> 'g swap_parts \<Rightarrow> ('g, 'p) app_state \<Rightarrow> ('g, 'p) app_state" where
  "swap_install env new_config parts st =
     st\<lparr>ap_config := new_config, ap_catalog := sw_catalog parts, ap_limits := sw_limits parts,
        ap_auth := sw_auth parts, ap_pools := install_key_pools env (ap_pools st) (sw_pools parts)\<rparr>"

definition swap_config_and_catalog ::
  "('g, 'p) admin_env \<Rightarrow> ('g, 'p) app_state \<Rightarrow> gateway_config \<Rightarrow> asterlane_error + ('g, 'p) app_state" where
  "swap_config_and_catalog env st new_config =
     and_then (swap_prepare env st new_config) (\<lambda>parts. Inr (swap_install env new_config parts st))"

section \<open>Best-effort writes to the store\<close>

definition with_store :: "(config_db \<Rightarrow> config_db) \<Rightarrow> ('g, 'p) app_state \<Rightarrow> ('g, 'p) app_state" where
  "with_store f st = st\<lparr>ap_store := map_option f (ap_store st)\<rparr>"

definition persist_resource :: "('g, 'p) admin_env \<Rightarrow> api_resource \<Rightarrow> ('g, 'p) app_state \<Rightarrow> ('g, 'p) app_state" where
  "persist_resource env r =
     with_store (\<lambda>db. snd (insert_resource (ae_fault env ''insert_resource'' 0) (to_db_resource (ae_codec env) r) db))"

definition update_resource_db :: "('g, 'p) admin_env \<Rightarrow> api_resource \<Rightarrow> ('g, 'p) app_state \<Rightarrow> ('g, 'p) app_state" where
  "update_resource_db env r =
     with_store (\<lambda>db. snd (update_resource_row (ae_fault env ''update_resource'' 0) (to_db_resource (ae_codec env) r) db))"

definition persist_upstream_keys :: "('g, 'p) admin_env \<Rightarrow> api_resource \<Rightarrow> ('g, 'p) app_state \<Rightarrow> ('g, 'p) app_state" where
  "persist_upstream_keys env r =
     with_store (\<lambda>db. snd (replace_upstream_keys_for_resource (ae_fault env ''upstream_keys'') (ar_id r)
       (upstream_key_records r) db))"

definition delete_upstream_keys :: "('g, 'p) admin_env \<Rightarrow> string \<Rightarrow> ('g, 'p) app_state \<Rightarrow> ('g, 'p) app_state" where
  "delete_upstream_keys env rid =
     with_store (\<lambda>db. snd (delete_upstream_keys_for_resource (ae_fault env ''upstream_keys'' 0) rid db))"

definition persist_proxy_key :: "('g, 'p) admin_env \<Rightarrow> proxy_key \<Rightarrow> ('g, 'p) app_state \<Rightarrow> ('g, 'p) app_state" where
  "persist_proxy_key env k =
     with_store (\<lambda>db. snd (insert_proxy_key (ae_fault env ''insert_proxy_key'' 0) (to_db_proxy_key (ae_codec env) k) db))"

definition update_proxy_key_db :: "('g, 'p) admin_env \<Rightarrow> proxy_key \<Rightarrow> ('g, 'p) app_state \<Rightarrow> ('g, 'p) app_state" where
  "update_proxy_key_db env k =
     with_store (\<lambda>db. snd (update_proxy_key_row (ae_fault env ''update_proxy_key'' 0) (to_db_proxy_key (ae_codec env) k) db))"

definition upsert_proxy_key_db :: "('g, 'p) admin_env \<Rightarrow> proxy_key \<Rightarrow> ('g, 'p) app_state \<Rightarrow> ('g, 'p) app_state" where
  "upsert_proxy_key_db env k =
     with_store (\<lambda>db.
       let row = to_db_proxy_key (ae_codec env) k
       in case update_proxy_key_row (ae_fault env ''update_proxy_key'' 0) row db of
            (Inr False, db1) \<Rightarrow> snd (insert_proxy_key (ae_fault env ''insert_proxy_key'' 0) row db1)
          | (_, db1) \<Rightarrow> db1)"

definition persist_mcp_server ::
  "('g, 'p) admin_env \<Rightarrow> mcp_server_config \<Rightarrow> bool \<Rightarrow> ('g, 'p) app_state \<Rightarrow> ('g, 'p) app_state" where
  "persist_mcp_server env s is_create =
     with_store (\<lambda>db.
       let row = to_db_server (ae_codec env) s
       in if is_create then snd (insert_mcp_server (ae_fault env ''insert_mcp_server'' 0) row db)
          else snd (update_mcp_server (ae_fault env ''update_mcp_server'' 0) row db))"

definition record_audit ::
  "('g, 'p) admin_env \<Rightarrow> string \<Rightarrow> string \<Rightarrow> string \<Rightarrow> string \<Rightarrow> ('g, 'p) app_state \<Rightarrow> ('g, 'p) app_state" where
  "record_audit env admin action target_type target_id =
     with_store (\<lambda>db.
       if ae_fault env ''insert_security_event'' 0 \<noteq> None then db
       else db\<lparr>db_security_events := db_security_events db @
              [\<lparr>se_timestamp = ae_now env, se_resource_id = (if target_type = ''resource'' then target_id else []),
                se_tool_name = None, se_kind = AdminAudit, se_severity = SevInfo,
                se_details = JObject [(''admin_key_id'', JString admin), (''action'', JString action),
                  (''target_type'', JString target_type), (''target_id'', JString target_id)]\<rparr>]\<rparr>)"

section \<open>Resources (crud.rs)\<close>

record resource_write_params =
  rw_id :: string
  rw_domain :: string
  rw_provider :: string
  rw_base_url :: string
  rw_description :: string
  rw_limits :: "upstream_limits option"
  rw_auth :: "upstream_auth option"
  rw_key_pool :: "key_pool_config option"

definition apply_create :: "resource_write_params \<Rightarrow> upstream_auth \<times> key_pool_config option" where
  "apply_create input = (case rw_auth input of Some a \<Rightarrow> a | None \<Rightarrow> AuthNone, rw_key_pool input)"

definition api_resource_from_input :: "resource_write_params \<Rightarrow> api_resource" where
  "api_resource_from_input input =
     (let (auth, key_pool) = apply_create input
      in \<lparr>ar_id = rw_id input, ar_domain = rw_domain input, ar_provider = rw_provider input,
          ar_base_url = rw_base_url input, ar_description = rw_description input, ar_auth = auth,
          ar_key_pool = key_pool, ar_endpoints = [], ar_discovery = None, ar_security = default_security_config,
          ar_limits = rw_limits input\<rparr>)"

definition apply_update :: "resource_write_params \<Rightarrow> api_resource \<Rightarrow> api_resource" where
  "apply_update input r =
     r\<lparr>ar_domain := rw_domain input, ar_provider := rw_provider input, ar_base_url := rw_base_url input,
       ar_description := rw_description input, ar_limits := rw_limits input,
       ar_auth := (case rw_auth input of Some a \<Rightarrow> a | None \<Rightarrow> ar_auth r),
       ar_key_pool := (case rw_key_pool input of Some p \<Rightarrow> Some p | None \<Rightarrow> ar_key_pool r)\<rparr>"

definition resource_exists :: "string \<Rightarrow> asterlane_error" where
  "resource_exists i = internal AdminConflict (''resource '' @ quoted i @ '' already exists'')"

definition resource_not_found :: "string \<Rightarrow> asterlane_error" where
  "resource_not_found i = internal AdminNotFound (''resource '' @ quoted i @ '' not found'')"

type_synonym ('g, 'p, 'a) handler = "('g, 'p) app_state \<Rightarrow> (asterlane_error + 'a) \<times> ('g, 'p) app_state"

definition create_resource ::
  "('g, 'p) admin_env \<Rightarrow> string \<Rightarrow> resource_write_params \<Rightarrow> ('g, 'p, string) handler" where
  "create_resource env admin input st =
     (let config = ap_config st
      in if list_ex (\<lambda>r. ar_id r = rw_id input) (gc_api_resources config)
         then (Inl (resource_exists (rw_id input)), st)
         else
           (let r = api_resource_from_input input
            in case swap_config_and_catalog env st (config\<lparr>gc_api_resources := gc_api_resources config @ [r]\<rparr>) of
                 Inl e \<Rightarrow> (Inl e, st)
               | Inr st1 \<Rightarrow>
                   (Inr (rw_id input),
                    record_audit env admin ''create'' ''resource'' (rw_id input)
                      (persist_upstream_keys env r (persist_resource env r st1)))))"

definition update_resource ::
  "('g, 'p) admin_env \<Rightarrow> string \<Rightarrow> string \<Rightarrow> resource_write_params \<Rightarrow> ('g, 'p, string) handler" where
  "update_resource env admin i input st =
     (let config = ap_config st
      in case resource_of config i of
           None \<Rightarrow> (Inl (resource_not_found i), st)
         | Some r0 \<Rightarrow>
             (let r = apply_update input r0
              in case swap_config_and_catalog env st
                     (config\<lparr>gc_api_resources :=
                        update_first (\<lambda>r. ar_id r = i) (apply_update input) (gc_api_resources config)\<rparr>) of
                   Inl e \<Rightarrow> (Inl e, st)
                 | Inr st1 \<Rightarrow>
                     (Inr i, record_audit env admin ''update'' ''resource'' i
                        (persist_upstream_keys env r (update_resource_db env r st1)))))"

definition delete_resource :: "('g, 'p) admin_env \<Rightarrow> string \<Rightarrow> string \<Rightarrow> ('g, 'p, string) handler" where
  "delete_resource env admin i st =
     (let config = ap_config st
      in if \<not> list_ex (\<lambda>r. ar_id r = i) (gc_api_resources config) then (Inl (resource_not_found i), st)
         else
           (let st1 = with_store (\<lambda>db. snd (delete_resource_row (ae_fault env ''delete_resource'' 0) i db))
                        (delete_upstream_keys env i st)
            in case swap_config_and_catalog env st1
                   (config\<lparr>gc_api_resources := filter (\<lambda>r. ar_id r \<noteq> i) (gc_api_resources config)\<rparr>) of
                 Inl e \<Rightarrow> (Inl e, st1)
               | Inr st2 \<Rightarrow> (Inr i, record_audit env admin ''delete'' ''resource'' i st2)))"

section \<open>Gateway keys (crud.rs)\<close>

record proxy_key_write_params =
  kw_id :: string
  kw_display_name :: string
  kw_allowed_tools :: "string list"
  kw_denied_tools :: "string list"
  kw_allowed_servers :: "string list"
  kw_allowed_tool_names :: "string list"
  kw_limits :: "key_limits option"
  kw_default_tool_page_size :: nat

definition proxy_key_from_input :: "proxy_key_write_params \<Rightarrow> proxy_key" where
  "proxy_key_from_input input =
     \<lparr>pk_id = kw_id input, pk_display_name = kw_display_name input, pk_allowed_tools = kw_allowed_tools input,
      pk_denied_tools = kw_denied_tools input, pk_allowed_servers = kw_allowed_servers input,
      pk_allowed_tool_names = kw_allowed_tool_names input, pk_limits = kw_limits input, pk_token_ref = None,
      pk_token_digest = None, pk_expires_at = None, pk_default_tool_page_size = kw_default_tool_page_size input,
      pk_discovery_mode = None, pk_response_format = None\<rparr>"

definition apply_key_update :: "proxy_key_write_params \<Rightarrow> proxy_key \<Rightarrow> proxy_key" where
  "apply_key_update input k =
     k\<lparr>pk_display_name := kw_display_name input, pk_allowed_tools := kw_allowed_tools input,
       pk_denied_tools := kw_denied_tools input, pk_allowed_servers := kw_allowed_servers input,
       pk_allowed_tool_names := kw_allowed_tool_names input, pk_limits := kw_limits input,
       pk_default_tool_page_size := kw_default_tool_page_size input\<rparr>"

definition key_exists :: "string \<Rightarrow> asterlane_error" where
  "key_exists i = internal AdminConflict (''proxy key '' @ quoted i @ '' already exists'')"

definition key_not_found :: "string \<Rightarrow> asterlane_error" where
  "key_not_found i = internal AdminNotFound (''proxy key '' @ quoted i @ '' not found'')"

text \<open>The three handlers that change one key in place differ in the change and in how it is stored.\<close>

definition change_key ::
  "('g, 'p) admin_env \<Rightarrow> string \<Rightarrow> (proxy_key \<Rightarrow> string) \<Rightarrow> string \<Rightarrow> (proxy_key \<Rightarrow> proxy_key) \<Rightarrow>
   (proxy_key \<Rightarrow> ('g, 'p) app_state \<Rightarrow> ('g, 'p) app_state) \<Rightarrow> 'a \<Rightarrow> ('g, 'p, 'a) handler" where
  "change_key env admin action i f persist response st =
     (let config = ap_config st
      in case proxy_key_of config i of
           None \<Rightarrow> (Inl (key_not_found i), st)
         | Some k0 \<Rightarrow>
             (case swap_config_and_catalog env st
                  (config\<lparr>gc_proxy_keys := update_first (\<lambda>k. pk_id k = i) f (gc_proxy_keys config)\<rparr>) of
                Inl e \<Rightarrow> (Inl e, st)
              | Inr st1 \<Rightarrow>
                  (Inr response, record_audit env admin (action k0) ''proxy_key'' i (persist (f k0) st1))))"

definition create_proxy_key ::
  "('g, 'p) admin_env \<Rightarrow> string \<Rightarrow> proxy_key_write_params \<Rightarrow> ('g, 'p, string) handler" where
  "create_proxy_key env admin input st =
     (let config = ap_config st
      in if list_ex (\<lambda>k. pk_id k = kw_id input) (gc_proxy_keys config) then (Inl (key_exists (kw_id input)), st)
         else
           (let k = proxy_key_from_input input
            in case swap_config_and_catalog env st (config\<lparr>gc_proxy_keys := gc_proxy_keys config @ [k]\<rparr>) of
                 Inl e \<Rightarrow> (Inl e, st)
               | Inr st1 \<Rightarrow>
                   (Inr (kw_id input),
                    record_audit env admin ''create'' ''proxy_key'' (kw_id input) (persist_proxy_key env k st1))))"

definition update_proxy_key ::
  "('g, 'p) admin_env \<Rightarrow> string \<Rightarrow> string \<Rightarrow> proxy_key_write_params \<Rightarrow> ('g, 'p, string) handler" where
  "update_proxy_key env admin i input =
     change_key env admin (\<lambda>_. ''update'') i (apply_key_update input) (update_proxy_key_db env) i"

definition delete_proxy_key :: "('g, 'p) admin_env \<Rightarrow> string \<Rightarrow> string \<Rightarrow> ('g, 'p, string) handler" where
  "delete_proxy_key env admin i st =
     (let config = ap_config st
      in if \<not> list_ex (\<lambda>k. pk_id k = i) (gc_proxy_keys config) then (Inl (key_not_found i), st)
         else
           (let st1 = with_store (\<lambda>db. snd (delete_proxy_key_row (ae_fault env ''delete_proxy_key'' 0) i db)) st
            in case swap_config_and_catalog env st1
                   (config\<lparr>gc_proxy_keys := filter (\<lambda>k. pk_id k \<noteq> i) (gc_proxy_keys config)\<rparr>) of
                 Inl e \<Rightarrow> (Inl e, st1)
               | Inr st2 \<Rightarrow> (Inr i, record_audit env admin ''delete'' ''proxy_key'' i st2)))"

section \<open>Tokens (tokens.rs)\<close>

definition parse_expires_at :: "('g, 'p) admin_env \<Rightarrow> string \<Rightarrow> asterlane_error + datetime option" where
  "parse_expires_at env body =
     (if body = [] then Inr None
      else
        and_then (ok_or (internal AdminInvalidQuery
            (''invalid body: expected {'' @ [CHR 0x22] @ ''expires_at'' @ [CHR 0x22] @ '': '' @ [CHR 0x22] @ ''RFC3339'' @
             [CHR 0x22] @ ''} or empty'')) (ae_issue_body env body)) (\<lambda>expires_at.
          case expires_at of
            Some e \<Rightarrow>
              if e \<le> ae_now env then Inl (internal AdminInvalidQuery ''expires_at must be in the future'')
              else Inr (Some e)
          | None \<Rightarrow> Inr None))"

definition issue_action :: "proxy_key \<Rightarrow> string" where
  "issue_action k = (if pk_token_ref k \<noteq> None \<or> pk_token_digest k \<noteq> None then ''rotate_token'' else ''issue_token'')"

definition with_token :: "string \<Rightarrow> datetime option \<Rightarrow> proxy_key \<Rightarrow> proxy_key" where
  "with_token digest_hex expires_at k =
     k\<lparr>pk_token_ref := None, pk_token_digest := Some digest_hex, pk_expires_at := expires_at\<rparr>"

definition without_token :: "proxy_key \<Rightarrow> proxy_key" where
  "without_token k = k\<lparr>pk_token_ref := None, pk_token_digest := None, pk_expires_at := None\<rparr>"

definition issue_token ::
  "('g, 'p) admin_env \<Rightarrow> string \<Rightarrow> string \<Rightarrow> string \<Rightarrow> ('g, 'p, string \<times> datetime option) handler" where
  "issue_token env admin i body st =
     (case parse_expires_at env body of
        Inl e \<Rightarrow> (Inl e, st)
      | Inr expires_at \<Rightarrow>
          (let token = generate_token (ae_random env)
           in change_key env admin issue_action i (with_token (hex (ae_sha env token)) expires_at)
                (upsert_proxy_key_db env) (token, expires_at) st))"

definition revoke_token :: "('g, 'p) admin_env \<Rightarrow> string \<Rightarrow> string \<Rightarrow> ('g, 'p, unit) handler" where
  "revoke_token env admin i =
     change_key env admin (\<lambda>_. ''revoke_token'') i without_token (upsert_proxy_key_db env) ()"

section \<open>MCP servers (admin/mcp.rs)\<close>

record mcp_server_write_params =
  mw_id :: "string option"
  mw_domain :: string
  mw_provider :: string
  mw_url :: string
  mw_description :: string
  mw_auth :: "upstream_auth option"
  mw_security :: "security_config option"
  mw_limits :: "upstream_limits option"
  mw_health_check :: "bool option"

definition admin_invalid :: "string \<Rightarrow> asterlane_error" where
  "admin_invalid m = internal AdminInvalidQuery m"

definition server_not_found :: "string \<Rightarrow> asterlane_error" where
  "server_not_found i = internal AdminNotFound (''mcp server '' @ quoted i @ '' not found'')"

definition validate_auth :: "upstream_auth \<Rightarrow> asterlane_error + unit" where
  "validate_auth auth =
     (case auth of
        AuthBearer token_ref \<Rightarrow>
          if trim token_ref = [] then Inl (admin_invalid ''auth.token_ref is required for bearer auth'') else Inr ()
      | AuthHeader name value_ref \<Rightarrow>
          if trim name = [] then Inl (admin_invalid ''auth.name is required for header auth'')
          else if trim value_ref = [] then Inl (admin_invalid ''auth.value_ref is required for header auth'')
          else Inr ()
      | _ \<Rightarrow> Inr ())"

definition into_config ::
  "full_url_parser \<Rightarrow> string option \<Rightarrow> oauth_config option \<Rightarrow> mcp_server_write_params \<Rightarrow>
   asterlane_error + mcp_server_config" where
  "into_config parse path_id oauth input =
     (let i = (case path_id of Some p \<Rightarrow> p | None \<Rightarrow> (case mw_id input of Some j \<Rightarrow> j | None \<Rightarrow> []));
          auth = (case mw_auth input of Some a \<Rightarrow> a | None \<Rightarrow> AuthNone)
      in case find (\<lambda>(_, v). trim v = [])
             [(''id'', i), (''domain'', mw_domain input), (''provider'', mw_provider input), (''url'', mw_url input)] of
           Some (field, _) \<Rightarrow> Inl (admin_invalid (field @ '' is required''))
         | None \<Rightarrow>
             and_then (validate_auth auth) (\<lambda>_.
             and_then (map_err (\<lambda>m. admin_invalid (''invalid oauth auth: '' @ m))
                 (validate_mcp_oauth parse auth (mw_url input) oauth)) (\<lambda>_.
               Inr \<lparr>ms_id = i, ms_domain = mw_domain input, ms_provider = mw_provider input, ms_url = mw_url input,
                    ms_description = mw_description input, ms_auth = auth,
                    ms_security = (case mw_security input of Some s \<Rightarrow> s | None \<Rightarrow> default_security_config),
                    ms_health_check_enabled = (case mw_health_check input of Some h \<Rightarrow> h | None \<Rightarrow> True),
                    ms_limits = mw_limits input\<rparr>)))"

text \<open>\<open>Display\<close> of an error.\<close>

definition error_display :: "asterlane_error \<Rightarrow> string" where
  "error_display e = (case e of ErrInternal c m _ \<Rightarrow> error_code_str c @ '': '' @ m | _ \<Rightarrow> safe_message e)"

definition validate_limits :: "'g governor \<Rightarrow> gateway_config \<Rightarrow> asterlane_error + unit" where
  "validate_limits gov candidate =
     and_then (map_err (\<lambda>e. admin_invalid (''invalid limits: '' @ error_display e)) (limits_from_config gov candidate))
       (\<lambda>_. Inr ())"

definition require_registry :: "('g, 'p) app_state \<Rightarrow> asterlane_error + 'p mcp_entry list" where
  "require_registry st =
     ok_or (internal StoreUnavailable
         (''mcp registry unavailable: start the gateway with at least one mcp server '' @
          ''(mcp_servers or builtin_mcp) to manage servers at runtime'')) (ap_registry st)"

definition sync_catalog_from_registry :: "('g, 'p) app_state \<Rightarrow> ('g, 'p) app_state" where
  "sync_catalog_from_registry st =
     (case ap_registry st of
        None \<Rightarrow> st
      | Some es \<Rightarrow>
          st\<lparr>ap_catalog := replace_mcp_tools (ap_catalog st) (all_wrapped_tools es) (mcp_resource_ids es)\<rparr>)"

definition rebase_integrity_baseline :: "('g, 'p) admin_env \<Rightarrow> ('g, 'p) app_state \<Rightarrow> ('g, 'p) app_state" where
  "rebase_integrity_baseline env st =
     (case ap_registry st of
        None \<Rightarrow> st
      | Some es \<Rightarrow>
          st\<lparr>ap_pins := rebase (ae_ser env) (ae_sha env) (ae_now env) (map snd (all_descriptors es)) (ap_pins st)\<rparr>)"

definition sync_catalog_and_baseline :: "('g, 'p) admin_env \<Rightarrow> ('g, 'p) app_state \<Rightarrow> ('g, 'p) app_state" where
  "sync_catalog_and_baseline env st = rebase_integrity_baseline env (sync_catalog_from_registry st)"

text \<open>
  The tail that creating and updating a server share: the registry has answered, and the new configuration is
  swapped in. The registry is already changed when the swap fails.
\<close>

definition finish_server ::
  "('g, 'p) admin_env \<Rightarrow> string \<Rightarrow> string \<Rightarrow> bool \<Rightarrow> gateway_config \<Rightarrow> mcp_server_config \<Rightarrow>
   (mcp_error + server_health) \<times> 'p mcp_entry list \<Rightarrow> ('g, 'p, server_health) handler" where
  "finish_server env admin action is_create new_config server answer st =
     (let (r, es) = answer; st1 = st\<lparr>ap_registry := Some es\<rparr>
      in case r of
           Inl e \<Rightarrow> (Inl (from_mcp_error e), st1)
         | Inr health \<Rightarrow>
             (case swap_config_and_catalog env st1 new_config of
                Inl e \<Rightarrow> (Inl e, st1)
              | Inr st2 \<Rightarrow>
                  (Inr health,
                   record_audit env admin action ''mcp_server'' (ms_id server)
                     (persist_mcp_server env server is_create (sync_catalog_and_baseline env st2)))))"

definition create_server ::
  "('g, 'p) admin_env \<Rightarrow> string \<Rightarrow> mcp_server_write_params \<Rightarrow> ('g, 'p, server_health) handler" where
  "create_server env admin input st =
     (let config = ap_config st
      in case into_config (ae_url env) None (gc_oauth config) input of
           Inl e \<Rightarrow> (Inl e, st)
         | Inr server \<Rightarrow>
             if mcp_server_of config (ms_id server) \<noteq> None \<or> resource_of config (ms_id server) \<noteq> None
             then (Inl (admin_invalid (''id '' @ quoted (ms_id server) @ '' already exists'')), st)
             else
               (let new_config = config\<lparr>gc_mcp_servers := gc_mcp_servers config @ [server]\<rparr>
                in case and_then (validate_limits (ae_governor env) new_config) (\<lambda>_. require_registry st) of
                     Inl e \<Rightarrow> (Inl e, st)
                   | Inr es \<Rightarrow>
                       finish_server env admin ''create'' True new_config server
                         (add_server (ae_server env) server es es) st))"

definition admin_update_server ::
  "('g, 'p) admin_env \<Rightarrow> string \<Rightarrow> string \<Rightarrow> mcp_server_write_params \<Rightarrow> ('g, 'p, server_health) handler" where
  "admin_update_server env admin i input st =
     (let config = ap_config st
      in case into_config (ae_url env) (Some i) (gc_oauth config) input of
           Inl e \<Rightarrow> (Inl e, st)
         | Inr server0 \<Rightarrow>
             (case mcp_server_of config i of
                None \<Rightarrow> (Inl (server_not_found i), st)
              | Some existing \<Rightarrow>
                  (let server = (if mw_auth input = None then server0\<lparr>ms_auth := ms_auth existing\<rparr> else server0);
                       new_config = config\<lparr>gc_mcp_servers :=
                         update_first (\<lambda>s. ms_id s = i) (\<lambda>_. server) (gc_mcp_servers config)\<rparr>
                   in case and_then (validate_limits (ae_governor env) new_config) (\<lambda>_. require_registry st) of
                        Inl e \<Rightarrow> (Inl e, st)
                      | Inr es \<Rightarrow>
                          finish_server env admin ''update'' False new_config server
                            (update_server (ae_server env) server es es) st)))"

text \<open>A failure to clear the credentials of the removed server is only logged.\<close>

definition clear_server_credentials :: "('g, 'p) admin_env \<Rightarrow> string \<Rightarrow> ('g, 'p) app_state \<Rightarrow> ('g, 'p) app_state" where
  "clear_server_credentials env i st =
     st\<lparr>ap_oauth := map_option (\<lambda>uo. snd (clear_credentials (ae_oauth env) i uo)) (ap_oauth st)\<rparr>"

definition delete_server :: "('g, 'p) admin_env \<Rightarrow> string \<Rightarrow> string \<Rightarrow> ('g, 'p, unit) handler" where
  "delete_server env admin i st =
     (let config = ap_config st
      in if mcp_server_of config i = None then (Inl (server_not_found i), st)
         else
           (let st1 = st\<lparr>ap_registry := map_option (\<lambda>es. snd (remove_server i es)) (ap_registry st)\<rparr>
            in case swap_config_and_catalog env st1
                   (config\<lparr>gc_mcp_servers := filter (\<lambda>s. ms_id s \<noteq> i) (gc_mcp_servers config)\<rparr>) of
                 Inl e \<Rightarrow> (Inl e, st1)
               | Inr st2 \<Rightarrow>
                   (Inr (),
                    record_audit env admin ''delete'' ''mcp_server'' i
                      (clear_server_credentials env i
                        (with_store (\<lambda>db. snd (delete_mcp_server (ae_fault env ''delete_mcp_server'' 0) i db))
                          (rebase_integrity_baseline env st2))))))"

definition admin_probe_server :: "('g, 'p) admin_env \<Rightarrow> string \<Rightarrow> ('g, 'p, server_health) handler" where
  "admin_probe_server env i st =
     (case require_registry st of
        Inl e \<Rightarrow> (Inl e, st)
      | Inr es \<Rightarrow>
          (let (r, es1) = probe_server (ae_server env) i es es; st1 = st\<lparr>ap_registry := Some es1\<rparr>
           in case r of
                Inl e \<Rightarrow> (Inl (from_mcp_error e), st1)
              | Inr health \<Rightarrow> (Inr health, sync_catalog_from_registry st1)))"

section \<open>Descriptions (metadata.rs) and life cycle (lifecycle.rs)\<close>

definition require_store :: "('g, 'p) app_state \<Rightarrow> asterlane_error + config_db" where
  "require_store st =
     ok_or (internal StoreUnavailable ''tool defaults require a configured store'') (ap_store st)"

definition metadata_invalid_body :: asterlane_error where
  "metadata_invalid_body =
     internal AdminInvalidQuery
       (''body must be a JSON object with a non-empty string '' @ quoted ''description'')"

definition parse_object_body :: "('g, 'p) admin_env \<Rightarrow> string \<Rightarrow> asterlane_error + (string \<times> json) list option" where
  "parse_object_body env body =
     (if body = [] then Inr None
      else case ae_json_body env body of
             Some (JObject m) \<Rightarrow> Inr (Some m)
           | Some JNull \<Rightarrow> Inr None
           | _ \<Rightarrow> Inl (internal AdminInvalidQuery ''body must be a JSON object''))"

definition parse_description :: "('g, 'p) admin_env \<Rightarrow> string \<Rightarrow> asterlane_error + string" where
  "parse_description env body =
     and_then (map_err (\<lambda>_. metadata_invalid_body) (parse_object_body env body)) (\<lambda>parsed.
     and_then (ok_or metadata_invalid_body parsed) (\<lambda>m.
       case map_of m ''description'' of
         Some (JString d) \<Rightarrow> if trim d \<noteq> [] then Inr d else Inl metadata_invalid_body
       | _ \<Rightarrow> Inl metadata_invalid_body))"

definition put_metadata :: "('g, 'p) admin_env \<Rightarrow> string \<Rightarrow> string \<Rightarrow> string \<Rightarrow> ('g, 'p, string) handler" where
  "put_metadata env admin name body st =
     (case and_then (parse_description env body) (\<lambda>d. and_then (require_store st) (\<lambda>db. Inr (d, db))) of
        Inl e \<Rightarrow> (Inl e, st)
      | Inr (d, db) \<Rightarrow>
          (case set_tool_metadata (ae_fault env ''set_tool_metadata'' 0) name d (Some admin) db of
             (Inl e, db1) \<Rightarrow> (Inl (from_store_error e), st\<lparr>ap_store := Some db1\<rparr>)
           | (Inr _, db1) \<Rightarrow>
               (Inr name,
                record_audit env admin ''set'' ''tool_metadata'' name
                  (st\<lparr>ap_store := Some db1, ap_catalog := set_description_override (ap_catalog st) name d\<rparr>))))"

definition metadata_not_found :: "string \<Rightarrow> asterlane_error" where
  "metadata_not_found name = internal AdminNotFound (''no metadata for tool '' @ quoted name)"

definition delete_metadata :: "('g, 'p) admin_env \<Rightarrow> string \<Rightarrow> string \<Rightarrow> ('g, 'p, string) handler" where
  "delete_metadata env admin name st =
     (case require_store st of
        Inl e \<Rightarrow> (Inl e, st)
      | Inr db \<Rightarrow>
          (case delete_tool_metadata (ae_fault env ''delete_tool_metadata'' 0) name db of
             (Inl e, db1) \<Rightarrow> (Inl (from_store_error e), st\<lparr>ap_store := Some db1\<rparr>)
           | (Inr False, db1) \<Rightarrow> (Inl (metadata_not_found name), st\<lparr>ap_store := Some db1\<rparr>)
           | (Inr True, db1) \<Rightarrow>
               (Inr name,
                record_audit env admin ''delete'' ''tool_metadata'' name
                  (st\<lparr>ap_store := Some db1, ap_catalog := remove_description_override (ap_catalog st) name\<rparr>))))"

text \<open>The start-up: the stored descriptions become the overrides of the catalog.\<close>

definition load_stored_overrides :: "('g, 'p) admin_env \<Rightarrow> ('g, 'p) app_state \<Rightarrow> ('g, 'p) app_state" where
  "load_stored_overrides env st =
     (case ap_store st of
        None \<Rightarrow> st
      | Some db \<Rightarrow>
          (case list_tool_metadata (ae_fault env ''list_tool_metadata'' 0) db of
             Inl _ \<Rightarrow> st
           | Inr rows \<Rightarrow>
               if rows = [] then st
               else st\<lparr>ap_catalog := load_description_overrides (ap_catalog st)
                        (map_of (rev (map (\<lambda>r. (tm_tool_name r, tm_description r)) rows)))\<rparr>))"

definition reconnect_mcp_server :: "('g, 'p) admin_env \<Rightarrow> string \<Rightarrow> ('g, 'p) app_state \<Rightarrow>
   (mcp_error + server_health) \<times> ('g, 'p) app_state" where
  "reconnect_mcp_server env i st =
     (case ap_registry st of
        None \<Rightarrow> (Inl (McpUnknownServer i), st)
      | Some es \<Rightarrow>
          (let (r, es1) = reconnect (ae_server env) i es es; st1 = st\<lparr>ap_registry := Some es1\<rparr>
           in case r of
                Inl e \<Rightarrow> (Inl e, st1)
              | Inr health \<Rightarrow> (Inr health, sync_catalog_and_baseline env st1)))"

definition run_check_drift :: "('g, 'p) admin_env \<Rightarrow> 'p mcp_entry list \<Rightarrow> ('g, 'p) app_state \<Rightarrow> ('g, 'p) app_state" where
  "run_check_drift env es st =
     (let d = check_drift (ae_ser env) (ae_sha env) (ap_config st)
                (map_option (\<lambda>_ _. ae_fault env ''insert_security_event'' 0 = None) (ap_store st)) (ae_clock env)
                (all_descriptors es)
                \<lparr>ds_pins = ap_pins st, ds_quarantined = ap_quarantined st,
                 ds_persisted = (case ap_store st of Some db \<Rightarrow> db_security_events db | None \<Rightarrow> [])\<rparr>
      in st\<lparr>ap_pins := ds_pins d, ap_quarantined := ds_quarantined d,
            ap_store := map_option (\<lambda>db. db\<lparr>db_security_events := ds_persisted d\<rparr>) (ap_store st)\<rparr>)"

definition refresh_mcp_tools :: "('g, 'p) admin_env \<Rightarrow> ('g, 'p) app_state \<Rightarrow> ('g, 'p) app_state" where
  "refresh_mcp_tools env st =
     (case ap_registry st of
        None \<Rightarrow> st
      | Some es \<Rightarrow>
          (let es1 = snd (refresh True (ae_servers env) es es)
           in run_check_drift env es1 (sync_catalog_from_registry (st\<lparr>ap_registry := Some es1\<rparr>))))"

section \<open>What a swap does\<close>

text \<open>Everything but the store.\<close>

definition in_memory :: "('g, 'p) app_state \<Rightarrow> ('g, 'p) app_state" where
  "in_memory st = st\<lparr>ap_store := None\<rparr>"

lemma in_memory_with_store [frame_simps]: "in_memory (with_store f st) = in_memory st"
  by (simp add: in_memory_def with_store_def)

lemmas store_writers = persist_resource_def update_resource_db_def persist_upstream_keys_def delete_upstream_keys_def
  persist_proxy_key_def update_proxy_key_db_def upsert_proxy_key_db_def persist_mcp_server_def record_audit_def

lemma in_memory_writers [frame_simps]:
  "in_memory (persist_resource env r st) = in_memory st"
  "in_memory (update_resource_db env r st) = in_memory st"
  "in_memory (persist_upstream_keys env r st) = in_memory st"
  "in_memory (delete_upstream_keys env i st) = in_memory st"
  "in_memory (persist_proxy_key env k st) = in_memory st"
  "in_memory (update_proxy_key_db env k st) = in_memory st"
  "in_memory (upsert_proxy_key_db env k st) = in_memory st"
  "in_memory (persist_mcp_server env s b st) = in_memory st"
  "in_memory (record_audit env admin action tt ti st) = in_memory st"
  by (simp_all add: store_writers in_memory_with_store)

lemma in_memory_fields:
  assumes "in_memory st = in_memory st'"
  shows "ap_config st = ap_config st'" "ap_catalog st = ap_catalog st'" "ap_limits st = ap_limits st'"
    "ap_auth st = ap_auth st'" "ap_pools st = ap_pools st'" "ap_registry st = ap_registry st'"
    "ap_pins st = ap_pins st'" "ap_quarantined st = ap_quarantined st'"
  using assms unfolding in_memory_def by (metis app_state.select_convs app_state.surjective app_state.update_convs(9))+

text \<open>
  The configuration is the new one; limits, credentials, key pools and catalog are built from it, with
  the used quotas, the overrides and the run-time state of the keys taken over.
\<close>

definition swapped :: "('g, 'p) admin_env \<Rightarrow> ('g, 'p) app_state \<Rightarrow> gateway_config \<Rightarrow> ('g, 'p) app_state \<Rightarrow> bool" where
  "swapped env st config st' \<longleftrightarrow>
     ap_config st' = config \<and>
     limits_from_config (ae_governor env) config = Inr ((ap_limits st')\<lparr>lr_usage := Map.empty\<rparr>) \<and>
     lr_usage (ap_limits st') = lr_usage (ap_limits st) \<and>
     auth_from_config (ae_sha env) (ae_resolve env) config = Inr (ap_auth st') \<and>
     (\<exists>pools. key_pools_from_config config = Inr pools \<and> ap_pools st' = install_key_pools env (ap_pools st) pools) \<and>
     (\<exists>catalog. catalog_from_config (ae_openapi env) config = Inr catalog \<and>
        ap_catalog st' = carry_catalog config (ap_catalog st) catalog) \<and>
     cat_overrides (ap_catalog st') = cat_overrides (ap_catalog st) \<and>
     ap_registry st' = ap_registry st \<and> ap_pins st' = ap_pins st \<and> ap_quarantined st' = ap_quarantined st"

lemma carry_catalog_overrides [simp]: "cat_overrides (carry_catalog config old new) = cat_overrides old"
  by (simp add: carry_catalog_def extend_with_mcp_tools_def case_prod_beta Let_def)

lemma limits_usage_empty: "limits_from_config gov config = Inr reg \<Longrightarrow> lr_usage reg = Map.empty"
  by (auto simp: limits_from_config_def and_then_Inr_iff)

lemma swap_Inr:
  assumes "swap_config_and_catalog env st config = Inr st1"
  shows "swapped env st config st1 \<and> ap_store st1 = ap_store st"
proof -
  obtain catalog limits auth pools where
    "catalog_from_config (ae_openapi env) config = Inr catalog"
    "limits_from_config (ae_governor env) config = Inr limits"
    "auth_from_config (ae_sha env) (ae_resolve env) config = Inr auth"
    "key_pools_from_config config = Inr pools"
    "st1 = swap_install env config \<lparr>sw_catalog = carry_catalog config (ap_catalog st) catalog,
      sw_limits = carry_counts_from (ap_limits st) limits, sw_auth = auth, sw_pools = pools\<rparr> st"
    using assms by (auto simp: swap_config_and_catalog_def swap_prepare_def and_then_Inr_iff)
  with limits_usage_empty [of "ae_governor env" config limits] show ?thesis
    by (auto simp: swapped_def swap_install_def carry_counts_from_def)
qed

lemma swapped_cong:
  assumes "swapped env st config st1" and "in_memory st2 = in_memory st1" and "in_memory st0 = in_memory st"
  shows "swapped env st0 config st2"
  using assms(1) unfolding swapped_def in_memory_fields [OF assms(2)] in_memory_fields [OF assms(3)] .

section \<open>Configuration writes\<close>

datatype config_op =
    CreateResource resource_write_params
  | UpdateResource string resource_write_params
  | DeleteResource string
  | CreateKey proxy_key_write_params
  | UpdateKey string proxy_key_write_params
  | DeleteKey string
  | IssueToken string string
  | RevokeToken string

definition no_answer :: "(asterlane_error + 'a) \<times> 's \<Rightarrow> (asterlane_error + unit) \<times> 's" where
  "no_answer x = (map_sum id (\<lambda>_. ()) (fst x), snd x)"

fun config_write :: "('g, 'p) admin_env \<Rightarrow> string \<Rightarrow> config_op \<Rightarrow> ('g, 'p, unit) handler" where
  "config_write env admin (CreateResource p) st = no_answer (create_resource env admin p st)"
| "config_write env admin (UpdateResource i p) st = no_answer (update_resource env admin i p st)"
| "config_write env admin (DeleteResource i) st = no_answer (delete_resource env admin i st)"
| "config_write env admin (CreateKey p) st = no_answer (create_proxy_key env admin p st)"
| "config_write env admin (UpdateKey i p) st = no_answer (update_proxy_key env admin i p st)"
| "config_write env admin (DeleteKey i) st = no_answer (delete_proxy_key env admin i st)"
| "config_write env admin (IssueToken i body) st = no_answer (issue_token env admin i body st)"
| "config_write env admin (RevokeToken i) st = no_answer (revoke_token env admin i st)"

text \<open>The specification: when a write applies to a configuration, and what it makes of it.\<close>

definition has_resource :: "gateway_config \<Rightarrow> string \<Rightarrow> bool" where
  "has_resource config i \<longleftrightarrow> i \<in> ar_id ` set (gc_api_resources config)"

definition has_key :: "gateway_config \<Rightarrow> string \<Rightarrow> bool" where
  "has_key config i \<longleftrightarrow> i \<in> pk_id ` set (gc_proxy_keys config)"

fun applies :: "('g, 'p) admin_env \<Rightarrow> config_op \<Rightarrow> gateway_config \<Rightarrow> bool" where
  "applies env (CreateResource p) config \<longleftrightarrow> \<not> has_resource config (rw_id p)"
| "applies env (UpdateResource i p) config \<longleftrightarrow> has_resource config i"
| "applies env (DeleteResource i) config \<longleftrightarrow> has_resource config i"
| "applies env (CreateKey p) config \<longleftrightarrow> \<not> has_key config (kw_id p)"
| "applies env (UpdateKey i p) config \<longleftrightarrow> has_key config i"
| "applies env (DeleteKey i) config \<longleftrightarrow> has_key config i"
| "applies env (IssueToken i body) config \<longleftrightarrow> has_key config i \<and> (\<exists>e. parse_expires_at env body = Inr e)"
| "applies env (RevokeToken i) config \<longleftrightarrow> has_key config i"

definition issued_digest :: "('g, 'p) admin_env \<Rightarrow> string" where
  "issued_digest env = hex (ae_sha env (generate_token (ae_random env)))"

definition issued_expiry :: "('g, 'p) admin_env \<Rightarrow> string \<Rightarrow> datetime option" where
  "issued_expiry env body = (case parse_expires_at env body of Inr e \<Rightarrow> e | Inl _ \<Rightarrow> None)"

fun target :: "('g, 'p) admin_env \<Rightarrow> config_op \<Rightarrow> gateway_config \<Rightarrow> gateway_config" where
  "target env (CreateResource p) config =
     config\<lparr>gc_api_resources := gc_api_resources config @ [api_resource_from_input p]\<rparr>"
| "target env (UpdateResource i p) config =
     config\<lparr>gc_api_resources := update_first (\<lambda>r. ar_id r = i) (apply_update p) (gc_api_resources config)\<rparr>"
| "target env (DeleteResource i) config =
     config\<lparr>gc_api_resources := filter (\<lambda>r. ar_id r \<noteq> i) (gc_api_resources config)\<rparr>"
| "target env (CreateKey p) config = config\<lparr>gc_proxy_keys := gc_proxy_keys config @ [proxy_key_from_input p]\<rparr>"
| "target env (UpdateKey i p) config =
     config\<lparr>gc_proxy_keys := update_first (\<lambda>k. pk_id k = i) (apply_key_update p) (gc_proxy_keys config)\<rparr>"
| "target env (DeleteKey i) config = config\<lparr>gc_proxy_keys := filter (\<lambda>k. pk_id k \<noteq> i) (gc_proxy_keys config)\<rparr>"
| "target env (IssueToken i body) config =
     config\<lparr>gc_proxy_keys := update_first (\<lambda>k. pk_id k = i) (with_token (issued_digest env) (issued_expiry env body))
       (gc_proxy_keys config)\<rparr>"
| "target env (RevokeToken i) config =
     config\<lparr>gc_proxy_keys := update_first (\<lambda>k. pk_id k = i) without_token (gc_proxy_keys config)\<rparr>"

fun deletes :: "config_op \<Rightarrow> bool" where
  "deletes (DeleteResource i) = True"
| "deletes (DeleteKey i) = True"
| "deletes _ = False"

lemma lookups:
  "list_ex (\<lambda>r. ar_id r = i) (gc_api_resources config) \<longleftrightarrow> has_resource config i"
  "list_ex (\<lambda>k. pk_id k = i) (gc_proxy_keys config) \<longleftrightarrow> has_key config i"
  "resource_of config i = None \<longleftrightarrow> \<not> has_resource config i" "proxy_key_of config i = None \<longleftrightarrow> \<not> has_key config i"
  by (auto simp: has_resource_def has_key_def list_ex_iff resource_of_def proxy_key_of_def find_None_iff)

text \<open>The outcome of a write: refused as it does not apply, refused by the swap, or done.\<close>

definition write_outcome ::
  "('g, 'p) admin_env \<Rightarrow> bool \<Rightarrow> bool \<Rightarrow> gateway_config \<Rightarrow> ('g, 'p) app_state \<Rightarrow>
   (asterlane_error + unit) \<times> ('g, 'p) app_state \<Rightarrow> bool" where
  "write_outcome env app del config st out \<longleftrightarrow>
     (case fst out of
        Inl _ \<Rightarrow> (app \<longrightarrow> (\<exists>e. swap_prepare env st config = Inl e)) \<and> in_memory (snd out) = in_memory st \<and>
          (del \<or> snd out = st)
      | Inr _ \<Rightarrow> app \<and> swapped env st config (snd out))"

lemma swap_prepare_store [simp]: "swap_prepare env (with_store f st) config = swap_prepare env st config"
  by (simp add: swap_prepare_def with_store_def)

lemma swap_Inl: "swap_config_and_catalog env st config = Inl e \<longleftrightarrow> swap_prepare env st config = Inl e"
  by (cases "swap_prepare env st config") (simp_all add: swap_config_and_catalog_def)

lemma write_outcomeI:
  assumes "\<And>e. swap_config_and_catalog env before config = Inl e \<Longrightarrow> out = (Inl e, before)"
    and "\<And>after. swap_config_and_catalog env before config = Inr after \<Longrightarrow>
      \<exists>st3 a. out = (Inr a, st3) \<and> in_memory st3 = in_memory after"
    and "in_memory before = in_memory st" and "del \<or> before = st"
  shows "write_outcome env True del config st (no_answer out)"
proof (cases "swap_config_and_catalog env before config")
  case (Inl e)
  have "swap_prepare env before config = swap_prepare env st config"
    by (simp add: swap_prepare_def in_memory_fields [OF assms(3)])
  with Inl assms show ?thesis by (auto simp: write_outcome_def no_answer_def swap_Inl)
next
  case (Inr after)
  then obtain st3 a where "out = (Inr a, st3)" "in_memory st3 = in_memory after" using assms(2) by blast
  moreover have "swapped env before config after" using swap_Inr [OF Inr] ..
  ultimately show ?thesis
    using swapped_cong [of env before config after st3 st] assms(3)
    by (simp add: write_outcome_def no_answer_def)
qed

lemma change_key_outcome:
  assumes "\<And>k st. in_memory (persist k st) = in_memory st"
  shows "write_outcome env (has_key (ap_config st) i) False
    ((ap_config st)\<lparr>gc_proxy_keys := update_first (\<lambda>k. pk_id k = i) f (gc_proxy_keys (ap_config st))\<rparr>) st
    (no_answer (change_key env admin action i f persist response st))"
proof (cases "proxy_key_of (ap_config st) i")
  case None
  then show ?thesis using lookups(4) [of "ap_config st" i]
    by (simp add: change_key_def write_outcome_def no_answer_def Let_def)
next
  case (Some k)
  then have "has_key (ap_config st) i" using lookups(4) [of "ap_config st" i] by auto
  with Some show ?thesis
    unfolding change_key_def
    by (auto intro!: write_outcomeI [where before = st] simp: Let_def assms frame_simps)
qed

lemma write_outcome_refused: "write_outcome env False del config st (no_answer (Inl e, st))"
  by (simp add: write_outcome_def no_answer_def)

lemma config_write_outcome:
  "write_outcome env (applies env w (ap_config st)) (deletes w) (target env w (ap_config st)) st (config_write env admin w st)"
proof (cases w)
  case (CreateResource p)
  then show ?thesis
    by (cases "has_resource (ap_config st) (rw_id p)")
      (auto simp: create_resource_def lookups Let_def frame_simps
        intro!: write_outcome_refused write_outcomeI [where before = st])
next
  case (UpdateResource i p)
  then show ?thesis using lookups(3) [of "ap_config st" i]
    by (cases "resource_of (ap_config st) i")
      (auto simp: update_resource_def Let_def frame_simps intro!: write_outcome_refused write_outcomeI [where before = st])
next
  case (DeleteResource i)
  let ?st = "with_store (\<lambda>db. snd (delete_resource_row (ae_fault env ''delete_resource'' 0) i db)) (delete_upstream_keys env i st)"
  show ?thesis
    by (cases "has_resource (ap_config st) i")
      (auto simp: DeleteResource delete_resource_def lookups Let_def frame_simps
        intro!: write_outcome_refused write_outcomeI [where before = ?st])
next
  case (CreateKey p)
  then show ?thesis
    by (cases "has_key (ap_config st) (kw_id p)")
      (auto simp: create_proxy_key_def lookups Let_def frame_simps
        intro!: write_outcome_refused write_outcomeI [where before = st])
next
  case (DeleteKey i)
  let ?st = "with_store (\<lambda>db. snd (delete_proxy_key_row (ae_fault env ''delete_proxy_key'' 0) i db)) st"
  show ?thesis
    by (cases "has_key (ap_config st) i")
      (auto simp: DeleteKey delete_proxy_key_def lookups Let_def frame_simps
        intro!: write_outcome_refused write_outcomeI [where before = ?st])
next
  case (IssueToken i body)
  show ?thesis
  proof (cases "parse_expires_at env body")
    case (Inl e)
    then show ?thesis by (simp add: IssueToken issue_token_def write_outcome_refused)
  next
    case (Inr e)
    then show ?thesis
      using change_key_outcome [of "upsert_proxy_key_db env" env st i "with_token (issued_digest env) e" admin issue_action
          "(generate_token (ae_random env), e)"]
      by (simp add: IssueToken issue_token_def issued_digest_def issued_expiry_def Let_def frame_simps)
  qed
qed (simp_all add: update_proxy_key_def revoke_token_def change_key_outcome frame_simps)


section \<open>Ids stay distinct\<close>

definition ids_distinct :: "gateway_config \<Rightarrow> bool" where
  "ids_distinct config \<longleftrightarrow>
     distinct (map ar_id (gc_api_resources config)) \<and> distinct (map ms_id (gc_mcp_servers config)) \<and>
     distinct (map pk_id (gc_proxy_keys config))"

lemma update_first_same_ids: "(\<And>x. k (f x) = k x) \<Longrightarrow> map k (update_first P f xs) = map k xs"
  by (induction xs) auto

lemma key_changes_ids [simp]:
  "pk_id (with_token d e k) = pk_id k" "pk_id (without_token k) = pk_id k" "pk_id (apply_key_update p k) = pk_id k"
  "pk_id (proxy_key_from_input p) = kw_id p" "ar_id (apply_update q r) = ar_id r"
  "ar_id (api_resource_from_input q) = rw_id q"
  by (simp_all add: with_token_def without_token_def apply_key_update_def proxy_key_from_input_def apply_update_def
      api_resource_from_input_def apply_create_def)

lemma target_ids_distinct: "ids_distinct config \<Longrightarrow> applies env w config \<Longrightarrow> ids_distinct (target env w config)"
  by (cases w) (auto simp: ids_distinct_def has_resource_def has_key_def update_first_same_ids distinct_map_filter)

lemma config_write_ids_distinct:
  assumes "ids_distinct (ap_config st)" and "config_write env admin w st = (r, st')"
  shows "ids_distinct (ap_config st')"
proof (cases r)
  case (Inl e)
  then have "in_memory st' = in_memory st" using config_write_outcome [of env w st admin] assms(2)
    by (simp add: write_outcome_def)
  from in_memory_fields(1) [OF this] assms(1) show ?thesis by simp
next
  case (Inr u)
  then have "applies env w (ap_config st)" "swapped env st (target env w (ap_config st)) st'"
    using config_write_outcome [of env w st admin] assms(2) by (simp_all add: write_outcome_def)
  then show ?thesis using target_ids_distinct [OF assms(1)] by (simp add: swapped_def)
qed

section \<open>Tokens\<close>

lemma update_first_find:
  "find P xs = Some x \<Longrightarrow> (\<And>y. P (f y) = P y) \<Longrightarrow> find P (update_first P f xs) = Some (f x)"
  by (induction xs) (auto split: if_splits)

lemma set_update_first_distinct:
  assumes "distinct (map k xs)" and "\<And>x. k (f x) = k x"
  shows "set (update_first (\<lambda>x. k x = w) f xs) = {x \<in> set xs. k x \<noteq> w} \<union> f ` {x \<in> set xs. k x = w}"
  unfolding update_first_distinct [OF assms] by auto

lemma owner_of_unique:
  assumes "k \<in> set ks" and "f k = CredToken d" and "\<And>k'. k' \<in> set ks \<Longrightarrow> f k' = CredToken d \<Longrightarrow> k' = k"
  shows "owner_of f ks d = Some k"
proof -
  have "owner_of f ks d \<noteq> None" using assms(1,2) by (auto simp: owner_of_def find_None_iff)
  then obtain k' where "owner_of f ks d = Some k'" by blast
  with owner_of_Some [OF this] assms(3) show ?thesis by auto
qed

text \<open>A key whose digest no other key has is entered by exactly the tokens with the digest.\<close>

lemma authenticate_by_digest:
  assumes "auth_from_config sha resolve config = Inr a" and "distinct (map pk_id (gc_proxy_keys config))"
    and "k \<in> set (gc_proxy_keys config)" and "resolved_cred sha resolve k = CredToken d"
    and "\<And>k'. k' \<in> set (gc_proxy_keys config) \<Longrightarrow> pk_id k' \<noteq> pk_id k \<Longrightarrow> resolved_cred sha resolve k' \<noteq> CredToken d"
  shows "authenticate sha a bearer query now = Inr (pk_id k) \<longleftrightarrow>
    key_live k now \<and> (\<exists>t. bearer = Some t \<and> t \<noteq> [] \<and> sha t = d)"
proof -
  let ?ks = "gc_proxy_keys config" and ?f = "resolved_cred sha resolve"
  have same: "k' = k" if "k' \<in> set ?ks" "pk_id k' = pk_id k" for k'
    using that assms(2,3) by (auto simp: distinct_map dest: inj_onD)
  have owner: "owner_of ?f ?ks d = Some k"
    using assms(3,4,5) same by (intro owner_of_unique) auto
  have other: "owner_of ?f ?ks e \<noteq> Some k" if "e \<noteq> d" for e
    using owner_of_Some [of ?f ?ks e k] assms(4) that by auto
  have "a = foldl (put_cred ?f) auth_empty ?ks"
    using assms(1) by (simp add: auth_from_config_def add_keys_Inr)
  moreover have "(\<exists>k' \<in> set ?ks. pk_id k' = pk_id k \<and> P k') \<longleftrightarrow> P k" for P using same assms(3) by metis
  ultimately have "authenticate sha a bearer query now = Inr (pk_id k) \<longleftrightarrow> key_live k now \<and>
      (case bearer of Some t \<Rightarrow> t \<noteq> [] \<and> owner_of ?f ?ks (sha t) = Some k | None \<Rightarrow> query = Some (pk_id k) \<and> ?f k = CredOpen)"
    by (simp only: authenticate_creds [OF assms(2)])
  with owner other assms(4) show ?thesis by (auto split: option.splits)
qed

lemma issued_cred:
  assumes "length (sha token) = 32"
  shows "resolved_cred sha resolve (with_token (hex (sha token)) e k) = CredToken (sha token)"
  using assms by (simp add: resolved_cred_def unresolved_cred_def with_token_def decode_digest_hex_hex)

lemma issue_token_Inr:
  assumes "issue_token env admin i body st = (Inr (token, e), st')"
  shows "token = generate_token (ae_random env)" "parse_expires_at env body = Inr e"
    "has_key (ap_config st) i" "swapped env st (target env (IssueToken i body) (ap_config st)) st'"
proof -
  obtain e' where p: "parse_expires_at env body = Inr e'"
    using assms by (cases "parse_expires_at env body") (auto simp: issue_token_def)
  with assms show "token = generate_token (ae_random env)" "parse_expires_at env body = Inr e"
    by (auto simp: issue_token_def change_key_def Let_def split: option.splits sum.splits)
  show "has_key (ap_config st) i" "swapped env st (target env (IssueToken i body) (ap_config st)) st'"
    using config_write_outcome [of env "IssueToken i body" st admin] assms
    by (simp_all add: write_outcome_def no_answer_def)
qed

lemma revoked_auth:
  assumes "ids_distinct config" and "has_key config i"
    and "auth_from_config sha resolve
      (config\<lparr>gc_proxy_keys := update_first (\<lambda>k. pk_id k = i) without_token (gc_proxy_keys config)\<rparr>) = Inr a"
  shows "authenticate sha a bearer query now = Inr i \<longleftrightarrow> bearer = None \<and> query = Some i"
proof -
  let ?ks = "update_first (\<lambda>k. pk_id k = i) without_token (gc_proxy_keys config)" and ?f = "resolved_cred sha resolve"
  have d: "distinct (map pk_id (gc_proxy_keys config))" using assms(1) by (simp add: ids_distinct_def)
  then have d': "distinct (map pk_id ?ks)" by (simp add: update_first_same_ids)
  have s: "set ?ks = {k \<in> set (gc_proxy_keys config). pk_id k \<noteq> i} \<union> without_token ` {k \<in> set (gc_proxy_keys config). pk_id k = i}"
    by (intro set_update_first_distinct [OF d]) simp
  obtain k0 where "k0 \<in> set (gc_proxy_keys config)" "pk_id k0 = i" using assms(2) by (auto simp: has_key_def)
  then have k: "without_token k0 \<in> set ?ks" "pk_id (without_token k0) = i" unfolding s by auto
  have o: "?f k' = CredOpen \<and> key_live k' now" if m: "k' \<in> set ?ks" "pk_id k' = i" for k'
  proof -
    obtain k1 where "k' = without_token k1" using m unfolding s by blast
    then show ?thesis by (simp add: resolved_cred_def unresolved_cred_def without_token_def key_live_def)
  qed
  have n: "owner_of ?f ?ks e \<noteq> Some k'" if "k' \<in> set ?ks" "pk_id k' = i" for e k'
    using owner_of_Some [of ?f ?ks e k'] o [OF that] by auto
  have "a = foldl (put_cred ?f) auth_empty ?ks"
    using assms(3) by (simp add: auth_from_config_def add_keys_Inr)
  then have a: "authenticate sha a bearer query now = Inr i \<longleftrightarrow>
      (\<exists>k \<in> set ?ks. pk_id k = i \<and> key_live k now \<and>
        (case bearer of Some t \<Rightarrow> t \<noteq> [] \<and> owner_of ?f ?ks (sha t) = Some k | None \<Rightarrow> query = Some i \<and> ?f k = CredOpen))"
    by (simp only: authenticate_creds [OF d'])
  show ?thesis
  proof (cases bearer)
    case None
    then show ?thesis unfolding a using k o [OF k] by (auto intro!: bexI [of _ "without_token k0"])
  next
    case (Some t)
    then show ?thesis unfolding a using n by auto
  qed
qed

text \<open>C32: when the admin API issues a token for a key, from then on exactly the tokens with the digest of the
  returned one authenticate as that key, until the requested expiry: tokens it had before and its bare id no
  longer do. After a revocation no token does, and the id alone is accepted. (The ids of the
  configuration are distinct, the digest has the 32 bytes of SHA-256, and no other key has the same one.)\<close>

theorem issued_token_authenticates:
  assumes "ids_distinct (ap_config st)" and "\<And>s. length (ae_sha env s) = 32"
    and "\<forall>k \<in> set (gc_proxy_keys (ap_config st)). pk_id k \<noteq> i \<longrightarrow>
      resolved_cred (ae_sha env) (ae_resolve env) k \<noteq> CredToken (ae_sha env (generate_token (ae_random env)))"
  shows "(issue_token env admin i body st = (Inr (token, e), st') \<longrightarrow>
       (authenticate (ae_sha env) (ap_auth st') bearer query now = Inr i \<longleftrightarrow>
          (\<forall>x. e = Some x \<longrightarrow> now < x) \<and> (\<exists>t. bearer = Some t \<and> t \<noteq> [] \<and> ae_sha env t = ae_sha env token))) \<and>
     (revoke_token env admin i st = (Inr (), st'') \<longrightarrow>
       (authenticate (ae_sha env) (ap_auth st'') bearer query now = Inr i \<longleftrightarrow> bearer = None \<and> query = Some i))"
proof (intro conjI impI)
  let ?ks = "gc_proxy_keys (ap_config st)"
  have d: "distinct (map pk_id ?ks)" using assms(1) by (simp add: ids_distinct_def)
  assume "issue_token env admin i body st = (Inr (token, e), st')"
  note i = issue_token_Inr [OF this]
  let ?f = "with_token (issued_digest env) e" and ?config = "target env (IssueToken i body) (ap_config st)"
  have e: "issued_expiry env body = e" by (simp add: issued_expiry_def i(2))
  obtain k where k: "k \<in> set ?ks" "pk_id k = i" using i(3) by (auto simp: has_key_def)
  have s: "set (gc_proxy_keys ?config) = {k \<in> set ?ks. pk_id k \<noteq> i} \<union> ?f ` {k \<in> set ?ks. pk_id k = i}"
    using set_update_first_distinct [OF d, of ?f i] by (simp add: e)
  have "authenticate (ae_sha env) (ap_auth st') bearer query now = Inr (pk_id (?f k)) \<longleftrightarrow>
      key_live (?f k) now \<and> (\<exists>t. bearer = Some t \<and> t \<noteq> [] \<and> ae_sha env t = ae_sha env token)"
  proof (rule authenticate_by_digest)
    show "auth_from_config (ae_sha env) (ae_resolve env) ?config = Inr (ap_auth st')" using i(4) by (simp add: swapped_def)
    show "distinct (map pk_id (gc_proxy_keys ?config))" using d by (simp add: update_first_same_ids)
    show "?f k \<in> set (gc_proxy_keys ?config)" unfolding s using k by blast
    show "resolved_cred (ae_sha env) (ae_resolve env) (?f k) = CredToken (ae_sha env token)"
      using issued_cred [OF assms(2)] by (simp add: issued_digest_def i(1))
    show "resolved_cred (ae_sha env) (ae_resolve env) k' \<noteq> CredToken (ae_sha env token)"
      if "k' \<in> set (gc_proxy_keys ?config)" "pk_id k' \<noteq> pk_id (?f k)" for k'
      using that k(2) assms(3) unfolding s i(1) by auto
  qed
  moreover have "key_live (?f k) now \<longleftrightarrow> (\<forall>x. e = Some x \<longrightarrow> now < x)"
    by (auto simp: key_live_def with_token_def split: option.splits)
  ultimately show "authenticate (ae_sha env) (ap_auth st') bearer query now = Inr i \<longleftrightarrow>
      (\<forall>x. e = Some x \<longrightarrow> now < x) \<and> (\<exists>t. bearer = Some t \<and> t \<noteq> [] \<and> ae_sha env t = ae_sha env token)"
    using k(2) by simp
next
  assume "revoke_token env admin i st = (Inr (), st'')"
  then have "has_key (ap_config st) i" "swapped env st (target env (RevokeToken i) (ap_config st)) st''"
    using config_write_outcome [of env "RevokeToken i" st admin] by (simp_all add: write_outcome_def no_answer_def)
  then show "authenticate (ae_sha env) (ap_auth st'') bearer query now = Inr i \<longleftrightarrow> bearer = None \<and> query = Some i"
    using revoked_auth [OF assms(1), of i "ae_sha env" "ae_resolve env" "ap_auth st''"] by (auto simp: swapped_def)
qed

section \<open>Restarting\<close>

lemma issue_token_store:
  assumes "issue_token env admin i body st = (Inr (token, e), st')" and "ap_store st = Some db"
    and "ae_fault env ''update_proxy_key'' 0 = None" and "ae_fault env ''insert_proxy_key'' 0 = None"
    and "proxy_key_of (ap_config st) i = Some k" and "table_ok kr_id (db_proxy_keys db)"
  shows "\<exists>db'. ap_store st' = Some db' \<and> table_ok kr_id (db_proxy_keys db') \<and>
     map_of (db_proxy_keys db') =
       (map_of (db_proxy_keys db))(i \<mapsto> to_db_proxy_key (ae_codec env) (with_token (issued_digest env) e k)) \<and>
     db_resources db' = db_resources db \<and> db_mcp_servers db' = db_mcp_servers db"
proof -
  have i: "pk_id k = i" using assms(5) by (auto simp: proxy_key_of_def find_Some_iff)
  let ?row = "to_db_proxy_key (ae_codec env) (with_token (issued_digest env) e k)"
  obtain st1 where st1: "ap_store st1 = Some db"
    and st': "st' = record_audit env admin (issue_action k) ''proxy_key'' i
      (upsert_proxy_key_db env (with_token (issued_digest env) e k) st1)"
    using assms(1,2,5) issue_token_Inr(2) [OF assms(1)] swap_Inr [of env st]
    by (auto simp: issue_token_def change_key_def issued_digest_def Let_def split: sum.splits)
  let ?upd = "\<lambda>t. if map_of t i = None then AList.update i ?row t else hm_modify i (\<lambda>_. ?row) t"
  have r: "kr_id ?row = i" by (simp add: i)
  have m: "hm_modify j f t = t" if "map_of t j = None" for j f and t :: "(string \<times> proxy_key_row) list"
    using that by (force simp: hm_modify_def map_of_eq_None_iff intro!: map_idI)
  have "ap_store (upsert_proxy_key_db env (with_token (issued_digest env) e k) st1) =
      Some (db\<lparr>db_proxy_keys := ?upd (db_proxy_keys db)\<rparr>)"
    using st1 assms(3,4) r
    by (auto simp: upsert_proxy_key_db_def with_store_def update_proxy_key_row_def insert_proxy_key_def sql_update_def
        sql_insert_def Let_def m)
  then have "ap_store st' = Some (if ae_fault env ''insert_security_event'' 0 \<noteq> None
      then db\<lparr>db_proxy_keys := ?upd (db_proxy_keys db)\<rparr>
      else (db\<lparr>db_proxy_keys := ?upd (db_proxy_keys db)\<rparr>)\<lparr>db_security_events := db_security_events db @
        [\<lparr>se_timestamp = ae_now env, se_resource_id = [], se_tool_name = None, se_kind = AdminAudit,
          se_severity = SevInfo, se_details = JObject [(''admin_key_id'', JString admin),
            (''action'', JString (issue_action k)), (''target_type'', JString ''proxy_key''), (''target_id'', JString i)]\<rparr>]\<rparr>)"
    by (simp add: st' record_audit_def with_store_def)
  moreover have "table_ok kr_id (?upd (db_proxy_keys db))"
    using assms(6) r by (auto simp: table_ok_def)
  ultimately show ?thesis by (auto split: if_splits)
qed

lemma hex_credentials_valid:
  assumes "length (sha token) = 32" and "pk_discovery_mode k \<in> {None, Some ''lazy'', Some ''full''}"
  shows "check_key_credentials (with_token (hex (sha token)) e k) = Inr ()"
  using assms by (auto simp: check_key_credentials_def with_token_def Let_def length_hex lower_hex_hex)

text \<open>C33: a token issued for a key that the store manages survives a restart. If the rows could be written, the
  merged configuration of the next start has the key with its scope, limits, digest and expiry, and
  exactly the tokens with the digest authenticate as it, until the expiry. (The configuration
  file does not define the key, serde reads what it wrote, and no other key of the new
  configuration has the digest.)\<close>

theorem issued_token_survives_restart:
  assumes "issue_token env admin i body st = (Inr (token, e), st')" and "\<And>s. length (ae_sha env s) = 32"
    and "ap_store st = Some db" and "db_ok db" and "codec_inverse (ae_codec env)"
    and "ae_fault env ''update_proxy_key'' 0 = None" and "ae_fault env ''insert_proxy_key'' 0 = None"
    and "proxy_key_of (ap_config st) i = Some k" and "pk_default_tool_page_size k < 2 ^ 63"
    and "pk_discovery_mode k \<in> {None, Some ''lazy'', Some ''full''}"
    and "ap_store st' = Some db'" and "merge_db_config (ae_codec env) faults db' file = Inr (config, report)"
    and "ids_distinct file" and "\<not> has_key file i"
    and "auth_from_config (ae_sha env) resolve config = Inr a"
    and "\<forall>k' \<in> set (gc_proxy_keys config). pk_id k' \<noteq> i \<longrightarrow>
      resolved_cred (ae_sha env) resolve k' \<noteq> CredToken (ae_sha env token)"
  shows "proxy_key_of config i = Some (with_token (hex (ae_sha env token)) e k) \<and>
     (authenticate (ae_sha env) a bearer query now = Inr i \<longleftrightarrow>
       (\<forall>x. e = Some x \<longrightarrow> now < x) \<and> (\<exists>t. bearer = Some t \<and> t \<noteq> [] \<and> ae_sha env t = ae_sha env token))"
proof -
  let ?k = "with_token (hex (ae_sha env token)) e k"
  have d: "issued_digest env = hex (ae_sha env token)" by (simp add: issued_digest_def issue_token_Inr(1) [OF assms(1)])
  have i: "pk_id k = i" using assms(8) by (auto simp: proxy_key_of_def find_Some_iff)
  have s: "table_ok kr_id (db_proxy_keys db')" "map_of (db_proxy_keys db') i = Some (to_db_proxy_key (ae_codec env) ?k)"
    "db_ok db'"
    using issue_token_store [OF assms(1,3,6,7,8)] assms(4,11) unfolding d by (auto simp: db_ok_def)
  have row: "decoded (proxy_key_from_record (ae_codec env)) (to_db_proxy_key (ae_codec env) ?k) = Some ?k"
    using assms(9) by (simp add: decoded_def key_row_roundtrip [OF assms(5)] with_token_def)
  have "proxy_key_of file i = None" using assms(14) by (simp add: lookups)
  then have k: "proxy_key_of config i = Some ?k"
    using merged_keys(1) [OF s(3) assms(12), of i] hex_credentials_valid [of "ae_sha env" token k e, OF assms(2) assms(10)] by (simp add: s(2) row)
  have "distinct (map pk_id (gc_proxy_keys file))" using assms(13) by (simp add: ids_distinct_def)
  then have dk: "distinct (map pk_id (gc_proxy_keys config))" by (rule merged_keys(2) [OF s(3) assms(12)])
  have "?k \<in> set (gc_proxy_keys config)" using k by (auto simp: proxy_key_of_def find_Some_iff)
  from authenticate_by_digest [OF assms(15) dk this issued_cred [OF assms(2)], of bearer query now] assms(16) i
  have "authenticate (ae_sha env) a bearer query now = Inr i \<longleftrightarrow>
      key_live ?k now \<and> (\<exists>t. bearer = Some t \<and> t \<noteq> [] \<and> ae_sha env t = ae_sha env token)" by simp
  moreover have "key_live ?k now \<longleftrightarrow> (\<forall>x. e = Some x \<longrightarrow> now < x)"
    by (auto simp: key_live_def with_token_def split: option.splits)
  ultimately show ?thesis using k by simp
qed

section \<open>The catalog after a swap\<close>

lemma extend_is_replace: "extend_with_mcp_tools c ts = replace_mcp_tools c ts {}"
  by (simp add: replace_mcp_tools_def)

lemma kept_mcp_tools_upstream:
  "kept_mcp_tools config c = filter (\<lambda>t. wt_resource_id t \<in> ms_id ` set (gc_mcp_servers config)) (upstream_tools c)"
proof -
  have "kept_mcp_tools config c =
      map (upstream_tool (cat_originals c)) (filter (\<lambda>t. wt_resource_id t \<in> ms_id ` set (gc_mcp_servers config)) (cat_tools c))"
    by (auto simp: kept_mcp_tools_def upstream_tool_def original_description_def)
  then show ?thesis by (simp add: upstream_tools_def filter_map comp_def)
qed

lemma config_catalog_inv:
  assumes "catalog_from_config env config = Inr c" and "wires_distinct (cat_tools c)"
  shows "catalog_inv c" "upstream_tools c = cat_tools c"
  using assms by (auto simp: catalog_from_config_def and_then_Inr_iff catalog_inv_def upstream_tools_def upstream_tool_def
      intro!: map_idI)


section \<open>Swaps that meet something else\<close>

text \<open>
  The counts are copied when the swap is prepared. A call that is recorded between the copy and the installation
  is not in the new registry, so the swap takes it back.
\<close>

lemma swap_loses_concurrent_call:
  assumes "swap_prepare env st config = Inr parts"
  shows "swap_install env config parts (st\<lparr>ap_limits := record_call k now (ap_limits st)\<rparr>) = swap_install env config parts st"
    and "lr_usage (ap_limits (swap_install env config parts st)) = lr_usage (ap_limits st)"
  using assms by (auto simp: swap_install_def swap_prepare_def and_then_Inr_iff carry_counts_from_def)

text \<open>When the swap of a new MCP server fails, the server stays in the registry and is not in the configuration.
  From then on it can neither be created, as the registry knows the id, nor deleted, as the configuration does not.\<close>

lemma create_server_orphans:
  assumes "into_config (ae_url env) None (gc_oauth (ap_config st)) input = Inr server"
    and "mcp_server_of (ap_config st) (ms_id server) = None" and "resource_of (ap_config st) (ms_id server) = None"
    and "validate_limits (ae_governor env)
      ((ap_config st)\<lparr>gc_mcp_servers := gc_mcp_servers (ap_config st) @ [server]\<rparr>) = Inr ()"
    and "ap_registry st = Some es" and "ms_id server \<notin> entry_id ` set es"
    and "swap_prepare env st ((ap_config st)\<lparr>gc_mcp_servers := gc_mcp_servers (ap_config st) @ [server]\<rparr>) = Inl e"
    and "create_server env admin input st = (r, st')"
  shows "r = Inl e \<and> ap_config st' = ap_config st \<and>
     (\<exists>es'. ap_registry st' = Some es' \<and> ms_id server \<in> entry_id ` set es') \<and>
     create_server env admin input st' = (Inl (from_mcp_error (duplicate_server (ms_id server))), st') \<and>
     delete_server env admin (ms_id server) st' = (Inl (server_not_found (ms_id server)), st')"
proof -
  let ?config = "(ap_config st)\<lparr>gc_mcp_servers := gc_mcp_servers (ap_config st) @ [server]\<rparr>"
  let ?entry = "dedup_against_others es None (establish_entry (ae_server env) server None)"
  have i: "entry_id ?entry = ms_id server" by (simp add: entry_id_def frame_simps)
  have a: "add_server (ae_server env) server es es = (Inr (health_view ?entry), es @ [?entry])"
  proof -
    have "\<not> list_ex (\<lambda>e. entry_id e = ms_id server) es" using assms(6) by (auto simp: list_ex_iff intro: rev_image_eqI)
    then show ?thesis by (simp add: add_server_def Let_def entry_id_def frame_simps)
  qed
  have "swap_config_and_catalog env (st\<lparr>ap_registry := Some (es @ [?entry])\<rparr>) ?config = Inl e"
    using assms(7) unfolding swap_Inl by (simp add: swap_prepare_def)
  then have c: "create_server env admin input st = (Inl e, st\<lparr>ap_registry := Some (es @ [?entry])\<rparr>)"
    using assms(1-5) by (simp add: create_server_def finish_server_def require_registry_def a Let_def ok_or_def)
  with assms(8) have st': "r = Inl e" "st' = st\<lparr>ap_registry := Some (es @ [?entry])\<rparr>" by simp_all
  have "add_server (ae_server env) server (es @ [?entry]) (es @ [?entry]) =
      (Inl (duplicate_server (ms_id server)), es @ [?entry])"
    using i by (simp add: add_server_def)
  then show ?thesis
    using assms(1-4) i
    by (simp add: st' create_server_def finish_server_def require_registry_def delete_server_def Let_def ok_or_def)
qed

section \<open>Runs\<close>

text \<open>A gateway with two gateway keys and nothing else, over a store whose statements all succeed.\<close>

definition example_admin_env :: "(nat, string) admin_env" where
  "example_admin_env =
     \<lparr>ae_openapi = \<lparr>oe_read = (\<lambda>_. Inl []), oe_lib = example_openapi_lib\<rparr>, ae_governor = example_governor,
      ae_sha = example_sha, ae_resolve = example_resolve, ae_snap_at = (\<lambda>_. 0), ae_restore_at = (\<lambda>_ _. 0), ae_now = 0,
      ae_clock = (\<lambda>_. 0), ae_fault = (\<lambda>_ _. None), ae_codec = example_codec, ae_ser = (\<lambda>_. []),
      ae_server = example_server_env, ae_servers = (\<lambda>_. example_server_env), ae_url = (\<lambda>_. None),
      ae_random = [1, 2], ae_issue_body = (\<lambda>_. None), ae_json_body = (\<lambda>_. None), ae_oauth = example_oauth_env\<rparr>"

definition example_app :: "(nat, string) app_state" where
  "example_app =
     (app_state_new (example_file\<lparr>gc_proxy_keys := [plain_key ''dev'', plain_key ''ops'']\<rparr>)
       \<lparr>cat_tools = [], cat_overrides = Map.empty, cat_originals = Map.empty\<rparr>)\<lparr>ap_store := Some example_db\<rparr>"

lemma example_app_fields [simp]:
  "ap_config example_app = example_file\<lparr>gc_proxy_keys := [plain_key ''dev'', plain_key ''ops'']\<rparr>"
  "ap_store example_app = Some example_db" "ap_registry example_app = None"
  "cat_tools (ap_catalog example_app) = []"
  by (simp_all add: example_app_def app_state_new_def)

lemma example_env_fields [simp]:
  "ae_sha example_admin_env = example_sha" "ae_resolve example_admin_env = example_resolve"
  "ae_fault example_admin_env f n = None" "ae_codec example_admin_env = example_codec"
  "ae_random example_admin_env = [1, 2]" "ae_governor example_admin_env = example_governor"
  "ae_server example_admin_env = example_server_env"
  by (simp_all add: example_admin_env_def)

lemma example_sha_length [simp]: "length (example_sha s) = 32" by (simp add: example_sha_def)

text \<open>Without resources and servers, and with keys that have no reference and no limits, the parts build.\<close>

definition plain_keys :: "proxy_key list \<Rightarrow> bool" where
  "plain_keys ks \<longleftrightarrow>
     list_all (\<lambda>k. pk_token_ref k = None \<and> pk_limits k = None \<and>
       (case pk_token_digest k of None \<Rightarrow> True | Some h \<Rightarrow> \<exists>d :: digest. h = hex d \<and> length d = 32)) ks"

lemma collect_entries_None: "list_all (\<lambda>x. snd x = None) xs \<Longrightarrow> collect_entries f xs m = Inr m"
  by (induction xs arbitrary: m) auto

lemma plain_keys_subset: "plain_keys ks \<Longrightarrow> set ks' \<subseteq> set ks \<Longrightarrow> plain_keys ks'"
  by (auto simp: plain_keys_def list_all_iff)

lemma plain_keys_cred: "plain_keys ks \<Longrightarrow> list_all (\<lambda>k. resolved_cred sha resolve k \<noteq> CredDenied) ks"
  by (fastforce simp: plain_keys_def list_all_iff resolved_cred_def unresolved_cred_def decode_digest_hex_hex
      split: option.splits)

lemma plain_swap_prepare:
  assumes "gc_api_resources config = []" and "gc_mcp_servers config = []" and "plain_keys (gc_proxy_keys config)"
  shows "\<exists>parts. swap_prepare env st config = Inr parts"
proof -
  have "collect_entries (limit_entry_of (ae_governor env)) (map (\<lambda>k. (pk_id k, pk_limits k)) (gc_proxy_keys config))
      Map.empty = Inr Map.empty"
    using assms(3) by (intro collect_entries_None) (simp add: plain_keys_def list_all_iff)
  moreover obtain a where "auth_from_config (ae_sha env) (ae_resolve env) config = Inr a"
    using plain_keys_cred [OF assms(3)] by (auto simp: auth_from_config_def add_keys_Inr)
  ultimately show ?thesis
    using assms(1,2)
    by (simp add: swap_prepare_def catalog_from_config_def limits_from_config_def key_pools_from_config_def
        registry_from_config_def)
qed

lemma plain_swap:
  assumes "gc_api_resources config = []" and "gc_mcp_servers config = []" and "plain_keys (gc_proxy_keys config)"
  shows "\<exists>st'. swap_config_and_catalog env st config = Inr st'"
  using plain_swap_prepare [OF assms, of env st] by (auto simp: swap_config_and_catalog_def)

lemma example_target_plain:
  "plain_keys (gc_proxy_keys (target example_admin_env (IssueToken ''ops'' []) (ap_config example_app)))"
  "plain_keys (gc_proxy_keys (target example_admin_env (RevokeToken ''ops'') (ap_config example_app)))"
  by (auto simp: plain_keys_def plain_key_def with_token_def without_token_def issued_digest_def
      intro: exI [of _ "example_sha x" for x])

lemma example_issue: "\<exists>st'. issue_token example_admin_env ''root'' ''ops'' [] example_app =
    (Inr (generate_token [1, 2], None), st')"
proof -
  obtain st1 where "swap_config_and_catalog example_admin_env example_app
      (target example_admin_env (IssueToken ''ops'' []) (ap_config example_app)) = Inr st1"
    using plain_swap [OF _ _ example_target_plain(1)] by (auto simp: example_file_def example_auth_config_def)
  then show ?thesis
    by (simp add: issue_token_def change_key_def parse_expires_at_def issued_expiry_def issued_digest_def proxy_key_of_def
        plain_key_def Let_def)
qed


theorem issued_token_authenticates_witness:
  "\<exists>st'. issue_token example_admin_env ''root'' ''ops'' [] example_app = (Inr (generate_token [1, 2], None), st') \<and>
     authenticate example_sha (ap_auth st') (Some (generate_token [1, 2])) None 7 = Inr ''ops'' \<and>
     authenticate example_sha (ap_auth st') None (Some ''ops'') 7 \<noteq> Inr ''ops''"
proof -
  obtain st' where i: "issue_token example_admin_env ''root'' ''ops'' [] example_app =
      (Inr (generate_token [1, 2], None), st')"
    using example_issue ..
  have "ids_distinct (ap_config example_app)"
    by (simp add: ids_distinct_def example_file_def example_auth_config_def plain_key_def)
  moreover have "resolved_cred example_sha example_resolve (plain_key ''dev'') = CredOpen"
    by (simp add: resolved_cred_def unresolved_cred_def plain_key_def)
  ultimately have "authenticate example_sha (ap_auth st') b q 7 = Inr ''ops'' \<longleftrightarrow>
      (\<exists>t. b = Some t \<and> t \<noteq> [] \<and> example_sha t = example_sha (generate_token [1, 2]))" for b q
    using issued_token_authenticates [of example_app example_admin_env "''ops''" "''root''" "[]" "generate_token [1, 2]"
        None st' b q 7] i
    by (simp add: plain_key_def)
  then show ?thesis using i by (simp add: generate_token_def)
qed

theorem issued_token_survives_restart_witness:
  "\<exists>st' db' config report a. issue_token example_admin_env ''root'' ''ops'' [] example_app =
       (Inr (generate_token [1, 2], None), st') \<and>
     ap_store st' = Some db' \<and> merge_db_config example_codec (None, None, None) db' example_file = Inr (config, report) \<and>
     auth_from_config example_sha example_resolve config = Inr a \<and>
     authenticate example_sha a (Some (generate_token [1, 2])) None 7 = Inr ''ops''"
proof -
  let ?k = "with_token (issued_digest example_admin_env) None (plain_key ''ops'')"
  obtain st' where i: "issue_token example_admin_env ''root'' ''ops'' [] example_app =
      (Inr (generate_token [1, 2], None), st')"
    using example_issue ..
  have p: "proxy_key_of (ap_config example_app) ''ops'' = Some (plain_key ''ops'')"
    by (simp add: proxy_key_of_def plain_key_def)
  obtain db' where d: "ap_store st' = Some db'" "db_ok db'"
    "map_of (db_proxy_keys db') = (map_of (db_proxy_keys example_db))(''ops'' \<mapsto> to_db_proxy_key example_codec ?k)"
    using issue_token_store [OF i example_app_fields(2) _ _ p] example_db_ok by (auto simp: db_ok_def)
  obtain config report where
    m: "merge_db_config example_codec (None, None, None) db' example_file = Inr (config, report)"
    by (simp add: merge_db_config_def load_db_entries_def list_resources_def list_mcp_servers_def list_proxy_keys_def
        sql_list_def split_def Let_def)
  have k: "k = plain_key ''dev'' \<or> k = ?k" if k: "k \<in> set (gc_proxy_keys config)" for k
  proof -
    have "distinct (map pk_id (gc_proxy_keys config))"
      by (rule merged_keys(2) [OF d(2) m]) (simp add: example_file_def)
    then have f: "proxy_key_of config (pk_id k) = Some k" using k by (simp add: proxy_key_of_def find_distinct)
    have "pk_id k \<in> {''dev'', ''ops'', ''bad''}"
      using f unfolding merged_keys(1) [OF d(2) m] d(3)
      by (auto simp: example_db_def plain_key_def example_file_def proxy_key_of_def split: option.splits if_splits)
    moreover have "decoded (proxy_key_from_record example_codec) (to_db_proxy_key example_codec k') = Some k'"
      if "pk_default_tool_page_size k' < 2 ^ 63" for k'
      using that by (simp add: decoded_def key_row_roundtrip [OF example_codec_inverse])
    ultimately show ?thesis
      using f unfolding merged_keys(1) [OF d(2) m] d(3)
      by (auto simp: example_db_def example_file_def proxy_key_of_def plain_key_def with_token_def check_key_credentials_def
          Let_def split: if_splits)
  qed
  have "plain_keys [plain_key ''dev'', ?k]"
    by (auto simp: plain_keys_def plain_key_def with_token_def issued_digest_def intro: exI [of _ "example_sha x" for x])
  then have "plain_keys (gc_proxy_keys config)" by (rule plain_keys_subset) (use k in auto)
  then obtain a where a: "auth_from_config example_sha example_resolve config = Inr a"
    using plain_keys_cred by (auto simp: auth_from_config_def add_keys_Inr)
  have o: "resolved_cred example_sha example_resolve (plain_key ''dev'') = CredOpen"
    by (simp add: resolved_cred_def unresolved_cred_def plain_key_def)
  have f: "ids_distinct example_file" "\<not> has_key example_file ''ops''"
    by (simp_all add: ids_distinct_def example_file_def example_auth_config_def has_key_def plain_key_def)
  have u: "\<forall>k' \<in> set (gc_proxy_keys config). pk_id k' \<noteq> ''ops'' \<longrightarrow>
      resolved_cred example_sha example_resolve k' \<noteq> CredToken (example_sha (generate_token [1, 2]))"
  proof (intro ballI impI)
    fix k' assume "k' \<in> set (gc_proxy_keys config)" "pk_id k' \<noteq> ''ops''"
    then have "k' = plain_key ''dev''" using k [of k'] by (auto simp: plain_key_def)
    then show "resolved_cred example_sha example_resolve k' \<noteq> CredToken (example_sha (generate_token [1, 2]))"
      using o by simp
  qed
  have "authenticate example_sha a (Some (generate_token [1, 2])) None 7 = Inr ''ops''"
    using issued_token_survives_restart [OF i _ example_app_fields(2) example_db_ok _ _ _ p _ _ d(1), of "(None, None, None)"
        example_file config report example_resolve a "Some (generate_token [1, 2])" None 7] m a u f
    by (simp add: plain_key_def example_codec_inverse generate_token_def)
  then show ?thesis using i d(1) m a by blast
qed


text \<open>The secret of the key \<open>ci\<close> cannot be read any more; the registry has one server.\<close>

definition example_orphan :: "(nat, string) app_state" where
  "example_orphan =
     example_app\<lparr>ap_config := example_auth_config, ap_registry := Some [example_entry_of ''a'' ''u'' [] []]\<rparr>"

definition example_server_input :: mcp_server_write_params where
  "example_server_input =
     \<lparr>mw_id = Some ''b'', mw_domain = ''docs'', mw_provider = ''p'', mw_url = ''v'', mw_description = [],
      mw_auth = None, mw_security = None, mw_limits = None, mw_health_check = None\<rparr>"

lemma create_server_orphans_witness:
  "\<exists>st' es'. snd (create_server (example_admin_env\<lparr>ae_resolve := \<lambda>_. Inl (SecretNotFound [])\<rparr>) ''root''
       example_server_input example_orphan) = st' \<and>
     ap_registry st' = Some es' \<and> ''b'' \<in> entry_id ` set es' \<and> mcp_server_of (ap_config st') ''b'' = None"
proof -
  let ?env = "example_admin_env\<lparr>ae_resolve := \<lambda>_. Inl (SecretNotFound [])\<rparr>"
  let ?server = "example_server ''b'' ''v''"
  let ?config = "example_auth_config\<lparr>gc_mcp_servers := [?server]\<rparr>"
  have t: "trim ''b'' = ''b''" "trim ''docs'' = ''docs''" "trim ''p'' = ''p''" "trim ''v'' = ''v''"
    by (rule trim_stored, simp add: stored_char_def segment_char_def is_ascii_alphanumeric_def ascii_lower_def
        Let_def)+
  have i: "into_config (ae_url ?env) None (gc_oauth (ap_config example_orphan)) example_server_input = Inr ?server"
    using t by (simp add: into_config_def example_server_input_def example_server_def validate_auth_def validate_mcp_oauth_def
        Let_def)
  have l: "validate_limits (ae_governor ?env) ?config = Inr ()"
    by (simp add: validate_limits_def limits_from_config_def example_auth_config_def plain_key_def example_server_def)
  obtain e where e: "swap_prepare ?env example_orphan ?config = Inl e"
    by (simp add: swap_prepare_def catalog_from_config_def limits_from_config_def example_auth_config_def plain_key_def
        example_server_def auth_from_config_def add_key_def example_ref)
  show ?thesis
    using create_server_orphans [OF i, of "[example_entry_of ''a'' ''u'' [] []]" e "''root''"]
    using l e
    by (cases "create_server ?env ''root'' example_server_input example_orphan")
      (simp add: example_orphan_def mcp_server_of_def resource_of_def example_server_def example_auth_config_def
        entry_id_def example_entry_of_def)
qed

end
