(* ===== verification/OAuthClient.thy ===== *)
theory OAuthClient
  imports UpstreamOAuth Json
begin

text \<open>
  The HTTP side of OAuth towards the MCP upstreams: tokens of the client-credentials grant
  (\<open>src/mcp/oauth/client_credentials.rs\<close>), the resource indicator (\<open>resource.rs\<close>), the guarded client of
  the OAuth requests (\<open>http_client.rs\<close>), and the choice between the grants (\<open>connect_client\<close> of \<open>mod.rs\<close>).
\<close>

section \<open>Client-credentials tokens (client_credentials.rs)\<close>

definition MAX_RENEW_MARGIN :: duration where
  "MAX_RENEW_MARGIN = 30 * 10 ^ 9"

definition renew_margin :: "duration \<Rightarrow> duration" where
  "renew_margin lifetime = min MAX_RENEW_MARGIN (lifetime div 2)"

record cached_token =
  ck_access_token :: string
  ck_renew_at :: "instant option"

definition cached_token_new :: "instant \<Rightarrow> string \<Rightarrow> duration option \<Rightarrow> cached_token" where
  "cached_token_new now access_token expires_in =
     \<lparr>ck_access_token = access_token,
      ck_renew_at = map_option (\<lambda>lifetime. now + lifetime - renew_margin lifetime) expires_in\<rparr>"

definition is_fresh :: "instant \<Rightarrow> cached_token \<Rightarrow> bool" where
  "is_fresh now c = (case ck_renew_at c of None \<Rightarrow> True | Some at \<Rightarrow> now < at)"

text \<open>
  The answers of the authorization server in the order of the exchanges, and the time each is received. The
  mutex around the cached token makes the operations below atomic; the source counts its exchanges.
\<close>

record token_env =
  te_exchange :: "nat \<Rightarrow> (string \<times> duration option) option"
  te_received :: "nat \<Rightarrow> instant"

record token_source =
  ts_cached :: "cached_token option"
  ts_exchanges :: nat

definition exchange :: "token_env \<Rightarrow> token_source \<Rightarrow> (string + cached_token) \<times> token_source" where
  "exchange env ts =
     (let ts1 = ts\<lparr>ts_exchanges := Suc (ts_exchanges ts)\<rparr>
      in case te_exchange env (ts_exchanges ts) of
           None \<Rightarrow> (Inl ''token exchange failed'', ts1)
         | Some (token, expires_in) \<Rightarrow> (Inr (cached_token_new (te_received env (ts_exchanges ts)) token expires_in), ts1))"

definition exchange_and_keep :: "token_env \<Rightarrow> token_source \<Rightarrow> (string + string) \<times> token_source" where
  "exchange_and_keep env ts =
     (case exchange env ts of
        (Inl e, ts1) \<Rightarrow> (Inl e, ts1)
      | (Inr fresh, ts1) \<Rightarrow> (Inr (ck_access_token fresh), ts1\<lparr>ts_cached := Some fresh\<rparr>))"

definition current_token :: "token_env \<Rightarrow> instant \<Rightarrow> token_source \<Rightarrow> (string + string) \<times> token_source" where
  "current_token env now ts =
     (case ts_cached ts of
        Some c \<Rightarrow> if is_fresh now c then (Inr (ck_access_token c), ts) else exchange_and_keep env ts
      | None \<Rightarrow> exchange_and_keep env ts)"

definition renew_rejected :: "token_env \<Rightarrow> string \<Rightarrow> token_source \<Rightarrow> (string + string) \<times> token_source" where
  "renew_rejected env rejected ts =
     (case ts_cached ts of
        Some c \<Rightarrow> if ck_access_token c \<noteq> rejected then (Inr (ck_access_token c), ts) else exchange_and_keep env ts
      | None \<Rightarrow> exchange_and_keep env ts)"

datatype 'a call_result = CallOk 'a | CallAuthRequired | CallAuth string | CallOther string

text \<open>
  One request with a token. The upstream is a state that a call changes; \<open>others\<close> is what other requests make of
  the source while the first call is under way.
\<close>

definition with_token ::
  "token_env \<Rightarrow> instant \<Rightarrow> (token_source \<Rightarrow> token_source) \<Rightarrow> string option \<Rightarrow> ('u \<Rightarrow> string \<Rightarrow> 'a call_result \<times> 'u) \<Rightarrow>
   'u \<times> token_source \<Rightarrow> 'a call_result \<times> 'u \<times> token_source" where
  "with_token env now others auth_token call st =
     (let (u, ts) = st;
          (r, ts1) = (case auth_token of Some t \<Rightarrow> (Inr t, ts) | None \<Rightarrow> current_token env now ts)
      in case r of
           Inl e \<Rightarrow> (CallAuth e, u, ts1)
         | Inr token \<Rightarrow>
             (case call u token of
                (CallAuthRequired, u1) \<Rightarrow>
                  (case renew_rejected env token (others ts1) of
                     (Inr fresh, ts2) \<Rightarrow> (let (x, u2) = call u1 fresh in (x, u2, ts2))
                   | (Inl e, ts2) \<Rightarrow> (CallAuth e, u1, ts2))
              | (x, u1) \<Rightarrow> (x, u1, others ts1)))"

section \<open>The resource indicator (resource.rs)\<close>

record located_url = full_url +
  lu_port :: "nat option"
  lu_path :: string

type_synonym located_parser = "string \<Rightarrow> located_url option"

text \<open>\<open>rh_challenge\<close>: status and readable \<open>WWW-Authenticate\<close> values of a request to the server;
  \<open>rh_pointer\<close>: the pointer rmcp reads from such a value; \<open>rh_get\<close>: status and JSON body of a document.\<close>

record resource_http =
  rh_challenge :: "located_url \<Rightarrow> (nat \<times> string list) option"
  rh_pointer :: "string \<Rightarrow> located_url \<Rightarrow> located_url option"
  rh_get :: "located_url \<Rightarrow> (nat \<times> json option) option"

definition same_origin :: "located_url \<Rightarrow> located_url \<Rightarrow> bool" where
  "same_origin a b \<longleftrightarrow> pu_scheme a = pu_scheme b \<and> pu_host_str a = pu_host_str b \<and> lu_port a = lu_port b"

definition challenge_pointer :: "resource_http \<Rightarrow> located_url \<Rightarrow> located_url option" where
  "challenge_pointer http server_url =
     Option.bind (rh_challenge http server_url) (\<lambda>(status, headers).
       if status \<noteq> 401 then None
       else (case List.map_filter (\<lambda>v. rh_pointer http v server_url) headers of [] \<Rightarrow> None | u # _ \<Rightarrow> Some u))"

definition well_known_at :: "located_url \<Rightarrow> string \<Rightarrow> located_url" where
  "well_known_at server_url end_path =
     server_url\<lparr>fu_query := None, fu_fragment := None, lu_path := ''/.well-known/oauth-protected-resource'' @ end_path\<rparr>"

definition well_known_urls :: "located_url \<Rightarrow> located_url list" where
  "well_known_urls server_url =
     (let path = trim_end_char CHR ''/'' (lu_path server_url);
          a = well_known_at server_url path; b = well_known_at server_url []
      in if b = a then [a] else [a, b])"

definition is_identifier_for :: "located_parser \<Rightarrow> located_url \<Rightarrow> string \<Rightarrow> bool" where
  "is_identifier_for parse server_url resource =
     (case parse resource of
        None \<Rightarrow> False
      | Some r \<Rightarrow>
          (let prefix = trim_end_char CHR ''/'' (lu_path r)
           in fu_fragment r = None \<and> same_origin server_url r \<and>
              (lu_path server_url = lu_path r \<or>
               (case strip_prefix prefix (lu_path server_url) of
                  None \<Rightarrow> False
                | Some rest \<Rightarrow> rest = [] \<or> hd rest = CHR ''/''))))"

definition http_success :: "nat \<Rightarrow> bool" where
  "http_success status = (200 \<le> status \<and> status < 300)"

definition fetch_resource :: "located_parser \<Rightarrow> resource_http \<Rightarrow> located_url \<Rightarrow> located_url \<Rightarrow> string option" where
  "fetch_resource parse http server_url metadata_url =
     (if \<not> same_origin server_url metadata_url then None
      else case rh_get http metadata_url of
             Some (status, Some (JObject m)) \<Rightarrow>
               if \<not> http_success status then None
               else (case map_of m ''resource'' of
                       Some (JString resource) \<Rightarrow>
                         if is_identifier_for parse server_url resource then Some resource else None
                     | _ \<Rightarrow> None)
           | _ \<Rightarrow> None)"

fun first_resource :: "located_parser \<Rightarrow> resource_http \<Rightarrow> located_url \<Rightarrow> located_url list \<Rightarrow> string option" where
  "first_resource parse http server_url [] = None"
| "first_resource parse http server_url (c # cs) =
     (case fetch_resource parse http server_url c of
        Some r \<Rightarrow> Some r
      | None \<Rightarrow> first_resource parse http server_url cs)"

definition discover_resource :: "located_parser \<Rightarrow> resource_http \<Rightarrow> located_url \<Rightarrow> string option" where
  "discover_resource parse http server_url =
     first_resource parse http server_url
       ((case challenge_pointer http server_url of Some p \<Rightarrow> [p] | None \<Rightarrow> []) @ well_known_urls server_url)"

section \<open>Connecting (client_credentials.rs, mod.rs)\<close>

text \<open>What rmcp answers when the client is configured with the credentials for the resource.\<close>

record cc_env =
  cc_parse :: located_parser
  cc_http :: resource_http
  cc_validate :: "string \<Rightarrow> string list \<Rightarrow> string \<Rightarrow> bool"
  cc_configure :: "string \<Rightarrow> string list \<Rightarrow> string \<Rightarrow> bool"
  cc_tokens :: token_env

definition resource_indicator :: "cc_env \<Rightarrow> string \<Rightarrow> string" where
  "resource_indicator cc server_url =
     (case Option.bind (cc_parse cc server_url) (discover_resource (cc_parse cc) (cc_http cc)) of
        Some r \<Rightarrow> r
      | None \<Rightarrow> server_url)"

definition client_credentials_connect ::
  "oauth_env \<Rightarrow> cc_env \<Rightarrow> mcp_server_config \<Rightarrow> upstream_oauth \<Rightarrow> mcp_error + token_source" where
  "client_credentials_connect env cc server uo =
     (case ms_auth server of
        AuthOAuth _ (Some client_id) _ scopes \<Rightarrow>
          and_then (authorization_manager env (ms_url server) uo) (\<lambda>_.
            case ov_metadata env (ms_url server) of
              None \<Rightarrow> Inl (setup_failure ''metadata discovery'')
            | Some (metadata, discovered) \<Rightarrow>
                if \<not> discovered then Inl (setup_failure ''metadata discovery'')
                else
                  and_then (map_err (\<lambda>_. setup_failure ''metadata validation'') (secure_endpoint env (om_token_endpoint metadata))) (\<lambda>_.
                    let resource = resource_indicator cc (ms_url server)
                    in if \<not> cc_validate cc client_id scopes resource then Inl (setup_failure ''metadata validation'')
                       else if \<not> cc_configure cc client_id scopes resource then Inl (setup_failure ''client setup'')
                       else
                         (case current_token (cc_tokens cc) (ov_now env) \<lparr>ts_cached = None, ts_exchanges = 0\<rparr> of
                            (Inl _, _) \<Rightarrow> Inl (McpUpstreamFailure ''OAuth token exchange failed'')
                          | (Inr _, ts) \<Rightarrow> Inr ts)))
      | _ \<Rightarrow> Inl (McpInvalidCall ''client_credentials requires auth.client_id''))"

datatype oauth_client = ClientCredentialsClient token_source | AuthorizationCodeClient credential_handle

definition connect_client ::
  "oauth_env \<Rightarrow> cc_env \<Rightarrow> mcp_server_config \<Rightarrow> string option \<Rightarrow> upstream_oauth \<Rightarrow> (mcp_error + oauth_client) \<times> upstream_oauth" where
  "connect_client env cc server client_secret uo =
     (case oauth_grant_of (ms_auth server) of
        Some ClientCredentials \<Rightarrow>
          (case client_secret of
             None \<Rightarrow> (Inl (McpInvalidCall ''client_credentials requires auth.client_secret_ref''), uo)
           | Some _ \<Rightarrow> (and_then (client_credentials_connect env cc server uo) (\<lambda>ts. Inr (ClientCredentialsClient ts)), uo))
      | Some AuthorizationCode \<Rightarrow>
          (let (r, uo1) = authorization_code_connect env server client_secret uo
           in (and_then r (\<lambda>h. Inr (AuthorizationCodeClient h)), uo1))
      | None \<Rightarrow> (Inl (McpInvalidCall ''server does not use oauth auth''), uo))"

section \<open>The guarded client of OAuth requests (http_client.rs)\<close>

definition MAX_BODY :: nat where
  "MAX_BODY = 1024 * 1024"

datatype oauth_http_error = BodyTooLarge | OpaqueHttpFailure | OAuthEgressBlocked block_reason

text \<open>The body arrives in chunks; \<^const>\<open>Inl\<close> is a failure of the connection.\<close>

fun read_body :: "bytes \<Rightarrow> (unit + bytes) list \<Rightarrow> oauth_http_error + bytes" where
  "read_body body [] = Inr body"
| "read_body body (Inl _ # cs) = Inl OpaqueHttpFailure"
| "read_body body (Inr chunk # cs) =
     (if length chunk > MAX_BODY - length body then Inl BodyTooLarge else read_body (body @ chunk) cs)"

datatype redirect_policy = PolicyFollow | PolicyStop | PolicyOther

definition oauth_http_error_of :: "block_reason option list \<Rightarrow> oauth_http_error" where
  "oauth_http_error_of chain = (case find_blocked chain of Some b \<Rightarrow> OAuthEgressBlocked b | None \<Rightarrow> OpaqueHttpFailure)"

text \<open>\<open>send\<close> is the request through the client that follows redirects (\<^const>\<open>True\<close>) or the one that does not.\<close>

definition oauth_execute ::
  "url_parser \<Rightarrow> (bool \<Rightarrow> string \<Rightarrow> block_reason option list + nat \<times> (unit + bytes) list) \<Rightarrow> string \<Rightarrow> redirect_policy \<Rightarrow> bool \<Rightarrow>
   oauth_http_error + nat \<times> bytes" where
  "oauth_execute parse send uri policy request_ok =
     (case check_url parse uri True of
        Inl b \<Rightarrow> Inl (OAuthEgressBlocked b)
      | Inr _ \<Rightarrow>
          if \<not> request_ok then Inl OpaqueHttpFailure
          else
            (case send (policy = PolicyFollow) uri of
               Inl chain \<Rightarrow> Inl (oauth_http_error_of chain)
             | Inr (status, chunks) \<Rightarrow> and_then (read_body [] chunks) (\<lambda>body. Inr (status, body))))"

section \<open>Tokens are renewed in time\<close>

text \<open>A client-credentials token with a lifetime is handed out from the cache only while at least half of its
  lifetime or 30 seconds are left, and is exchanged for a new one no earlier than at half of its lifetime; a
  token without a lifetime is kept until the upstream rejects it.\<close>

lemma renewal_in_time:
  "(is_fresh now (cached_token_new obtained token (Some lifetime)) \<longrightarrow>
      now + min (30 * 10 ^ 9) (lifetime div 2) < obtained + lifetime) \<and>
   (\<not> is_fresh now (cached_token_new obtained token (Some lifetime)) \<longrightarrow> obtained + lifetime div 2 \<le> now) \<and>
   is_fresh now (cached_token_new obtained token None)"
proof -
  define m where "m = renew_margin lifetime"
  have e: "min (30 * 10 ^ 9) (lifetime div 2) = m" by (simp add: m_def renew_margin_def MAX_RENEW_MARGIN_def)
  then have "m \<le> lifetime div 2" by linarith
  then have "m + lifetime div 2 \<le> lifetime" by presburger
  then show ?thesis
    unfolding e is_fresh_def cached_token_new_def m_def [symmetric] by (auto simp: m_def [symmetric])
qed

text \<open>The source holds the token of its last successful exchange.\<close>

definition source_ok :: "token_env \<Rightarrow> token_source \<Rightarrow> bool" where
  "source_ok env ts \<longleftrightarrow>
     (\<forall>c. ts_cached ts = Some c \<longrightarrow>
        (\<exists>n token e. n < ts_exchanges ts \<and> te_exchange env n = Some (token, e) \<and>
           c = cached_token_new (te_received env n) token e))"

lemma exchange_and_keep_cases:
  "exchange_and_keep env ts =
     (case te_exchange env (ts_exchanges ts) of
        None \<Rightarrow> (Inl ''token exchange failed'', ts\<lparr>ts_exchanges := Suc (ts_exchanges ts)\<rparr>)
      | Some (token, e) \<Rightarrow>
          (Inr token, \<lparr>ts_cached = Some (cached_token_new (te_received env (ts_exchanges ts)) token e),
             ts_exchanges = Suc (ts_exchanges ts)\<rparr>))"
  by (auto simp: exchange_and_keep_def exchange_def Let_def cached_token_new_def split: option.splits)

lemma exchange_and_keep_ok:
  assumes "source_ok env ts" and "exchange_and_keep env ts = (r, ts')"
  shows "source_ok env ts'" "ts_exchanges ts' = Suc (ts_exchanges ts)"
    "r = Inr t \<Longrightarrow> \<exists>e. te_exchange env (ts_exchanges ts) = Some (t, e)"
proof -
  show "source_ok env ts'"
    using assms unfolding source_ok_def by (auto simp: exchange_and_keep_cases split: option.splits) (metis less_SucI)+
  show "ts_exchanges ts' = Suc (ts_exchanges ts)" "r = Inr t \<Longrightarrow> \<exists>e. te_exchange env (ts_exchanges ts) = Some (t, e)"
    using assms(2) by (auto simp: exchange_and_keep_cases split: option.splits)
qed

lemma current_token_ok:
  assumes "source_ok env ts" and "current_token env now ts = (r, ts')"
  shows "source_ok env ts' \<and> ts_exchanges ts \<le> ts_exchanges ts' \<and>
    (\<forall>t. r = Inr t \<longrightarrow> (\<exists>c. ts_cached ts = Some c \<and> is_fresh now c \<and> t = ck_access_token c) \<or>
       (\<exists>e. te_exchange env (ts_exchanges ts) = Some (t, e)))"
proof (cases "\<exists>c. ts_cached ts = Some c \<and> is_fresh now c")
  case True
  then show ?thesis using assms by (auto simp: current_token_def)
next
  case False
  then have "exchange_and_keep env ts = (r, ts')" using assms(2) by (auto simp: current_token_def split: option.splits)
  from exchange_and_keep_ok [OF assms(1) this] show ?thesis by simp
qed

lemma renew_rejected_ok:
  assumes "source_ok env ts" and "renew_rejected env t ts = (r, ts')"
  shows "source_ok env ts' \<and> ts_exchanges ts \<le> ts_exchanges ts' \<and>
    (\<forall>t'. r = Inr t' \<longrightarrow> t' \<noteq> t \<or>
       (\<exists>n e. ts_exchanges ts \<le> n \<and> n < ts_exchanges ts' \<and> te_exchange env n = Some (t', e)))"
proof (cases "\<exists>c. ts_cached ts = Some c \<and> ck_access_token c \<noteq> t")
  case True
  then show ?thesis using assms by (auto simp: renew_rejected_def)
next
  case False
  then have "exchange_and_keep env ts = (r, ts')" using assms(2) by (auto simp: renew_rejected_def split: option.splits)
  from exchange_and_keep_ok [OF assms(1) this] show ?thesis by auto
qed


section \<open>The resource indicator identifies the server\<close>

text \<open>The resource for which tokens are requested is either the URL of the server as configured or a URL that
  the server's own origin published, of the same scheme, host and port, without fragment, whose path is the
  server's path or an ancestor of it. No metadata document of another origin is requested.\<close>

lemma resource_of_same_origin:
  assumes "cc_parse cc server_url = Some url"
  shows "(resource_indicator cc server_url = server_url \<or>
     (\<exists>r rest. cc_parse cc (resource_indicator cc server_url) = Some r \<and> same_origin url r \<and> fu_fragment r = None \<and>
        (lu_path url = lu_path r \<or> lu_path url = trim_end_char CHR ''/'' (lu_path r) @ rest \<and> (rest = [] \<or> hd rest = CHR ''/'')))) \<and>
     resource_indicator cc server_url =
       resource_indicator (cc\<lparr>cc_http := (cc_http cc)\<lparr>rh_get := (\<lambda>m. if same_origin url m then rh_get (cc_http cc) m else None)\<rparr>\<rparr>)
         server_url"
proof -
  let ?get = "\<lambda>m. if same_origin url m then rh_get (cc_http cc) m else None"
  let ?http = "(cc_http cc)\<lparr>rh_get := ?get\<rparr>"
  have f: "fetch_resource parse ?http url m = fetch_resource parse (cc_http cc) url m" for parse m
    by (simp add: fetch_resource_def)
  have "first_resource parse ?http url ms = first_resource parse (cc_http cc) url ms" for parse ms
    by (induction ms) (simp_all add: f split: option.split)
  then have d: "discover_resource parse ?http url = discover_resource parse (cc_http cc) url" for parse
    by (simp add: discover_resource_def challenge_pointer_def cong: if_cong)
  have i: "is_identifier_for (cc_parse cc) url r" if "first_resource (cc_parse cc) (cc_http cc) url ms = Some r" for r ms
    using that by (induction ms)
      (auto simp: fetch_resource_def split: option.splits if_splits prod.splits json.splits)
  have "resource_indicator cc server_url = server_url \<or> is_identifier_for (cc_parse cc) url (resource_indicator cc server_url)"
    using assms i by (auto simp: resource_indicator_def discover_resource_def split: option.splits)
  then show ?thesis
    using assms d
    by (auto simp: is_identifier_for_def resource_indicator_def Let_def strip_prefix_Some_iff split: option.splits)
qed

section \<open>Bodies of OAuth responses are bounded\<close>

lemma read_body_concat:
  "length body \<le> MAX_BODY \<Longrightarrow> read_body body (map Inr cs) =
     (if length body + length (concat cs) \<le> MAX_BODY then Inr (body @ concat cs) else Inl BodyTooLarge)"
  by (induction cs arbitrary: body) auto

lemma read_body_length: "length body \<le> MAX_BODY \<Longrightarrow> read_body body cs = Inr b \<Longrightarrow> length b \<le> MAX_BODY"
  by (induction body cs rule: read_body.induct) (auto split: if_splits)

text \<open>The guarded OAuth client reads a body that arrives without a failure in full, exactly if it has at most
  one mebibyte, however it is cut into chunks; no response it returns is longer. A request to a URL that the
  egress check refuses is not sent.\<close>

lemma oauth_body_bounded:
  "read_body [] (map Inr cs) = (if length (concat cs) \<le> 2 ^ 20 then Inr (concat cs) else Inl BodyTooLarge) \<and>
   (oauth_execute parse send uri policy ok = Inr (status, body) \<longrightarrow>
      length body \<le> 2 ^ 20 \<and> check_url parse uri True = Inr ()) \<and>
   (check_url parse uri True = Inl b \<longrightarrow> oauth_execute parse send uri policy ok = Inl (OAuthEgressBlocked b))"
  using read_body_concat [of "[]" cs] read_body_length [of "[]"]
  by (auto simp: oauth_execute_def MAX_BODY_def and_then_Inr_iff split: sum.splits if_splits prod.splits)

section \<open>Runs\<close>

lemma renewal_in_time_witness:
  "is_fresh 0 (cached_token_new 0 ''t'' (Some 100)) \<and> (0 :: nat) + min (30 * 10 ^ 9) (100 div 2) < 0 + 100"
proof -
  have "is_fresh 0 (cached_token_new 0 ''t'' (Some 100))"
    by (simp add: is_fresh_def cached_token_new_def renew_margin_def MAX_RENEW_MARGIN_def)
  with renewal_in_time [of 0 0 "''t''" 100] show ?thesis by blast
qed

text \<open>The upstream takes the second token only; the first one is cached and fresh.\<close>

definition example_token_env :: token_env where
  "example_token_env =
     \<lparr>te_exchange = (\<lambda>n. Some (if n = 0 then ''one'' else ''two'', None)), te_received = (\<lambda>_. 0)\<rparr>"


definition example_located :: located_parser where
  "example_located s =
     Some \<lparr>pu_scheme = ''https'', pu_host_str = Some ''h'', fu_query = None, fu_fragment = None, lu_port = Some 443,
       lu_path = s\<rparr>"

definition example_cc :: cc_env where
  "example_cc =
     \<lparr>cc_parse = example_located,
      cc_http = \<lparr>rh_challenge = (\<lambda>_. None), rh_pointer = (\<lambda>_ _. None),
        rh_get = (\<lambda>_. Some (200, Some (JObject [(''resource'', JString ''/api'')])))\<rparr>,
      cc_validate = (\<lambda>_ _ _. True), cc_configure = (\<lambda>_ _ _. True), cc_tokens = example_token_env\<rparr>"

lemma resource_of_same_origin_witness:
  "\<exists>url r. resource_indicator example_cc ''/api/mcp'' = ''/api'' \<and> cc_parse example_cc ''/api/mcp'' = Some url \<and>
     cc_parse example_cc ''/api'' = Some r \<and> same_origin url r \<and> fu_fragment r = None"
proof -
  have i: "resource_indicator example_cc ''/api/mcp'' = ''/api''"
    by (simp add: resource_indicator_def example_cc_def discover_resource_def challenge_pointer_def well_known_urls_def Let_def
        fetch_resource_def same_origin_def well_known_at_def example_located_def http_success_def is_identifier_for_def
        trim_end_char_def)
  obtain url where u: "cc_parse example_cc ''/api/mcp'' = Some url" by (simp add: example_cc_def example_located_def)
  have "\<exists>r. cc_parse example_cc ''/api'' = Some r \<and> same_origin url r \<and> fu_fragment r = None"
    using resource_of_same_origin [OF u, THEN conjunct1] unfolding i by auto
  then show ?thesis using i u by blast
qed

lemma oauth_body_bounded_witness:
  "read_body [] (map Inr [[1, 2], [3]]) = Inr [1, 2, 3]"
  using oauth_body_bounded [of "[[1, 2], [3]]"] by simp

end
