(* ===== verification/AdminApi.thy ===== *)
theory AdminApi
  imports AdminWrite OAuthClient
begin

text \<open>
  The read side of the admin API (\<open>src/admin/read.rs\<close>, \<open>admin/types\<close>, the views of \<open>admin/mcp.rs\<close>), the
  configuration report (\<open>crud.rs\<close>), the summary of \<open>GET /config\<close> (\<open>http/routes.rs\<close>), and the OAuth end points
  (\<open>admin/oauth.rs\<close>, \<open>http/oauth_callback.rs\<close>). A response is a record; its JSON form is serde's.
\<close>

section \<open>Views of the configuration (admin/types, read.rs, routes.rs)\<close>

datatype auth_type_response = AtNone | AtBearer | AtHeader | AtOAuth

definition auth_type_from_auth :: "upstream_auth \<Rightarrow> auth_type_response" where
  "auth_type_from_auth a =
     (case a of AuthNone \<Rightarrow> AtNone | AuthBearer _ \<Rightarrow> AtBearer | AuthHeader _ _ \<Rightarrow> AtHeader | AuthOAuth _ _ _ _ \<Rightarrow> AtOAuth)"

record resource_summary_response =
  rv_id :: string
  rv_domain :: string
  rv_provider :: string
  rv_base_url :: string
  rv_endpoint_count :: nat
  rv_auth_type :: auth_type_response
  rv_key_pool_size :: nat

definition resource_summary :: "api_resource \<Rightarrow> resource_summary_response" where
  "resource_summary r =
     \<lparr>rv_id = ar_id r, rv_domain = ar_domain r, rv_provider = provider_or_id r, rv_base_url = ar_base_url r,
      rv_endpoint_count = length (ar_endpoints r), rv_auth_type = auth_type_from_auth (ar_auth r),
      rv_key_pool_size = (case ar_key_pool r of Some p \<Rightarrow> length (kpc_keys p) | None \<Rightarrow> 0)\<rparr>"

definition resources_view :: "('g, 'p) app_state \<Rightarrow> resource_summary_response list" where
  "resources_view st = map resource_summary (gc_api_resources (ap_config st))"

datatype proxy_key_auth_mode = ModeToken | ModeLegacy

record proxy_key_response =
  kv_id :: string
  kv_display_name :: string
  kv_auth_mode :: proxy_key_auth_mode
  kv_expires_at :: "datetime option"
  kv_usage :: key_usage_view
  kv_allowed_tools :: "string list"
  kv_denied_tools :: "string list"
  kv_allowed_servers :: "string list"
  kv_allowed_tool_names :: "string list"
  kv_limits :: "key_limits option"
  kv_default_tool_page_size :: nat

definition proxy_key_response_of :: "proxy_key \<Rightarrow> key_usage_view \<Rightarrow> proxy_key_response" where
  "proxy_key_response_of k u =
     \<lparr>kv_id = pk_id k, kv_display_name = pk_display_name k,
      kv_auth_mode = (if pk_token_ref k \<noteq> None \<or> pk_token_digest k \<noteq> None then ModeToken else ModeLegacy),
      kv_expires_at = pk_expires_at k, kv_usage = u, kv_allowed_tools = pk_allowed_tools k,
      kv_denied_tools = pk_denied_tools k, kv_allowed_servers = pk_allowed_servers k,
      kv_allowed_tool_names = pk_allowed_tool_names k, kv_limits = pk_limits k,
      kv_default_tool_page_size = pk_default_tool_page_size k\<rparr>"

definition proxy_keys_view :: "datetime \<Rightarrow> ('g, 'p) app_state \<Rightarrow> proxy_key_response list" where
  "proxy_keys_view now st =
     map (\<lambda>k. proxy_key_response_of k
            (case key_usage_at (pk_id k) now (ap_limits st) of
               Some u \<Rightarrow> u
             | None \<Rightarrow> \<lparr>ku_calls_total = 0, ku_calls_today = 0, ku_max_calls = None, ku_max_calls_per_day = None\<rparr>))
       (gc_proxy_keys (ap_config st))"

record tool_summary_response =
  tv_resource_id :: string
  tv_description :: string
  tv_description_override :: "string option"
  tv_name :: string

definition tool_summary :: "tool_catalog \<Rightarrow> wrapped_tool \<Rightarrow> tool_summary_response" where
  "tool_summary c t =
     \<lparr>tv_resource_id = wt_resource_id t,
      tv_description = (case original_description c (wire t) of Some d \<Rightarrow> d | None \<Rightarrow> wt_description t),
      tv_description_override = description_override c (wire t), tv_name = wire t\<rparr>"

definition tools_view :: "('g, 'p) app_state \<Rightarrow> nat \<times> tool_summary_response list" where
  "tools_view st =
     (let tools = map (tool_summary (ap_catalog st)) (cat_tools (ap_catalog st)) in (length tools, tools))"

record mcp_preset_response =
  pv_preset :: mcp_preset
  pv_enabled :: bool
  pv_requires_key :: bool

definition mcp_presets_view :: "('g, 'p) app_state \<Rightarrow> mcp_preset_response list" where
  "mcp_presets_view st =
     map (\<lambda>p. \<lparr>pv_preset = p,
                pv_enabled = (mcp_server_of (ap_config st) (mp_id p) \<noteq> None \<or> mp_id p \<in> set (gc_builtin_mcp (ap_config st))),
                pv_requires_key = requires_key p\<rparr>) builtin_presets"

record resource_public =
  cs_id :: string
  cs_domain :: string
  cs_provider :: string
  cs_base_url :: string
  cs_description :: string

definition config_summary :: "gateway_config \<Rightarrow> resource_public list \<times> (string \<times> string) list" where
  "config_summary config =
     (map (\<lambda>r. \<lparr>cs_id = ar_id r, cs_domain = ar_domain r, cs_provider = provider_or_id r, cs_base_url = ar_base_url r,
                 cs_description = ar_description r\<rparr>) (gc_api_resources config),
      map (\<lambda>k. (pk_id k, pk_display_name k)) (gc_proxy_keys config))"

section \<open>Authenticated requests (routes.rs)\<close>

definition authenticate_request ::
  "sha256 \<Rightarrow> datetime \<Rightarrow> string option \<Rightarrow> string option \<Rightarrow> ('g, 'p) app_state \<Rightarrow> asterlane_error + string" where
  "authenticate_request sha now header query_key st =
     authenticate sha (ap_auth st) (bearer_token header) query_key now"

definition proxy_key_for :: "gateway_config \<Rightarrow> string \<Rightarrow> asterlane_error + proxy_key" where
  "proxy_key_for config key_id =
     ok_or (internal AuthInvalidGatewayKey ''invalid gateway key'') (proxy_key_of config key_id)"

definition get_config ::
  "('g, 'p) admin_env \<Rightarrow> instant \<Rightarrow> string option \<Rightarrow> string option \<Rightarrow> ('g, 'p) app_state \<Rightarrow>
   (asterlane_error + resource_public list \<times> (string \<times> string) list) \<times> ('g, 'p) app_state" where
  "get_config env t header query_key st =
     (case and_then (authenticate_request (ae_sha env) (ae_now env) header query_key st) (\<lambda>key_id.
         and_then (proxy_key_for (ap_config st) key_id) (\<lambda>_. Inr key_id)) of
        Inl e \<Rightarrow> (Inl e, st)
      | Inr key_id \<Rightarrow>
          (let (r, limits) = check_key (ae_governor env) t key_id (ap_limits st); st1 = st\<lparr>ap_limits := limits\<rparr>
           in case r of
                Inl e \<Rightarrow> (Inl (from_limit_error e), st1)
              | Inr _ \<Rightarrow> (Inr (config_summary (ap_config st)), st1)))"

section \<open>The configuration report (crud.rs)\<close>

datatype config_issue_level = IssueError | IssueWarn

record config_issue =
  ci_level :: config_issue_level
  ci_target :: string
  ci_message :: string

fun duplicate_issues :: "string \<Rightarrow> string \<Rightarrow> string set \<Rightarrow> string list \<Rightarrow> config_issue list" where
  "duplicate_issues kind msg seen [] = []"
| "duplicate_issues kind msg seen (i # ids) =
     (if i \<in> seen then [\<lparr>ci_level = IssueError, ci_target = kind @ i, ci_message = msg\<rparr>] else []) @
     duplicate_issues kind msg (insert i seen) ids"

definition pattern_issues :: "(string \<Rightarrow> string option) \<Rightarrow> proxy_key \<Rightarrow> config_issue list" where
  "pattern_issues regex_error k =
     List.map_filter (\<lambda>p. map_option (\<lambda>e. \<lparr>ci_level = IssueWarn, ci_target = ''proxy_key:'' @ pk_id k,
         ci_message = ''invalid regex in scope: '' @ e\<rparr>) (regex_error p))
       (pk_allowed_tools k @ pk_denied_tools k)"

definition config_issues :: "(string \<Rightarrow> string option) \<Rightarrow> gateway_config \<Rightarrow> config_issue list" where
  "config_issues regex_error config =
     duplicate_issues ''resource:'' ''duplicate resource id'' {} (map ar_id (gc_api_resources config)) @
     duplicate_issues ''proxy_key:'' ''duplicate proxy key id'' {} (map pk_id (gc_proxy_keys config)) @
     concat (map (pattern_issues regex_error) (gc_proxy_keys config)) @
     map (\<lambda>r. \<lparr>ci_level = IssueWarn, ci_target = ''resource:'' @ ar_id r, ci_message = ''empty base_url''\<rparr>)
       (filter (\<lambda>r. ar_base_url r = []) (gc_api_resources config)) @
     map (\<lambda>s. \<lparr>ci_level = IssueWarn, ci_target = ''mcp_server:'' @ ms_id s, ci_message = ''empty url''\<rparr>)
       (filter (\<lambda>s. ms_url s = []) (gc_mcp_servers config))"

record config_validate_response =
  cv_valid :: bool
  cv_resource_count :: nat
  cv_proxy_key_count :: nat
  cv_mcp_server_count :: nat
  cv_issues :: "config_issue list"

definition validate_config :: "(string \<Rightarrow> string option) \<Rightarrow> ('g, 'p) app_state \<Rightarrow> config_validate_response" where
  "validate_config regex_error st =
     (let config = ap_config st; issues = config_issues regex_error config
      in \<lparr>cv_valid = (\<not> list_ex (\<lambda>i. ci_level i = IssueError) issues), cv_resource_count = length (gc_api_resources config),
          cv_proxy_key_count = length (gc_proxy_keys config), cv_mcp_server_count = length (gc_mcp_servers config),
          cv_issues = issues\<rparr>)"

section \<open>Key pools (read.rs, types/observability.rs)\<close>

datatype key_runtime_state = RtCooling | RtLeased | RtAvailable

record key_pool_key_response =
  kk_key_id :: key_id
  kk_state :: key_runtime_state
  kk_leased_count :: u32
  kk_cooling_remaining_ms :: "u64 option"
  kk_weight :: u32
  kk_ewma_latency_ms :: "u32 option"
  kk_ref :: string

definition key_pool_key_from_snapshot :: "key_status_snapshot \<Rightarrow> string option \<Rightarrow> key_pool_key_response" where
  "key_pool_key_from_snapshot snap secret_ref =
     \<lparr>kk_key_id = kss_key_id snap,
      kk_state = (if is_cooling (kss_state snap) then RtCooling
                  else if 0 < active_count (kss_state snap) then RtLeased else RtAvailable),
      kk_leased_count = active_count (kss_state snap),
      kk_cooling_remaining_ms = map_option (\<lambda>d. word_of_nat (d div 10 ^ 6)) (kss_cooling_remaining snap),
      kk_weight = kss_weight snap, kk_ewma_latency_ms = kss_ewma_latency_ms snap,
      kk_ref = (case secret_ref of Some r \<Rightarrow> redact_secret_ref r | None \<Rightarrow> [])\<rparr>"

definition pool_view :: "instant \<Rightarrow> resource_key_pool \<Rightarrow> key_pool_key_response list \<times> resource_key_pool" where
  "pool_view now rp =
     (let (snaps, p) = snapshot now (rkp_pool rp)
      in (map (\<lambda>s. key_pool_key_from_snapshot s (secret_ref_for rp (kss_key_id s))) snaps, rp\<lparr>rkp_pool := p\<rparr>))"

text \<open>A snapshot ends the cooling of keys whose time has come, so reading changes the pools.\<close>

definition key_pools_view ::
  "(string \<Rightarrow> instant) \<Rightarrow> ('g, 'p) app_state \<Rightarrow>
   (string \<times> load_balance_strategy \<times> key_pool_key_response list) list \<times> ('g, 'p) app_state" where
  "key_pools_view at st =
     (case ap_pools st of
        None \<Rightarrow> ([], st)
      | Some reg \<Rightarrow>
          (sort_key fst (map (\<lambda>(i, rp). (i, rkp_strategy rp, fst (pool_view (at i) rp))) reg),
           st\<lparr>ap_pools := Some (map (\<lambda>(i, rp). (i, snd (pool_view (at i) rp))) reg)\<rparr>))"

section \<open>MCP servers (types/mcp.rs, admin/mcp.rs, admin/oauth.rs)\<close>

record mcp_oauth_response =
  vo_grant :: string
  vo_status :: string
  vo_client_id :: "string option"
  vo_client_secret_ref :: "string option"
  vo_scopes :: "string list"
  vo_expires_at :: "datetime option"

record mcp_health_response =
  vh_status :: health_status
  vh_last_check_at :: "datetime option"
  vh_last_ok_at :: "datetime option"
  vh_latency_ms :: "u64 option"
  vh_consecutive_failures :: u32
  vh_last_error :: "string option"

definition mcp_health_unknown :: mcp_health_response where
  "mcp_health_unknown =
     \<lparr>vh_status = HsUnknown, vh_last_check_at = None, vh_last_ok_at = None, vh_latency_ms = None,
      vh_consecutive_failures = 0, vh_last_error = None\<rparr>"

definition mcp_health_from_health :: "server_health \<Rightarrow> mcp_health_response" where
  "mcp_health_from_health h =
     \<lparr>vh_status = sh_status h, vh_last_check_at = sh_last_check_at h, vh_last_ok_at = sh_last_ok_at h,
      vh_latency_ms = sh_latency_ms h, vh_consecutive_failures = sh_consecutive_failures h,
      vh_last_error = sh_last_error h\<rparr>"

record mcp_limits_response =
  vl_rps :: "u32 option"
  vl_rpm :: "u32 option"
  vl_max_concurrent :: "u32 option"

definition mcp_limits_from :: "upstream_limits option \<Rightarrow> mcp_limits_response" where
  "mcp_limits_from l =
     \<lparr>vl_rps = Option.bind l ul_rps, vl_rpm = Option.bind l ul_rpm, vl_max_concurrent = Option.bind l ul_max_concurrent\<rparr>"

record mcp_server_response =
  sv_id :: string
  sv_domain :: string
  sv_provider :: string
  sv_url :: string
  sv_description :: string
  sv_builtin :: bool
  sv_requires_key :: bool
  sv_auth_type :: auth_type_response
  sv_oauth :: "mcp_oauth_response option"
  sv_security :: security_config
  sv_limits :: mcp_limits_response
  sv_health_check_enabled :: bool
  sv_health :: mcp_health_response
  sv_tool_count :: nat

definition server_json ::
  "mcp_server_config \<Rightarrow> gateway_config \<Rightarrow> server_health option \<Rightarrow> mcp_oauth_response option \<Rightarrow> mcp_server_response" where
  "server_json server config health oauth =
     \<lparr>sv_id = ms_id server, sv_domain = ms_domain server, sv_provider = ms_provider server, sv_url = ms_url server,
      sv_description = ms_description server, sv_builtin = (ms_id server \<in> set (gc_builtin_mcp config)),
      sv_requires_key = (ms_auth server \<noteq> AuthNone), sv_auth_type = auth_type_from_auth (ms_auth server), sv_oauth = oauth,
      sv_security = ms_security server, sv_limits = mcp_limits_from (ms_limits server),
      sv_health_check_enabled = ms_health_check_enabled server,
      sv_health = (case health of Some h \<Rightarrow> mcp_health_from_health h | None \<Rightarrow> mcp_health_unknown),
      sv_tool_count = (case health of Some h \<Rightarrow> sh_tool_count h | None \<Rightarrow> 0)\<rparr>"

definition oauth_view ::
  "oauth_env \<Rightarrow> mcp_server_config \<Rightarrow> server_health option \<Rightarrow> ('g, 'p) app_state \<Rightarrow>
   mcp_oauth_response option \<times> ('g, 'p) app_state" where
  "oauth_view env server health st =
     (case ms_auth server of
        AuthOAuth grant client_id client_secret_ref scopes \<Rightarrow>
          (let ((status, expires_at), st1) =
             (case grant of
                ClientCredentials \<Rightarrow> ((''automatic'', None), st)
              | AuthorizationCode \<Rightarrow>
                  (let (summary, oauth) =
                         (case ap_oauth st of
                            Some uo \<Rightarrow> (let (s, uo1) = credential_summary env (ms_id server) uo in (s, Some uo1))
                          | None \<Rightarrow> (None, None));
                       rejected = (case health of Some h \<Rightarrow> sh_status h = HsAuthRequired | None \<Rightarrow> False)
                   in (case summary of
                         Some e \<Rightarrow> if \<not> rejected then (''authorized'', e) else (''authorization_required'', None)
                       | None \<Rightarrow> (''authorization_required'', None),
                       st\<lparr>ap_oauth := oauth\<rparr>)))
           in (Some \<lparr>vo_grant = oauth_grant_str grant, vo_status = status, vo_client_id = client_id,
                vo_client_secret_ref = client_secret_ref, vo_scopes = scopes, vo_expires_at = expires_at\<rparr>, st1))
      | _ \<Rightarrow> (None, st))"

definition health_by_id :: "('g, 'p) app_state \<Rightarrow> string \<Rightarrow> server_health option" where
  "health_by_id st =
     (case ap_registry st of
        None \<Rightarrow> Map.empty
      | Some es \<Rightarrow> map_of (rev (map (\<lambda>h. (sh_server_id h, h)) (health_snapshot es))))"

fun list_server_views ::
  "oauth_env \<Rightarrow> gateway_config \<Rightarrow> (string \<Rightarrow> server_health option) \<Rightarrow> mcp_server_config list \<Rightarrow> ('g, 'p) app_state \<Rightarrow>
   mcp_server_response list \<times> ('g, 'p) app_state" where
  "list_server_views env config health [] st = ([], st)"
| "list_server_views env config health (s # ss) st =
     (let (oauth, st1) = oauth_view env s (health (ms_id s)) st;
          (rest, st2) = list_server_views env config health ss st1
      in (server_json s config (health (ms_id s)) oauth # rest, st2))"

definition list_servers :: "oauth_env \<Rightarrow> ('g, 'p) app_state \<Rightarrow> mcp_server_response list \<times> ('g, 'p) app_state" where
  "list_servers env st = list_server_views env (ap_config st) (health_by_id st) (gc_mcp_servers (ap_config st)) st"

record mcp_server_tool_response =
  vt_description :: string
  vt_description_override :: "string option"
  vt_wire_name :: string
  vt_upstream_name :: string
  vt_input_schema :: json

definition server_tool :: "tool_catalog \<Rightarrow> wrapped_tool \<Rightarrow> mcp_server_tool_response" where
  "server_tool c t =
     \<lparr>vt_description = (case original_description c (wire t) of Some d \<Rightarrow> d | None \<Rightarrow> wt_description t),
      vt_description_override = description_override c (wire t), vt_wire_name = wire t,
      vt_upstream_name = wt_upstream_path t, vt_input_schema = wt_input_schema t\<rparr>"

definition get_server ::
  "oauth_env \<Rightarrow> string \<Rightarrow> ('g, 'p) app_state \<Rightarrow>
   (asterlane_error + mcp_server_response \<times> mcp_server_tool_response list) \<times> ('g, 'p) app_state" where
  "get_server env i st =
     (case mcp_server_of (ap_config st) i of
        None \<Rightarrow> (Inl (server_not_found i), st)
      | Some server \<Rightarrow>
          (let (oauth, st1) = oauth_view env server (health_by_id st i) st
           in (Inr (server_json server (ap_config st) (health_by_id st i) oauth,
                 map (server_tool (ap_catalog st)) (filter (\<lambda>t. wt_resource_id t = i) (cat_tools (ap_catalog st)))), st1)))"

section \<open>OAuth end points (admin/oauth.rs, oauth_callback.rs)\<close>

definition authorization_code_server :: "gateway_config \<Rightarrow> string \<Rightarrow> asterlane_error + mcp_server_config" where
  "authorization_code_server config i =
     and_then (ok_or (from_mcp_error (McpUnknownServer i)) (mcp_server_of config i)) (\<lambda>server.
       if oauth_grant_of (ms_auth server) \<noteq> Some AuthorizationCode
       then Inl (internal AdminInvalidQuery ''server does not use authorization_code oauth'') else Inr server)"

definition require_oauth :: "('g, 'p) app_state \<Rightarrow> asterlane_error + upstream_oauth" where
  "require_oauth st = ok_or (internal StoreUnavailable ''upstream OAuth is not available'') (ap_oauth st)"

definition authorize ::
  "('g, 'p) admin_env \<Rightarrow> string \<Rightarrow> string \<Rightarrow> ('g, 'p, string \<times> nat) handler" where
  "authorize env admin i st =
     (case and_then (authorization_code_server (ap_config st) i) (\<lambda>server.
         and_then (require_oauth st) (\<lambda>uo. Inr (server, uo))) of
        Inl e \<Rightarrow> (Inl e, st)
      | Inr (server, uo) \<Rightarrow>
          (let (r, uo1) = start_authorization (ae_oauth env) (ae_resolve env) server uo; st1 = st\<lparr>ap_oauth := Some uo1\<rparr>
           in case r of
                Inl e \<Rightarrow> (Inl (from_authorize_error e), st1)
              | Inr (url, expires_in) \<Rightarrow>
                  (Inr (url, expires_in div 10 ^ 9), record_audit env admin ''authorize'' ''mcp_server'' i st1)))"

definition reconnect_if_registered :: "('g, 'p) admin_env \<Rightarrow> string \<Rightarrow> ('g, 'p, server_health option) handler" where
  "reconnect_if_registered env i st =
     (case ap_registry st of
        None \<Rightarrow> (Inr None, st)
      | Some _ \<Rightarrow>
          (let (r, st1) = reconnect_mcp_server env i st
           in (and_then (map_err from_mcp_error r) (\<lambda>health. Inr (Some health)), st1)))"

definition deauthorize ::
  "('g, 'p) admin_env \<Rightarrow> string \<Rightarrow> string \<Rightarrow> ('g, 'p, mcp_server_response) handler" where
  "deauthorize env admin i st =
     (case and_then (authorization_code_server (ap_config st) i) (\<lambda>server.
         and_then (require_oauth st) (\<lambda>uo. Inr (server, uo))) of
        Inl e \<Rightarrow> (Inl e, st)
      | Inr (server, uo) \<Rightarrow>
          (let (r, uo1) = clear_credentials (ae_oauth env) i uo; st1 = st\<lparr>ap_oauth := Some uo1\<rparr>
           in case r of
                Inl _ \<Rightarrow> (Inl (internal StoreUnavailable ''failed to clear OAuth credentials''), st1)
              | Inr _ \<Rightarrow>
                  (let (h, st2) = reconnect_if_registered env i st1
                   in case h of
                        Inl e \<Rightarrow> (Inl e, st2)
                      | Inr health \<Rightarrow>
                          (let st3 = record_audit env admin ''deauthorize'' ''mcp_server'' i st2;
                               (oauth, st4) = oauth_view (ae_oauth env) server health st3
                           in (Inr (server_json server (ap_config st) health oauth), st4)))))"

text \<open>
  The page the browser gets. Its fixed texts are not modelled; the parts that vary are the status, which text
  it is, and the escaped server or request id.
\<close>

datatype callback_page = SuccessPage string bool | ErrorPage nat callback_error string

definition escape_char :: "char \<Rightarrow> string" where
  "escape_char c =
     (if c = CHR ''&'' then ''&amp;'' else if c = CHR ''<'' then ''&lt;'' else if c = CHR ''>'' then ''&gt;''
      else if c = CHR 0x22 then ''&quot;'' else if c = CHR 0x27 then ''&#39;'' else [c])"

definition escape_html :: "string \<Rightarrow> string" where
  "escape_html s = concat (map escape_char s)"

definition error_status :: "callback_error \<Rightarrow> nat" where
  "error_status e = (case e of CbExchangeFailed \<Rightarrow> 502 | _ \<Rightarrow> 400)"

definition error_page :: "callback_error \<Rightarrow> string \<Rightarrow> callback_page" where
  "error_page e request_id = ErrorPage (error_status e) e (escape_html request_id)"

definition success_page :: "string \<Rightarrow> bool \<Rightarrow> callback_page" where
  "success_page server_id connected = SuccessPage (escape_html server_id) connected"

definition callback ::
  "('g, 'p) admin_env \<Rightarrow> string \<Rightarrow> callback_params option \<Rightarrow> ('g, 'p) app_state \<Rightarrow> callback_page \<times> ('g, 'p) app_state" where
  "callback env request_id query st =
     (case (ap_oauth st, query) of
        (Some uo, Some params) \<Rightarrow>
          (let (r, uo1) = complete_authorization (ae_oauth env) params uo; st1 = st\<lparr>ap_oauth := Some uo1\<rparr>
           in case r of
                Inl e \<Rightarrow> (error_page e request_id, st1)
              | Inr server_id \<Rightarrow>
                  (let (h, st2) = reconnect_mcp_server env server_id st1
                   in (success_page server_id (case h of Inr health \<Rightarrow> \<not> is_unavailable (sh_status health) | Inl _ \<Rightarrow> False),
                       st2)))
      | _ \<Rightarrow> (error_page CbInvalidState request_id, st))"

section \<open>Views do not show credentials\<close>

text \<open>
  A configuration with its secret references and digests blanked, the number and kind of the credentials kept. The
  client settings of OAuth servers are shown to the administrator on purpose and stay.
\<close>

definition blank_auth :: "upstream_auth \<Rightarrow> upstream_auth" where
  "blank_auth a =
     (case a of
        AuthBearer _ \<Rightarrow> AuthBearer []
      | AuthHeader _ _ \<Rightarrow> AuthHeader [] []
      | _ \<Rightarrow> a)"

definition blank_pool :: "key_pool_config \<Rightarrow> key_pool_config" where
  "blank_pool p = p\<lparr>kpc_keys := map (\<lambda>k. k\<lparr>pkc_secret_ref := []\<rparr>) (kpc_keys p)\<rparr>"

definition blank_resource :: "api_resource \<Rightarrow> api_resource" where
  "blank_resource r = r\<lparr>ar_auth := blank_auth (ar_auth r), ar_key_pool := map_option blank_pool (ar_key_pool r)\<rparr>"

definition blank_key :: "proxy_key \<Rightarrow> proxy_key" where
  "blank_key k = k\<lparr>pk_token_ref := map_option (\<lambda>_. []) (pk_token_ref k), pk_token_digest := map_option (\<lambda>_. []) (pk_token_digest k)\<rparr>"

definition blank_server :: "mcp_server_config \<Rightarrow> mcp_server_config" where
  "blank_server s = s\<lparr>ms_auth := blank_auth (ms_auth s)\<rparr>"

definition blank_config :: "gateway_config \<Rightarrow> gateway_config" where
  "blank_config c =
     c\<lparr>gc_api_resources := map blank_resource (gc_api_resources c), gc_proxy_keys := map blank_key (gc_proxy_keys c),
       gc_mcp_servers := map blank_server (gc_mcp_servers c)\<rparr>"

definition blank_state :: "('g, 'p) app_state \<Rightarrow> ('g, 'p) app_state" where
  "blank_state st = st\<lparr>ap_config := blank_config (ap_config st)\<rparr>"

lemma blank_auth_type [simp]:
  "auth_type_from_auth (blank_auth a) = auth_type_from_auth a" "blank_auth a = AuthNone \<longleftrightarrow> a = AuthNone"
  by (cases a; simp add: blank_auth_def auth_type_from_auth_def)+

lemma blank_fields [simp]:
  "ar_id (blank_resource r) = ar_id r" "provider_or_id (blank_resource r) = provider_or_id r"
  "resource_summary (blank_resource r) = resource_summary r" "pk_id (blank_key k) = pk_id k"
  "proxy_key_response_of (blank_key k) u = proxy_key_response_of k u" "ms_id (blank_server s) = ms_id s"
  "ap_catalog (blank_state st) = ap_catalog st" "ap_limits (blank_state st) = ap_limits st"
  "ap_oauth (blank_state st) = ap_oauth st" "ap_registry (blank_state st) = ap_registry st"
  "ap_config (blank_state st) = blank_config (ap_config st)" "gc_builtin_mcp (blank_config c) = gc_builtin_mcp c"
  by (auto simp: blank_resource_def blank_key_def blank_server_def blank_state_def blank_config_def blank_pool_def
      provider_or_id_def resource_summary_def proxy_key_response_of_def split: option.splits)

lemma server_json_blank: "server_json (blank_server s) (blank_config c) h v = server_json s c h v"
  by (simp add: server_json_def blank_server_def)

lemma oauth_view_blank:
  "oauth_view env (blank_server s) h (blank_state st) = map_prod id blank_state (oauth_view env s h st)"
  by (cases "ms_auth s")
    (auto simp: oauth_view_def blank_server_def blank_auth_def blank_state_def Let_def split: prod.splits oauth_grant.splits option.splits)

lemma list_views_blank:
  "list_server_views env (blank_config c) h (map blank_server ss) (blank_state st) =
     map_prod id blank_state (list_server_views env c h ss st)"
  by (induction ss arbitrary: st) (simp_all add: oauth_view_blank server_json_blank Let_def split_def)


section \<open>The configuration report\<close>

lemma duplicate_issues_none: "duplicate_issues t m seen ids = [] \<longleftrightarrow> distinct ids \<and> set ids \<inter> seen = {}"
  by (induction ids arbitrary: seen) auto

lemma duplicate_issues_errors: "list_all (\<lambda>i. ci_level i = IssueError) (duplicate_issues t m seen ids)"
  by (induction ids arbitrary: seen) auto

lemma config_valid_iff:
  "cv_valid (validate_config re st) \<longleftrightarrow>
     distinct (map ar_id (gc_api_resources (ap_config st))) \<and> distinct (map pk_id (gc_proxy_keys (ap_config st)))"
proof -
  have e: "list_ex (\<lambda>i. ci_level i = IssueError) (duplicate_issues t m {} xs) \<longleftrightarrow> \<not> distinct xs" for t m xs
    using duplicate_issues_errors [of t m "{}" xs] duplicate_issues_none [of t m "{}" xs]
    by (cases "duplicate_issues t m {} xs") auto
  have "\<not> list_ex (\<lambda>i. ci_level i = IssueError) (concat (map (pattern_issues re) ks))" for ks
    by (auto simp: list_ex_iff pattern_issues_def List.map_filter_def)
  then show ?thesis
    by (auto simp: validate_config_def config_issues_def Let_def e) (auto simp: list_ex_iff)
qed

text \<open>The configuration report calls a configuration valid exactly if no two resources and no two gateway keys have
  the same id, and no admin write makes a valid configuration invalid.\<close>

lemma report_stays_valid:
  assumes "distinct (map ms_id (gc_mcp_servers (ap_config st)))" and "config_write env admin w st = (r, st')"
  shows "(cv_valid (validate_config re st) \<longleftrightarrow>
       distinct (map ar_id (gc_api_resources (ap_config st))) \<and> distinct (map pk_id (gc_proxy_keys (ap_config st)))) \<and>
     (cv_valid (validate_config re st) \<longrightarrow> cv_valid (validate_config re st'))"
  using assms config_write_ids_distinct [OF _ assms(2)] by (simp add: config_valid_iff ids_distinct_def)

section \<open>Escaping\<close>

definition html_special :: "char set" where
  "html_special = {CHR ''<'', CHR ''>'', CHR 0x22, CHR 0x27}"

lemma escape_char_cases:
  "c = CHR ''&'' \<and> escape_char c = ''&amp;'' \<or> c = CHR ''<'' \<and> escape_char c = ''&lt;'' \<or> c = CHR ''>'' \<and> escape_char c = ''&gt;'' \<or>
   c = CHR 0x22 \<and> escape_char c = ''&quot;'' \<or> c = CHR 0x27 \<and> escape_char c = ''&#39;'' \<or>
   c \<notin> html_special \<and> c \<noteq> CHR ''&'' \<and> escape_char c = [c]"
  by (auto simp: escape_char_def html_special_def)

lemma escape_html_inj: "escape_html s = escape_html t \<Longrightarrow> s = t"
proof (induction s arbitrary: t)
  case Nil
  then show ?case using escape_char_cases [of "hd t"] by (cases t) (auto simp: escape_html_def)
next
  case (Cons c s)
  then obtain d t' where t: "t = d # t'" using escape_char_cases [of c] by (cases t) (auto simp: escape_html_def)
  have e: "escape_char c @ escape_html s = escape_char d @ escape_html t'" using Cons.prems by (simp add: t escape_html_def)
  then have "c = d" using escape_char_cases [of c] escape_char_cases [of d] by auto
  with e Cons.IH show ?case by (simp add: t)
qed

text \<open>The ids on the callback page are escaped: they bring no character into the page that could open or close
  a tag or an attribute, and different ids stay different.\<close>

lemma callback_page_escaped:
  "set (escape_html s) \<inter> {CHR ''<'', CHR ''>'', CHR 0x22, CHR 0x27} = {} \<and> (escape_html s = escape_html t \<longleftrightarrow> s = t) \<and>
   (case fst (callback env request_id query st) of
      SuccessPage x _ \<Rightarrow> x \<in> range escape_html | ErrorPage status _ x \<Rightarrow> x = escape_html request_id \<and> status \<in> {400, 502})"
proof (intro conjI)
  have "set (escape_char c) \<inter> html_special = {}" for c
    using escape_char_cases [of c] by (auto simp: html_special_def)
  then show "set (escape_html s) \<inter> {CHR ''<'', CHR ''>'', CHR 0x22, CHR 0x27} = {}"
    by (auto simp: escape_html_def html_special_def)
  show "escape_html s = escape_html t \<longleftrightarrow> s = t" using escape_html_inj by blast
  show "case fst (callback env request_id query st) of
      SuccessPage x _ \<Rightarrow> x \<in> range escape_html | ErrorPage status _ x \<Rightarrow> x = escape_html request_id \<and> status \<in> {400, 502}"
    by (auto simp: callback_def error_page_def success_page_def error_status_def Let_def
        split: option.splits prod.splits sum.splits callback_error.splits)
qed

section \<open>Revoking an authorization\<close>

lemma record_audit_oauth [frame_simps]: "ap_oauth (record_audit env admin a t i st) = ap_oauth st"
  by (simp add: record_audit_def with_store_def)

lemma reconnect_oauth: "reconnect_mcp_server env i st = (r, st') \<Longrightarrow> ap_oauth st' = ap_oauth st"
  by (auto simp: reconnect_mcp_server_def sync_catalog_and_baseline_def rebase_integrity_baseline_def
      sync_catalog_from_registry_def Let_def split: option.splits prod.splits sum.splits)

lemma summary_none:
  assumes "credential_summary env i uo = (r, uo')" and "mem_ok uo" and "no_credentials i uo"
  shows "r = None"
proof -
  obtain c uo1 where c: "credential_store i uo = (c, uo1)" by fastforce
  show ?thesis
  proof (cases c)
    case (Inl e)
    then show ?thesis using assms(1) c by (simp add: credential_summary_def)
  next
    case (Inr h)
    then obtain e where "preflight env h uo1 = Inl e" using preflight_none [of i uo h uo1 env] c assms(2,3) by blast
    then show ?thesis
      using assms(1) c Inr
      by (auto simp: credential_summary_def preflight_def split: sum.splits option.splits if_splits load_failure.splits)
  qed
qed

text \<open>When the admin API has revoked the authorization of a server, the gateway holds no credentials for it, no
  callback of an authorization that was started before is accepted for it, and the server is shown as waiting for
  authorization, whatever the reconnection gave.\<close>

lemma deauthorize_revokes:
  assumes "deauthorize env admin i st = (Inr view, st')" and "ap_oauth st = Some uo" and "mem_ok uo"
  shows "\<exists>uo'. ap_oauth st' = Some uo' \<and> no_credentials i uo' \<and> i \<notin> fst ` pending_handles uo' \<and>
     (complete_begin env' params uo' = (Inr (j, x), uo'') \<longrightarrow> j \<noteq> i) \<and>
     map_option vo_status (sv_oauth view) = Some ''authorization_required''"
proof -
  obtain server where s: "authorization_code_server (ap_config st) i = Inr server"
    using assms(1) by (cases "authorization_code_server (ap_config st) i") (auto simp: deauthorize_def)
  then have i: "ms_id server = i" "oauth_grant_of (ms_auth server) = Some AuthorizationCode"
    by (auto simp: authorization_code_server_def and_then_Inr_iff ok_or_def mcp_server_of_def find_Some_iff split: option.splits if_splits)
  obtain r uo1 where c: "clear_credentials (ae_oauth env) i uo = (r, uo1)" by fastforce
  have r: "r = Inr ()" using assms(1,2) s c by (cases r) (auto simp: deauthorize_def require_oauth_def ok_or_def Let_def)
  note e = clear_effect [OF c assms(3)]
  obtain h st2 where h: "reconnect_if_registered env i (st\<lparr>ap_oauth := Some uo1\<rparr>) = (h, st2)" by fastforce
  have u: "ap_oauth st2 = Some uo1"
    using h reconnect_oauth [of env i "st\<lparr>ap_oauth := Some uo1\<rparr>"]
    by (auto simp: reconnect_if_registered_def Let_def split: option.splits prod.splits)
  let ?st3 = "record_audit env admin ''deauthorize'' ''mcp_server'' i st2"
  obtain health where "h = Inr health" using assms(1,2) s c r h
    by (cases h) (auto simp: deauthorize_def require_oauth_def ok_or_def)
  then obtain vo where vo: "oauth_view (ae_oauth env) server health ?st3 = (vo, st')" "sv_oauth view = vo"
    using assms(1,2) s c r h
    by (auto simp: deauthorize_def require_oauth_def ok_or_def server_json_def Let_def split: prod.splits)
  obtain sm uo2 where sm: "credential_summary (ae_oauth env) i uo1 = (sm, uo2)" by fastforce
  have m: "mem_ok uo1" "no_credentials i uo1" using e(1,3) r by (auto simp: tame_def)
  have "sm = None" using summary_none [OF sm m] .
  then have f: "ap_oauth st' = Some uo2" "map_option vo_status vo = Some ''authorization_required''"
    using vo(1) i sm u
    by (auto simp: oauth_view_def oauth_grant_of_def frame_simps Let_def split: upstream_auth.splits)
  note g = summary_effect [OF sm m(1)]
  have p: "i \<notin> fst ` pending_handles uo2" using e(4) g(3) by (auto simp: pending_handles_def)
  moreover have "complete_begin env' params uo2 = (Inr (j, x), uo'') \<longrightarrow> j \<noteq> i"
    using complete_begin_effect(4) [of env' params uo2 "Inr (j, x)" uo'' j] p by (cases x) (metis fst_conv image_eqI)
  ultimately show ?thesis using f g(2) [OF m(2)] vo(2) by blast
qed

section \<open>Runs\<close>

lemma report_stays_valid_witness:
  "cv_valid (validate_config (\<lambda>_. None)
     (snd (config_write example_admin_env ''root'' (RevokeToken ''ops'') example_app)))"
proof -
  have m: "distinct (map ms_id (gc_mcp_servers (ap_config example_app)))"
    by (simp add: example_file_def example_auth_config_def)
  have "cv_valid (validate_config (\<lambda>_. None) example_app)"
    by (simp add: config_valid_iff example_file_def example_auth_config_def plain_key_def)
  with report_stays_valid [OF m prod.collapse [symmetric], where re = "\<lambda>_. None"] show ?thesis by blast
qed

lemma callback_page_escaped_witness: "escape_html ''a<b'' = ''a&lt;b'' \<and> escape_html ''a<b'' \<noteq> escape_html ''a&lt;b''"
proof -
  have "escape_html ''a<b'' = ''a&lt;b''" by (simp add: escape_html_def escape_char_def)
  moreover have "escape_html ''a<b'' \<noteq> escape_html ''a&lt;b''"
    using callback_page_escaped [where s = "''a<b''" and t = "''a&lt;b''", THEN conjunct2, THEN conjunct1] by simp
  ultimately show ?thesis ..
qed

definition example_login_app :: "(nat, string) app_state" where
  "example_login_app =
     (app_state_new (example_file\<lparr>gc_mcp_servers := [example_oauth_server]\<rparr>)
       \<lparr>cat_tools = [], cat_overrides = Map.empty, cat_originals = Map.empty\<rparr>)
       \<lparr>ap_oauth := Some (upstream_oauth_new (Some []) (Some [(''a'', ''x'')]) (Some ''b'') False)\<rparr>"

lemma deauthorize_revokes_witness:
  "\<exists>view st' uo'. deauthorize example_admin_env ''root'' ''a'' example_login_app = (Inr view, st') \<and>
     ap_oauth st' = Some uo' \<and> no_credentials ''a'' uo' \<and>
     map_option vo_status (sv_oauth view) = Some ''authorization_required''"
proof -
  have o: "ap_oauth example_login_app = Some (upstream_oauth_new (Some []) (Some [(''a'', ''x'')]) (Some ''b'') False)"
    by (simp add: example_login_app_def)
  obtain view st' where d: "deauthorize example_admin_env ''root'' ''a'' example_login_app = (Inr view, st')"
    by (cases "deauthorize example_admin_env ''root'' ''a'' example_login_app")
      (auto simp: deauthorize_def authorization_code_server_def mcp_server_of_def example_login_app_def app_state_new_def
        example_oauth_server_def oauth_grant_of_def require_oauth_def ok_or_def clear_credentials_def upstream_oauth_new_def
        delete_sealed_credentials_def sql_delete_def example_admin_env_def example_oauth_env_def reconnect_if_registered_def
        Let_def split: prod.splits)
  have "mem_ok (upstream_oauth_new (Some []) (Some [(''a'', ''x'')]) (Some ''b'') False)"
    by (simp add: mem_ok_def upstream_oauth_new_def)
  from deauthorize_revokes [OF d o this] d show ?thesis by blast
qed

end
