(* ===== verification/FrontDoor.thy ===== *)
theory FrontDoor
  imports MetaTools Invoke AdminApi
begin

text \<open>
  The two front doors of the gateway: the HTTP tool endpoints (\<open>src/http/tools.rs\<close>) and the MCP server
  (\<open>src/mcp/server.rs\<close>, \<open>src/mcp/meta.rs\<close>, \<open>src/mcp/call.rs\<close>, \<open>src/mcp/result.rs\<close>). Each authenticates the request, finds the
  caller's key and hands the call to the invocation pipeline, directly, through \<open>asl__call\<close> or through \<open>asl__batch\<close>.
  Serde, the HTTP types and the rmcp conversions are parameters; so is the outside world of each pipeline run, which
  also sees the extra fields a call carries to an MCP upstream. The two doors are shown to have the
  same effect for the same call, and every request to be a sequence of pipeline runs under the caller's key.
\<close>

section \<open>State and surroundings\<close>

record tool_call_extras =
  te_input_responses :: "json option"
  te_request_state :: "string option"

definition default_extras :: tool_call_extras where
  "default_extras = \<lparr>te_input_responses = None, te_request_state = None\<rparr>"

text \<open>Who is told of a changed tool list (notify.rs): the session of an old client, by its printed form, or a subscription.\<close>

datatype listener = LegacySession string | Subscription string

definition register_legacy_peer :: "string \<Rightarrow> listener list \<Rightarrow> listener list" where
  "register_legacy_peer peer peers = (if LegacySession peer \<in> set peers then peers else peers @ [LegacySession peer])"

definition register_subscription :: "string \<Rightarrow> listener list \<Rightarrow> listener list" where
  "register_subscription sink peers = (if Subscription sink \<in> set peers then peers else peers @ [Subscription sink])"

definition listen_tools_list_changed :: "bool option \<Rightarrow> string \<Rightarrow> listener list \<Rightarrow> listener list" where
  "listen_tools_list_changed accepted sink peers = (if accepted = Some True then register_subscription sink peers else peers)"

definition notify_peers_tool_list_changed :: "(listener \<Rightarrow> bool) \<Rightarrow> listener list \<Rightarrow> listener list" where
  "notify_peers_tool_list_changed delivered peers = filter delivered peers"

lemma listeners_distinct:
  "distinct peers \<Longrightarrow> distinct (register_legacy_peer p peers)" "distinct peers \<Longrightarrow> distinct (register_subscription p peers)"
  "distinct peers \<Longrightarrow> distinct (listen_tools_list_changed a p peers)"
  "distinct peers \<Longrightarrow> distinct (notify_peers_tool_list_changed d peers)"
  by (simp_all add: register_legacy_peer_def register_subscription_def listen_tools_list_changed_def
      notify_peers_tool_list_changed_def)

text \<open>A result in the form of the rmcp crate; the gateway makes only text blocks.\<close>

record mcp_result =
  mr_content :: "string list"
  mr_is_error :: bool

text \<open>The parts of the configuration that only these components read.\<close>

record front_settings =
  fo_observability :: observability_config
  fo_block_private :: bool
  fo_tools_list_ttl_ms :: u64

record ('g, 'p) front_state =
  fs_app :: "('g, 'p) app_state"
  fs_settings :: front_settings
  fs_cache :: result_cache
  fs_counter :: u64
  fs_recorded :: "request_event list"
  fs_repo :: "event_repo option"
  fs_upstream :: "'p upstream_call list"
  fs_semantic :: "semantic_index option"
  fs_peers :: "listener list"

text \<open>
  \<open>fe_run k x\<close> is what the \<open>k\<close>-th pipeline run of the request meets, when the call carries the extras \<open>x\<close>.
  \<open>fe_guarded\<close> tells whether the HTTP client with the egress filter could be built.
\<close>

record ('g, 'p) front_env =
  fe_sha :: sha256
  fe_now :: datetime
  fe_guarded :: bool
  fe_run :: "nat \<Rightarrow> tool_call_extras \<Rightarrow> ('g, 'p) invoke_env"
  fe_meta :: meta_env
  fe_discovery :: discovery_env
  fe_fetch_now :: instant
  fe_names_schema :: json
  fe_calls_schema :: json
  fe_ser_result :: "tool_call_result \<Rightarrow> string"
  fe_de_result :: "string \<Rightarrow> tool_call_result option"
  fe_de_input_required :: "string \<Rightarrow> json option"
  fe_result_json :: "mcp_result \<Rightarrow> json"
  fe_lossy :: "string \<Rightarrow> string"
  fe_header_ok :: "string \<Rightarrow> bool"

abbreviation fe_regex :: "('g, 'p) front_env \<Rightarrow> regex_engine" where
  "fe_regex env \<equiv> mt_regex (fe_meta env)"

section \<open>Assembling the executor (executor.rs, tools.rs)\<close>

definition DEFAULT_MAX_ATTEMPTS :: u32 where "DEFAULT_MAX_ATTEMPTS = 3"
definition DEFAULT_REQUEST_TIMEOUT :: duration where "DEFAULT_REQUEST_TIMEOUT = 30 * 10 ^ 9"

definition prepare_http :: "bool \<Rightarrow> bool \<Rightarrow> bool \<times> bool" where
  "prepare_http block_private guarded = (if \<not> block_private then (False, False) else (True, guarded))"

definition executor_new :: "('g, 'p) front_env \<Rightarrow> front_settings \<Rightarrow> gateway_config \<Rightarrow> tool_catalog \<Rightarrow> 'p executor" where
  "executor_new env settings config catalog =
     \<lparr>ex_config = config, ex_catalog = catalog, ex_observability = fo_observability settings,
      ex_retry =
        \<lparr>rs_max_attempts = DEFAULT_MAX_ATTEMPTS, rs_request_timeout = DEFAULT_REQUEST_TIMEOUT,
         rs_block_private = fst (prepare_http (fo_block_private settings) (fe_guarded env)),
         rs_egress_dns_pinned = snd (prepare_http (fo_block_private settings) (fe_guarded env))\<rparr>,
      ex_registry = None, ex_quarantined = None, ex_response_format = FmtJson\<rparr>"

definition with_mcp_registry :: "'p mcp_entry list \<Rightarrow> 'p executor \<Rightarrow> 'p executor" where
  "with_mcp_registry es ex = ex\<lparr>ex_registry := Some es\<rparr>"

definition with_quarantined :: "quarantine \<Rightarrow> 'p executor \<Rightarrow> 'p executor" where
  "with_quarantined q ex = ex\<lparr>ex_quarantined := Some q\<rparr>"

definition with_response_format :: "response_format \<Rightarrow> 'p executor \<Rightarrow> 'p executor" where
  "with_response_format format ex = ex\<lparr>ex_response_format := format\<rparr>"

definition make_executor :: "('g, 'p) front_env \<Rightarrow> response_format \<Rightarrow> ('g, 'p) front_state \<Rightarrow> 'p executor" where
  "make_executor env format s =
     (let ex = executor_new env (fs_settings s) (ap_config (fs_app s)) (ap_catalog (fs_app s));
          ex = (case ap_registry (fs_app s) of Some es \<Rightarrow> with_mcp_registry es ex | None \<Rightarrow> ex)
      in with_response_format format (with_quarantined (ap_quarantined (fs_app s)) ex))"

text \<open>The shared state an executor works on: limits, key pools, result cache and event repository of the application.\<close>

definition pipeline_of :: "('g, 'p) front_state \<Rightarrow> ('g, 'p) pipeline" where
  "pipeline_of s =
     \<lparr>px_limits = Some (ap_limits (fs_app s)), px_pools = ap_pools (fs_app s), px_cache = Some (fs_cache s),
      px_counter = fs_counter s, px_recorded = fs_recorded s, px_repo = fs_repo s, px_upstream = fs_upstream s\<rparr>"

definition put_pipeline :: "('g, 'p) pipeline \<Rightarrow> ('g, 'p) front_state \<Rightarrow> ('g, 'p) front_state" where
  "put_pipeline p s =
     s\<lparr>fs_app := (fs_app s)\<lparr>ap_limits := unwrap_or (px_limits p) (ap_limits (fs_app s)), ap_pools := px_pools p\<rparr>,
       fs_cache := unwrap_or (px_cache p) (fs_cache s), fs_counter := px_counter p, fs_recorded := px_recorded p,
       fs_repo := px_repo p, fs_upstream := px_upstream p\<rparr>"

definition run_call ::
  "('g, 'p) front_env \<Rightarrow> nat \<Rightarrow> tool_call_extras \<Rightarrow> response_format \<Rightarrow> string \<Rightarrow> json \<Rightarrow> proxy_key \<Rightarrow> ('g, 'p) front_state \<Rightarrow>
   (proxy_error + invoke_result) \<times> ('g, 'p) front_state" where
  "run_call env k extras format name args key s =
     (let (r, p) = invoke_call (fe_run env k extras) (make_executor env format s) name args key (pipeline_of s)
      in (r, put_pipeline p s))"

definition execute_invoke ::
  "('g, 'p) front_env \<Rightarrow> string \<Rightarrow> json \<Rightarrow> proxy_key \<Rightarrow> response_format \<Rightarrow> ('g, 'p) front_state \<Rightarrow>
   (asterlane_error + invoke_result) \<times> ('g, 'p) front_state" where
  "execute_invoke env name args key format s =
     (let (r, s') = run_call env 0 default_extras format name args key s in (map_err from_proxy_error r, s'))"

definition is_remote_mcp :: "('g, 'p) front_state \<Rightarrow> string \<Rightarrow> bool" where
  "is_remote_mcp s canonical = (case ap_registry (fs_app s) of Some es \<Rightarrow> contains_tool es canonical | None \<Rightarrow> False)"

section \<open>Errors as texts (proxy/error.rs, error.rs)\<close>

definition proxy_error_msg :: "proxy_error \<Rightarrow> string" where
  "proxy_error_msg e =
     (case e of
        UpstreamTimeout ms \<Rightarrow> ''upstream timeout after '' @ dec (unat ms) @ ''ms''
      | RetryExhausted n \<Rightarrow> ''upstream retry exhausted after '' @ dec (unat n) @ '' attempts''
      | UpstreamError st \<Rightarrow> ''upstream returned status '' @ dec (unat st)
      | ConnectionFailed \<Rightarrow> ''upstream connection failed''
      | EgressBlockedError \<Rightarrow> ''upstream address is not allowed''
      | UnknownTool n \<Rightarrow> ''unknown tool: '' @ n
      | UnknownResource i \<Rightarrow> ''unknown resource: '' @ i
      | ForbiddenTool n \<Rightarrow> ''tool '' @ n @ '' not permitted for this key''
      | InvalidToolCall d \<Rightarrow> ''invalid tool call: '' @ d
      | ProxySecret x \<Rightarrow> secret_error_msg x
      | ProxyKeyPool x \<Rightarrow> key_pool_error_msg x
      | ProxyLimit x \<Rightarrow> limit_error_msg x
      | ProxyPolicy x \<Rightarrow> policy_error_msg x
      | ProxyMcp x \<Rightarrow> mcp_error_msg x)"

definition asterlane_display :: "asterlane_error \<Rightarrow> string" where
  "asterlane_display e =
     (case e of ErrInternal code m _ \<Rightarrow> error_code_str code @ '': '' @ m | _ \<Rightarrow> safe_message e)"

section \<open>Results for MCP (result.rs)\<close>

definition mcp_success :: "string list \<Rightarrow> mcp_result" where
  "mcp_success content = \<lparr>mr_content = content, mr_is_error = False\<rparr>"

definition mcp_failure :: "string list \<Rightarrow> mcp_result" where
  "mcp_failure content = \<lparr>mr_content = content, mr_is_error = True\<rparr>"

datatype call_response = RespComplete mcp_result | RespInputRequired json

definition tool_call_result_to_mcp :: "tool_call_result \<Rightarrow> mcp_result" where
  "tool_call_result_to_mcp result =
     (if tc_is_error result then mcp_failure (tc_content result) else mcp_success (tc_content result))"

definition DEFENSE_MARK :: string where "DEFENSE_MARK = ''[Asterlane content_defense_flag=true]''"

definition prefix_content_defense :: "tool_call_result \<Rightarrow> bool \<Rightarrow> tool_call_result" where
  "prefix_content_defense result flag =
     (if \<not> flag then result
      else
        (case tc_content result of
           text # rest \<Rightarrow> result\<lparr>tc_content := (DEFENSE_MARK @ nl @ text) # rest\<rparr>
         | [] \<Rightarrow> result\<lparr>tc_content := [DEFENSE_MARK]\<rparr>))"

definition marked_body :: "('g, 'p) front_env \<Rightarrow> invoke_result \<Rightarrow> string" where
  "marked_body env result =
     (if ir_content_defense_flag result then DEFENSE_MARK @ nl @ fe_lossy env (ir_body result) else fe_lossy env (ir_body result))"

definition invoke_result_to_mcp :: "('g, 'p) front_env \<Rightarrow> invoke_result \<Rightarrow> bool \<Rightarrow> call_response" where
  "invoke_result_to_mcp env result remote =
     (if ir_content_type result = Some MCP_INPUT_REQUIRED_CONTENT_TYPE
      then
        (case fe_de_input_required env (ir_body result) of
           Some required \<Rightarrow> RespInputRequired required
         | None \<Rightarrow> RespComplete (mcp_failure [''upstream input_required result was malformed'']))
      else
        (case (if remote then fe_de_result env (ir_body result) else None) of
           Some tool_result \<Rightarrow>
             RespComplete (tool_call_result_to_mcp (prefix_content_defense tool_result (ir_content_defense_flag result)))
         | None \<Rightarrow> RespComplete (mcp_success [marked_body env result])))"

section \<open>Calls through the gateway's tools (call.rs)\<close>

definition qualifiers_of :: "json \<Rightarrow> tool_qualifiers" where
  "qualifiers_of args =
     \<lparr>tq_domain = Option.bind (json_get args ''domain'') as_str, tq_provider = Option.bind (json_get args ''provider'') as_str\<rparr>"

definition inner_arguments :: "json \<Rightarrow> json" where
  "inner_arguments args = unwrap_or (json_get args ''arguments'') (JObject [])"

definition missing_in :: "string \<Rightarrow> string \<Rightarrow> string" where
  "missing_in field tool = ''missing '' @ [CHR 0x27] @ field @ [CHR 0x27] @ '' in '' @ tool @ '' arguments''"

definition merge_meta_tool_extras :: "json \<Rightarrow> tool_call_extras \<Rightarrow> tool_call_extras" where
  "merge_meta_tool_extras args extras =
     \<lparr>te_input_responses =
        (if te_input_responses extras = None then json_get args ''input_responses'' else te_input_responses extras),
      te_request_state =
        (if te_request_state extras = None then Option.bind (json_get args ''request_state'') as_str
         else te_request_state extras)\<rparr>"

definition invoke_meta_call_tool ::
  "('g, 'p) front_env \<Rightarrow> json \<Rightarrow> tool_call_extras \<Rightarrow> proxy_key \<Rightarrow> response_format \<Rightarrow> ('g, 'p) front_state \<Rightarrow>
   (proxy_error + call_response) \<times> ('g, 'p) front_state" where
  "invoke_meta_call_tool env args extras key format s =
     (case Option.bind (json_get args ''name'') as_str of
        None \<Rightarrow> (Inl (InvalidToolCall (missing_in ''name'' CALL_TOOL)), s)
      | Some tool_name \<Rightarrow>
          (case resolve_for_key (fe_regex env) (ap_catalog (fs_app s)) tool_name (qualifiers_of args) key of
             Inl (AmbiguousToolName n cs) \<Rightarrow>
               (Inr (RespComplete (mcp_failure
                  [catalog_error_msg (AmbiguousToolName n cs) @ '' (pass domain/provider to disambiguate)''])), s)
           | Inl e \<Rightarrow> (Inl (InvalidToolCall (catalog_error_msg e)), s)
           | Inr None \<Rightarrow> (Inl (UnknownTool tool_name), s)
           | Inr (Some tool) \<Rightarrow>
               (let (r, s') = run_call env 0 (merge_meta_tool_extras args extras) format (wire tool) (inner_arguments args) key s
                in (and_then r (\<lambda>result. Inr (invoke_result_to_mcp env result (is_remote_mcp s (wire tool)))), s'))))"

definition blank_item :: "string \<Rightarrow> batch_call_result" where
  "blank_item name =
     \<lparr>br_name = name, br_request_id = None, br_result = None, br_input_required = None, br_error = None, br_cursor = None\<rparr>"

definition with_error :: "batch_call_result \<Rightarrow> string \<Rightarrow> batch_call_result" where
  "with_error item e = item\<lparr>br_error := Some e\<rparr>"

definition call_one ::
  "('g, 'p) front_env \<Rightarrow> nat \<Rightarrow> batch_tool_call \<Rightarrow> proxy_key \<Rightarrow> response_format \<Rightarrow> ('g, 'p) front_state \<Rightarrow>
   batch_call_result \<times> ('g, 'p) front_state" where
  "call_one env k call key format s =
     (let item = blank_item (bc_name call)
      in case resolve_for_key (fe_regex env) (ap_catalog (fs_app s)) (bc_name call)
               \<lparr>tq_domain = bc_domain call, tq_provider = bc_provider call\<rparr> key of
           Inl e \<Rightarrow> (with_error item (catalog_error_msg e), s)
         | Inr None \<Rightarrow> (with_error item ''unknown tool'', s)
         | Inr (Some tool) \<Rightarrow>
             (case key_can_use_tool (fe_regex env) key (wt_name tool) (wt_resource_id tool) of
                Inl e \<Rightarrow> (with_error item (policy_error_msg e), s)
              | Inr False \<Rightarrow> (with_error item (''tool '' @ bc_name call @ '' not permitted for this key''), s)
              | Inr True \<Rightarrow>
                  (case run_call env k \<lparr>te_input_responses = bc_input_responses call, te_request_state = bc_request_state call\<rparr>
                          format (wire tool) (JObject (bc_arguments call)) key s of
                     (Inl e, s') \<Rightarrow> (with_error item (proxy_error_msg e), s')
                   | (Inr result, s') \<Rightarrow>
                       (case invoke_result_to_mcp env result (is_remote_mcp s (wire tool)) of
                          RespComplete value \<Rightarrow>
                            (item\<lparr>br_request_id := Some (ir_request_id result), br_result := Some (fe_result_json env value)\<rparr>, s')
                        | RespInputRequired value \<Rightarrow>
                            (item\<lparr>br_request_id := Some (ir_request_id result), br_input_required := Some value\<rparr>, s')))))"

fun call_each ::
  "('g, 'p) front_env \<Rightarrow> nat \<Rightarrow> batch_tool_call list \<Rightarrow> proxy_key \<Rightarrow> response_format \<Rightarrow>
   ('g, 'p) front_state \<Rightarrow> batch_call_result list \<times> ('g, 'p) front_state" where
  "call_each env k [] key format s = ([], s)"
| "call_each env k (c # cs) key format s =
     (let (item, s1) = call_one env k c key format s; (items, s2) = call_each env (Suc k) cs key format s1
      in (item # items, s2))"

definition call_tools ::
  "('g, 'p) front_env \<Rightarrow> json \<Rightarrow> proxy_key \<Rightarrow> response_format \<Rightarrow> ('g, 'p) front_state \<Rightarrow>
   (string + batch_call_result list) \<times> ('g, 'p) front_state" where
  "call_tools env args key format s =
     (case and_then (mt_de_calls (fe_meta env) args) deserialize_batch of
        Inl e \<Rightarrow> (Inl e, s)
      | Inr calls \<Rightarrow>
          (let (items, s1) = call_each env 0 calls key format s;
               (r, cache) = fit_batch_budget (mt_ser (fe_meta env)) (mt_now (fe_meta env)) (pk_id key) 0 items (fs_cache s1)
           in (r, s1\<lparr>fs_cache := cache\<rparr>)))"

section \<open>HTTP (http/tools.rs)\<close>

record tools_query =
  qu_key :: "string option"
  qu_include :: "string option"
  qu_exclude :: "string option"
  qu_domain :: "string option"
  qu_provider :: "string option"
  qu_tool :: "string option"
  qu_limit :: "nat option"
  qu_cursor :: "nat option"
  qu_format :: "string option"

record http_headers =
  hh_authorization :: "string option"
  hh_accept :: "string option"

datatype tool_list = LazyToolPage "tool_descriptor list" | FullToolPage tool_page "tool_descriptor list"

definition http_caller ::
  "('g, 'p) front_env \<Rightarrow> string option \<Rightarrow> http_headers \<Rightarrow> ('g, 'p) front_state \<Rightarrow> asterlane_error + proxy_key" where
  "http_caller env query_key headers s =
     and_then (authenticate_request (fe_sha env) (fe_now env) (hh_authorization headers) query_key (fs_app s))
       (proxy_key_for (ap_config (fs_app s)))"

definition http_list_tools ::
  "('g, 'p) front_env \<Rightarrow> tools_query \<Rightarrow> http_headers \<Rightarrow> ('g, 'p) front_state \<Rightarrow> asterlane_error + tool_list" where
  "http_list_tools env query headers s =
     and_then (http_caller env (qu_key query) headers s) (\<lambda>key.
       if list_blocked_by_fail_closed (ap_registry (fs_app s)) (gc_failure_mode (ap_config (fs_app s)))
       then Inl fail_closed_list_error
       else if discovery_mode_from_config (pk_discovery_mode key) = DiscLazy
       then Inr (LazyToolPage (meta_tool_descriptors (fe_names_schema env) (fe_calls_schema env)))
       else
         and_then (map_err ErrCatalog (list_for_key (fe_regex env) (ap_catalog (fs_app s)) key
           \<lparr>lq_include_regex = qu_include query, lq_exclude_regex = qu_exclude query, lq_domain_regex = qu_domain query,
            lq_provider_regex = qu_provider query, lq_tool_regex = qu_tool query, lq_limit = qu_limit query,
            lq_cursor = qu_cursor query\<rparr>)) (\<lambda>page.
           Inr (FullToolPage page (meta_tool_descriptors (fe_names_schema env) (fe_calls_schema env)))))"

record meta_invoke_result =
  mi_result :: tool_call_result
  mi_content_defense_flag :: bool
  mi_shaped :: bool
  mi_rendered_format :: "response_format option"

definition meta_plain :: "tool_call_result \<Rightarrow> meta_invoke_result" where
  "meta_plain r = \<lparr>mi_result = r, mi_content_defense_flag = False, mi_shaped = False, mi_rendered_format = None\<rparr>"

definition meta_call ::
  "('g, 'p) front_env \<Rightarrow> json \<Rightarrow> proxy_key \<Rightarrow> response_format \<Rightarrow> ('g, 'p) front_state \<Rightarrow>
   (asterlane_error + meta_invoke_result) \<times> ('g, 'p) front_state" where
  "meta_call env args key format s =
     (case Option.bind (json_get args ''name'') as_str of
        None \<Rightarrow> (Inl (internal McpInvalidToolCall (missing_in ''name'' CALL_TOOL)), s)
      | Some tool_name \<Rightarrow>
          (case resolve_for_key (fe_regex env) (ap_catalog (fs_app s)) tool_name (qualifiers_of args) key of
             Inl e \<Rightarrow> (Inl (ErrCatalog e), s)
           | Inr None \<Rightarrow> (Inl (from_proxy_error (UnknownTool tool_name)), s)
           | Inr (Some tool) \<Rightarrow>
               (let (r, s') = execute_invoke env (wire tool) (inner_arguments args) key format s
                in (and_then r (\<lambda>result.
                     Inr \<lparr>mi_result =
                            (case (if is_remote_mcp s (wire tool) then fe_de_result env (ir_body result) else None) of
                               Some parsed \<Rightarrow> prefix_content_defense parsed (ir_content_defense_flag result)
                             | None \<Rightarrow> text_ok (marked_body env result)),
                          mi_content_defense_flag = ir_content_defense_flag result, mi_shaped = ir_shaped result,
                          mi_rendered_format = ir_rendered_format result\<rparr>), s'))))"

definition meta_fetch ::
  "('g, 'p) front_env \<Rightarrow> json \<Rightarrow> proxy_key \<Rightarrow> ('g, 'p) front_state \<Rightarrow>
   (asterlane_error + meta_invoke_result) option \<times> ('g, 'p) front_state" where
  "meta_fetch env args key s =
     (case Option.bind (json_get args ''cursor'') as_str of
        None \<Rightarrow> (Some (Inl (internal McpInvalidToolCall (missing_in ''cursor'' FETCH_RESULT))), s)
      | Some cursor \<Rightarrow>
          (let (r, cache) = fetch_text (fe_fetch_now env) cursor key (offset_of args) DEFAULT_BUDGET_BYTES (fs_cache s)
           in (map_option (\<lambda>t. Inr (meta_plain t)) r, s\<lparr>fs_cache := cache\<rparr>)))"

definition discovery_call ::
  "('g, 'p) front_env \<Rightarrow> string \<Rightarrow> json \<Rightarrow> proxy_key \<Rightarrow> ('g, 'p) front_state \<Rightarrow>
   (asterlane_error + tool_call_result) \<times> ('g, 'p) front_state" where
  "discovery_call env name args key s =
     (case fs_semantic s of
        Some ix \<Rightarrow>
          if name = SEARCH_TOOLS
          then let (r, ix') = handle_search_semantic (fe_discovery env) args (ap_catalog (fs_app s)) key ix
               in (r, s\<lparr>fs_semantic := Some ix'\<rparr>)
          else (handle_meta_tool_call (fe_discovery env) name args (ap_catalog (fs_app s)) (ap_config (fs_app s)) key, s)
      | None \<Rightarrow>
          (handle_meta_tool_call (fe_discovery env) name args (ap_catalog (fs_app s)) (ap_config (fs_app s)) key, s))"

definition meta_discovery ::
  "('g, 'p) front_env \<Rightarrow> string \<Rightarrow> json \<Rightarrow> proxy_key \<Rightarrow> ('g, 'p) front_state \<Rightarrow>
   (asterlane_error + meta_invoke_result) \<times> ('g, 'p) front_state" where
  "meta_discovery env name args key s =
     (let (r, s') = discovery_call env name args key s in (and_then r (\<lambda>t. Inr (meta_plain t)), s'))"

definition json_text_result :: "('g, 'p) front_env \<Rightarrow> string + json list \<Rightarrow> asterlane_error + meta_invoke_result" where
  "json_text_result env r =
     and_then (map_err (internal McpInvalidToolCall) r) (\<lambda>items.
       Inr (meta_plain (text_ok (mt_ser (fe_meta env) (results_json items)))))"

text \<open>\<^const>\<open>None\<close> is the panic of a slice in the fetch.\<close>

definition handle_meta_tool_with_proxy ::
  "('g, 'p) front_env \<Rightarrow> string \<Rightarrow> json \<Rightarrow> proxy_key \<Rightarrow> response_format \<Rightarrow> ('g, 'p) front_state \<Rightarrow>
   (asterlane_error + meta_invoke_result) option \<times> ('g, 'p) front_state" where
  "handle_meta_tool_with_proxy env name args key format s =
     (if name = GET_TOOLS
      then let (r, cache) = get_tools (fe_meta env) args (ap_catalog (fs_app s)) key (fs_cache s)
           in (Some (json_text_result env (and_then r (\<lambda>items. Inr (map detail_json items)))), s\<lparr>fs_cache := cache\<rparr>)
      else if name = CALL_TOOLS
      then let (r, s') = call_tools env args key format s
           in (Some (json_text_result env (and_then r (\<lambda>items. Inr (map call_result_json items)))), s')
      else if name = CALL_TOOL then let (r, s') = meta_call env args key format s in (Some r, s')
      else if name = FETCH_RESULT then meta_fetch env args key s
      else let (r, s') = meta_discovery env name args key s in (Some r, s'))"

record http_reply =
  hp_status :: u16
  hp_headers :: "(string \<times> string) list"
  hp_body :: string

definition CONTENT_DEFENSE_FLAG_HEADER :: string where "CONTENT_DEFENSE_FLAG_HEADER = ''x-asterlane-content-defense-flag''"
definition RESULT_SHAPED_HEADER :: string where "RESULT_SHAPED_HEADER = ''x-asterlane-result-shaped''"
definition FORMAT_HEADER :: string where "FORMAT_HEADER = ''x-asterlane-format''"

definition json_response :: "string \<Rightarrow> http_reply" where
  "json_response body = \<lparr>hp_status = 200, hp_headers = [(''content-type'', ''application/json'')], hp_body = body\<rparr>"

definition add_invoke_metadata_headers :: "bool \<Rightarrow> bool \<Rightarrow> response_format option \<Rightarrow> http_reply \<Rightarrow> http_reply" where
  "add_invoke_metadata_headers flag shaped rendered r =
     r\<lparr>hp_headers := hp_headers r @
         (if flag then [(CONTENT_DEFENSE_FLAG_HEADER, ''true'')] else []) @
         (if shaped then [(RESULT_SHAPED_HEADER, ''true'')] else []) @
         (case rendered of Some f \<Rightarrow> [(FORMAT_HEADER, response_format_str f)] | None \<Rightarrow> [])\<rparr>"

text \<open>A status outside 100 to 999 is not one of the HTTP library.\<close>

definition upstream_reply :: "('g, 'p) front_env \<Rightarrow> invoke_result \<Rightarrow> http_reply" where
  "upstream_reply env result =
     add_invoke_metadata_headers (ir_content_defense_flag result) (ir_shaped result) (ir_rendered_format result)
       \<lparr>hp_status = (if 100 \<le> ir_status result \<and> ir_status result < 1000 then ir_status result else 502),
        hp_headers =
          (case ir_content_type result of
             Some ct \<Rightarrow> if fe_header_ok env ct then [(''content-type'', ct)] else []
           | None \<Rightarrow> []),
        hp_body = ir_body result\<rparr>"

definition request_format ::
  "tools_query \<Rightarrow> http_headers \<Rightarrow> proxy_key \<Rightarrow> gateway_config \<Rightarrow> asterlane_error + response_format" where
  "request_format query headers key config =
     map_err from_render_error (resolve_format
       (case qu_format query of Some f \<Rightarrow> Some f | None \<Rightarrow> Option.bind (hh_accept headers) format_from_accept)
       (pk_response_format key) (gc_default_response_format config))"

definition invoke_tool ::
  "('g, 'p) front_env \<Rightarrow> string \<Rightarrow> tools_query \<Rightarrow> http_headers \<Rightarrow> json \<Rightarrow> ('g, 'p) front_state \<Rightarrow>
   (asterlane_error + http_reply) option \<times> ('g, 'p) front_state" where
  "invoke_tool env name query headers args s =
     (case and_then (http_caller env (qu_key query) headers s) (\<lambda>key.
             and_then (request_format query headers key (ap_config (fs_app s))) (\<lambda>format. Inr (key, format))) of
        Inl e \<Rightarrow> (Some (Inl e), s)
      | Inr (key, format) \<Rightarrow>
          if is_meta_tool name
          then let (r, s') = handle_meta_tool_with_proxy env name args key format s
               in (map_option (\<lambda>r. and_then r (\<lambda>m.
                     Inr (add_invoke_metadata_headers (mi_content_defense_flag m) (mi_shaped m) (mi_rendered_format m)
                            (json_response (fe_ser_result env (mi_result m)))))) r, s')
          else let (r, s') = execute_invoke env name args key format s
               in (Some (and_then r (\<lambda>result. Inr (upstream_reply env result))), s'))"

section \<open>MCP (mcp/server.rs, mcp/meta.rs)\<close>

datatype rpc_code = INVALID_REQUEST | METHOD_NOT_FOUND | INTERNAL_ERROR | RESOURCE_NOT_FOUND

record error_data =
  rd_code :: rpc_code
  rd_message :: string

definition rpc_error :: "rpc_code \<Rightarrow> string \<Rightarrow> error_data" where
  "rpc_error code m = \<lparr>rd_code = code, rd_message = m\<rparr>"

definition DEFAULT_PAGE_SIZE :: nat where "DEFAULT_PAGE_SIZE = 50"

definition mcp_default_key :: proxy_key where
  "mcp_default_key =
     \<lparr>pk_id = ''mcp-default'', pk_display_name = ''MCP Default'', pk_allowed_tools = [''.*''], pk_denied_tools = [],
      pk_allowed_servers = [], pk_allowed_tool_names = [], pk_limits = None, pk_token_ref = None,
      pk_token_digest = None, pk_expires_at = None, pk_default_tool_page_size = DEFAULT_PAGE_SIZE,
      pk_discovery_mode = None, pk_response_format = None\<rparr>"

text \<open>\<open>legacy\<close> is the session of a client with an old protocol version.\<close>

definition note_legacy_peer :: "string option \<Rightarrow> ('g, 'p) front_state \<Rightarrow> ('g, 'p) front_state" where
  "note_legacy_peer legacy s =
     (case legacy of
        Some peer \<Rightarrow> if ap_registry (fs_app s) \<noteq> None then s\<lparr>fs_peers := register_legacy_peer peer (fs_peers s)\<rparr> else s
      | None \<Rightarrow> s)"

text \<open>\<open>bound\<close> is the key id that the middleware attached to the request.\<close>

definition resolve_proxy_key :: "string option \<Rightarrow> ('g, 'p) front_state \<Rightarrow> error_data + proxy_key" where
  "resolve_proxy_key bound s =
     (case bound of
        Some i \<Rightarrow> ok_or (rpc_error INVALID_REQUEST ''invalid gateway key'') (proxy_key_of (ap_config (fs_app s)) i)
      | None \<Rightarrow>
          if mcp_auth_required (ap_auth (fs_app s)) then Inl (rpc_error INVALID_REQUEST ''missing gateway key'')
          else Inr mcp_default_key)"

definition error_text :: "string \<Rightarrow> call_response" where
  "error_text message = RespComplete (mcp_failure [message])"

definition call_regular_tool ::
  "('g, 'p) front_env \<Rightarrow> string \<Rightarrow> json \<Rightarrow> tool_call_extras \<Rightarrow> proxy_key \<Rightarrow> response_format \<Rightarrow> ('g, 'p) front_state \<Rightarrow>
   (error_data + call_response) \<times> ('g, 'p) front_state" where
  "call_regular_tool env name args extras key format s =
     (case resolve_for_key (fe_regex env) (ap_catalog (fs_app s)) name \<lparr>tq_domain = None, tq_provider = None\<rparr> key of
        Inl (AmbiguousToolName n cs) \<Rightarrow> (Inr (error_text (catalog_error_msg (AmbiguousToolName n cs))), s)
      | Inl e \<Rightarrow> (Inl (rpc_error INTERNAL_ERROR (catalog_error_msg e)), s)
      | Inr None \<Rightarrow> (Inl (rpc_error METHOD_NOT_FOUND (''unknown tool: '' @ name)), s)
      | Inr (Some tool) \<Rightarrow>
          (let (r, s') = run_call env 0 extras format (wire tool) args key s
           in (Inr (case r of
                      Inr result \<Rightarrow> invoke_result_to_mcp env result (is_remote_mcp s (wire tool))
                    | Inl e \<Rightarrow> error_text (proxy_error_msg e)), s')))"

definition json_text_response :: "('g, 'p) front_env \<Rightarrow> string + json list \<Rightarrow> call_response" where
  "json_text_response env r =
     (case r of
        Inr items \<Rightarrow> RespComplete (tool_call_result_to_mcp (text_ok (mt_ser (fe_meta env) (results_json items))))
      | Inl e \<Rightarrow> error_text e)"

definition call_discovery_tool ::
  "('g, 'p) front_env \<Rightarrow> string \<Rightarrow> json \<Rightarrow> proxy_key \<Rightarrow> ('g, 'p) front_state \<Rightarrow> call_response \<times> ('g, 'p) front_state" where
  "call_discovery_tool env name args key s =
     (let (r, s') = discovery_call env name args key s
      in (case r of Inr t \<Rightarrow> RespComplete (tool_call_result_to_mcp t) | Inl e \<Rightarrow> error_text (asterlane_display e), s'))"

definition call_meta_tool ::
  "('g, 'p) front_env \<Rightarrow> string \<Rightarrow> json \<Rightarrow> tool_call_extras \<Rightarrow> proxy_key \<Rightarrow> response_format \<Rightarrow> ('g, 'p) front_state \<Rightarrow>
   call_response option \<times> ('g, 'p) front_state" where
  "call_meta_tool env name args extras key format s =
     (if name = GET_TOOLS
      then let (r, cache) = get_tools (fe_meta env) args (ap_catalog (fs_app s)) key (fs_cache s)
           in (Some (json_text_response env (and_then r (\<lambda>items. Inr (map detail_json items)))), s\<lparr>fs_cache := cache\<rparr>)
      else if name = CALL_TOOLS
      then let (r, s') = call_tools env args key format s
           in (Some (json_text_response env (and_then r (\<lambda>items. Inr (map call_result_json items)))), s')
      else if name = CALL_TOOL
      then let (r, s') = invoke_meta_call_tool env args extras key format s
           in (Some (case r of Inr resp \<Rightarrow> resp | Inl e \<Rightarrow> error_text (proxy_error_msg e)), s')
      else if name = FETCH_RESULT
      then let (r, cache) = fetch_result_meta_tool (fe_fetch_now env) (fs_cache s) key args DEFAULT_BUDGET_BYTES
           in (map_option (\<lambda>t. RespComplete (tool_call_result_to_mcp t)) r, s\<lparr>fs_cache := cache\<rparr>)
      else let (r, s') = call_discovery_tool env name args key s in (Some r, s'))"

definition mcp_call_tool ::
  "('g, 'p) front_env \<Rightarrow> string option \<Rightarrow> string option \<Rightarrow> string \<Rightarrow> (string \<times> json) list option \<Rightarrow> tool_call_extras \<Rightarrow>
   ('g, 'p) front_state \<Rightarrow> (error_data + call_response) option \<times> ('g, 'p) front_state" where
  "mcp_call_tool env legacy bound name arguments extras s0 =
     (let args = (case arguments of Some m \<Rightarrow> JObject m | None \<Rightarrow> JNull); s = note_legacy_peer legacy s0
      in case resolve_proxy_key bound s of
           Inl e \<Rightarrow> (Some (Inl e), s)
         | Inr key \<Rightarrow>
             if is_meta_tool name
             then let (r, s') = call_meta_tool env name args extras key FmtJson s in (map_option Inr r, s')
             else let (r, s') = call_regular_tool env name args extras key FmtJson s in (Some r, s'))"

record mcp_tool =
  tl_name :: string
  tl_description :: string
  tl_schema :: "(string \<times> json) list"

definition schema_map :: "json \<Rightarrow> (string \<times> json) list" where
  "schema_map j = (case j of JObject m \<Rightarrow> m | _ \<Rightarrow> [])"

definition descriptor_to_mcp_tool :: "tool_descriptor \<Rightarrow> mcp_tool" where
  "descriptor_to_mcp_tool d =
     \<lparr>tl_name = td_name d, tl_description = td_description d, tl_schema = schema_map (td_input_schema d)\<rparr>"

definition wrapped_to_mcp_tool :: "wrapped_tool \<Rightarrow> mcp_tool" where
  "wrapped_to_mcp_tool t =
     \<lparr>tl_name = unwrap_or (wt_exposed_name t) (wire t), tl_description = wt_description t,
      tl_schema = schema_map (wt_input_schema t)\<rparr>"

record mcp_tool_page =
  lt_tools :: "mcp_tool list"
  lt_next_cursor :: "string option"
  lt_ttl_ms :: "u64 option"

definition tools_list_ttl :: "front_settings \<Rightarrow> u64 option" where
  "tools_list_ttl settings = (if 0 < fo_tools_list_ttl_ms settings then Some (fo_tools_list_ttl_ms settings) else None)"

definition lazy_meta_tool_list :: "('g, 'p) front_env \<Rightarrow> u64 option \<Rightarrow> mcp_tool_page" where
  "lazy_meta_tool_list env ttl =
     \<lparr>lt_tools = map descriptor_to_mcp_tool (meta_tool_descriptors (fe_names_schema env) (fe_calls_schema env)),
      lt_next_cursor = None, lt_ttl_ms = ttl\<rparr>"

text \<open>\<open>meta\<close> are the entries of the request's metadata.\<close>

definition meta_str :: "(string \<times> json) list option \<Rightarrow> string \<Rightarrow> string option" where
  "meta_str meta key = Option.bind meta (\<lambda>m. Option.bind (map_of m key) as_str)"

definition mcp_list_tools ::
  "('g, 'p) front_env \<Rightarrow> string option \<Rightarrow> string option \<Rightarrow> string option \<Rightarrow> (string \<times> json) list option \<Rightarrow>
   ('g, 'p) front_state \<Rightarrow> (error_data + mcp_tool_page) \<times> ('g, 'p) front_state" where
  "mcp_list_tools env legacy bound cursor meta s0 =
     (let s = note_legacy_peer legacy s0; offset = unwrap_or (Option.bind cursor (\<lambda>c. map_option unat (parse_u64 c))) 0
      in (and_then (resolve_proxy_key bound s) (\<lambda>key.
         if list_blocked_by_fail_closed (ap_registry (fs_app s)) (gc_failure_mode (ap_config (fs_app s)))
         then Inl (rpc_error INTERNAL_ERROR ''one or more MCP upstreams are unreachable'')
         else if discovery_mode_from_config (pk_discovery_mode key) = DiscLazy
         then Inr (lazy_meta_tool_list env (tools_list_ttl (fs_settings s)))
         else
           and_then (map_err (\<lambda>e. rpc_error INTERNAL_ERROR (catalog_error_msg e))
               (list_for_key (fe_regex env) (ap_catalog (fs_app s)) key
                  \<lparr>lq_include_regex = meta_str meta ''include'', lq_exclude_regex = meta_str meta ''exclude'',
                   lq_domain_regex = meta_str meta ''domain_regex'', lq_provider_regex = meta_str meta ''provider_regex'',
                   lq_tool_regex = meta_str meta ''tool_regex'', lq_limit = Some (pk_default_tool_page_size key),
                   lq_cursor = Some offset\<rparr>)) (\<lambda>page.
             Inr \<lparr>lt_tools = map wrapped_to_mcp_tool (tp_tools page) @
                    (if tp_next_cursor page = None
                     then map descriptor_to_mcp_tool (meta_tool_descriptors (fe_names_schema env) (fe_calls_schema env)) else []),
                  lt_next_cursor = map_option dec (tp_next_cursor page),
                  lt_ttl_ms = tools_list_ttl (fs_settings s)\<rparr>)), s))"

section \<open>Requests as runs of the pipeline\<close>

text \<open>Limits and cache stay present through a run.\<close>

lemma present_shape [simp]:
  "px_cache s \<noteq> None \<Longrightarrow> px_cache (snd (shape_text env t sec k s)) \<noteq> None"
  "px_cache (snd (scan_defense env t r w sec s)) = px_cache s"
  by (auto simp: shape_text_def scan_defense_def Let_def split: option.splits prod.splits shaping_outcome.splits)

lemma present_remote:
  "px_cache s \<noteq> None \<Longrightarrow> px_cache (snd (shape_remote_mcp_result env ex r rid w k sec s)) \<noteq> None"
  by (simp add: shape_remote_mcp_result_def Let_def case_prod_beta' del: not_None_eq)

lemma present_defense:
  "px_cache s \<noteq> None \<Longrightarrow> px_cache (snd (apply_defense_and_shaping env ex res rid w k sec s)) \<noteq> None"
  by (simp add: apply_defense_and_shaping_def Let_def case_prod_beta' del: not_None_eq)

lemma present_frame [simp]:
  "px_cache (record_event env d s) = px_cache s" "px_cache (finish_run env rn ok s) = px_cache s"
  "px_cache (meanwhile env s) = px_cache s" "px_cache (snd (call_start env call a s)) = px_cache s"
  "px_cache (admission_drop env call a s) = px_cache s" "px_cache (snd (admit env call s)) = px_cache s"
  "px_cache (snd (call_http env ex r tool args pool secret s)) = px_cache s"
  by (simp_all add: record_event_def put_event_def finish_run_def admission_drop_def meanwhile_def call_start_eq admit_def
      record_limited_def call_http_def Let_def case_prod_beta' split: option.splits prod.splits sum.splits)

lemma present_finish [simp]:
  "px_cache s \<noteq> None \<Longrightarrow> px_cache (snd (finish_remote_complete env ex rn r s)) \<noteq> None"
  "px_cache s \<noteq> None \<Longrightarrow> px_cache (snd (finish_http_success env ex rn sec u s)) \<noteq> None"
  "px_cache (snd (finish_remote_input_required env rn payload s)) = px_cache s"
  "px_cache (snd (finish_remote_error env rn e s)) = px_cache s" "px_cache (snd (finish_http_failure env rn x s)) = px_cache s"
  by (simp_all only: finish_remote_complete_def finish_http_success_def finish_remote_input_required_def finish_remote_error_def
      finish_http_failure_def Let_def case_prod_beta' snd_conv present_frame present_remote present_defense not_False_eq_True)

lemma invoke_remote_keeps_cache:
  assumes "px_cache s \<noteq> None"
  shows "px_cache (snd (invoke_remote_mcp env ex es call args s)) \<noteq> None"
proof -
  obtain q s1 where q: "admit env call s = (q, s1)" by force
  have "px_cache s1 \<noteq> None" using present_frame(6) [of env call s] assms q by simp
  then show ?thesis
    using assms q by (simp add: invoke_remote_mcp_def Let_def case_prod_beta' split: sum.split call_outcome.split del: not_None_eq)
qed

lemma invoke_http_keeps_cache:
  assumes "px_cache s \<noteq> None"
  shows "px_cache (snd (invoke_http env ex call args s)) \<noteq> None"
proof -
  obtain q s1 where q: "admit env call s = (q, s1)" by force
  have "px_cache s1 \<noteq> None" using present_frame(6) [of env call s] assms q by simp
  then show ?thesis
    using assms q by (simp add: invoke_http_def Let_def case_prod_beta' split: sum.split option.split del: not_None_eq)
qed

lemma invoke_keeps_cache: "px_cache s \<noteq> None \<Longrightarrow> px_cache (snd (invoke_call env ex w args key s)) \<noteq> None"
  by (simp add: invoke_call_def invoke_remote_keeps_cache invoke_http_keeps_cache split: sum.split option.split del: not_None_eq)

lemma invoke_keeps_limits:
  assumes "px_limits s \<noteq> None"
  shows "px_limits (snd (invoke_call env ex w args key s)) \<noteq> None"
proof -
  obtain reg where r: "px_limits s = Some reg" using assms by auto
  have "px_limits (snd res) \<noteq> None" if "call_ends env ex call reg s st res" for call st res
    using that r by (cases st) (auto simp: call_ends_def)
  then show ?thesis using invoke_stage [OF r, of env ex w args key] assms by fastforce
qed

text \<open>What no tool request changes.\<close>

definition wiring ::
  "('g, 'p) front_state \<Rightarrow>
   front_settings \<times> gateway_config \<times> tool_catalog \<times> gateway_auth \<times> 'p mcp_entry list option \<times> quarantine" where
  "wiring s =
     (fs_settings s, ap_config (fs_app s), ap_catalog (fs_app s), ap_auth (fs_app s), ap_registry (fs_app s),
      ap_quarantined (fs_app s))"

lemma make_executor_cong: "wiring s = wiring s' \<Longrightarrow> make_executor env f s = make_executor env f s'"
  by (simp add: wiring_def make_executor_def)

lemma wiring_simps [simp]:
  "wiring (put_pipeline p s) = wiring s" "wiring (s\<lparr>fs_peers := ps\<rparr>) = wiring s" "wiring (s\<lparr>fs_cache := c\<rparr>) = wiring s" "wiring (s\<lparr>fs_semantic := x\<rparr>) = wiring s"
  by (simp_all add: wiring_def put_pipeline_def)

lemma pipeline_simps [simp]:
  "books (pipeline_of (s\<lparr>fs_cache := c\<rparr>)) = books (pipeline_of s)" "pipeline_of (s\<lparr>fs_semantic := x\<rparr>) = pipeline_of s"
  "pipeline_of (s\<lparr>fs_peers := ps\<rparr>) = pipeline_of s"
  by (simp_all add: pipeline_of_def)

lemma pipeline_put: "px_limits p \<noteq> None \<Longrightarrow> px_cache p \<noteq> None \<Longrightarrow> pipeline_of (put_pipeline p s) = p"
  by (cases p) (auto simp: pipeline_of_def put_pipeline_def unwrap_or_def)

lemma run_call_pipeline:
  "pipeline_of (snd (run_call env k x f w a key s)) =
     snd (invoke_call (fe_run env k x) (make_executor env f s) w a key (pipeline_of s))"
  "wiring (snd (run_call env k x f w a key s)) = wiring s"
proof -
  have "px_limits (pipeline_of s) \<noteq> None" "px_cache (pipeline_of s) \<noteq> None" by (simp_all add: pipeline_of_def)
  then show "pipeline_of (snd (run_call env k x f w a key s)) =
      snd (invoke_call (fe_run env k x) (make_executor env f s) w a key (pipeline_of s))"
    unfolding run_call_def Let_def case_prod_beta' snd_conv by (intro pipeline_put invoke_keeps_limits invoke_keeps_cache)
qed (simp add: run_call_def Let_def case_prod_beta')

text \<open>\<open>s'\<close> is reached from \<open>s\<close> by the pipeline runs \<open>cs\<close>, all under the same key and wiring.\<close>

definition run_ok :: "('g, 'p) front_env \<Rightarrow> proxy_key \<Rightarrow> ('g, 'p) front_state \<Rightarrow> ('g, 'p) invocation \<Rightarrow> bool" where
  "run_ok env key s c \<longleftrightarrow> (\<exists>k x f w a. c = (fe_run env k x, make_executor env f s, w, a, key))"

definition runs ::
  "('g, 'p) front_env \<Rightarrow> proxy_key \<Rightarrow> ('g, 'p) front_state \<Rightarrow> ('g, 'p) front_state \<Rightarrow> ('g, 'p) invocation list \<Rightarrow> bool" where
  "runs env key s s' cs \<longleftrightarrow>
     list_all (run_ok env key s) cs \<and> pipeline_of s' = invoke_all cs (pipeline_of s) \<and> wiring s' = wiring s"

definition served :: "('g, 'p) front_env \<Rightarrow> proxy_key \<Rightarrow> ('g, 'p) front_state \<Rightarrow> ('g, 'p) front_state \<Rightarrow> bool" where
  "served env key s s' \<longleftrightarrow>
     (\<exists>cs. list_all (run_ok env key s) cs \<and> length cs \<le> BATCH_LIMIT \<and>
        books (pipeline_of s') = books (invoke_all cs (pipeline_of s)) \<and> wiring s' = wiring s)"

lemma runs_served: "runs env key s s' cs \<Longrightarrow> length cs \<le> BATCH_LIMIT \<Longrightarrow> served env key s s'"
  by (auto simp: runs_def served_def)

lemma served_quiet: "books (pipeline_of s') = books (pipeline_of s) \<Longrightarrow> wiring s' = wiring s \<Longrightarrow> served env key s s'"
  unfolding served_def by (intro exI [of _ "[]"]) simp

lemma served_then: "served env key s s1 \<Longrightarrow> books (pipeline_of s') = books (pipeline_of s1) \<Longrightarrow> wiring s' = wiring s1 \<Longrightarrow> served env key s s'"
  by (auto simp: served_def)

lemma run_call_runs: "\<exists>c. runs env key s (snd (run_call env k x f w a key s)) [c]"
  by (intro exI [of _ "(fe_run env k x, make_executor env f s, w, a, key)"])
    (auto simp: runs_def run_ok_def run_call_pipeline)

lemma run_call_served: "served env key s (snd (run_call env k x f w a key s))"
proof -
  obtain c where "runs env key s (snd (run_call env k x f w a key s)) [c]" using run_call_runs by blast
  then show ?thesis by (rule runs_served) (simp add: BATCH_LIMIT_def)
qed

lemma call_one_runs: "\<exists>cs. runs env key s (snd (call_one env k call key format s)) cs \<and> length cs \<le> 1"
proof -
  have id: "\<exists>cs. runs env key s s cs \<and> length cs \<le> 1" by (intro exI [of _ "[]"]) (simp add: runs_def)
  have rc: "\<exists>cs. runs env key s (snd (run_call env k x f w a key s)) cs \<and> length cs \<le> 1" for x f w a
    using run_call_runs [of env key s k x f w a] by (auto intro: exI [of _ "[c]" for c])
  show ?thesis
    using id rc unfolding call_one_def Let_def
    by (auto split: sum.splits option.splits bool.splits prod.splits call_response.splits)
      (metis (no_types, lifting) snd_conv)+
qed

lemma invoke_all_append: "invoke_all (cs @ ds) p = invoke_all ds (invoke_all cs p)"
  by (induction cs p rule: invoke_all.induct) auto

lemma runs_append:
  assumes "runs env key s s1 cs" and "runs env key s1 s2 ds"
  shows "runs env key s s2 (cs @ ds)"
  using assms make_executor_cong [of s1 s] by (auto simp: runs_def invoke_all_append run_ok_def list_all_iff)

lemma call_each_runs: "\<exists>cs. runs env key s (snd (call_each env k calls key format s)) cs \<and> length cs \<le> length calls"
proof (induction calls arbitrary: k s)
  case Nil
  then show ?case by (intro exI [of _ "[]"]) (simp add: runs_def)
next
  case (Cons c calls)
  obtain item s1 where one: "call_one env k c key format s = (item, s1)" by force
  obtain cs where cs: "runs env key s s1 cs" "length cs \<le> 1" using call_one_runs [of env key s k c format] one by auto
  obtain ds where ds: "runs env key s1 (snd (call_each env (Suc k) calls key format s1)) ds" "length ds \<le> length calls"
    using Cons.IH by blast
  show ?case using runs_append [OF cs(1) ds(1)] cs(2) ds(2) one by (intro exI [of _ "cs @ ds"]) (simp add: Let_def case_prod_beta')
qed

lemma call_tools_served: "served env key s (snd (call_tools env args key format s))"
proof (cases "and_then (mt_de_calls (fe_meta env) args) deserialize_batch")
  case (Inl e)
  then show ?thesis by (simp add: call_tools_def served_quiet)
next
  case (Inr calls)
  then have l: "length calls \<le> BATCH_LIMIT" by (auto simp: and_then_Inr_iff deserialize_batch_def split: if_splits)
  let ?s1 = "snd (call_each env 0 calls key format s)"
  obtain cs where cs: "runs env key s ?s1 cs" "length cs \<le> length calls" using call_each_runs by blast
  have "served env key s ?s1" using runs_served [OF cs(1)] cs(2) l by simp
  then have "served env key s (?s1\<lparr>fs_cache := c\<rparr>)" for c by (rule served_then) simp_all
  then show ?thesis using Inr by (simp add: call_tools_def case_prod_beta' Let_def)
qed

lemma served_cache: "served env key s (s\<lparr>fs_cache := c\<rparr>)"
  by (rule served_quiet) simp_all

lemma served_refl [simp]: "served env key s s"
  by (rule served_quiet) simp_all

lemma discovery_served: "served env key s (snd (discovery_call env name args key s))"
  by (auto simp: discovery_call_def case_prod_beta' Let_def intro: served_quiet split: option.splits)

lemma execute_served: "served env key s (snd (execute_invoke env name args key f s))"
  by (simp add: execute_invoke_def case_prod_beta' Let_def run_call_served)

lemma meta_call_served: "served env key s (snd (meta_call env args key f s))"
  by (auto simp: meta_call_def case_prod_beta' Let_def intro: execute_served split: option.splits sum.splits)

lemma handle_meta_served: "served env key s (snd (handle_meta_tool_with_proxy env name args key f s))"
  by (simp add: meta_call_served call_tools_served discovery_served served_cache handle_meta_tool_with_proxy_def meta_fetch_def meta_discovery_def case_prod_beta' Let_def split: option.split)

lemma invoke_meta_served: "served env key s (snd (invoke_meta_call_tool env args x key f s))"
  by (auto simp: invoke_meta_call_tool_def case_prod_beta' Let_def run_call_served
      split: option.splits sum.splits catalog_error.splits)

lemma call_meta_served: "served env key s (snd (call_meta_tool env name args x key f s))"
  by (simp add: invoke_meta_served call_tools_served discovery_served served_cache call_meta_tool_def call_discovery_tool_def case_prod_beta' Let_def)

lemma call_regular_served: "served env key s (snd (call_regular_tool env name args x key f s))"
  by (auto simp: call_regular_tool_def case_prod_beta' Let_def run_call_served
      split: option.splits sum.splits catalog_error.splits)

lemma note_legacy_simps [simp]:
  "wiring (note_legacy_peer l s) = wiring s" "pipeline_of (note_legacy_peer l s) = pipeline_of s"
  "(note_legacy_peer l s)\<lparr>fs_peers := fs_peers s\<rparr> = s" "fs_app (note_legacy_peer l s) = fs_app s"
  by (simp_all add: note_legacy_peer_def split: option.splits)

lemma served_from: "served env key s1 s' \<Longrightarrow> wiring s1 = wiring s \<Longrightarrow> pipeline_of s1 = pipeline_of s \<Longrightarrow> served env key s s'"
  using make_executor_cong [of s1 s env] by (auto simp: served_def run_ok_def list_all_iff)

section \<open>Requests\<close>

text \<open>A request at one of the doors; an MCP request passes the middleware first.\<close>

datatype front_request =
    HttpInvoke string tools_query http_headers json
  | McpToolCall "string option" "string option" string "(string \<times> json) list option" tool_call_extras

fun front_step :: "('g, 'p) front_env \<Rightarrow> front_request \<Rightarrow> ('g, 'p) front_state \<Rightarrow> ('g, 'p) front_state" where
  "front_step env (HttpInvoke name query headers args) s = snd (invoke_tool env name query headers args s)"
| "front_step env (McpToolCall legacy header name arguments extras) s =
     (case require_mcp_auth (fe_sha env) (ap_auth (fs_app s)) header (fe_now env) of
        Inl _ \<Rightarrow> s
      | Inr bound \<Rightarrow> snd (mcp_call_tool env legacy bound name arguments extras s))"

text \<open>The key a request runs under: one of the configuration whose credential it carries, or, over MCP where
  no credential is configured, the open one.\<close>

fun caller :: "('g, 'p) front_env \<Rightarrow> front_request \<Rightarrow> ('g, 'p) front_state \<Rightarrow> proxy_key option" where
  "caller env (HttpInvoke name query headers args) s =
     (case authenticate (fe_sha env) (ap_auth (fs_app s)) (bearer_token (hh_authorization headers)) (qu_key query) (fe_now env) of
        Inl _ \<Rightarrow> None
      | Inr i \<Rightarrow> proxy_key_of (ap_config (fs_app s)) i)"
| "caller env (McpToolCall legacy header name arguments extras) s =
     (if ga_token_keys (ap_auth (fs_app s)) = {} then Some mcp_default_key
      else
        (case authenticate (fe_sha env) (ap_auth (fs_app s)) (bearer_token header) None (fe_now env) of
           Inl _ \<Rightarrow> None
         | Inr i \<Rightarrow> proxy_key_of (ap_config (fs_app s)) i))"

lemma http_caller_eq:
  "http_caller env (qu_key query) headers s = Inr key \<longleftrightarrow> caller env (HttpInvoke name query headers args) s = Some key"
  by (auto simp: http_caller_def authenticate_request_def proxy_key_for_def and_then_Inr_iff ok_or_Inr_iff split: sum.splits)

lemma front_step_caller:
  "(case caller env r s of None \<Rightarrow> (front_step env r s)\<lparr>fs_peers := fs_peers s\<rparr> = s | Some key \<Rightarrow> served env key s (front_step env r s))"
proof (cases r)
  case (HttpInvoke name query headers args)
  show ?thesis
  proof (cases "http_caller env (qu_key query) headers s")
    case (Inl e)
    then have "caller env r s = None"
      using http_caller_eq [of env query headers s _ name args] HttpInvoke by (cases "caller env r s") auto
    then show ?thesis using Inl HttpInvoke by (simp add: invoke_tool_def)
  next
    case (Inr key)
    then have "caller env r s = Some key" using http_caller_eq [of env query headers s key name args] HttpInvoke by simp
    moreover have "served env key s (snd (invoke_tool env name query headers args s))"
      using Inr by (cases "request_format query headers key (ap_config (fs_app s))")
        (simp_all add: invoke_tool_def handle_meta_served execute_served case_prod_beta' Let_def)
    ultimately show ?thesis using HttpInvoke by simp
  qed
next
  case (McpToolCall legacy header name arguments extras)
  let ?a = "ap_auth (fs_app s)"
  have served: "served env key s (snd (mcp_call_tool env legacy b name arguments extras s))" if "resolve_proxy_key b s = Inr key" for b key
  proof -
    have "resolve_proxy_key b (note_legacy_peer legacy s) = Inr key" using that by (cases b) (simp_all add: resolve_proxy_key_def)
    then have "served env key (note_legacy_peer legacy s) (snd (mcp_call_tool env legacy b name arguments extras s))"
      by (simp add: mcp_call_tool_def call_meta_served call_regular_served case_prod_beta' Let_def)
    then show ?thesis by (rule served_from) simp_all
  qed
  show ?thesis
  proof (cases "mcp_auth_required ?a")
    case False
    then have "resolve_proxy_key None s = Inr mcp_default_key" by (simp add: resolve_proxy_key_def)
    from served [OF this] False McpToolCall show ?thesis by (simp add: require_mcp_auth_def mcp_auth_required_def)
  next
    case True
    then have ne: "ga_token_keys ?a \<noteq> {}" by (simp add: mcp_auth_required_def)
    show ?thesis
    proof (cases "authenticate (fe_sha env) ?a (bearer_token header) None (fe_now env)")
      case (Inl e)
      then show ?thesis using ne True McpToolCall by (simp add: require_mcp_auth_def)
    next
      case (Inr i)
      show ?thesis
      proof (cases "proxy_key_of (ap_config (fs_app s)) i")
        case None
        then show ?thesis using Inr ne True McpToolCall
          by (simp add: require_mcp_auth_def mcp_call_tool_def resolve_proxy_key_def)
      next
        case (Some key)
        then have "resolve_proxy_key (Some i) s = Inr key" by (simp add: resolve_proxy_key_def)
        from served [OF this] Some Inr ne True McpToolCall show ?thesis by (simp add: require_mcp_auth_def)
      qed
    qed
  qed
qed

section \<open>What the doors let through\<close>

text \<open>An event of the key; unless the limits refused the call, it names a tool of the catalogue that the key may use
  and that is not quarantined.\<close>

definition lawful :: "regex_engine \<Rightarrow> tool_catalog \<Rightarrow> quarantine \<Rightarrow> proxy_key \<Rightarrow> request_event \<Rightarrow> bool" where
  "lawful rx catalog q key ev \<longleftrightarrow>
     re_proxy_key_id ev = pk_id key \<and>
     (re_rate_limited ev \<or>
      (\<exists>tool \<in> set (cat_tools catalog). re_tool_name ev = wire tool \<and>
         scope_spec rx key (wire tool) (wt_resource_id tool) \<and> q (wire tool) = None))"

lemma invoke_lawful:
  assumes "px_limits p = Some reg" and "ex_quarantined ex = Some q"
  shows "\<exists>evs. px_recorded (snd (invoke_call env ex w args key p)) = px_recorded p @ evs \<and> length evs \<le> 1 \<and>
     list_all (lawful (iv_regex env) (ex_catalog ex) q key) evs \<and>
     (evs = [] \<longrightarrow> px_upstream (snd (invoke_call env ex w args key p)) = px_upstream p)"
proof -
  let ?res = "invoke_call env ex w args key p"
  from invoke_stage [OF assms(1), of env ex w args key] consider e where "?res = (Inl e, p)"
    | call st where "resolve_call env ex w args key = Inr call" "call_ends env ex call reg p st ?res" "authorised env call st"
    by blast
  then show ?thesis
  proof cases
    case 2
    note call = resolve_call_Inr [OF 2(1)]
    show ?thesis
    proof (cases st)
      case Ran
      obtain permit reg' ev ups where e: "books (snd ?res) = (Some (settled env call (isl (fst ?res)) permit reg'), px_recorded p @ [ev], px_upstream p @ ups)"
        "event_of call (\<not> isl (fst ?res)) ev"
        using 2(2) unfolding Ran call_ends_def stage.case by blast
      have "ensure_allowed env call = Inr ()" using 2(3) Ran by (simp add: authorised_def)
      from ensure_allowed_scope [OF this] call resolve_tool_in [of env ex w key "rc_tool call"]
        check_quarantine_free [of ex w "wire (rc_tool call)" "()" q] assms(2)
      have "lawful (iv_regex env) (ex_catalog ex) q key ev"
        using e(2) by (auto simp: lawful_def event_of_def wire_def)
      with e(1) show ?thesis by (intro exI [of _ "[ev]"]) simp
    next
      case Refused
      obtain reg' ev where "books (snd ?res) = (Some reg', px_recorded p @ [ev], px_upstream p)"
        "re_rate_limited ev" "re_proxy_key_id ev = pk_id (rc_proxy_key call)"
        using 2(2) unfolding Refused call_ends_def stage.case by blast
      with call show ?thesis by (intro exI [of _ "[ev]"]) (simp add: lawful_def)
    qed (use 2(2) in \<open>auto simp: call_ends_def\<close>)
  qed auto
qed

lemma invoke_all_lawful:
  assumes "list_all (run_ok env key s) cs" and "px_limits p \<noteq> None" and "\<forall>k x. iv_regex (fe_run env k x) = fe_regex env"
  shows "\<exists>evs. px_recorded (invoke_all cs p) = px_recorded p @ evs \<and> length evs \<le> length cs \<and>
     list_all (lawful (fe_regex env) (ap_catalog (fs_app s)) (ap_quarantined (fs_app s)) key) evs \<and>
     (evs = [] \<longrightarrow> px_upstream (invoke_all cs p) = px_upstream p)"
  using assms(1,2)
proof (induction cs arbitrary: p)
  case (Cons c cs)
  from Cons.prems(1) obtain k x f w a where c: "c = (fe_run env k x, make_executor env f s, w, a, key)"
    by (auto simp: run_ok_def)
  have ex: "ex_quarantined (make_executor env f s) = Some (ap_quarantined (fs_app s))"
      "ex_catalog (make_executor env f s) = ap_catalog (fs_app s)"
    by (simp_all add: make_executor_def executor_new_def with_response_format_def with_quarantined_def with_mcp_registry_def
        Let_def split: option.splits)
  let ?p = "snd (invoke_call (fe_run env k x) (make_executor env f s) w a key p)"
  obtain reg where "px_limits p = Some reg" using Cons.prems(2) by auto
  from invoke_lawful [OF this ex(1), of "fe_run env k x" w a key] obtain as1 where
    1: "px_recorded ?p = px_recorded p @ as1" "length as1 \<le> 1"
      "list_all (lawful (fe_regex env) (ap_catalog (fs_app s)) (ap_quarantined (fs_app s)) key) as1"
      "as1 = [] \<longrightarrow> px_upstream ?p = px_upstream p"
    unfolding ex(2) using assms(3) by auto
  have "px_limits ?p \<noteq> None" using invoke_keeps_limits [OF Cons.prems(2)] .
  from Cons.IH [OF _ this] Cons.prems(1) obtain as2 where
    2: "px_recorded (invoke_all cs ?p) = px_recorded ?p @ as2" "length as2 \<le> length cs"
      "list_all (lawful (fe_regex env) (ap_catalog (fs_app s)) (ap_quarantined (fs_app s)) key) as2"
      "as2 = [] \<longrightarrow> px_upstream (invoke_all cs ?p) = px_upstream ?p"
    by auto
  show ?case using 1 2 by (intro exI [of _ "as1 @ as2"]) (auto simp: c)
qed simp

text \<open>C10: a request at either door that carries no valid credential changes nothing (but may leave its session among those told of a changed tool list); over MCP, the open key serves only
  where no credential is configured. Every other request, a batch and \<open>asl__call\<close> included, records at most ten
  events, all under the id of the key whose credential it carried; an upstream is contacted only with an event, and
  every event that the limits did not refuse names a tool of the catalogue in that key's scope that is not quarantined.
  The regex library is assumed to be the same throughout.\<close>

theorem front_door_authorised:
  assumes "\<forall>k x. iv_regex (fe_run env k x) = fe_regex env"
  shows "case caller env r s of
      None \<Rightarrow> (front_step env r s)\<lparr>fs_peers := fs_peers s\<rparr> = s
    | Some key \<Rightarrow>
        (\<exists>evs. fs_recorded (front_step env r s) = fs_recorded s @ evs \<and> length evs \<le> 10 \<and>
           list_all (lawful (fe_regex env) (ap_catalog (fs_app s)) (ap_quarantined (fs_app s)) key) evs \<and>
           (evs = [] \<longrightarrow> fs_upstream (front_step env r s) = fs_upstream s))"
proof (cases "caller env r s")
  case None
  then show ?thesis using front_step_caller [where env = env and r = r and s = s] by simp
next
  case (Some key)
  then obtain cs where cs: "list_all (run_ok env key s) cs" "length cs \<le> BATCH_LIMIT"
      "books (pipeline_of (front_step env r s)) = books (invoke_all cs (pipeline_of s))"
    using front_step_caller [where env = env and r = r and s = s] by (auto simp: served_def)
  have "px_limits (pipeline_of s) \<noteq> None" by (simp add: pipeline_of_def)
  from invoke_all_lawful [OF cs(1) this assms] cs(2,3) Some show ?thesis
    by (auto simp: pipeline_of_def BATCH_LIMIT_def)
qed

section \<open>One call, several ways\<close>

lemma resolve_wire:
  assumes "wires_distinct (cat_tools c)" and "t \<in> set (cat_tools c)"
  shows "resolve_for_key re c (wire t) no_qualifiers key = Inr (Some t)"
proof -
  have "distinct (map wire xs) \<Longrightarrow> t \<in> set xs \<Longrightarrow> filter (\<lambda>x. wire x = wire t) xs = [t]" for xs
    by (induction xs) (auto simp: filter_empty_conv, metis image_eqI)
  then have "filter (\<lambda>x. wire x = wire t) (cat_tools c) = [t]" using assms by (simp add: wires_distinct_def)
  then show ?thesis
    by (simp add: resolve_for_key_def resolve_tier_all qualifiers_match_def no_qualifiers_def is_none_or_def pick_unique_def)
qed

lemma put_own_pipeline [simp]: "put_pipeline (pipeline_of s) s = s"
  by (simp add: put_pipeline_def pipeline_of_def unwrap_or_def)

lemma run_forbidden:
  assumes "wires_distinct (cat_tools (ap_catalog (fs_app s)))" and "tool \<in> set (cat_tools (ap_catalog (fs_app s)))"
    and "iv_regex (fe_run env k x) = fe_regex env"
    and "key_can_use_tool (fe_regex env) key (wt_name tool) (wt_resource_id tool) \<noteq> Inr True"
  shows "snd (run_call env k x f (wire tool) a key s) = s"
proof -
  let ?e = "fe_run env k x" and ?x = "make_executor env f s"
  have cat: "ex_catalog ?x = ap_catalog (fs_app s)"
    by (simp add: make_executor_def executor_new_def with_response_format_def with_quarantined_def with_mcp_registry_def
        Let_def split: option.splits)
  have r: "resolve_tool ?e ?x (wire tool) key = Inr tool"
    using resolve_wire [OF assms(1,2)] by (simp add: resolve_tool_def cat no_qualifiers_def)
  have "snd (invoke_call ?e ?x (wire tool) a key (pipeline_of s)) = pipeline_of s"
  proof (cases "resolve_call ?e ?x (wire tool) a key")
    case (Inr call)
    then have "rc_tool call = tool" "rc_proxy_key call = key"
      using r resolve_call_Inr [OF Inr] by auto
    then obtain e where "ensure_allowed ?e call = Inl e"
      using assms(3,4) by (cases "key_can_use_tool (fe_regex env) key (wt_name tool) (wt_resource_id tool)")
        (auto simp: ensure_allowed_def)
    then show ?thesis
      using Inr by (auto simp: invoke_call_def invoke_remote_mcp_def invoke_http_def split: option.split)
  qed (simp add: invoke_call_def)
  then show ?thesis by (simp add: run_call_def Let_def case_prod_beta')
qed

lemma merge_nothing:
  "json_get args ''input_responses'' = None \<Longrightarrow> json_get args ''request_state'' = None \<Longrightarrow>
   merge_meta_tool_extras args default_extras = default_extras"
  by (simp add: merge_meta_tool_extras_def default_extras_def)


section \<open>The list over MCP\<close>

lemma wire_not_meta: "\<not> is_meta_tool (wire t)"
proof
  let ?u = "\<lambda>s. length (filter (\<lambda>c. c = CHR ''_'') s)"
  assume "is_meta_tool (wire t)"
  then have "?u (wire t) = 2" by (auto simp: is_meta_tool_def META_TOOLS_def meta_names)
  moreover have "4 \<le> ?u (wire t)" by (simp add: wire_def to_wire_name_def)
  ultimately show False by simp
qed

lemma meta_prefix: "is_meta_tool name \<Longrightarrow> starts_with name META_TOOL_PREFIX"
  by (auto simp: is_meta_tool_def META_TOOLS_def meta_names META_TOOL_PREFIX_def starts_with_iff)

lemma exposed_not_meta: "\<not> is_meta_tool (shortest_exposed_name c t vs)"
proof (cases rule: shortest_exposed_name_cases [of c vs t])
  case short
  then show ?thesis using meta_prefix [of "shortest_exposed_name c t vs"] by (auto simp: candidate_ok_def)
next
  case canonical
  then show ?thesis using wire_not_meta [of t] by simp
qed

lemma exposed_inj:
  assumes "wires_distinct (cat_tools c)" and "scope_decided re c key"
  shows "inj_on (\<lambda>t. shortest_exposed_name c t (visible_tools re c key)) (set (visible_tools re c key))"
proof (rule inj_onI)
  fix t u assume t: "t \<in> set (visible_tools re c key)" and u: "u \<in> set (visible_tools re c key)"
    and eq: "shortest_exposed_name c t (visible_tools re c key) = shortest_exposed_name c u (visible_tools re c key)"
  from trans [OF sym [OF exposed_resolves [OF assms t, unfolded eq]] exposed_resolves [OF assms u]] show "t = u" by simp
qed

lemma listing_names:
  "map tl_name (map wrapped_to_mcp_tool (listing re c key q)) =
     map (\<lambda>t. shortest_exposed_name c t (visible_tools re c key)) (filter (request_match re q) (visible_tools re c key))"
  by (simp add: listing_def wrapped_to_mcp_tool_def expose_def unwrap_or_def)

lemma listing_names_distinct:
  assumes "wires_distinct (cat_tools c)" and "scope_decided re c key"
  shows "distinct (map tl_name (map wrapped_to_mcp_tool (listing re c key q)))"
proof -
  have "distinct (visible_tools re c key)" using assms(1) by (simp add: visible_tools_def wires_distinct_def distinct_map)
  then show ?thesis
    unfolding listing_names distinct_map using inj_on_subset [OF exposed_inj [OF assms]] by auto
qed

text \<open>How a tool is called by the name in the list.\<close>

definition calls_tool ::
  "('g, 'p) front_env \<Rightarrow> string option \<Rightarrow> string \<Rightarrow> proxy_key \<Rightarrow> wrapped_tool \<Rightarrow> ('g, 'p) front_state \<Rightarrow> bool" where
  "calls_tool env bound name key tool s \<longleftrightarrow>
     (\<forall>args extras. snd (mcp_call_tool env None bound name (Some args) extras s) =
        snd (run_call env 0 extras FmtJson (wire tool) (JObject args) key s))"

lemma exposed_calls_tool:
  assumes "wires_distinct (cat_tools (ap_catalog (fs_app s)))" and "scope_decided (fe_regex env) (ap_catalog (fs_app s)) key"
    and "t \<in> set (visible_tools (fe_regex env) (ap_catalog (fs_app s)) key)" and "resolve_proxy_key bound s = Inr key"
  shows "calls_tool env bound
    (shortest_exposed_name (ap_catalog (fs_app s)) t (visible_tools (fe_regex env) (ap_catalog (fs_app s)) key)) key t s"
  using exposed_resolves [OF assms(1-3)] exposed_not_meta assms(4)
  by (simp add: calls_tool_def mcp_call_tool_def call_regular_tool_def note_legacy_peer_def no_qualifiers_def Let_def case_prod_beta')

text \<open>A page is a part of the listing, with or without the gateway's own tools after it.\<close>

abbreviation own_tools :: "('g, 'p) front_env \<Rightarrow> mcp_tool list" where
  "own_tools env \<equiv> map descriptor_to_mcp_tool (meta_tool_descriptors (fe_names_schema env) (fe_calls_schema env))"

lemma own_tools_names: "map tl_name (own_tools env) = META_TOOLS" "distinct META_TOOLS"
  using meta_tool_descriptors_names by (simp_all add: descriptor_to_mcp_tool_def comp_def META_TOOLS_def meta_names)

lemma mcp_list_page:
  assumes "resolve_proxy_key bound s = Inr key" and "fst (mcp_list_tools env None bound cursor meta s) = Inr page"
  shows "\<exists>ts own. lt_tools page = map wrapped_to_mcp_tool ts @ own \<and> own \<in> {[], own_tools env} \<and>
    (ts = [] \<or> scope_decided (fe_regex env) (ap_catalog (fs_app s)) key \<and>
      (\<exists>q i n. ts = take n (drop i (listing (fe_regex env) (ap_catalog (fs_app s)) key q))))"
proof (cases "discovery_mode_from_config (pk_discovery_mode key) = DiscLazy")
  case True
  then have "lt_tools page = own_tools env"
    using assms by (auto simp: mcp_list_tools_def note_legacy_peer_def lazy_meta_tool_list_def Let_def split: if_splits)
  then show ?thesis by (intro exI [of _ "[]"] exI [of _ "own_tools env"]) simp
next
  case False
  obtain q p where p: "list_for_key (fe_regex env) (ap_catalog (fs_app s)) key q = Inr p"
      "lt_tools page = map wrapped_to_mcp_tool (tp_tools p) @ (if tp_next_cursor p = None then own_tools env else [])"
    using assms False
    by (auto simp: mcp_list_tools_def note_legacy_peer_def and_then_Inr_iff map_err_Inr_iff Let_def split: if_splits)
  then have sd: "scope_decided (fe_regex env) (ap_catalog (fs_app s)) key"
    and "tp_tools p = take (page_limit key q) (drop (unwrap_or (lq_cursor q) 0) (listing (fe_regex env) (ap_catalog (fs_app s)) key q))"
    unfolding list_for_key_Inr_iff by (simp_all add: page_at_def)
  with p(2) show ?thesis
    by (intro exI [of _ "tp_tools p"] exI [of _ "if tp_next_cursor p = None then own_tools env else []"]) auto
qed

lemma listed_entry:
  assumes "ts = take n (drop i (listing re c key q))" and "item \<in> set (map wrapped_to_mcp_tool ts)"
  shows "\<exists>t \<in> set (visible_tools re c key). tl_name item = shortest_exposed_name c t (visible_tools re c key) \<and>
    tl_description item = wt_description t \<and> tl_schema item = schema_map (wt_input_schema t)"
proof -
  have "set ts \<subseteq> set (listing re c key q)" unfolding assms(1) by (meson set_drop_subset set_take_subset subset_trans)
  then show ?thesis using assms(2) by (fastforce simp: listing_def wrapped_to_mcp_tool_def expose_def unwrap_or_def)
qed


section \<open>Runs\<close>

definition example_front_env :: "(nat, string) front_env" where
  "example_front_env =
     \<lparr>fe_sha = example_sha, fe_now = 0, fe_guarded = True, fe_run = (\<lambda>_ _. example_invoke_env\<lparr>iv_regex := literal_engine\<rparr>),
      fe_meta = example_meta, fe_discovery = example_discovery, fe_fetch_now = 0, fe_names_schema = JNull, fe_calls_schema = JNull,
      fe_ser_result = (\<lambda>_. []), fe_de_result = (\<lambda>_. None), fe_de_input_required = (\<lambda>_. None), fe_result_json = (\<lambda>_. JNull),
      fe_lossy = id, fe_header_ok = (\<lambda>_. True)\<rparr>"

definition example_front :: "(nat, string) front_state" where
  "example_front =
     \<lparr>fs_app = example_app\<lparr>ap_catalog := example_catalog\<rparr>,
      fs_settings =
        \<lparr>fo_observability = \<lparr>oc_capture_payloads = False, oc_capture_max_bytes = 0\<rparr>, fo_block_private = False,
         fo_tools_list_ttl_ms = 0\<rparr>,
      fs_cache = result_cache_new, fs_counter = 0, fs_recorded = [], fs_repo = None, fs_upstream = [], fs_semantic = None, fs_peers = []\<rparr>"

lemma example_front_regex: "\<forall>k x. iv_regex (fe_run example_front_env k x) = fe_regex example_front_env"
  by (simp add: example_front_env_def example_meta_def)

theorem front_door_authorised_witness:
  "\<exists>evs. fs_recorded (front_step example_front_env (McpToolCall None None ''crawl'' None default_extras) example_front) = evs \<and>
     length evs \<le> 10 \<and> list_all (lawful literal_engine example_catalog Map.empty mcp_default_key) evs"
proof -
  let ?r = "McpToolCall None None ''crawl'' None default_extras"
  have "ga_token_keys (ap_auth example_app) = {}"
    by (simp add: example_app_def app_state_new_def from_config_unresolved_def add_unresolved_def auth_empty_def note_expiry_def
        plain_key_def Let_def)
  then have "caller example_front_env ?r example_front = Some mcp_default_key" by (simp add: example_front_def)
  moreover have "ap_quarantined example_app = Map.empty" by (simp add: example_app_def app_state_new_def)
  ultimately show ?thesis
    using front_door_authorised [OF example_front_regex, where r = ?r and s = example_front]
    by (simp add: example_front_def) (simp add: example_front_env_def example_meta_def)
qed



end
