(* ===== verification/Downstream.thy ===== *)
theory Downstream
  imports FrontDoor
begin

text \<open>
  Prompts and resources of the upstreams, as the gateway offers them to its MCP clients (\<open>src/mcp/downstream.rs\<close>,
  \<open>src/mcp/workflow_prompt.rs\<close>): the lists in the key's scope, the gateway's own prompt, and the two requests that reach
  an upstream. These are admitted, charged and recorded like tool calls; the theorem at the end states the accounting for
  every kind of request together.
\<close>

section \<open>The gateway's prompt (workflow_prompt.rs)\<close>

definition WORKFLOW_NAME :: string where "WORKFLOW_NAME = ''asterlane_tool_workflow''"

definition WORKFLOW_DESCRIPTION :: string where
  "WORKFLOW_DESCRIPTION = ''Find, inspect, and call tools available to the current gateway key.''"

definition dq :: string where "dq = [CHR 0x22]"

definition WORKFLOW :: string where
  "WORKFLOW =
     ''Use the tools visible to your current gateway key for this task:'' @ nl @
     ''1. Call asl__search with {'' @ dq @ ''query'' @ dq @ '': '' @ dq @ ''<what you need>'' @ dq @
     ''}. If the result has next_cursor, pass that cursor to '' @
     ''search the next page. Each hit has a capped description and a compact parameter signature, not the callable '' @
     ''argument schema.'' @ nl @
     ''2. Choose names returned by search and call asl__describe with {'' @ dq @ ''names'' @ dq @ '': ['' @ dq @
     ''<returned canonical name>'' @ dq @ '']} to '' @
     ''read their descriptions and input_schema. The schema keeps the types and constraints needed to call the tool. '' @
     ''You may request up to 10 names at once. Treat not_found as unavailable.'' @ nl @
     ''3. Call asl__call with {'' @ dq @ ''name'' @ dq @ '': '' @ dq @ ''<returned canonical name>'' @ dq @ '', '' @ dq @
     ''arguments'' @ dq @ '': {}} using arguments that match the '' @
     ''schema. For up to 10 independent calls, use asl__batch with {'' @ dq @ ''calls'' @ dq @ '': [{'' @ dq @ ''name'' @
     dq @ '': '' @ dq @ ''<returned canonical name>'' @ dq @ '', '' @
     dq @ ''arguments'' @ dq @
     '': {}}]}. Batch results follow input order. That order only aligns results: a later call cannot use '' @
     ''an earlier result, and must not assume an earlier upstream side effect is visible. A failed item does not '' @
     ''stop or roll back the others; there is no transaction. Inspect each result and retry only failed items. When '' @
     ''the next arguments depend on a previous result, use asl__call. Handle input_required if a tool requests more '' @
     ''input.'' @ nl @
     ''4. If a result includes a continuation cursor, call asl__fetch with {'' @ dq @ ''cursor'' @ dq @ '': '' @ dq @
     ''<returned cursor>'' @ dq @ ''} to '' @
     ''retrieve the remaining content.'' @ nl @
     ''Only use names returned for this key; search and describe do not reveal tools outside its scope.''"

definition list_workflow_prompts :: "(string \<times> string) list" where
  "list_workflow_prompts = [(WORKFLOW_NAME, WORKFLOW_DESCRIPTION)]"

definition get_workflow_prompt :: "string \<Rightarrow> string option" where
  "get_workflow_prompt name = (if name = WORKFLOW_NAME then Some WORKFLOW else None)"

section \<open>Lists (downstream.rs)\<close>

datatype listed_prompt = OwnPrompt string string | UpstreamPrompt rmcp_prompt

definition policy_rpc_error :: "policy_error \<Rightarrow> error_data" where
  "policy_rpc_error e = rpc_error INTERNAL_ERROR (policy_error_msg e)"

definition list_prompts_for ::
  "regex_engine \<Rightarrow> string option \<Rightarrow> ('g, 'p) front_state \<Rightarrow> error_data + listed_prompt list" where
  "list_prompts_for re bound s =
     and_then (resolve_proxy_key bound s) (\<lambda>key.
     and_then (case ap_registry (fs_app s) of
                 Some es \<Rightarrow> map_err policy_rpc_error (prompts_for_key re key es)
               | None \<Rightarrow> Inr []) (\<lambda>prompts.
       Inr (map (\<lambda>(n, d). OwnPrompt n d) list_workflow_prompts @ map UpstreamPrompt prompts)))"

definition list_resources_for ::
  "regex_engine \<Rightarrow> string option \<Rightarrow> ('g, 'p) front_state \<Rightarrow> error_data + rmcp_resource list" where
  "list_resources_for re bound s =
     and_then (resolve_proxy_key bound s) (\<lambda>key.
       case ap_registry (fs_app s) of
         Some es \<Rightarrow> map_err policy_rpc_error (resources_for_key re key es)
       | None \<Rightarrow> Inr [])"

definition list_templates_for ::
  "regex_engine \<Rightarrow> string option \<Rightarrow> ('g, 'p) front_state \<Rightarrow> error_data + rmcp_template list" where
  "list_templates_for re bound s =
     and_then (resolve_proxy_key bound s) (\<lambda>key.
       case ap_registry (fs_app s) of
         Some es \<Rightarrow> map_err policy_rpc_error (templates_for_key re key es)
       | None \<Rightarrow> Inr [])"

section \<open>Accounted calls (downstream.rs)\<close>

record accounted_call =
  ac_key :: proxy_key
  ac_server_id :: string
  ac_kind :: request_kind
  ac_name :: string
  ac_args :: json

record call_outcome_fields =
  oc_status :: request_status
  oc_latency_ms :: u32
  oc_response_preview :: "string option"

definition capture_value :: "('g, 'p) invoke_env \<Rightarrow> ('g, 'p) front_state \<Rightarrow> string \<Rightarrow> string option" where
  "capture_value env s text =
     (let obs = fo_observability (fs_settings s)
      in if oc_capture_payloads obs then Some (capture_text (iv_redact env) text (oc_capture_max_bytes obs)) else None)"

definition record_accounted ::
  "('g, 'p) invoke_env \<Rightarrow> accounted_call \<Rightarrow> string \<Rightarrow> call_outcome_fields \<Rightarrow> ('g, 'p) front_state \<Rightarrow> ('g, 'p) front_state" where
  "record_accounted env call request_id outcome s =
     (let limited = (oc_status outcome = StLimited)
      in put_pipeline (put_event env
           \<lparr>re_timestamp = iv_event_now env, re_request_id = request_id, re_proxy_key_id = pk_id (ac_key call),
            re_resource_id = ac_server_id call, re_request_kind = ac_kind call, re_tool_name = ac_name call,
            re_upstream_key_ref = (if limited then ''<limited>'' else MCP_KEY_REF), re_status = oc_status outcome,
            re_latency_ms = oc_latency_ms outcome, re_request_units = 1, re_retry_count = 0, re_rate_limited = limited,
            re_queued_ms = 0, re_request_args = capture_value env s (iv_ser env (ac_args call)),
            re_response_preview = oc_response_preview outcome,
            re_upstream_latency_ms = (if oc_status outcome = StSuccess then Some (oc_latency_ms outcome) else None)\<rparr>
           (pipeline_of s)) s)"

definition put_limits :: "'g limit_registry \<Rightarrow> ('g, 'p) front_state \<Rightarrow> ('g, 'p) front_state" where
  "put_limits reg s = s\<lparr>fs_app := (fs_app s)\<lparr>ap_limits := reg\<rparr>\<rparr>"

text \<open>
  \<open>sent\<close> is the request that reaches the upstream after the admission, \<open>reply\<close> its answer and \<open>ser\<close> its printed form. At
  the end the quota guard goes first, then the permit.
\<close>

definition call_accounted ::
  "('g, 'p) invoke_env \<Rightarrow> ('v \<Rightarrow> string) \<Rightarrow> accounted_call \<Rightarrow> 'p upstream_call \<Rightarrow> mcp_error + 'v \<Rightarrow> ('g, 'p) front_state \<Rightarrow>
   (error_data + 'v) \<times> ('g, 'p) front_state" where
  "call_accounted env ser call sent reply s0 =
     (let (request_id, counter) = next_request_id (fs_counter s0); s = s0\<lparr>fs_counter := counter\<rparr>;
          k = pk_id (ac_key call); release = permit_drop (ac_server_id call); latency = run_latency_ms env
      in case admit_at (iv_governor env) (iv_instant env) (iv_wait env) k (ac_server_id call) (iv_admit_now env)
                (ap_limits (fs_app s)) of
           (Inl e, reg) \<Rightarrow>
             (Inl (rpc_error INTERNAL_ERROR (limit_error_msg e)),
              record_accounted env call request_id
                \<lparr>oc_status = StLimited, oc_latency_ms = 0, oc_response_preview = None\<rparr> (put_limits reg s))
         | (Inr permit, reg) \<Rightarrow>
             (let s1 = (put_limits (iv_others env reg) s)\<lparr>fs_upstream := fs_upstream s @ [sent]\<rparr>
              in case reply of
                   Inr v \<Rightarrow>
                     (let s2 = record_accounted env call request_id
                            \<lparr>oc_status = StSuccess, oc_latency_ms = latency, oc_response_preview = capture_value env s1 (ser v)\<rparr> s1
                      in (Inr v, put_limits ((if permit then release else id) (ap_limits (fs_app s2))) s2))
                 | Inl e \<Rightarrow>
                     (let s2 = record_accounted env call request_id
                            \<lparr>oc_status = StUpstreamError 0, oc_latency_ms = latency, oc_response_preview = None\<rparr> s1
                      in (Inl (rpc_error INTERNAL_ERROR (mcp_error_msg e)),
                          put_limits ((if permit then release else id) (quota_guard_drop False k (iv_refund_now env)
                            (ap_limits (fs_app s2)))) s2))))"

text \<open>What the upstreams answer.\<close>

record ('g, 'p) downstream_env =
  dn_regex :: regex_engine
  dn_run :: "('g, 'p) invoke_env"
  dn_get_prompt :: "'p \<Rightarrow> string \<Rightarrow> json \<Rightarrow> mcp_error + json"
  dn_read :: "'p \<Rightarrow> string \<Rightarrow> mcp_error + (string option \<times> json) list"
  dn_ser :: "json \<Rightarrow> string"
  dn_ser_read :: "(string option \<times> json) list \<Rightarrow> string"

datatype prompt_answer = Workflow string | PromptFrom json

definition unknown_prompt :: error_data where "unknown_prompt = rpc_error METHOD_NOT_FOUND ''unknown prompt''"

definition resource_not_found :: error_data where "resource_not_found = rpc_error RESOURCE_NOT_FOUND ''resource not found''"

definition get_prompt_for ::
  "('g, 'p) downstream_env \<Rightarrow> string option \<Rightarrow> string \<Rightarrow> json \<Rightarrow> ('g, 'p) front_state \<Rightarrow>
   (error_data + prompt_answer) \<times> ('g, 'p) front_state" where
  "get_prompt_for env bound name args s =
     (case get_workflow_prompt name of
        Some text \<Rightarrow> (Inr (Workflow text), s)
      | None \<Rightarrow>
          (case and_then (resolve_proxy_key bound s) (\<lambda>key.
                  and_then (case ap_registry (fs_app s) of
                              Some es \<Rightarrow> map_err policy_rpc_error (resolve_prompt (dn_regex env) key name es)
                            | None \<Rightarrow> Inr None) (\<lambda>r.
                  and_then (ok_or unknown_prompt r) (\<lambda>resolved. Inr (key, resolved)))) of
             Inl e \<Rightarrow> (Inl e, s)
           | Inr (key, resolved) \<Rightarrow>
               (let (r, s') = call_accounted (dn_run env) (dn_ser env)
                      \<lparr>ac_key = key, ac_server_id = rpm_server_id resolved, ac_kind = KindPrompt, ac_name = name, ac_args = args\<rparr>
                      (McpPrompt (rpm_peer resolved) (rpm_upstream_name resolved) args)
                      (dn_get_prompt env (rpm_peer resolved) (rpm_upstream_name resolved) args) s
                in (and_then r (\<lambda>v. Inr (PromptFrom v)), s'))))"

definition read_resource_for ::
  "('g, 'p) downstream_env \<Rightarrow> string option \<Rightarrow> string \<Rightarrow> ('g, 'p) front_state \<Rightarrow>
   (error_data + (string option \<times> json) list) \<times> ('g, 'p) front_state" where
  "read_resource_for env bound uri s =
     (case and_then (resolve_proxy_key bound s) (\<lambda>key.
             and_then (case ap_registry (fs_app s) of
                         Some es \<Rightarrow> map_err policy_rpc_error (resolve_read (dn_regex env) key uri es)
                       | None \<Rightarrow> Inr None) (\<lambda>r.
             and_then (ok_or resource_not_found r) (\<lambda>resolved. Inr (key, resolved)))) of
        Inl e \<Rightarrow> (Inl e, s)
      | Inr (key, resolved) \<Rightarrow>
          (let (r, s') = call_accounted (dn_run env) (dn_ser_read env)
                 \<lparr>ac_key = key, ac_server_id = rrd_server_id resolved, ac_kind = KindResource, ac_name = rrd_scope_name resolved,
                  ac_args = JObject [(''uri'', JString uri)]\<rparr>
                 (McpRead (rrd_peer resolved) (rrd_upstream_uri resolved))
                 (dn_read env (rrd_peer resolved) (rrd_upstream_uri resolved)) s
           in (and_then r (\<lambda>contents. Inr (rewrite_read_uris (rrd_server_id resolved) contents)), s')))"

section \<open>Accounting\<close>

lemma put_limits_pipeline [simp]: "pipeline_of (put_limits reg s) = (pipeline_of s)\<lparr>px_limits := Some reg\<rparr>"
  by (simp add: put_limits_def pipeline_of_def)

lemma record_accounted_pipeline:
  "\<exists>ev. pipeline_of (record_accounted env call i oc s) = put_event env ev (pipeline_of s) \<and>
     re_proxy_key_id ev = pk_id (ac_key call) \<and> re_status ev = oc_status oc"
  unfolding record_accounted_def Let_def
  by (subst pipeline_put) (auto simp: put_event_def pipeline_of_def)

lemma admitted_total:
  assumes "admit_at gov t out k up now reg = (Inr permit, reg')" and "calls_total reg k < 2 ^ 64 - 1"
  shows "calls_total reg' j = calls_total reg j + (if j = k then 1 else 0)"
proof -
  from admit_at_usage [OF assms(1)] obtain reg2 where r: "lr_usage reg2 = lr_usage reg" "reg' = record_call k now reg2" by auto
  have "calls_total reg2 i = calls_total reg i" for i by (rule calls_total_cong [OF r(1)])
  with assms(2) show ?thesis unfolding r(2) calls_record by auto
qed

lemma accounted_charged:
  assumes "call_accounted env ser call sent reply s = (r, s')" and "iv_others env = id"
    and "calls_total (ap_limits (fs_app s)) (pk_id (ac_key call)) < 2 ^ 64 - 1"
  shows "charged (ac_key call) (ap_limits (fs_app s)) (pipeline_of s) (r, pipeline_of s')"
proof -
  let ?k = "pk_id (ac_key call)" and ?reg0 = "ap_limits (fs_app s)"
  obtain i n where n: "next_request_id (fs_counter s) = (i, n)" by force
  let ?s = "s\<lparr>fs_counter := n\<rparr>"
  obtain q reg where q: "admit_at (iv_governor env) (iv_instant env) (iv_wait env) ?k (ac_server_id call) (iv_admit_now env) ?reg0 = (q, reg)"
    by force
  show ?thesis
  proof (cases q)
    case (Inl e)
    let ?f = "\<lparr>oc_status = StLimited, oc_latency_ms = 0, oc_response_preview = None\<rparr>"
    obtain ev where ev: "pipeline_of (record_accounted env call i ?f (put_limits reg ?s)) = put_event env ev (pipeline_of (put_limits reg ?s))"
        "re_proxy_key_id ev = ?k" "re_status ev = StLimited"
      using record_accounted_pipeline [of env call i ?f "put_limits reg ?s"] by auto
    have r: "r = Inl (rpc_error INTERNAL_ERROR (limit_error_msg e))" "s' = record_accounted env call i ?f (put_limits reg ?s)"
      using assms(1) n q Inl by (simp_all add: call_accounted_def Let_def)
    have "calls_total reg k = calls_total ?reg0 k" for k
      using admit_at_usage [OF q] Inl by (intro calls_total_cong) simp
    with ev r show ?thesis
      by (intro chargedI [where evs = "[ev]" and reg' = reg]) (simp_all add: put_event_def pipeline_of_def put_limits_def)
  next
    case (Inr permit)
    let ?s1 = "(put_limits reg ?s)\<lparr>fs_upstream := fs_upstream s @ [sent]\<rparr>"
    let ?f = "case reply of
        Inr v \<Rightarrow> \<lparr>oc_status = StSuccess, oc_latency_ms = run_latency_ms env, oc_response_preview = capture_value env ?s1 (ser v)\<rparr>
      | Inl _ \<Rightarrow> \<lparr>oc_status = StUpstreamError 0, oc_latency_ms = run_latency_ms env, oc_response_preview = None\<rparr>"
    let ?s2 = "record_accounted env call i ?f ?s1"
    let ?fin = "\<lambda>reg. (if permit then permit_drop (ac_server_id call) else id)
        (if isl reply then refund_call_at ?k (iv_refund_now env) reg else reg)"
    have sr: "s' = put_limits (?fin (ap_limits (fs_app ?s2))) ?s2" "isl r = isl reply"
      using assms(1) n q Inr by (auto simp: call_accounted_def Let_def assms(2) quota_guard_drop_def split: sum.splits)
    obtain ev where ev: "pipeline_of ?s2 = put_event env ev (pipeline_of ?s1)" "re_proxy_key_id ev = ?k" "re_status ev = oc_status ?f"
      using record_accounted_pipeline [of env call i ?f ?s1] by auto
    have l: "ap_limits (fs_app ?s2) = reg" "px_recorded (pipeline_of ?s2) = fs_recorded s @ [ev]"
      using ev(1) by (simp_all add: put_event_def pipeline_of_def put_limits_def)
    have "calls_total (?fin reg) j = calls_total ?reg0 j + (if \<not> isl r \<and> j = ?k then 1 else 0)" for j
      using admitted_total [OF q [unfolded Inr] assms(3), of j] calls_total_cong [of "?fin reg"
          "if isl reply then refund_call_at ?k (iv_refund_now env) reg else reg" j] sr(2)
      by (auto simp: calls_refund)
    moreover have "re_status ev = StSuccess \<longleftrightarrow> \<not> isl r" using ev(3) sr(2) by (cases reply) simp_all
    moreover have "px_limits (pipeline_of s') = Some (?fin reg)" unfolding sr(1) l(1) by simp
    moreover have "px_recorded (pipeline_of s') = px_recorded (pipeline_of s) @ [ev]"
      using l(2) unfolding sr(1) by (simp add: pipeline_of_def [of s])
    ultimately show ?thesis using ev(2) by (intro chargedI [where evs = "[ev]" and reg' = "?fin reg"]) simp_all
  qed
qed

section \<open>All requests\<close>

datatype gateway_request =
    ToolRequest front_request
  | PromptRequest "string option" string json
  | ReadRequest "string option" string

fun gateway_step ::
  "('g, 'p) front_env \<times> ('g, 'p) downstream_env \<Rightarrow> gateway_request \<Rightarrow> ('g, 'p) front_state \<Rightarrow> ('g, 'p) front_state" where
  "gateway_step (env, dn) (ToolRequest r) s = front_step env r s"
| "gateway_step (env, dn) (PromptRequest header name args) s =
     (case require_mcp_auth (fe_sha env) (ap_auth (fs_app s)) header (fe_now env) of
        Inl _ \<Rightarrow> s
      | Inr bound \<Rightarrow> snd (get_prompt_for dn bound name args s))"
| "gateway_step (env, dn) (ReadRequest header uri) s =
     (case require_mcp_auth (fe_sha env) (ap_auth (fs_app s)) header (fe_now env) of
        Inl _ \<Rightarrow> s
      | Inr bound \<Rightarrow> snd (read_resource_for dn bound uri s))"

fun gateway_run ::
  "((('g, 'p) front_env \<times> ('g, 'p) downstream_env) \<times> gateway_request) list \<Rightarrow> ('g, 'p) front_state \<Rightarrow> ('g, 'p) front_state" where
  "gateway_run [] s = s"
| "gateway_run ((e, r) # rs) s = gateway_run rs (gateway_step e r s)"

definition alone :: "('g, 'p) front_env \<times> ('g, 'p) downstream_env \<Rightarrow> bool" where
  "alone e \<longleftrightarrow> (\<forall>k x. iv_others (fe_run (fst e) k x) = id) \<and> iv_others (dn_run (snd e)) = id"

definition books_match :: "('g, 'p) front_state \<Rightarrow> bool" where
  "books_match s \<longleftrightarrow> (\<forall>k. calls_total (ap_limits (fs_app s)) k = successes (fs_recorded s) k)"

definition grows_by :: "nat \<Rightarrow> ('g, 'p) front_state \<Rightarrow> ('g, 'p) front_state \<Rightarrow> bool" where
  "grows_by n s s' \<longleftrightarrow> books_match s' \<and> length (fs_recorded s') \<le> length (fs_recorded s) + n"

lemma accounted_grows:
  assumes "books_match s" and "length (fs_recorded s) + 10 < 2 ^ 64" and "iv_others env = id"
  shows "grows_by 10 s (snd (call_accounted env ser call sent reply s))"
proof -
  obtain r s' where c: "call_accounted env ser call sent reply s = (r, s')" by force
  have "calls_total (ap_limits (fs_app s)) (pk_id (ac_key call)) < 2 ^ 64 - 1"
    using assms(1,2) successes_le [of "fs_recorded s" "pk_id (ac_key call)"] by (auto simp: books_match_def)
  from charged_successes [OF accounted_charged [OF c assms(3) this]] assms(1) show ?thesis
    by (auto simp: c grows_by_def books_match_def pipeline_of_def)
qed

lemma served_grows:
  assumes "books_match s" and "length (fs_recorded s) + 10 < 2 ^ 64" and "\<forall>k x. iv_others (fe_run env k x) = id"
    and "served env key s s'"
  shows "grows_by 10 s s'"
proof -
  obtain cs where cs: "list_all (run_ok env key s) cs" "length cs \<le> BATCH_LIMIT"
      "books (pipeline_of s') = books (invoke_all cs (pipeline_of s))"
    using assms(4) by (auto simp: served_def)
  have "\<forall>c \<in> set cs. iv_others (fst c) = id" using cs(1) assms(3) by (auto simp: list_all_iff run_ok_def)
  then have "\<exists>reg'. px_limits (invoke_all cs (pipeline_of s)) = Some reg' \<and>
      (\<forall>k. calls_total reg' k = successes (px_recorded (invoke_all cs (pipeline_of s))) k) \<and>
      length (px_recorded (invoke_all cs (pipeline_of s))) \<le> length (px_recorded (pipeline_of s)) + length cs"
    using assms(1,2) cs(2)
    by (intro usage_matches_events [where reg = "ap_limits (fs_app s)"]) (simp_all add: pipeline_of_def books_match_def BATCH_LIMIT_def)
  then show ?thesis using cs(2,3) by (auto simp: grows_by_def books_match_def pipeline_of_def BATCH_LIMIT_def)
qed

lemma grows_by_refl: "books_match s \<Longrightarrow> grows_by 10 s s"
  by (simp add: grows_by_def)

lemma prompt_grows:
  assumes "books_match s" and "length (fs_recorded s) + 10 < 2 ^ 64" and "iv_others (dn_run dn) = id"
  shows "grows_by 10 s (snd (get_prompt_for dn bound name args s))" and "grows_by 10 s (snd (read_resource_for dn bound uri s))"
  using assms
  by (simp_all add: get_prompt_for_def read_resource_for_def Let_def case_prod_beta' accounted_grows grows_by_refl
      split: option.split sum.split)

lemma step_grows:
  assumes "books_match s" and "length (fs_recorded s) + 10 < 2 ^ 64" and "alone e"
  shows "grows_by 10 s (gateway_step e r s)"
proof -
  obtain env dn where e: "e = (env, dn)" by force
  have o: "\<forall>k x. iv_others (fe_run env k x) = id" "iv_others (dn_run dn) = id" using assms(3) by (simp_all add: alone_def e)
  show ?thesis
  proof (cases r)
    case (ToolRequest q)
    have "grows_by 10 s (front_step env q s)"
    proof (cases "caller env q s")
      case None
      then have "(front_step env q s)\<lparr>fs_peers := fs_peers s\<rparr> = s"
        using front_step_caller [where env = env and r = q and s = s] by simp
      then have "fs_app (front_step env q s) = fs_app s" "fs_recorded (front_step env q s) = fs_recorded s"
        by (metis front_state.select_convs(1) front_state.surjective front_state.update_convs(9),
          metis front_state.select_convs(5) front_state.surjective front_state.update_convs(9))
      then show ?thesis using assms(1) by (simp add: grows_by_def books_match_def)
    next
      case (Some key)
      then show ?thesis
        using served_grows [OF assms(1,2) o(1)] front_step_caller [where env = env and r = q and s = s] by simp
    qed
    then show ?thesis by (simp add: e ToolRequest)
  qed (use prompt_grows [OF assms(1,2) o(2)] grows_by_refl [OF assms(1)] in \<open>simp_all add: e split: sum.split\<close>)
qed

text \<open>C11: whatever mix of requests the gateway serves, tool calls over HTTP or MCP, alone or in a batch, prompts and resources,
  the total that the limits count for a key is, after each of them, the number of successful events
  recorded for it: a call that failed, was refused, turned away or not authenticated leaves no trace in the total. The
  requests are taken one after the other, start with matching books, and are too few to exhaust the counters.\<close>

theorem gateway_usage_matches_events:
  assumes "\<forall>k. calls_total (ap_limits (fs_app s)) k = successes (fs_recorded s) k" and "\<forall>(e, r) \<in> set rs. alone e"
    and "length (fs_recorded s) + 10 * length rs < 2 ^ 64"
  shows "\<forall>k. calls_total (ap_limits (fs_app (gateway_run rs s))) k = successes (fs_recorded (gateway_run rs s)) k"
  using assms
proof (induction rs arbitrary: s)
  case (Cons p rs)
  obtain e r where p: "p = (e, r)" by (cases p)
  have "grows_by 10 s (gateway_step e r s)"
    using Cons.prems by (intro step_grows) (auto simp: books_match_def p)
  then show ?case
    using Cons.prems(2,3) unfolding p gateway_run.simps by (intro Cons.IH) (auto simp: grows_by_def books_match_def)
qed simp

definition example_downstream :: "(nat, string) downstream_env" where
  "example_downstream =
     \<lparr>dn_regex = literal_engine, dn_run = example_invoke_env, dn_get_prompt = (\<lambda>_ _ _. Inr JNull), dn_read = (\<lambda>_ _. Inr []),
      dn_ser = (\<lambda>_. []), dn_ser_read = (\<lambda>_. [])\<rparr>"

theorem gateway_usage_matches_events_witness:
  "calls_total (ap_limits (fs_app (gateway_run
       [((example_front_env, example_downstream), ToolRequest (McpToolCall None None ''crawl'' None default_extras)),
        ((example_front_env, example_downstream), PromptRequest None ''p'' JNull)] example_front))) ''mcp-default'' =
   successes (fs_recorded (gateway_run
       [((example_front_env, example_downstream), ToolRequest (McpToolCall None None ''crawl'' None default_extras)),
        ((example_front_env, example_downstream), PromptRequest None ''p'' JNull)] example_front)) ''mcp-default''"
proof -
  let ?e = "(example_front_env, example_downstream)"
  let ?rs = "[(?e, ToolRequest (McpToolCall None None ''crawl'' None default_extras)), (?e, PromptRequest None ''p'' JNull)]"
  have "alone ?e" by (simp add: alone_def example_front_env_def example_downstream_def example_invoke_env_def id_def)
  then have "\<forall>(e, r) \<in> set ?rs. alone e" by simp
  moreover have "\<forall>k. calls_total (ap_limits (fs_app example_front)) k = successes (fs_recorded example_front) k"
    by (simp add: example_front_def example_app_def app_state_new_def calls_total_def successes_def)
  moreover have "length (fs_recorded example_front) + 10 * length ?rs < 2 ^ 64" by (simp add: example_front_def)
  ultimately show ?thesis using gateway_usage_matches_events [of example_front ?rs] by blast
qed

end
