(* ===== verification/Spec2Isabelle.thy ===== *)
theory Spec2Isabelle
  imports Downstream
begin

text \<open>
  A verification development of Asterlane, a gateway between AI agents and upstream APIs. An agent sees one
  catalog of tools; behind it stand HTTP APIs from the configuration and MCP servers. The gateway decides
  which key may use which tool, keeps quotas, holds the upstream credentials, calls the upstream and shapes the
  answer. The source files named below are relative to \<open>src/src\<close>.

  \<^bold>\<open>How the parts interact.\<close> The configuration (\<open>config/*\<close>) is loaded, checked and expanded, and the rows of the
  store are merged under it. From it the tool catalog, the limit registry, the key pools and the table of
  gateway credentials are built; the MCP registry connects to its servers and adds their tools. A call is
  authenticated, resolved in the catalog, checked against scope, quarantine and limits, sent to the upstream with
  a leased key (with retries and failover) or over MCP, recorded as an event, scanned, rendered and cut to size.
  The admin API changes the configuration at run time: it builds all derived parts anew, carries the
  counters, leases and overrides over, installs them together and writes the store.

  \<^bold>\<open>Foundations.\<close>
  \<^item> \<open>Prelude\<close>: results as sums (\<open>and_then\<close>, \<open>map_err\<close>, \<open>ok_or\<close>), hash maps as association lists, saturating
    integers, strings and their trimming and splitting, and the generic lemmas on them.
  \<^item> \<open>Machine\<close>: step relations, reachability and the locale \<open>invariant_of\<close>, from which the invariants
    of key pools, limits, the MCP registry and OAuth follow by interpretation.
  \<^item> \<open>Expiring\<close>: the locale \<open>expiring_store\<close> of a store whose entries die after a time to live; its
    provenance law is interpreted for the secret cache, the result cache and the pending authorizations.
  \<^item> \<open>Json\<close>: JSON values and the access functions of serde that the code uses.

  \<^bold>\<open>Names, configuration, errors.\<close>
  \<^item> \<open>Naming\<close> (\<open>naming.rs\<close>): names of tools, their wire form and parser; round trip.
  \<^item> \<open>Config\<close> (\<open>config/*.rs\<close>): the records of the configuration and their look-ups.
  \<^item> \<open>PostLoad\<close> (\<open>config/post_load.rs\<close>, \<open>config/oauth.rs\<close>, \<open>presets.rs\<close>): checks after loading, expansion of presets.
  \<^item> \<open>Policy\<close> (\<open>policy.rs\<close>): the scope check; it equals its specification, denial first.
  \<^item> \<open>Errors\<close> (\<open>error.rs\<close> and the errors of the components): codes, HTTP and MCP forms.

  \<^bold>\<open>Catalog.\<close>
  \<^item> \<open>OpenApi\<close> (\<open>openapi/mod.rs\<close>): the operations of an OpenAPI document; exactly the selected ones become endpoints, with
    a schema that declares what a call places and holds no answerable reference.
  \<^item> \<open>Catalog\<close> (\<open>catalog/mod.rs\<close>): building and refreshing; description overrides refine an abstract map.
  \<^item> \<open>CatalogQuery\<close> (\<open>catalog/query.rs\<close>): pages cover the visible tools, exposed short names resolve to their tool.
  \<^item> \<open>Integrity\<close> (\<open>integrity.rs\<close>): fingerprints, drift, quarantine.
  \<^item> \<open>SchemaView\<close> (\<open>schema_view.rs\<close>): what an agent is shown of an input schema; the projection accepts the same values.
  \<^item> \<open>Semantic\<close>, \<open>Discovery\<close> (\<open>semantic.rs\<close>, \<open>discovery.rs\<close>): the gateway's own tools; the pages of a search cover
    its hits, all of them in the key's scope.
  \<^item> \<open>MetaTools\<close> (\<open>mcp/call.rs\<close>, \<open>mcp/model.rs\<close>): tools described in a batch and the byte budget of a batch response.

  \<^bold>\<open>Credentials and limits.\<close>
  \<^item> \<open>Secrets\<close> (\<open>secrets/*.rs\<close>): references, back ends, retry and cache.
  \<^item> \<open>GatewayAuth\<close> (\<open>gateway_auth.rs\<close>, \<open>admin/auth.rs\<close>): authentication of a request.
  \<^item> \<open>Keys\<close>, \<open>KeyRegistry\<close> (\<open>keys/*.rs\<close>): leases, cooldowns, load balancing; bounds and fairness.
  \<^item> \<open>Limits\<close> (\<open>limits/*.rs\<close>): rates, queue and quotas; what an interleaving can overshoot.
  \<^item> \<open>Egress\<close> (\<open>egress.rs\<close>): which addresses and redirects are refused.

  \<^bold>\<open>Calls.\<close>
  \<^item> \<open>Retry\<close> (\<open>proxy/retry.rs\<close>, \<open>proxy/auth.rs\<close>): requests, attempts, failover; no argument reaches a credential header.
  \<^item> \<open>McpSurface\<close>, \<open>McpRegistry\<close> (\<open>mcp/*.rs\<close>): upstream MCP servers and their run-time changes.
  \<^item> \<open>Shaping\<close>, \<open>Render\<close>, \<open>Observe\<close> (\<open>shaping.rs\<close>, \<open>render.rs\<close>, \<open>defense/mod.rs\<close>, \<open>observability/*.rs\<close>): results and events.
  \<^item> \<open>Invoke\<close> (\<open>proxy/executor.rs\<close>, \<open>proxy/invoke/*.rs\<close>, \<open>proxy/post.rs\<close>): the whole pipeline; a call reaches an
    upstream only past every guard, and usage agrees with the recorded events.

  \<^item> \<open>FrontDoor\<close> (\<open>http/tools.rs\<close>, \<open>mcp/server.rs\<close>, \<open>mcp/meta.rs\<close>, \<open>mcp/call.rs\<close>, \<open>mcp/result.rs\<close>, \<open>mcp/notify.rs\<close>): the two ways in,
    over HTTP and MCP. Each request is a sequence of pipeline runs under the key it authenticated as; \<open>asl__call\<close> over either
    door and a batch of one have the same effect; a list over MCP has distinct names that call the tools they stand for.
  \<^item> \<open>Downstream\<close> (\<open>mcp/downstream.rs\<close>, \<open>mcp/workflow_prompt.rs\<close>): prompts and resources; the quota totals agree with the events
    after any mix of requests.

  \<^bold>\<open>Administration.\<close>
  \<^item> \<open>ConfigStore\<close> (\<open>store/*.rs\<close>): the configuration tables and the merge at start-up; the file wins.
  \<^item> \<open>AdminWrite\<close> (\<open>admin/crud.rs\<close>, \<open>tokens.rs\<close>, \<open>mcp.rs\<close>, \<open>metadata.rs\<close>, \<open>http/lifecycle.rs\<close>): a write happens as a
    whole or not at all, a token issued works at once and after a restart.
  \<^item> \<open>UpstreamOAuth\<close>, \<open>OAuthClient\<close> (\<open>mcp/oauth/*.rs\<close>, \<open>secrets/seal.rs\<close>): sealed credentials, one-time states,
    revocation, token renewal.
  \<^item> \<open>AdminApi\<close> (\<open>admin/read.rs\<close>, \<open>admin/oauth.rs\<close>, \<open>http/routes.rs\<close>, \<open>http/oauth_callback.rs\<close>): views that hide credentials.

  \<^bold>\<open>The outside world.\<close> Third-party code and services are fields of environment records and arguments of the
  definitions: the regex, url, serde and governor crates, SHA-256 and the cipher, the rmcp client, reqwest, the
  clock, random numbers and the database. A theorem that relies on one of them states what it relies on as a
  hypothesis, and its witness gives a concrete function for it. Concurrent code appears as step relations whose
  steps are the sections between two awaits, or as a hook for what other tasks do meanwhile.

  \<^bold>\<open>Bounds.\<close> Strings are lists of bytes; times are natural numbers of nanoseconds, and machine
  integers are kept at their width where the code saturates or wraps. Loops recurse on the list or counter they
  consume, so no definition needs fuel; the retry loop recurses on the attempts left, the loops of the byte budget on the
  items that can still be moved, the projection of a schema on its size, and following references on the levels left
  (\<open>MAX_REF_DEPTH\<close>) and the size of the value.

  \<^bold>\<open>Not modelled.\<close> Argument parsing and start-up (\<open>main.rs\<close>, \<open>cli/*\<close>), metrics and log export,
  axum routing, the rmcp client connections, the parsers of an OpenAPI document's text and SQL of the event and usage queries: they are I/O
  or calls into libraries. Log messages and
  \<open>Debug\<close> texts are left out throughout.
\<close>

end
